(* ===== verification/Lens_Prelude.thy ===== *)
theory Lens_Prelude
  imports Main "HOL-Library.Char_ord" "HOL-Library.List_Lexorder" "HOL-Library.Code_Target_Nat"
begin

text \<open>
  Shared vocabulary of the development.

  Rust byte slices and \<^verbatim>\<open>str\<close> values are both modelled as \<^typ>\<open>string\<close>: a \<^typ>\<open>char\<close> is one byte,
  so \<^verbatim>\<open>len()\<close> is \<^const>\<open>length\<close> and the byte-wise order of \<^verbatim>\<open>str\<close> is the lexicographic order of the
  library theory \<open>List_Lexorder\<close>. \<^verbatim>\<open>Result<T, E>\<close> is the sum \<open>'e + 'a\<close>, with \<^const>\<open>Inl\<close> for the
  error; the operator \<^verbatim>\<open>?\<close> is \<open>and_then\<close>, and a sequence of statements that each may return early is
  \<open>checks\<close>. \<^verbatim>\<open>usize\<close> is \<^typ>\<open>nat\<close> with the 64-bit overflow of \<^verbatim>\<open>checked_add\<close> written out.
\<close>

named_theorems result_simps \<open>unfolding of early-return chains\<close>
named_theorems bytes_simps \<open>byte classes and positions\<close>

type_synonym bytes = string

section \<open>Results and early returns\<close>

definition and_then :: "'e + 'a \<Rightarrow> ('a \<Rightarrow> 'e + 'b) \<Rightarrow> 'e + 'b" where
  "and_then m f = (case m of Inl e \<Rightarrow> Inl e | Inr x \<Rightarrow> f x)"

lemma and_then_simps [simp]:
  "and_then (Inl e) f = Inl e"
  "and_then (Inr x) f = f x"
  by (simp_all add: and_then_def)

lemma and_then_Inr_iff [result_simps]:
  "and_then m f = Inr y \<longleftrightarrow> (\<exists>x. m = Inr x \<and> f x = Inr y)"
  by (cases m) simp_all

lemma and_then_Inl_iff:
  "and_then m f = Inl e \<longleftrightarrow> m = Inl e \<or> (\<exists>x. m = Inr x \<and> f x = Inl e)"
  by (cases m) simp_all

fun checks :: "('e + unit) list \<Rightarrow> 'e + unit" where
  "checks [] = Inr ()"
| "checks (c # cs) = and_then c (\<lambda>_. checks cs)"

lemma checks_ok_iff [result_simps]:
  "checks cs = Inr u \<longleftrightarrow> (\<forall>c\<in>set cs. c = Inr ())"
  by (induction cs) (auto simp: and_then_Inr_iff)

lemma checks_append: "checks (cs @ ds) = and_then (checks cs) (\<lambda>_. checks ds)"
proof (induction cs)
  case (Cons c cs)
  then show ?case by (cases c) simp_all
qed simp

lemma unit_result_cases: "(\<exists>e. r = Inl e) \<or> r = Inr ()"
  by (cases r) auto

definition ok_or :: "'e \<Rightarrow> 'a option \<Rightarrow> 'e + 'a" where
  "ok_or e m = (case m of None \<Rightarrow> Inl e | Some x \<Rightarrow> Inr x)"

lemma ok_or_simps [simp]: "ok_or e None = Inl e" "ok_or e (Some x) = Inr x"
  by (simp_all add: ok_or_def)

lemma ok_or_Inr_iff [result_simps]: "ok_or e m = Inr x \<longleftrightarrow> m = Some x"
  by (cases m) simp_all

section \<open>Positions in a byte string\<close>

text \<open>\<^verbatim>\<open>slice.get(i)\<close>.\<close>

definition get_at :: "'a list \<Rightarrow> nat \<Rightarrow> 'a option" where
  "get_at xs i = (if i < length xs then Some (xs ! i) else None)"

lemma get_at_Some_iff: "get_at xs i = Some x \<longleftrightarrow> i < length xs \<and> xs ! i = x"
  by (simp add: get_at_def)

lemma get_at_None_iff: "get_at xs i = None \<longleftrightarrow> length xs \<le> i"
  by (simp add: get_at_def not_less)

lemma get_at_drop: "get_at xs i = Some x \<Longrightarrow> drop i xs = x # drop (Suc i) xs"
  by (auto simp: get_at_Some_iff Cons_nth_drop_Suc)

lemma get_at_drop_Cons: "drop i xs = x # ys \<Longrightarrow> get_at xs i = Some x \<and> drop (Suc i) xs = ys"
proof -
  assume d: "drop i xs = x # ys"
  then have "i < length xs" using not_less by fastforce
  with d show ?thesis by (metis Cons_nth_drop_Suc get_at_def list.inject)
qed

lemma get_at_drop_Nil: "drop i xs = [] \<Longrightarrow> get_at xs i = None"
  by (simp add: get_at_None_iff)

lemma get_at_conv_drop: "get_at xs i = (case drop i xs of [] \<Rightarrow> None | x # _ \<Rightarrow> Some x)"
  by (auto simp: get_at_None_iff dest: get_at_drop_Cons split: list.split)

lemma drop_add: "drop (i + n) xs = drop n (drop i xs)"
  by (simp add: add.commute)

text \<open>\<^verbatim>\<open>while get(at).is_some_and(p) { at += 1 }\<close>.\<close>

function run_while :: "('a \<Rightarrow> bool) \<Rightarrow> 'a list \<Rightarrow> nat \<Rightarrow> nat" where
  "run_while p s i = (if i < length s \<and> p (s ! i) then run_while p s (Suc i) else i)"
  by pat_completeness auto
termination
  by (relation "measure (\<lambda>(p, s, i). length s - i)") auto

declare run_while.simps [simp del]

lemma run_while_eq: "run_while p s i = i + length (takeWhile p (drop i s))"
proof (induction p s i rule: run_while.induct)
  case (1 p s i)
  show ?case
  proof (cases "i < length s \<and> p (s ! i)")
    case True
    then have "drop i s = s ! i # drop (Suc i) s" by (simp add: Cons_nth_drop_Suc)
    with 1 True show ?thesis by (subst run_while.simps) simp
  next
    case False
    then have "takeWhile p (drop i s) = []"
      by (cases "i < length s") (auto simp: Cons_nth_drop_Suc [symmetric])
    with False show ?thesis by (subst run_while.simps) auto
  qed
qed

lemma run_while_drop: "drop (run_while p s i) s = dropWhile p (drop i s)"
  by (simp add: run_while_eq dropWhile_eq_drop add.commute)

section \<open>Byte classes\<close>

abbreviation byte :: "char \<Rightarrow> nat" where
  "byte c \<equiv> of_char c"

definition is_ascii_digit :: "char \<Rightarrow> bool" where
  "is_ascii_digit c \<longleftrightarrow> 48 \<le> byte c \<and> byte c \<le> 57"

definition is_lower_hex :: "char \<Rightarrow> bool" where
  "is_lower_hex c \<longleftrightarrow> is_ascii_digit c \<or> (97 \<le> byte c \<and> byte c \<le> 102)"

definition is_ascii_hexdigit :: "char \<Rightarrow> bool" where
  "is_ascii_hexdigit c \<longleftrightarrow> is_lower_hex c \<or> (65 \<le> byte c \<and> byte c \<le> 70)"

definition is_ascii_alphabetic :: "char \<Rightarrow> bool" where
  "is_ascii_alphabetic c \<longleftrightarrow> (65 \<le> byte c \<and> byte c \<le> 90) \<or> (97 \<le> byte c \<and> byte c \<le> 122)"

definition is_ascii_alphanumeric :: "char \<Rightarrow> bool" where
  "is_ascii_alphanumeric c \<longleftrightarrow> is_ascii_alphabetic c \<or> is_ascii_digit c"

definition is_ascii :: "char \<Rightarrow> bool" where
  "is_ascii c \<longleftrightarrow> byte c < 128"

lemmas byte_class_defs [bytes_simps] =
  is_ascii_digit_def is_lower_hex_def is_ascii_hexdigit_def
  is_ascii_alphabetic_def is_ascii_alphanumeric_def is_ascii_def

lemma char_eq_byte: "c = d \<longleftrightarrow> byte c = byte d"
  by (metis char_of_char)

lemma digit_is_ascii: "is_ascii_digit c \<Longrightarrow> is_ascii c"
  by (simp add: byte_class_defs)

definition newline :: char where
  "newline = CHR 0x0A"

section \<open>Machine sizes\<close>

definition USIZE_LIMIT :: nat where
  "USIZE_LIMIT = 2 ^ 64"

definition checked_add :: "nat \<Rightarrow> nat \<Rightarrow> nat option" where
  "checked_add a b = (if a + b < USIZE_LIMIT then Some (a + b) else None)"

lemma checked_add_Some_iff: "checked_add a b = Some c \<longleftrightarrow> c = a + b \<and> a + b < USIZE_LIMIT"
  by (auto simp: checked_add_def)

lemma checked_add_small: "a + b \<le> n \<Longrightarrow> n < USIZE_LIMIT \<Longrightarrow> checked_add a b = Some (a + b)"
  by (simp add: checked_add_def)

section \<open>Neighbouring elements\<close>

text \<open>\<^verbatim>\<open>xs.windows(2).all(|w| p(w[0], w[1]))\<close>.\<close>

fun windows2_all :: "('a \<Rightarrow> 'a \<Rightarrow> bool) \<Rightarrow> 'a list \<Rightarrow> bool" where
  "windows2_all p (x # y # zs) = (p x y \<and> windows2_all p (y # zs))"
| "windows2_all p _ = True"

lemma windows2_all_sorted_wrt: "transp p \<Longrightarrow> windows2_all p xs = sorted_wrt p xs"
proof (induction p xs rule: windows2_all.induct)
  case (1 p x y zs)
  have "p x z" if "p x y" "p y z" for z
    using "1.prems" that by (rule transpE)
  with 1 show ?case by auto
qed simp_all

lemma windows2_all_less: "windows2_all (<) xs = sorted_wrt (<) (xs :: 'a :: order list)"
  by (rule windows2_all_sorted_wrt) simp

text \<open>\<^verbatim>\<open>s.split_once(c)\<close>: the parts before and after the first occurrence.\<close>

fun split_once :: "char \<Rightarrow> string \<Rightarrow> (string \<times> string) option" where
  "split_once c [] = None"
| "split_once c (x # xs) =
     (if x = c then Some ([], xs)
      else map_option (\<lambda>(a, b). (x # a, b)) (split_once c xs))"

lemma split_once_Some: "split_once c s = Some (a, b) \<Longrightarrow> s = a @ c # b \<and> c \<notin> set a"
  by (induction s arbitrary: a b) (auto split: if_splits)

lemma split_once_None: "split_once c s = None \<longleftrightarrow> c \<notin> set s"
  by (induction s) auto

lemma split_once_append: "c \<notin> set a \<Longrightarrow> split_once c (a @ c # b) = Some (a, b)"
  by (induction a) auto

end
