(* ===== verification/Lens_Interfaces.thy ===== *)
theory Lens_Interfaces
  imports Lens_Prelude
begin

text \<open>
  Interfaces several components share, as locales. \<open>fail_closed\<close> is the contract of an object that
  any error closes for good; \<open>checked_codec\<close> is the contract of an encoder that decodes its own
  output before it releases it. They are interpreted where the components that provide them are
  modelled.
\<close>

section \<open>Objects that fail closed\<close>

fun run_steps :: "('s \<Rightarrow> 'e \<Rightarrow> ('x + 'r) \<times> 's) \<Rightarrow> 's \<Rightarrow> 'e list \<Rightarrow> ('x + 'r) list \<times> 's" where
  "run_steps step s [] = ([], s)"
| "run_steps step s (e # es) =
     (let (r, s1) = step s e; (rs, s2) = run_steps step s1 es in (r # rs, s2))"

lemma length_run_steps [simp]: "length (fst (run_steps step s es)) = length es"
  by (induction es arbitrary: s) (auto simp: case_prod_beta Let_def)

locale fail_closed =
  fixes step :: "'s \<Rightarrow> 'e \<Rightarrow> ('x + 'r) \<times> 's"
    and is_closed :: "'s \<Rightarrow> bool"
  assumes error_closes: "step s e = (Inl x, s1) \<Longrightarrow> is_closed s1"
    and closed_rejects: "is_closed s \<Longrightarrow> \<exists>x s1. step s e = (Inl x, s1)"
begin

lemma closed_all_errors: "is_closed s \<Longrightarrow> \<forall>r\<in>set (fst (run_steps step s es)). \<exists>x. r = Inl x"
proof (induction es arbitrary: s)
  case (Cons e es)
  from closed_rejects [OF Cons.prems] obtain x s1 where s: "step s e = (Inl x, s1)" by blast
  with Cons.IH [OF error_closes [OF s]] show ?case by (auto simp: case_prod_beta Let_def)
qed simp

text \<open>The accepted requests form a prefix: after the first error every request is an error.\<close>

lemma accepted_prefix: "\<exists>oks errs. fst (run_steps step s es) = map Inr oks @ map Inl errs"
proof (induction es arbitrary: s)
  case (Cons e es)
  obtain r s1 where st: "step s e = (r, s1)" by (cases "step s e") auto
  show ?case
  proof (cases r)
    case (Inl x)
    have "\<exists>errs. fst (run_steps step s1 es) = map Inl errs"
      using closed_all_errors [OF error_closes [OF st [unfolded Inl]]] by (metis ex_map_conv)
    then obtain errs where "fst (run_steps step s1 es) = map Inl errs" by blast
    with st Inl show ?thesis
      by (intro exI [of _ "[]"] exI [of _ "x # errs"]) (simp add: case_prod_beta)
  next
    case (Inr y)
    from Cons.IH [of s1] obtain oks errs where "fst (run_steps step s1 es) = map Inr oks @ map Inl errs" by blast
    with st Inr show ?thesis
      by (intro exI [of _ "y # oks"] exI [of _ errs]) (simp add: case_prod_beta)
  qed
qed (intro exI [of _ "[]"], simp)

lemma accepted_before:
  assumes "k < length es" "fst (run_steps step s es) ! k = Inr r" "j \<le> k"
  shows "\<exists>q. fst (run_steps step s es) ! j = Inr q"
proof -
  obtain oks errs where p: "fst (run_steps step s es) = map Inr oks @ map Inl errs" using accepted_prefix by blast
  have "length (map Inr oks @ map Inl errs) = length es" by (simp only: p [symmetric]) simp
  with assms p have "k < length oks" by (auto simp: nth_append split: if_splits)
  with p assms(3) show ?thesis by (auto simp: nth_append)
qed

end

section \<open>Encoders that check their own output\<close>

locale checked_codec =
  fixes enc :: "'m \<Rightarrow> 'x + bytes"
    and dec :: "bytes \<Rightarrow> 'x + 'm"
    and framed :: "bytes \<Rightarrow> bool"
  assumes enc_decodes: "enc m = Inr out \<Longrightarrow> \<exists>n. dec out = Inr n"
    and dec_framed: "dec b = Inr n \<Longrightarrow> framed b"
begin

lemma enc_framed: "enc m = Inr out \<Longrightarrow> framed out"
  using enc_decodes dec_framed by blast

lemma unframed_never_released: "\<not> framed out \<Longrightarrow> enc m \<noteq> Inr out"
  using enc_framed by blast

end

end
