(* ===== verification/Protocol_Bounds.thy ===== *)
theory Protocol_Bounds
  imports Lens_Interfaces
begin

text \<open>
  The admission primitives of the protocol crate
  (\<^verbatim>\<open>crates/gaze-lens-protocol/src/lib.rs\<close> and \<^verbatim>\<open>bounds.rs\<close>): the closed error enumeration, the size
  caps, the byte counter behind \<^verbatim>\<open>serialized_size\<close>, the JSON number recogniser and the one-frame
  accumulator \<^verbatim>\<open>FrameBuffer\<close>.
\<close>

section \<open>Errors and caps\<close>

datatype Error = InvalidRequest | Unauthorized | UnsupportedVersion | UnsupportedOperation
  | Unavailable | CapExceeded | Timeout | BindingChanged | InternalFailure

fun error_display :: "Error \<Rightarrow> string" where
  "error_display InvalidRequest = ''invalid_request''"
| "error_display Unauthorized = ''unauthorized''"
| "error_display UnsupportedVersion = ''unsupported_version''"
| "error_display UnsupportedOperation = ''unsupported_operation''"
| "error_display Unavailable = ''unavailable''"
| "error_display CapExceeded = ''cap_exceeded''"
| "error_display Timeout = ''timeout''"
| "error_display BindingChanged = ''binding_changed''"
| "error_display InternalFailure = ''internal_failure''"

definition FRAME_BYTES :: nat where "FRAME_BYTES = 1048576"
definition PREPARE_BYTES :: nat where "PREPARE_BYTES = 4096"
definition REQUEST_BYTES :: nat where "REQUEST_BYTES = 65536"
definition RESULT_BYTES :: nat where "RESULT_BYTES = 131072"
definition SCALAR_BYTES :: nat where "SCALAR_BYTES = 8192"
definition IDENTIFIER_BYTES :: nat where "IDENTIFIER_BYTES = 256"
definition MAX_DEPTH :: nat where "MAX_DEPTH = 32"
definition MAX_NODES :: nat where "MAX_NODES = 16384"
definition MAX_ROWS :: nat where "MAX_ROWS = 1000"
definition DEFAULT_ROWS :: nat where "DEFAULT_ROWS = 100"
definition MAX_COLUMNS :: nat where "MAX_COLUMNS = 128"
definition MAX_PREDICATES :: nat where "MAX_PREDICATES = 64"
definition MAX_ORDER :: nat where "MAX_ORDER = 16"
definition MAX_BINDS :: nat where "MAX_BINDS = 1024"
definition MAX_ENTRIES :: nat where "MAX_ENTRIES = 1000"
definition KEYWORD_WINDOW_LINES :: nat where "KEYWORD_WINDOW_LINES = 1000"
definition SCAN_BYTES :: nat where "SCAN_BYTES = 1048576"
definition SCAN_LINES :: nat where "SCAN_LINES = 16384"
definition REGEX_BYTES :: nat where "REGEX_BYTES = 4096"
definition INVENTORY_RECORDS :: nat where "INVENTORY_RECORDS = 100000"
definition MAX_PACKAGES :: nat where "MAX_PACKAGES = 500"
definition MAX_PHP :: nat where "MAX_PHP = 32"
definition DEFAULT_ACTIVE_CALLS :: nat where "DEFAULT_ACTIVE_CALLS = 4"
definition MAX_PRINCIPAL_CALLS :: nat where "MAX_PRINCIPAL_CALLS = 2"

lemmas bounds_consts = FRAME_BYTES_def PREPARE_BYTES_def REQUEST_BYTES_def RESULT_BYTES_def
  SCALAR_BYTES_def IDENTIFIER_BYTES_def MAX_DEPTH_def MAX_NODES_def MAX_ROWS_def DEFAULT_ROWS_def
  MAX_COLUMNS_def MAX_PREDICATES_def MAX_ORDER_def MAX_BINDS_def MAX_ENTRIES_def
  KEYWORD_WINDOW_LINES_def SCAN_BYTES_def SCAN_LINES_def REGEX_BYTES_def INVENTORY_RECORDS_def
  MAX_PACKAGES_def MAX_PHP_def DEFAULT_ACTIVE_CALLS_def MAX_PRINCIPAL_CALLS_def

definition require :: "bool \<Rightarrow> Error + unit" where
  "require ok = (if ok then Inr () else Inl InvalidRequest)"

definition cap :: "nat \<Rightarrow> nat \<Rightarrow> Error + unit" where
  "cap n lim = (if n \<le> lim then Inr () else Inl CapExceeded)"

lemma require_ok_iff [result_simps]: "require p = Inr u \<longleftrightarrow> p"
  by (simp add: require_def)

lemma require_simps [simp]: "require True = Inr ()" "require False = Inl InvalidRequest"
  by (simp_all add: require_def)

lemma cap_ok_iff [result_simps]: "cap n m = Inr u \<longleftrightarrow> n \<le> m"
  by (simp add: cap_def)

definition identifier_bound :: "string \<Rightarrow> Error + unit" where
  "identifier_bound s = checks [require (s \<noteq> []), cap (length s) IDENTIFIER_BYTES]"

definition configured_id :: "string \<Rightarrow> Error + unit" where
  "configured_id s = require (s \<noteq> [] \<and> length s \<le> 64 \<and>
     list_all (\<lambda>b. is_ascii_alphanumeric b \<or> b = CHR ''_'' \<or> b = CHR ''-'') s)"

definition text_bound :: "string \<Rightarrow> Error + unit" where
  "text_bound s = cap (length s) SCALAR_BYTES"

lemma identifier_bound_ok_iff [result_simps]:
  "identifier_bound s = Inr u \<longleftrightarrow> s \<noteq> [] \<and> length s \<le> IDENTIFIER_BYTES"
  by (simp add: identifier_bound_def result_simps)

lemma text_bound_ok_iff [result_simps]: "text_bound s = Inr u \<longleftrightarrow> length s \<le> SCALAR_BYTES"
  by (simp add: text_bound_def result_simps)

section \<open>Counting serialised bytes\<close>

text \<open>
  The writer passed to \<^verbatim>\<open>serde_json::to_writer\<close> counts every buffer it is handed and fails as soon
  as the running count passes the maximum. The buffers are an argument: which ones the serialiser
  writes is its own business.
\<close>

definition counter_write :: "nat \<Rightarrow> nat \<Rightarrow> bytes \<Rightarrow> nat option" where
  "counter_write lim count b =
     (case checked_add count (length b) of
        None \<Rightarrow> None
      | Some n \<Rightarrow> if n \<le> lim then Some n else None)"

fun counter_writes :: "nat \<Rightarrow> nat \<Rightarrow> bytes list \<Rightarrow> nat option" where
  "counter_writes lim count [] = Some count"
| "counter_writes lim count (b # bs) =
     (case counter_write lim count b of None \<Rightarrow> None | Some n \<Rightarrow> counter_writes lim n bs)"

definition serialized_size :: "bytes list \<Rightarrow> nat \<Rightarrow> Error + nat" where
  "serialized_size writes lim = ok_or CapExceeded (counter_writes lim 0 writes)"

lemma counter_writes_eq:
  assumes "lim < USIZE_LIMIT" "count \<le> lim"
  shows "counter_writes lim count bs =
    (if count + length (concat bs) \<le> lim then Some (count + length (concat bs)) else None)"
  using assms(2)
proof (induction bs arbitrary: count)
  case (Cons b bs)
  show ?case
  proof (cases "count + length b \<le> lim")
    case True
    with assms(1) have "counter_write lim count b = Some (count + length b)"
      by (simp add: counter_write_def checked_add_def)
    with True Cons.IH [OF True] show ?thesis by (simp add: add.assoc)
  next
    case False
    then have "counter_write lim count b = None"
      by (simp add: counter_write_def checked_add_def)
    with False show ?thesis by simp
  qed
qed simp

section \<open>JSON numbers\<close>

definition digit_run :: "bytes \<Rightarrow> nat \<Rightarrow> nat" where
  "digit_run s i = run_while is_ascii_digit s i"

definition number_exp :: "bytes \<Rightarrow> nat \<Rightarrow> bool" where
  "number_exp s i =
     (if get_at s i = Some (CHR ''e'') \<or> get_at s i = Some (CHR ''E'')
      then (let i1 = i + 1;
                i2 = (if get_at s i1 = Some (CHR ''+'') \<or> get_at s i1 = Some (CHR ''-'')
                      then i1 + 1 else i1);
                j = digit_run s i2
            in if j = i2 then False else j = length s)
      else i = length s)"

definition number_frac :: "bytes \<Rightarrow> nat \<Rightarrow> bool" where
  "number_frac s i =
     (if get_at s i = Some (CHR ''.'')
      then (let j = digit_run s (i + 1) in if j = i + 1 then False else number_exp s j)
      else number_exp s i)"

definition number_int :: "bytes \<Rightarrow> nat \<Rightarrow> bool" where
  "number_int s i =
     (case get_at s i of
        None \<Rightarrow> False
      | Some c \<Rightarrow>
          if c = CHR ''0'' then number_frac s (i + 1)
          else if 49 \<le> byte c \<and> byte c \<le> 57 then number_frac s (digit_run s (i + 1))
          else False)"

definition number :: "bytes \<Rightarrow> bool" where
  "number s = number_int s (if get_at s 0 = Some (CHR ''-'') then 1 else 0)"

section \<open>The frame accumulator\<close>

record FrameBuffer =
  fb_bytes :: bytes
  fb_max :: nat
  fb_finished :: bool
  fb_failed :: bool

definition frame_buffer_new :: "nat \<Rightarrow> Error + FrameBuffer" where
  "frame_buffer_new lim =
     and_then (require (0 < lim \<and> lim \<le> FRAME_BYTES))
       (\<lambda>_. Inr \<lparr>fb_bytes = [], fb_max = lim, fb_finished = False, fb_failed = False\<rparr>)"

text \<open>\<^verbatim>\<open>chunk.iter().position(|b| *b == b'\n')\<close>.\<close>

fun position :: "('a \<Rightarrow> bool) \<Rightarrow> 'a list \<Rightarrow> nat option" where
  "position p [] = None"
| "position p (x # xs) = (if p x then Some 0 else map_option Suc (position p xs))"

text \<open>
  \<open>reserve\<close> is the outcome of \<^verbatim>\<open>try_reserve_exact\<close> for this chunk; the second component of the
  result is the buffer the call leaves behind, on every path.
\<close>

definition frame_buffer_push :: "bool \<Rightarrow> FrameBuffer \<Rightarrow> bytes \<Rightarrow> (Error + bool) \<times> FrameBuffer" where
  "frame_buffer_push reserve fb chunk =
     (if fb_finished fb \<or> fb_failed fb
      then (Inl InvalidRequest, fb\<lparr>fb_failed := True\<rparr>)
      else
        (let fb1 = fb\<lparr>fb_failed := True\<rparr>
         in case checked_add (length (fb_bytes fb1)) (length chunk) of
              None \<Rightarrow> (Inl CapExceeded, fb1)
            | Some sz \<Rightarrow>
                (case cap sz (fb_max fb1) of
                   Inl e \<Rightarrow> (Inl e, fb1)
                 | Inr _ \<Rightarrow>
                     (let located = position (\<lambda>b. b = newline) chunk
                      in case (case located of
                                 None \<Rightarrow> Inr fb1
                               | Some i \<Rightarrow> and_then (require (i + 1 = length chunk))
                                            (\<lambda>_. Inr (fb1\<lparr>fb_finished := True\<rparr>))) of
                           Inl e \<Rightarrow> (Inl e, fb1)
                         | Inr fb2 \<Rightarrow>
                             if \<not> reserve then (Inl CapExceeded, fb2)
                             else (let fb3 = fb2\<lparr>fb_bytes := fb_bytes fb2 @ chunk,
                                                  fb_failed := False\<rparr>
                                   in (Inr (fb_finished fb3), fb3))))))"

definition frame_buffer_finish :: "FrameBuffer \<Rightarrow> Error + bytes" where
  "frame_buffer_finish fb =
     and_then (require (fb_finished fb \<and> \<not> fb_failed fb)) (\<lambda>_. Inr (fb_bytes fb))"

text \<open>An error closes the accumulator: the shared fail-closed contract.\<close>

definition fb_step :: "FrameBuffer \<Rightarrow> bool \<times> bytes \<Rightarrow> (Error + bool) \<times> FrameBuffer" where
  "fb_step fb rc = frame_buffer_push (fst rc) fb (snd rc)"

interpretation frame_buffer: fail_closed fb_step fb_failed
proof
  fix s e x s1
  assume "fb_step s e = (Inl x, s1)"
  then show "fb_failed s1"
    by (auto simp: fb_step_def frame_buffer_push_def Let_def require_def cap_def
        split: if_splits option.splits sum.splits)
qed (simp add: fb_step_def frame_buffer_push_def)

section \<open>The number recogniser accepts the JSON number grammar\<close>

text \<open>The grammar of RFC 8259, as a decomposition into sign, integer, fraction and exponent.\<close>

definition json_int :: "bytes \<Rightarrow> bool" where
  "json_int ip \<longleftrightarrow> ip = ''0'' \<or>
     (\<exists>d ds. ip = d # ds \<and> 49 \<le> byte d \<and> byte d \<le> 57 \<and> list_all is_ascii_digit ds)"

definition json_frac :: "bytes \<Rightarrow> bool" where
  "json_frac fr \<longleftrightarrow> fr = [] \<or>
     (\<exists>ds. fr = CHR ''.'' # ds \<and> ds \<noteq> [] \<and> list_all is_ascii_digit ds)"

definition json_exp :: "bytes \<Rightarrow> bool" where
  "json_exp ex \<longleftrightarrow> ex = [] \<or>
     (\<exists>e sg ds. ex = e # sg @ ds \<and> (e = CHR ''e'' \<or> e = CHR ''E'') \<and>
        sg \<in> {[], ''+'', ''-''} \<and> ds \<noteq> [] \<and> list_all is_ascii_digit ds)"

definition json_number :: "bytes \<Rightarrow> bool" where
  "json_number s \<longleftrightarrow> (\<exists>sg ip fr ex. s = sg @ ip @ fr @ ex \<and> sg \<in> {[], ''-''} \<and>
     json_int ip \<and> json_frac fr \<and> json_exp ex)"

definition no_digit_start :: "bytes \<Rightarrow> bool" where
  "no_digit_start r \<longleftrightarrow> (case r of [] \<Rightarrow> True | c # _ \<Rightarrow> \<not> is_ascii_digit c)"

lemma digit_run_eq: "digit_run s i = i + length (takeWhile is_ascii_digit (drop i s))"
  by (simp add: digit_run_def run_while_eq)

lemma takeWhile_digits:
  "list_all is_ascii_digit ds \<Longrightarrow> no_digit_start r \<Longrightarrow> takeWhile is_ascii_digit (ds @ r) = ds"
  by (induction ds) (auto simp: no_digit_start_def split: list.splits)

lemma digit_run_split:
  assumes "i \<le> length s"
  obtains ds r where "drop i s = ds @ r" "list_all is_ascii_digit ds" "no_digit_start r"
    "digit_run s i = i + length ds" "drop (digit_run s i) s = r"
proof (rule that [of "takeWhile is_ascii_digit (drop i s)" "dropWhile is_ascii_digit (drop i s)"])
  show "digit_run s i = i + length (takeWhile is_ascii_digit (drop i s))"
    by (rule digit_run_eq)
  then show "drop (digit_run s i) s = dropWhile is_ascii_digit (drop i s)"
    by (simp add: dropWhile_eq_drop add.commute)
  show "no_digit_start (dropWhile is_ascii_digit (drop i s))"
    unfolding no_digit_start_def by (auto split: list.split dest: hd_dropWhile)
      (metis hd_dropWhile list.distinct(1) list.sel(1))
qed (auto simp: list_all_iff dest: set_takeWhileD)

lemma digit_run_append:
  assumes "drop i s = ds @ r" "list_all is_ascii_digit ds" "no_digit_start r" "i \<le> length s"
  shows "digit_run s i = i + length ds" "drop (digit_run s i) s = r"
  using assms by (simp_all add: digit_run_eq takeWhile_digits)
    (metis add.commute append_eq_conv_conj drop_drop)

lemma digit_run_bound: "i \<le> length s \<Longrightarrow> i \<le> digit_run s i \<and> digit_run s i \<le> length s"
  using length_takeWhile_le [of is_ascii_digit "drop i s"] by (simp add: digit_run_eq)

lemma json_exp_no_digit: "json_exp ex \<Longrightarrow> no_digit_start ex"
  by (auto simp: json_exp_def no_digit_start_def is_ascii_digit_def)

lemma json_frac_exp_no_digit: "json_frac fr \<Longrightarrow> json_exp ex \<Longrightarrow> no_digit_start (fr @ ex)"
  by (auto simp: json_frac_def no_digit_start_def is_ascii_digit_def dest!: json_exp_no_digit)

lemma json_exp_not_dot: "\<not> json_exp (CHR ''.'' # r)"
  by (simp add: json_exp_def)

lemma digit_run_full: "i \<le> length s \<Longrightarrow> digit_run s i = length s \<longleftrightarrow> list_all is_ascii_digit (drop i s)"
proof -
  assume i: "i \<le> length s"
  have "length (takeWhile is_ascii_digit (drop i s)) = length (drop i s)
      \<longleftrightarrow> takeWhile is_ascii_digit (drop i s) = drop i s"
    by (metis takeWhile_eq_take take_all_iff order_refl)
  with i show ?thesis by (auto simp: digit_run_eq list_all_iff takeWhile_eq_all_conv)
qed

lemma digit_run_stuck: "i \<le> length s \<Longrightarrow> digit_run s i = i \<longleftrightarrow> no_digit_start (drop i s)"
  by (auto simp: digit_run_eq no_digit_start_def split: list.split)

text \<open>What the exponent part of the recogniser does to the rest of its input.\<close>

definition exp_rest :: "bytes \<Rightarrow> bool" where
  "exp_rest r = (case r of [] \<Rightarrow> True | e # r1 \<Rightarrow>
     (e = CHR ''e'' \<or> e = CHR ''E'') \<and>
     (let r2 = (case r1 of [] \<Rightarrow> r1 | c # r' \<Rightarrow> if c = CHR ''+'' \<or> c = CHR ''-'' then r' else r1)
      in r2 \<noteq> [] \<and> list_all is_ascii_digit r2))"

lemma digits_to_end:
  assumes "i \<le> length s"
  shows "(digit_run s i \<noteq> i \<and> digit_run s i = length s) \<longleftrightarrow>
    drop i s \<noteq> [] \<and> list_all is_ascii_digit (drop i s)"
  using assms digit_run_full [OF assms] digit_run_stuck [OF assms]
  by (cases "drop i s") (auto simp: no_digit_start_def)

lemma number_exp_rest:
  assumes "i \<le> length s"
  shows "number_exp s i = exp_rest (drop i s)"
proof (cases "drop i s")
  case Nil
  with assms show ?thesis by (simp add: number_exp_def exp_rest_def get_at_drop_Nil)
next
  case (Cons e r1)
  then have e: "get_at s i = Some e" "drop (Suc i) s = r1" and i1: "Suc i \<le> length s"
    by (auto dest: get_at_drop_Cons simp: get_at_Some_iff)
  show ?thesis
  proof (cases r1)
    case Nil
    with e have "get_at s (Suc i) = None" by (simp add: get_at_drop_Nil)
    with Cons Nil e i1 digits_to_end [OF i1] show ?thesis
      by (auto simp: number_exp_def exp_rest_def Let_def)
  next
    case (Cons c r')
    with e have c: "get_at s (Suc i) = Some c" "drop (Suc (Suc i)) s = r'" "Suc (Suc i) \<le> length s"
      by (auto dest: get_at_drop_Cons simp: get_at_Some_iff)
    with \<open>drop i s = e # r1\<close> Cons e i1 digits_to_end [OF i1] digits_to_end [OF c(3)]
    show ?thesis by (auto simp: number_exp_def exp_rest_def Let_def)
  qed
qed

lemma exp_rest_iff: "exp_rest r \<longleftrightarrow> json_exp r"
proof
  assume "exp_rest r"
  then show "json_exp r"
  proof (cases r)
    case (Cons e r1)
    with \<open>exp_rest r\<close> show ?thesis
    proof (cases "\<exists>c r'. r1 = c # r' \<and> (c = CHR ''+'' \<or> c = CHR ''-'')")
      case True
      then obtain c r' where "r1 = [c] @ r'" "[c] \<in> {[], ''+'', ''-''}" by auto
      with Cons \<open>exp_rest r\<close> show ?thesis
        unfolding json_exp_def exp_rest_def by (intro disjI2 exI [of _ e] exI [of _ "[c]"] exI [of _ r']) auto
    next
      case False
      with Cons \<open>exp_rest r\<close> show ?thesis
        unfolding json_exp_def exp_rest_def
        by (intro disjI2 exI [of _ e] exI [of _ "[]"] exI [of _ r1]) (auto split: list.splits)
    qed
  qed (simp add: json_exp_def)
next
  assume "json_exp r"
  then show "exp_rest r"
    unfolding json_exp_def exp_rest_def
    by (auto split: list.splits simp: is_ascii_digit_def)
qed

lemmas number_exp_iff = number_exp_rest [unfolded exp_rest_iff]

lemma number_frac_iff:
  assumes "i \<le> length s"
  shows "number_frac s i \<longleftrightarrow> (\<exists>fr ex. drop i s = fr @ ex \<and> json_frac fr \<and> json_exp ex)"
proof (cases "get_at s i = Some (CHR ''.'')")
  case True
  then have d: "drop i s = CHR ''.'' # drop (Suc i) s" and i1: "Suc i \<le> length s"
    by (auto simp: get_at_drop get_at_Some_iff)
  obtain ds r where r: "drop (Suc i) s = ds @ r" "list_all is_ascii_digit ds" "no_digit_start r"
      "digit_run s (Suc i) = Suc i + length ds" "drop (digit_run s (Suc i)) s = r"
    using i1 by (rule digit_run_split)
  have "number_frac s i \<longleftrightarrow> ds \<noteq> [] \<and> json_exp r"
    using True r digit_run_bound [OF i1] by (auto simp: number_frac_def number_exp_iff Let_def)
  also have "\<dots> \<longleftrightarrow> (\<exists>fr ex. drop i s = fr @ ex \<and> json_frac fr \<and> json_exp ex)"
  proof
    assume "ds \<noteq> [] \<and> json_exp r"
    with d r show "\<exists>fr ex. drop i s = fr @ ex \<and> json_frac fr \<and> json_exp ex"
      by (intro exI [of _ "CHR ''.'' # ds"] exI [of _ r]) (auto simp: json_frac_def)
  next
    assume "\<exists>fr ex. drop i s = fr @ ex \<and> json_frac fr \<and> json_exp ex"
    then obtain fr ex where fr: "drop i s = fr @ ex" "json_frac fr" "json_exp ex" by blast
    have "fr \<noteq> []" using fr(1,3) d json_exp_not_dot by auto
    with fr d obtain ds' where e: "drop (Suc i) s = ds' @ ex" "ds' \<noteq> []"
      "list_all is_ascii_digit ds'" "json_exp ex"
      by (auto simp: json_frac_def)
    with r(1-3) have "ds' = ds" by (metis json_exp_no_digit takeWhile_digits)
    with e r(1) show "ds \<noteq> [] \<and> json_exp r" by simp
  qed
  finally show ?thesis .
next
  case False
  have "drop i s = fr @ ex \<and> json_frac fr \<and> json_exp ex \<longleftrightarrow> fr = [] \<and> ex = drop i s \<and> json_exp ex"
    for fr ex
    using False get_at_drop_Cons [of i s "CHR ''.''"] by (auto simp: json_frac_def)
  with False assms show ?thesis by (auto simp: number_frac_def number_exp_iff)
qed

lemma json_int_start:
  assumes "json_int ip"
  shows "\<exists>d ds. ip = d # ds \<and> is_ascii_digit d"
proof -
  from assms consider "ip = ''0''" | d ds where "ip = d # ds" "49 \<le> byte d" "byte d \<le> 57"
    unfolding json_int_def by blast
  then show ?thesis
  proof cases
    case 2
    then have "is_ascii_digit d" unfolding is_ascii_digit_def by linarith
    with 2 show ?thesis by blast
  qed (simp add: is_ascii_digit_def)
qed

definition unsigned_number :: "bytes \<Rightarrow> bool" where
  "unsigned_number s \<longleftrightarrow>
     (\<exists>ip fr ex. s = ip @ fr @ ex \<and> json_int ip \<and> json_frac fr \<and> json_exp ex)"

lemma unsigned_number_start: "unsigned_number s \<Longrightarrow> \<exists>c r. s = c # r \<and> is_ascii_digit c"
  by (auto simp: unsigned_number_def dest!: json_int_start)

lemma json_number_signs:
  "json_number s \<longleftrightarrow> unsigned_number s \<or> (\<exists>r. s = CHR ''-'' # r \<and> unsigned_number r)"
proof -
  have "json_number s \<longleftrightarrow> (\<exists>sg r. s = sg @ r \<and> sg \<in> {[], ''-''} \<and> unsigned_number r)"
    unfolding json_number_def unsigned_number_def by blast
  also have "\<dots> \<longleftrightarrow> (\<exists>r. s = [] @ r \<and> unsigned_number r) \<or> (\<exists>r. s = ''-'' @ r \<and> unsigned_number r)"
    unfolding insert_iff empty_iff by blast
  finally show ?thesis by simp
qed

lemma number_int_Cons:
  assumes d: "drop i s = c # r"
  shows "number_int s i \<longleftrightarrow> unsigned_number (c # r)" (is "?l \<longleftrightarrow> ?r")
proof -
  from d have i1: "Suc i \<le> length s" and r: "drop (Suc i) s = r" and g: "get_at s i = Some c"
    by (auto dest: get_at_drop_Cons simp: get_at_Some_iff)
  obtain ds t where t: "r = ds @ t" "list_all is_ascii_digit ds" "no_digit_start t"
      "drop (digit_run s (Suc i)) s = t"
    using digit_run_split [OF i1] r by metis
  note run = number_frac_iff [of "digit_run s (Suc i)" s, unfolded t(4)] digit_run_bound [OF i1]
  show ?thesis
  proof
    assume ?l
    then consider "c = CHR ''0''" "number_frac s (Suc i)"
      | "49 \<le> byte c" "byte c \<le> 57" "number_frac s (digit_run s (Suc i))" 
      using g by (auto simp: number_int_def split: if_splits)
    then show ?r
    proof cases
      case 1
      then obtain fr ex where "r = fr @ ex" "json_frac fr" "json_exp ex"
        using number_frac_iff [OF i1] r by auto
      with 1(1) show ?thesis unfolding unsigned_number_def
        by (intro exI [of _ "[c]"] exI [of _ fr] exI [of _ ex]) (simp add: json_int_def)
    next
      case 2
      then obtain fr ex where "t = fr @ ex" "json_frac fr" "json_exp ex"
        using run by auto
      with 2 t(1,2) show ?thesis unfolding unsigned_number_def
        by (intro exI [of _ "c # ds"] exI [of _ fr] exI [of _ ex]) (simp add: json_int_def)
    qed
  next
    assume ?r
    then obtain ip fr ex where e: "c # r = ip @ fr @ ex" "json_int ip" "json_frac fr" "json_exp ex"
      unfolding unsigned_number_def by blast
    then obtain ds' where ip: "ip = c # ds'" "r = ds' @ fr @ ex"
      by (auto simp: json_int_def Cons_eq_append_conv)
    show ?l
    proof (cases "c = CHR ''0''")
      case True
      with e ip have "ds' = []" by (auto simp: json_int_def)
      with True e ip g show ?thesis using number_frac_iff [OF i1] r by (auto simp: number_int_def)
    next
      case False
      with e ip have c: "49 \<le> byte c" "byte c \<le> 57" "list_all is_ascii_digit ds'"
        by (auto simp: json_int_def)
      have "ds' = ds"
        using c(3) ip(2) t(1-3) json_frac_exp_no_digit [OF e(3,4)] by (metis takeWhile_digits)
      with ip t(1) have "t = fr @ ex" by simp
      with False c e run g show ?thesis by (auto simp: number_int_def)
    qed
  qed
qed

lemma number_int_iff: "number_int s i \<longleftrightarrow> unsigned_number (drop i s)"
proof (cases "drop i s")
  case Nil
  then show ?thesis
    by (auto simp: number_int_def get_at_drop_Nil dest: unsigned_number_start)
next
  case (Cons c r)
  then show ?thesis by (simp add: number_int_Cons)
qed

lemma number_grammar: "number s \<longleftrightarrow> json_number s"
proof (cases "\<exists>r. s = CHR ''-'' # r")
  case True
  then have "\<not> unsigned_number s" by (auto dest: unsigned_number_start simp: is_ascii_digit_def)
  with True show ?thesis by (auto simp: number_def number_int_iff json_number_signs get_at_def)
next
  case False
  then show ?thesis
    by (cases s) (auto simp: number_def number_int_iff json_number_signs get_at_def)
qed

text \<open>
  The hand-written recogniser of \<^verbatim>\<open>bounds::number\<close>, which walks the bytes with an index and
  four digit loops, accepts exactly the numbers of the JSON grammar: optional minus, integer part
  without leading zeros, optional non-empty fraction, optional signed non-empty exponent, and
  nothing after it.
\<close>

theorem number_iff_json_number: "number s \<longleftrightarrow> json_number s"
  by (rule number_grammar)

section \<open>What a frame buffer accumulates\<close>

definition one_line :: "bytes \<Rightarrow> bool" where
  "one_line f \<longleftrightarrow> f \<noteq> [] \<and> last f = newline \<and> newline \<notin> set (butlast f)"

fun push_all :: "FrameBuffer \<Rightarrow> (bool \<times> bytes) list \<Rightarrow> FrameBuffer" where
  "push_all fb [] = fb"
| "push_all fb ((reserve, chunk) # rest) = push_all (snd (frame_buffer_push reserve fb chunk)) rest"

lemma position_None: "position p xs = None \<longleftrightarrow> (\<forall>x\<in>set xs. \<not> p x)"
  by (induction xs) auto

lemma position_newline_last:
  "position (\<lambda>b. b = newline) xs = Some i \<Longrightarrow> Suc i = length xs \<longleftrightarrow> one_line xs"
proof (induction xs arbitrary: i)
  case (Cons x xs)
  show ?case
  proof (cases "x = newline")
    case True
    with Cons.prems show ?thesis by (auto simp: one_line_def)
  next
    case False
    with Cons.prems obtain j where j: "position (\<lambda>b. b = newline) xs = Some j" "i = Suc j" by auto
    then have "xs \<noteq> []" by auto
    with Cons.IH [OF j(1)] j(2) False show ?thesis by (simp add: one_line_def)
  qed
qed simp

lemma push_open:
  assumes "\<not> fb_finished fb" "\<not> fb_failed fb" "fb_max fb \<le> FRAME_BYTES"
  shows "frame_buffer_push reserve fb chunk =
    (let fb1 = fb\<lparr>fb_failed := True\<rparr>; fb2 = fb\<lparr>fb_bytes := fb_bytes fb @ chunk\<rparr>
     in if fb_max fb < length (fb_bytes fb @ chunk) then (Inl CapExceeded, fb1)
        else if newline \<notin> set chunk then (if reserve then (Inr False, fb2) else (Inl CapExceeded, fb1))
        else if one_line chunk
        then (if reserve then (Inr True, fb2\<lparr>fb_finished := True\<rparr>)
              else (Inl CapExceeded, fb1\<lparr>fb_finished := True\<rparr>))
        else (Inl InvalidRequest, fb1))"
proof (cases "length (fb_bytes fb @ chunk) \<le> fb_max fb")
  case True
  then have "checked_add (length (fb_bytes fb)) (length chunk) = Some (length (fb_bytes fb @ chunk))"
    using assms(3) by (simp add: checked_add_def USIZE_LIMIT_def bounds_consts)
  then show ?thesis
    using True assms position_None [of "\<lambda>b. b = newline" chunk]
    by (cases "position (\<lambda>b. b = newline) chunk")
      (auto simp: frame_buffer_push_def cap_def require_def Let_def position_newline_last)
next
  case False
  then show ?thesis
    using assms by (auto simp: frame_buffer_push_def cap_def Let_def checked_add_def)
qed

lemma push_failed: "fb_failed fb \<Longrightarrow> fb_failed (push_all fb rcs)"
  by (induction fb rcs rule: push_all.induct) (auto simp: frame_buffer_push_def)

lemma push_closed:
  "fb_finished fb \<Longrightarrow> \<not> fb_failed (push_all fb rcs) \<longleftrightarrow> \<not> fb_failed fb \<and> rcs = []"
proof (cases rcs)
  case (Cons rc rcs')
  assume "fb_finished fb"
  then have "fb_failed (snd (frame_buffer_push r fb c))" for r c
    by (simp add: frame_buffer_push_def)
  with Cons show ?thesis by (cases rc) (auto intro: push_failed)
qed simp

lemma one_line_has_newline: "one_line f \<Longrightarrow> newline \<in> set f"
  unfolding one_line_def by (metis last_in_set)

lemma one_line_append: "newline \<notin> set xs \<Longrightarrow> one_line (xs @ ys) \<longleftrightarrow> one_line ys"
  using one_line_has_newline [of xs]
  by (cases ys rule: rev_cases) (auto simp: one_line_def butlast_append)

lemma one_line_concat: "newline \<in> set c \<Longrightarrow> one_line (c @ ys) \<longleftrightarrow> one_line c \<and> ys = []"
  by (cases ys rule: rev_cases) (auto simp: one_line_def butlast_append)

lemma finish_push_all:
  assumes "fb_max fb \<le> FRAME_BYTES" "\<not> fb_finished fb" "\<not> fb_failed fb"
    "newline \<notin> set (fb_bytes fb)"
  shows "frame_buffer_finish (push_all fb rcs) = Inr f \<longleftrightarrow>
    rcs \<noteq> [] \<and> (\<forall>rc\<in>set rcs. fst rc) \<and> f = fb_bytes fb @ concat (map snd rcs) \<and>
    one_line f \<and> length f \<le> fb_max fb \<and> snd (last rcs) \<noteq> []"
  using assms
proof (induction rcs arbitrary: fb)
  case Nil
  then show ?case by (simp add: frame_buffer_finish_def)
next
  case (Cons rc rcs)
  obtain r c where rc: "rc = (r, c)" by (cases rc)
  note open_push = push_open [OF Cons.prems(2,3,1), of r c]
  have dead: "frame_buffer_finish (push_all fb' rcs) \<noteq> Inr f" if "fb_failed fb'" for fb'
    using push_failed [OF that] by (simp add: frame_buffer_finish_def result_simps)
  consider (over) "fb_max fb < length (fb_bytes fb @ c)" | (alloc) "\<not> r"
    | (more) "length (fb_bytes fb @ c) \<le> fb_max fb" "r" "newline \<notin> set c"
    | (whole) "length (fb_bytes fb @ c) \<le> fb_max fb" "r" "newline \<in> set c" "one_line c"
    | (midline) "length (fb_bytes fb @ c) \<le> fb_max fb" "newline \<in> set c" "\<not> one_line c"
    by linarith
  then show ?case
  proof cases
    case over
    then show ?thesis using rc open_push by (auto simp: dead Let_def)
  next
    case alloc
    then show ?thesis using rc open_push by (auto simp: dead Let_def)
  next
    case more
    then have "push_all fb (rc # rcs) = push_all (fb\<lparr>fb_bytes := fb_bytes fb @ c\<rparr>) rcs"
      using rc open_push by (simp add: Let_def)
    moreover have "\<not> one_line (fb_bytes fb @ c)"
      using Cons.prems(4) more(3) one_line_has_newline by fastforce
    ultimately show ?thesis
      using Cons.IH [of "fb\<lparr>fb_bytes := fb_bytes fb @ c\<rparr>"] Cons.prems more rc by auto
  next
    case whole
    let ?fb = "fb\<lparr>fb_bytes := fb_bytes fb @ c, fb_finished := True\<rparr>"
    have "push_all fb (rc # rcs) = push_all ?fb rcs"
      using rc open_push whole by (simp add: Let_def)
    moreover have "c \<noteq> []" using whole by auto
    moreover have "snd (last rcs) = []" if "rcs \<noteq> []" "concat (map snd rcs) = []"
      using that last_in_set by fastforce
    ultimately show ?thesis
      using push_closed [of ?fb rcs] Cons.prems rc whole
      by (auto simp: frame_buffer_finish_def result_simps one_line_append one_line_concat)
  next
    case midline
    then have "frame_buffer_finish (push_all fb (rc # rcs)) \<noteq> Inr f"
      using rc open_push by (auto simp: dead Let_def)
    then show ?thesis
      using midline rc Cons.prems(4) by (auto simp: one_line_append one_line_concat)
  qed
qed

text \<open>
  Whatever chunks a peer sends and whatever the allocator does, a frame buffer yields a frame
  exactly when every chunk was stored, the frame is the concatenation of all chunks in order, it
  fits the maximum, its only newline is its last byte, and nothing (not even an empty chunk) was
  pushed after that newline. In particular no prefix is dropped and no trailing byte is hidden.
\<close>

theorem frame_buffer_exact:
  assumes "frame_buffer_new lim = Inr fb"
  shows "frame_buffer_finish (push_all fb rcs) = Inr f \<longleftrightarrow>
    rcs \<noteq> [] \<and> (\<forall>rc\<in>set rcs. fst rc) \<and> f = concat (map snd rcs) \<and>
    one_line f \<and> length f \<le> lim \<and> snd (last rcs) \<noteq> []"
proof -
  from assms have fb: "fb = \<lparr>fb_bytes = [], fb_max = lim, fb_finished = False, fb_failed = False\<rparr>"
      "lim \<le> FRAME_BYTES"
    by (auto simp: frame_buffer_new_def result_simps)
  then show ?thesis by (simp add: finish_push_all)
qed

theorem frame_buffer_exact_witness:
  "\<exists>fb. frame_buffer_new 8 = Inr fb \<and>
     frame_buffer_finish (push_all fb [(True, ''ab''), (True, [newline])]) = Inr (''ab'' @ [newline])"
proof -
  obtain fb where fb: "frame_buffer_new 8 = Inr fb"
    by (simp add: frame_buffer_new_def result_simps FRAME_BYTES_def)
  have "frame_buffer_finish (push_all fb [(True, ''ab''), (True, [newline])]) = Inr (''ab'' @ [newline])"
    by (subst frame_buffer_exact [OF fb]) (simp add: one_line_def newline_def)
  with fb show ?thesis by blast
qed

end
