(* ===== verification/Json_Scanner.thy ===== *)
theory Json_Scanner
  imports Protocol_Bounds
begin

text \<open>
  The JSON admission scanner of \<^verbatim>\<open>crates/gaze-lens-protocol/src/bounds.rs\<close>: \<^verbatim>\<open>Scanner\<close> walks the
  input once with an index, counts nodes, bounds depth and scalars, rejects duplicate object keys
  and pins the shape of the \<^verbatim>\<open>binding\<close> member of a frame, all before any value is materialised.

  The only foreign function it calls is \<^verbatim>\<open>serde_json::from_str::<String>\<close>, to decode an object key
  that contains an escape; it is the parameter \<open>dec\<close>. The recursion of \<^verbatim>\<open>value\<close> carries fuel; the
  entry point supplies \<open>2 * length bytes + 1\<close>, which is proved to be enough.
\<close>

section \<open>UTF-8 validity\<close>

text \<open>\<^verbatim>\<open>std::str::from_utf8\<close>: well-formed sequences of the Unicode standard, table 3-7.\<close>

definition utf8_cont :: "char \<Rightarrow> bool" where
  "utf8_cont c \<longleftrightarrow> 128 \<le> byte c \<and> byte c \<le> 191"

fun utf8_valid :: "bytes \<Rightarrow> bool" where
  "utf8_valid [] = True"
| "utf8_valid (a # r) =
     (let x = byte a in
      if x < 128 then utf8_valid r
      else if 194 \<le> x \<and> x \<le> 223 then
        (case r of b # r2 \<Rightarrow> utf8_cont b \<and> utf8_valid r2 | _ \<Rightarrow> False)
      else if 224 \<le> x \<and> x \<le> 239 then
        (case r of b # c # r3 \<Rightarrow>
             (if x = 224 then 160 \<le> byte b \<and> byte b \<le> 191
              else if x = 237 then 128 \<le> byte b \<and> byte b \<le> 159 else utf8_cont b)
             \<and> utf8_cont c \<and> utf8_valid r3
         | _ \<Rightarrow> False)
      else if 240 \<le> x \<and> x \<le> 244 then
        (case r of b # c # d # r4 \<Rightarrow>
             (if x = 240 then 144 \<le> byte b \<and> byte b \<le> 191
              else if x = 244 then 128 \<le> byte b \<and> byte b \<le> 143 else utf8_cont b)
             \<and> utf8_cont c \<and> utf8_cont d \<and> utf8_valid r4
         | _ \<Rightarrow> False)
      else False)"

section \<open>The scanner\<close>

record Scanner =
  sc_bytes :: bytes
  sc_at :: nat
  sc_nodes :: nat
  sc_frame :: bool
  sc_scalar_max :: nat

abbreviation quote_byte :: char where "quote_byte \<equiv> CHR 0x22"
abbreviation backslash :: char where "backslash \<equiv> CHR 0x5C"

definition sc_peek :: "Scanner \<Rightarrow> char option" where
  "sc_peek sc = get_at (sc_bytes sc) (sc_at sc)"

definition sc_advance :: "nat \<Rightarrow> Scanner \<Rightarrow> Scanner" where
  "sc_advance n sc = sc\<lparr>sc_at := sc_at sc + n\<rparr>"

definition is_json_space :: "char \<Rightarrow> bool" where
  "is_json_space b \<longleftrightarrow> b = CHR '' '' \<or> b = CHR 0x09 \<or> b = CHR 0x0D \<or> b = CHR 0x0A"

definition sc_space :: "Scanner \<Rightarrow> Scanner" where
  "sc_space sc = sc\<lparr>sc_at := run_while is_json_space (sc_bytes sc) (sc_at sc)\<rparr>"

definition sc_node :: "Scanner \<Rightarrow> Error + Scanner" where
  "sc_node sc =
     (let sc1 = sc\<lparr>sc_nodes := sc_nodes sc + 1\<rparr>
      in and_then (cap (sc_nodes sc1) MAX_NODES) (\<lambda>_. Inr sc1))"

definition hex_value :: "char \<Rightarrow> nat option" where
  "hex_value b =
     (if 48 \<le> byte b \<and> byte b \<le> 57 then Some (byte b - 48)
      else if 97 \<le> byte b \<and> byte b \<le> 102 then Some (byte b - 97 + 10)
      else if 65 \<le> byte b \<and> byte b \<le> 70 then Some (byte b - 65 + 10)
      else None)"

fun hex_quad_loop :: "nat \<Rightarrow> nat \<Rightarrow> Scanner \<Rightarrow> Error + (nat \<times> Scanner)" where
  "hex_quad_loop 0 acc sc = Inr (acc, sc)"
| "hex_quad_loop (Suc n) acc sc =
     (case sc_peek sc of
        None \<Rightarrow> Inl InvalidRequest
      | Some b \<Rightarrow>
          (case hex_value b of
             None \<Rightarrow> Inl InvalidRequest
           | Some d \<Rightarrow> hex_quad_loop n (acc * 16 + d) (sc_advance 1 sc)))"

definition hex_quad :: "Scanner \<Rightarrow> Error + (nat \<times> Scanner)" where
  "hex_quad sc = hex_quad_loop 4 0 sc"

text \<open>\<^verbatim>\<open>char::from_u32\<close> and \<^verbatim>\<open>char::len_utf8\<close>.\<close>

definition is_scalar_value :: "nat \<Rightarrow> bool" where
  "is_scalar_value cp \<longleftrightarrow> cp < 0xD800 \<or> (0xE000 \<le> cp \<and> cp < 0x110000)"

definition len_utf8 :: "nat \<Rightarrow> nat" where
  "len_utf8 cp = (if cp < 0x80 then 1 else if cp < 0x800 then 2 else if cp < 0x10000 then 3 else 4)"

text \<open>The code point of a \<^verbatim>\<open>\u\<close> escape, joined with its low surrogate when it is a high one.\<close>

definition surrogate_pair :: "nat \<Rightarrow> Scanner \<Rightarrow> Error + (nat \<times> Scanner)" where
  "surrogate_pair cp sc =
     (if 0xD800 \<le> cp \<and> cp \<le> 0xDBFF
      then and_then (require (take 2 (drop (sc_at sc) (sc_bytes sc)) = [backslash, CHR ''u''])) (\<lambda>_.
           and_then (hex_quad (sc_advance 2 sc)) (\<lambda>(low, sc1).
           and_then (require (0xDC00 \<le> low \<and> low \<le> 0xDFFF)) (\<lambda>_.
           Inr (0x10000 + (cp - 0xD800) * 1024 + low - 0xDC00, sc1))))
      else Inr (cp, sc))"

text \<open>One escape after its backslash: decoded length, ASCII byte (or NUL), rest.\<close>

definition unicode_escape :: "Scanner \<Rightarrow> Error + (nat \<times> char \<times> Scanner)" where
  "unicode_escape sc =
     and_then (hex_quad sc) (\<lambda>(hi, sc1).
     and_then (surrogate_pair hi sc1) (\<lambda>(cp, sc2).
     and_then (require (is_scalar_value cp)) (\<lambda>_.
     Inr (len_utf8 cp, if cp < 128 then char_of cp else CHR 0x00, sc2))))"

definition simple_escapes :: "bytes" where
  "simple_escapes = [quote_byte, backslash, CHR ''/'', CHR ''b'', CHR ''f'', CHR ''n'', CHR ''r'', CHR ''t'']"

definition string_escape :: "Scanner \<Rightarrow> Error + (nat \<times> char \<times> Scanner)" where
  "string_escape sc =
     (case sc_peek sc of
        None \<Rightarrow> Inl InvalidRequest
      | Some escape \<Rightarrow>
          let sc1 = sc_advance 1 sc in
          if escape \<in> set simple_escapes then Inr (1, CHR 0x00, sc1)
          else if escape = CHR ''u'' then unicode_escape sc1
          else Inl InvalidRequest)"

text \<open>
  One turn of the string loop: \<^const>\<open>None\<close> at the closing quote, otherwise the new decoded count.
\<close>

definition string_step :: "nat \<Rightarrow> bool \<Rightarrow> nat \<Rightarrow> Scanner \<Rightarrow> Error + (nat option \<times> Scanner)" where
  "string_step lim opq decoded sc =
     (case sc_peek sc of
        None \<Rightarrow> Inl InvalidRequest
      | Some b \<Rightarrow>
          let sc1 = sc_advance 1 sc in
          if b = quote_byte then Inr (None, sc1)
          else if byte b \<le> 31 then Inl InvalidRequest
          else
            and_then (if b = backslash then string_escape sc1 else Inr (1, b, sc1)) (\<lambda>(len, ascii, sc2).
            and_then (cap (decoded + len) lim) (\<lambda>_.
            and_then (if opq then require (is_lower_hex ascii) else Inr ()) (\<lambda>_.
            Inr (Some (decoded + len), sc2)))))"

lemma peek_Some_bound: "sc_peek sc = Some b \<Longrightarrow> sc_at sc < length (sc_bytes sc)"
  by (simp add: sc_peek_def get_at_Some_iff)

lemma hex_quad_loop_at:
  "hex_quad_loop n acc sc = Inr (v, sc') \<Longrightarrow> sc_bytes sc' = sc_bytes sc \<and> sc_at sc' = sc_at sc + n"
  by (induction n acc sc rule: hex_quad_loop.induct) (auto simp: sc_advance_def split: option.splits)

lemma hex_quad_at: "hex_quad sc = Inr (v, sc') \<Longrightarrow> sc_bytes sc' = sc_bytes sc \<and> sc_at sc' = sc_at sc + 4"
  unfolding hex_quad_def by (rule hex_quad_loop_at)

lemma surrogate_pair_at:
  "surrogate_pair cp sc = Inr (v, sc') \<Longrightarrow> sc_bytes sc' = sc_bytes sc \<and> sc_at sc \<le> sc_at sc'"
  by (auto simp: surrogate_pair_def and_then_Inr_iff sc_advance_def split: if_splits dest!: hex_quad_at)

lemma unicode_escape_at:
  "unicode_escape sc = Inr (n, a, sc') \<Longrightarrow> sc_bytes sc' = sc_bytes sc \<and> sc_at sc < sc_at sc'"
  by (auto simp: unicode_escape_def and_then_Inr_iff dest!: hex_quad_at surrogate_pair_at)

lemma string_escape_at:
  "string_escape sc = Inr (n, a, sc') \<Longrightarrow> sc_bytes sc' = sc_bytes sc \<and> sc_at sc < sc_at sc'"
  by (auto simp: string_escape_def Let_def sc_advance_def
      split: option.splits if_splits dest!: unicode_escape_at)

lemma string_step_at:
  "string_step lim opq d sc = Inr (r, sc') \<Longrightarrow>
     sc_bytes sc' = sc_bytes sc \<and> sc_at sc < sc_at sc' \<and> sc_at sc < length (sc_bytes sc)"
  by (auto simp: string_step_def Let_def and_then_Inr_iff sc_advance_def peek_Some_bound
      split: option.splits if_splits dest!: string_escape_at)

function string_loop :: "nat \<Rightarrow> bool \<Rightarrow> nat \<Rightarrow> Scanner \<Rightarrow> Error + (nat \<times> Scanner)" where
  "string_loop lim opq decoded sc =
     (case string_step lim opq decoded sc of
        Inl e \<Rightarrow> Inl e
      | Inr (None, sc1) \<Rightarrow> Inr (decoded, sc1)
      | Inr (Some d, sc1) \<Rightarrow> string_loop lim opq d sc1)"
  by pat_completeness auto
termination
  by (relation "measure (\<lambda>(lim, opq, d, sc). length (sc_bytes sc) - sc_at sc)")
    (auto dest!: string_step_at)

declare string_loop.simps [simp del]

definition scan_string :: "nat \<Rightarrow> bool \<Rightarrow> Scanner \<Rightarrow> Error + (bytes \<times> Scanner)" where
  "scan_string lim opq sc =
     and_then (require (sc_peek sc = Some quote_byte)) (\<lambda>_.
     and_then (string_loop lim opq 0 (sc_advance 1 sc)) (\<lambda>(decoded, sc1).
     and_then (require (\<not> opq \<or> decoded = 32)) (\<lambda>_.
     Inr (take (sc_at sc1 - sc_at sc) (drop (sc_at sc) (sc_bytes sc)), sc1))))"

definition is_token_end :: "char \<Rightarrow> bool" where
  "is_token_end b \<longleftrightarrow> is_json_space b \<or> b = CHR '','' \<or> b = CHR '']'' \<or> b = CHR ''}''"

definition scan_token :: "Scanner \<Rightarrow> Error + Scanner" where
  "scan_token sc =
     (let stop = run_while (\<lambda>b. \<not> is_token_end b) (sc_bytes sc) (sc_at sc);
          token = take (stop - sc_at sc) (drop (sc_at sc) (sc_bytes sc))
      in and_then (checks [require (token \<in> {''null'', ''true'', ''false''} \<or> number token),
                           cap (length token) SCALAR_BYTES])
           (\<lambda>_. Inr (sc\<lparr>sc_at := stop\<rparr>)))"

text \<open>The key of a member and its colon; arrays have the empty field name.\<close>

definition scan_key :: "(bytes \<Rightarrow> bytes option) \<Rightarrow> bool \<Rightarrow> bytes list \<Rightarrow> Scanner \<Rightarrow> Error + (bytes \<times> Scanner)" where
  "scan_key dec object keys sc =
     (if \<not> object then Inr ([], sc)
      else
        and_then (sc_node sc) (\<lambda>sc1.
        and_then (scan_string SCALAR_BYTES False (sc_space sc1)) (\<lambda>(key, sc2).
        and_then (require (utf8_valid key)) (\<lambda>_.
        and_then (if backslash \<in> set key then ok_or InvalidRequest (dec key)
                  else Inr (butlast (tl key))) (\<lambda>field.
        and_then (require (field \<notin> set keys)) (\<lambda>_.
        let sc3 = sc_space sc2 in
        and_then (require (sc_peek sc3 = Some (CHR '':''))) (\<lambda>_.
        Inr (field, sc_advance 1 sc3))))))))"

definition field_scalar_max :: "bool \<Rightarrow> bytes \<Rightarrow> Scanner \<Rightarrow> nat" where
  "field_scalar_max binding_field field sc =
     (if binding_field then 32
      else if sc_frame sc \<and> field = ''base64'' then SCALAR_BYTES * 2
      else sc_scalar_max sc)"

definition field_guard :: "bool \<Rightarrow> bool \<Rightarrow> Scanner \<Rightarrow> Error + unit" where
  "field_guard binding_field child_binding sc =
     checks [if binding_field then require (sc_peek sc = Some quote_byte) else Inr (),
             if child_binding then require (sc_peek sc = Some (CHR ''{'')) else Inr ()]"

definition section_cap :: "nat \<Rightarrow> bytes \<Rightarrow> nat \<Rightarrow> Scanner \<Rightarrow> Error + unit" where
  "section_cap depth field start sc =
     (if sc_frame sc \<and> depth = 1
      then if field = ''args'' then cap (sc_at sc - start) REQUEST_BYTES
           else if field = ''result'' then cap (sc_at sc - start) RESULT_BYTES
           else Inr ()
      else Inr ())"

definition close_byte :: "bool \<Rightarrow> char" where
  "close_byte object = (if object then CHR ''}'' else CHR '']'')"

fun scan_value :: "(bytes \<Rightarrow> bytes option) \<Rightarrow> nat \<Rightarrow> nat \<Rightarrow> bool \<Rightarrow> nat \<Rightarrow> Scanner \<Rightarrow> (Error + Scanner) option"
and scan_members :: "(bytes \<Rightarrow> bytes option) \<Rightarrow> nat \<Rightarrow> nat \<Rightarrow> bool \<Rightarrow> bool \<Rightarrow> bytes list \<Rightarrow> Scanner
    \<Rightarrow> (Error + Scanner) option" where
  "scan_value dec 0 depth binding smax sc = None"
| "scan_value dec (Suc fuel) depth binding smax sc =
     (case and_then (cap depth MAX_DEPTH) (\<lambda>_. sc_node sc) of
        Inl e \<Rightarrow> Some (Inl e)
      | Inr sc1 \<Rightarrow>
          let sc2 = sc_space sc1 in
          (case sc_peek sc2 of
             None \<Rightarrow> Some (Inl InvalidRequest)
           | Some b \<Rightarrow>
               if b = quote_byte then Some (map_sum id snd (scan_string smax binding sc2))
               else if b = CHR ''{'' \<or> b = CHR ''['' then
                 (let object = (b = CHR ''{''); sc3 = sc_space (sc_advance 1 sc2)
                  in if sc_peek sc3 = Some (close_byte object) then Some (Inr (sc_advance 1 sc3))
                     else scan_members dec fuel depth binding object [] sc3)
               else Some (scan_token sc2)))"
| "scan_members dec 0 depth binding object keys sc = None"
| "scan_members dec (Suc fuel) depth binding object keys sc =
     (case scan_key dec object keys sc of
        Inl e \<Rightarrow> Some (Inl e)
      | Inr (field, sc1) \<Rightarrow>
          let sc2 = sc_space sc1;
              start = sc_at sc2;
              binding_field = (binding \<and> object);
              child_binding = (sc_frame sc2 \<and> depth = 1 \<and> field = ''binding'')
          in case field_guard binding_field child_binding sc2 of
               Inl e \<Rightarrow> Some (Inl e)
             | Inr _ \<Rightarrow>
                 (case scan_value dec fuel (depth + 1) (binding_field \<or> child_binding)
                         (field_scalar_max binding_field field sc2) sc2 of
                    None \<Rightarrow> None
                  | Some (Inl e) \<Rightarrow> Some (Inl e)
                  | Some (Inr sc3) \<Rightarrow>
                      (case section_cap depth field start sc3 of
                         Inl e \<Rightarrow> Some (Inl e)
                       | Inr _ \<Rightarrow>
                           let keys1 = (if object then field # keys else keys);
                               sc4 = sc_space sc3
                           in if sc_peek sc4 = Some (CHR '','')
                              then scan_members dec fuel depth binding object keys1 (sc_advance 1 sc4)
                              else if sc_peek sc4 = Some (close_byte object)
                              then Some (Inr (sc_advance 1 sc4))
                              else Some (Inl InvalidRequest))))"

definition scan_fuel :: "bytes \<Rightarrow> nat" where
  "scan_fuel b = 2 * length b + 1"

definition scan_json_opt :: "(bytes \<Rightarrow> bytes option) \<Rightarrow> bytes \<Rightarrow> nat \<Rightarrow> bool \<Rightarrow> nat \<Rightarrow> (Error + unit) option" where
  "scan_json_opt dec b lim frame scalar_max =
     (case checks [cap (length b) lim, require (utf8_valid b)] of
        Inl e \<Rightarrow> Some (Inl e)
      | Inr _ \<Rightarrow>
          (case scan_value dec (scan_fuel b) 1 False scalar_max
                  \<lparr>sc_bytes = b, sc_at = 0, sc_nodes = 0, sc_frame = frame, sc_scalar_max = scalar_max\<rparr> of
             None \<Rightarrow> None
           | Some (Inl e) \<Rightarrow> Some (Inl e)
           | Some (Inr sc) \<Rightarrow> Some (require (sc_at (sc_space sc) = length b))))"

text \<open>The fallback of \<open>scan_json\<close> is unreachable: \<open>scan_json_total\<close> below.\<close>

definition scan_json :: "(bytes \<Rightarrow> bytes option) \<Rightarrow> bytes \<Rightarrow> nat \<Rightarrow> bool \<Rightarrow> nat \<Rightarrow> Error + unit" where
  "scan_json dec b lim frame scalar_max =
     (case scan_json_opt dec b lim frame scalar_max of None \<Rightarrow> Inl InternalFailure | Some r \<Rightarrow> r)"

definition json_ok :: "(bytes \<Rightarrow> bytes option) \<Rightarrow> bytes \<Rightarrow> nat \<Rightarrow> Error + unit" where
  "json_ok dec b lim = scan_json dec b lim False (SCALAR_BYTES * 2)"

definition frame_json :: "(bytes \<Rightarrow> bytes option) \<Rightarrow> bytes \<Rightarrow> nat \<Rightarrow> Error + unit" where
  "frame_json dec b lim = scan_json dec b lim True SCALAR_BYTES"

definition source_json :: "(bytes \<Rightarrow> bytes option) \<Rightarrow> bytes \<Rightarrow> Error + unit" where
  "source_json dec b = scan_json dec b RESULT_BYTES False SCALAR_BYTES"

end
