(* ===== verification/Json_Grammar.thy ===== *)
theory Json_Grammar
  imports Json_Scanner
begin

text \<open>
  A reference grammar of JSON texts (RFC 8259) over syntax trees that keep every literal as
  written, the bounds the protocol puts on such a tree, and the proof that the scanner admits only
  texts of that grammar within those bounds. The scanner itself is in \<open>Json_Scanner\<close>.
\<close>

section \<open>Strings\<close>

definition jws :: "bytes \<Rightarrow> bool" where
  "jws w \<longleftrightarrow> list_all is_json_space w"

fun hex4 :: "nat \<Rightarrow> bytes \<Rightarrow> nat option" where
  "hex4 acc [] = Some acc"
| "hex4 acc (c # cs) = (case hex_value c of None \<Rightarrow> None | Some d \<Rightarrow> hex4 (acc * 16 + d) cs)"

definition utf8_encode :: "nat \<Rightarrow> bytes" where
  "utf8_encode cp =
     (if cp < 0x80 then [char_of cp]
      else if cp < 0x800 then [char_of (0xC0 + cp div 64), char_of (0x80 + cp mod 64)]
      else if cp < 0x10000 then
        [char_of (0xE0 + cp div 4096), char_of (0x80 + cp div 64 mod 64), char_of (0x80 + cp mod 64)]
      else [char_of (0xF0 + cp div 262144), char_of (0x80 + cp div 4096 mod 64),
            char_of (0x80 + cp div 64 mod 64), char_of (0x80 + cp mod 64)])"

lemma length_utf8_encode: "length (utf8_encode cp) = len_utf8 cp"
  by (simp add: utf8_encode_def len_utf8_def)

definition unescape :: "char \<Rightarrow> char" where
  "unescape e = (if e = CHR ''b'' then CHR 0x08 else if e = CHR ''f'' then CHR 0x0C
     else if e = CHR ''n'' then CHR 0x0A else if e = CHR ''r'' then CHR 0x0D
     else if e = CHR ''t'' then CHR 0x09 else e)"

text \<open>\<open>jchars raw d\<close>: the characters \<open>raw\<close> between two quotes decode to the bytes \<open>d\<close>.\<close>

inductive jchars :: "bytes \<Rightarrow> bytes \<Rightarrow> bool" where
  jchars_nil: "jchars [] []"
| jchars_plain: "31 < byte c \<Longrightarrow> c \<noteq> quote_byte \<Longrightarrow> c \<noteq> backslash \<Longrightarrow> jchars r d \<Longrightarrow> jchars (c # r) (c # d)"
| jchars_simple: "e \<in> set simple_escapes \<Longrightarrow> jchars r d \<Longrightarrow> jchars (backslash # e # r) (unescape e # d)"
| jchars_unicode: "length h = 4 \<Longrightarrow> hex4 0 h = Some cp \<Longrightarrow> is_scalar_value cp \<Longrightarrow> jchars r d \<Longrightarrow>
     jchars (backslash # CHR ''u'' # h @ r) (utf8_encode cp @ d)"
| jchars_pair: "length h = 4 \<Longrightarrow> hex4 0 h = Some hi \<Longrightarrow> 0xD800 \<le> hi \<Longrightarrow> hi \<le> 0xDBFF \<Longrightarrow>
     length l = 4 \<Longrightarrow> hex4 0 l = Some lo \<Longrightarrow> 0xDC00 \<le> lo \<Longrightarrow> lo \<le> 0xDFFF \<Longrightarrow> jchars r d \<Longrightarrow>
     jchars (backslash # CHR ''u'' # h @ backslash # CHR ''u'' # l @ r)
       (utf8_encode (0x10000 + (hi - 0xD800) * 1024 + lo - 0xDC00) @ d)"

definition jstring :: "bytes \<Rightarrow> bytes \<Rightarrow> bool" where
  "jstring raw d \<longleftrightarrow> (\<exists>body. raw = quote_byte # body @ [quote_byte] \<and> jchars body d)"

section \<open>Values\<close>

text \<open>An array is a node without keys: its items carry the empty key.\<close>

datatype jtree = JAtom bytes | JStr bytes | JNode bool "(bytes \<times> jtree) list"

definition jkey :: "bool \<Rightarrow> bytes \<Rightarrow> bytes \<Rightarrow> bool" where
  "jkey object k kt \<longleftrightarrow>
     (if object then \<exists>a b d. jws a \<and> jws b \<and> jstring k d \<and> kt = a @ k @ b @ [CHR '':'']
      else k = [] \<and> kt = [])"

definition open_byte :: "bool \<Rightarrow> char" where
  "open_byte object = (if object then CHR ''{'' else CHR ''['')"

inductive jval :: "jtree \<Rightarrow> bytes \<Rightarrow> bool" and jitems :: "bool \<Rightarrow> (bytes \<times> jtree) list \<Rightarrow> bytes \<Rightarrow> bool" where
  jval_atom: "t \<in> {''null'', ''true'', ''false''} \<or> json_number t \<Longrightarrow> jval (JAtom t) t"
| jval_str: "jstring raw d \<Longrightarrow> jval (JStr raw) raw"
| jval_empty: "jws w \<Longrightarrow> jval (JNode object []) (open_byte object # w @ [close_byte object])"
| jval_node: "jitems object its y \<Longrightarrow> jval (JNode object its) (open_byte object # y @ [close_byte object])"
| jitems_one: "jkey object k kt \<Longrightarrow> jws a \<Longrightarrow> jval t x \<Longrightarrow> jws b \<Longrightarrow>
     jitems object [(k, t)] (kt @ a @ x @ b)"
| jitems_more: "jkey object k kt \<Longrightarrow> jws a \<Longrightarrow> jval t x \<Longrightarrow> jws b \<Longrightarrow> jitems object its y \<Longrightarrow>
     jitems object ((k, t) # its) (kt @ a @ x @ b @ CHR '','' # y)"

section \<open>Bounds on a tree\<close>

primrec jdepth :: "jtree \<Rightarrow> nat" where
  "jdepth (JAtom t) = 1"
| "jdepth (JStr raw) = 1"
| "jdepth (JNode object its) = Suc (fold max (map snd (map (map_prod id jdepth) its)) 0)"

primrec jnodes :: "jtree \<Rightarrow> nat" where
  "jnodes (JAtom t) = 1"
| "jnodes (JStr raw) = 1"
| "jnodes (JNode object its) =
     Suc (sum_list (map (\<lambda>p. (if object then 1 else 0) + snd p) (map (map_prod id jnodes) its)))"

definition item_nodes :: "bool \<Rightarrow> (bytes \<times> jtree) list \<Rightarrow> nat" where
  "item_nodes object its = sum_list (map (\<lambda>p. (if object then 1 else 0) + jnodes (snd p)) its)"

text \<open>The name under which a key counts for duplicates: decoded when it has an escape.\<close>

definition key_field :: "(bytes \<Rightarrow> bytes option) \<Rightarrow> bytes \<Rightarrow> bytes option" where
  "key_field dec k = (if backslash \<in> set k then dec k else Some (butlast (tl k)))"

definition string_within :: "nat \<Rightarrow> bytes \<Rightarrow> bool" where
  "string_within lim raw \<longleftrightarrow> (\<exists>d. jstring raw d \<and> length d \<le> lim)"

definition hex32 :: "bytes \<Rightarrow> bool" where
  "hex32 raw \<longleftrightarrow> (\<exists>d. jstring raw d \<and> length d = 32 \<and> list_all is_lower_hex d)"

definition keys_ok :: "(bytes \<Rightarrow> bytes option) \<Rightarrow> bytes list \<Rightarrow> bool" where
  "keys_ok dec ks \<longleftrightarrow> (\<forall>k\<in>set ks. string_within SCALAR_BYTES k \<and> key_field dec k \<noteq> None) \<and>
     distinct (map (key_field dec) ks)"

primrec jbounded :: "(bytes \<Rightarrow> bytes option) \<Rightarrow> nat \<Rightarrow> jtree \<Rightarrow> bool" where
  "jbounded dec lim (JAtom t) = (length t \<le> SCALAR_BYTES)"
| "jbounded dec lim (JStr raw) = string_within lim raw"
| "jbounded dec lim (JNode object its) =
     ((object \<longrightarrow> keys_ok dec (map fst its)) \<and>
      list_all snd (map (map_prod id (jbounded dec lim)) its))"

text \<open>A destination binding: an object of opaque 32-digit strings.\<close>

definition opaque_string :: "jtree \<Rightarrow> bool" where
  "opaque_string t \<longleftrightarrow> (\<exists>raw. t = JStr raw \<and> hex32 raw)"

definition opaque_object :: "jtree \<Rightarrow> bool" where
  "opaque_object t \<longleftrightarrow> (\<exists>its. t = JNode True its \<and> (\<forall>p\<in>set its. opaque_string (snd p)))"

definition frame_binding_ok :: "(bytes \<Rightarrow> bytes option) \<Rightarrow> (bytes \<times> jtree) list \<Rightarrow> bool" where
  "frame_binding_ok dec its \<longleftrightarrow>
     (\<forall>p\<in>set its. key_field dec (fst p) = Some ''binding'' \<longrightarrow> opaque_object (snd p))"

lemma fold_max_le: "fold max xs a \<le> n \<longleftrightarrow> a \<le> n \<and> (\<forall>x\<in>set xs. x \<le> (n :: nat))"
  by (induction xs arbitrary: a) auto

lemma jdepth_node_le: "jdepth (JNode object its) \<le> Suc n \<longleftrightarrow> (\<forall>p\<in>set its. jdepth (snd p) \<le> n)"
  by (auto simp: fold_max_le)

lemma jnodes_node: "jnodes (JNode object its) = Suc (item_nodes object its)"
  by (simp add: item_nodes_def comp_def)

lemma jbounded_node: "jbounded dec lim (JNode object its) \<longleftrightarrow>
    (object \<longrightarrow> keys_ok dec (map fst its)) \<and> (\<forall>p\<in>set its. jbounded dec lim (snd p))"
  by (simp add: list_all_iff)

lemmas jtree_node_simps = jdepth_node_le jnodes_node jbounded_node

declare jdepth.simps(3) [simp del] jnodes.simps(3) [simp del] jbounded.simps(3) [simp del]

section \<open>Movement of the scanner\<close>

definition sc_rest :: "Scanner \<Rightarrow> bytes" where
  "sc_rest sc = drop (sc_at sc) (sc_bytes sc)"

definition sc_moved :: "Scanner \<Rightarrow> bytes \<Rightarrow> Scanner \<Rightarrow> bool" where
  "sc_moved sc x sc' \<longleftrightarrow> sc_bytes sc' = sc_bytes sc \<and> sc_frame sc' = sc_frame sc \<and>
     sc_scalar_max sc' = sc_scalar_max sc \<and> sc_at sc' = sc_at sc + length x \<and>
     sc_rest sc = x @ sc_rest sc'"

lemma sc_moved_refl: "sc_moved sc [] sc"
  by (simp add: sc_moved_def)

lemma sc_moved_trans: "sc_moved a x b \<Longrightarrow> sc_moved b y c \<Longrightarrow> sc_moved a (x @ y) c"
  by (auto simp: sc_moved_def)

lemma sc_moved_nodes: "sc_moved sc x sc' \<Longrightarrow> sc_moved (sc\<lparr>sc_nodes := n\<rparr>) x sc'"
  by (simp add: sc_moved_def sc_rest_def)

lemma sc_moved_nodes2: "sc_moved sc x sc' \<Longrightarrow> sc_moved sc x (sc'\<lparr>sc_nodes := n\<rparr>)"
  by (simp add: sc_moved_def sc_rest_def)

lemma sc_peek_rest: "sc_peek sc = (case sc_rest sc of [] \<Rightarrow> None | c # _ \<Rightarrow> Some c)"
  by (simp add: sc_peek_def sc_rest_def get_at_conv_drop)

lemma sc_peek_Some: "sc_peek sc = Some c \<Longrightarrow> \<exists>r. sc_rest sc = c # r"
  by (auto simp: sc_peek_rest split: list.splits)

lemma sc_advance_moved: "sc_peek sc = Some c \<Longrightarrow> sc_moved sc [c] (sc_advance 1 sc)"
  by (auto simp: sc_moved_def sc_advance_def sc_rest_def sc_peek_def dest: get_at_drop)

lemma sc_advance_nodes [simp]: "sc_nodes (sc_advance n sc) = sc_nodes sc"
  by (simp add: sc_advance_def)

lemma sc_space_nodes [simp]: "sc_nodes (sc_space sc) = sc_nodes sc"
  by (simp add: sc_space_def)

lemma sc_moved_take:
  assumes "sc_bytes sc' = sc_bytes sc" "sc_frame sc' = sc_frame sc" "sc_scalar_max sc' = sc_scalar_max sc"
    "sc_at sc' = sc_at sc + n" "n \<le> length (sc_rest sc)"
  shows "sc_moved sc (take n (sc_rest sc)) sc'"
  using assms by (simp add: sc_moved_def sc_rest_def add.commute flip: drop_drop)

lemma sc_space_moved: "\<exists>w. jws w \<and> sc_moved sc w (sc_space sc)"
proof (intro exI conjI)
  let ?w = "takeWhile is_json_space (sc_rest sc)"
  show "jws ?w" by (auto simp: jws_def list_all_iff dest: set_takeWhileD)
  have "sc_moved sc (take (length ?w) (sc_rest sc)) (sc_space sc)"
    by (rule sc_moved_take)
      (simp_all add: sc_space_def run_while_eq length_takeWhile_le flip: sc_rest_def)
  then show "sc_moved sc ?w (sc_space sc)" by (simp add: takeWhile_eq_take [symmetric])
qed

lemma sc_space_idle: "sc_peek sc = Some c \<Longrightarrow> \<not> is_json_space c \<Longrightarrow> sc_space sc = sc"
  by (auto simp: sc_space_def run_while_eq sc_peek_def dest: get_at_drop)

lemma sc_node_ok: "sc_node sc = Inr sc' \<longleftrightarrow> sc' = sc\<lparr>sc_nodes := sc_nodes sc + 1\<rparr> \<and> sc_nodes sc' \<le> MAX_NODES"
  by (auto simp: sc_node_def result_simps)

section \<open>Strings and tokens are admitted soundly\<close>

lemma sc_moved_Cons: "sc_moved a [x] b \<Longrightarrow> sc_moved b y c \<Longrightarrow> sc_moved a (x # y) c"
  using sc_moved_trans [of a "[x]" b y c] by simp

lemma hex_quad_loop_sound:
  "hex_quad_loop n acc sc = Inr (v, sc') \<Longrightarrow>
     \<exists>h. length h = n \<and> hex4 acc h = Some v \<and> sc_moved sc h sc' \<and> sc_nodes sc' = sc_nodes sc"
proof (induction n acc sc rule: hex_quad_loop.induct)
  case (2 n acc sc)
  then obtain b d where b: "sc_peek sc = Some b" "hex_value b = Some d"
      "hex_quad_loop n (acc * 16 + d) (sc_advance 1 sc) = Inr (v, sc')"
    by (auto split: option.splits)
  with 2 obtain h where h: "length h = n" "hex4 (acc * 16 + d) h = Some v"
      "sc_moved (sc_advance 1 sc) h sc'" "sc_nodes sc' = sc_nodes sc"
    by fastforce
  with b show ?case by (intro exI [of _ "b # h"]) (auto intro: sc_moved_Cons sc_advance_moved)
qed (auto intro: sc_moved_refl)

lemma hex_quad_sound:
  assumes "hex_quad sc = Inr (v, sc')"
  obtains h where "length h = 4" "hex4 0 h = Some v" "sc_moved sc h sc'" "sc_nodes sc' = sc_nodes sc"
  using hex_quad_loop_sound [OF assms [unfolded hex_quad_def]] by blast

definition ascii_of :: "bytes \<Rightarrow> char \<Rightarrow> bool" where
  "ascii_of d a \<longleftrightarrow> (is_lower_hex a \<longrightarrow> d = [a])"

text \<open>What one escape contributes, whatever follows it.\<close>

definition jpiece :: "bytes \<Rightarrow> bytes \<Rightarrow> bool" where
  "jpiece p d \<longleftrightarrow> (\<forall>r e. jchars r e \<longrightarrow> jchars (p @ r) (d @ e))"

lemma jpiece_plain: "31 < byte c \<Longrightarrow> c \<noteq> quote_byte \<Longrightarrow> c \<noteq> backslash \<Longrightarrow> jpiece [c] [c]"
  by (auto simp: jpiece_def intro: jchars_plain)

lemma jpiece_simple: "e \<in> set simple_escapes \<Longrightarrow> jpiece [backslash, e] [unescape e]"
  by (auto simp: jpiece_def intro: jchars_simple)

lemma utf8_encode_ascii: "cp < 128 \<Longrightarrow> utf8_encode cp = [char_of cp]"
  by (simp add: utf8_encode_def)

lemma nul_not_hex: "\<not> is_lower_hex (CHR 0x00)"
  by (simp add: byte_class_defs)

lemma unicode_escape_sound:
  assumes "unicode_escape sc = Inr (n, a, sc')"
  obtains p d where "jpiece (backslash # CHR ''u'' # p) d" "length d = n" "ascii_of d a"
    "sc_moved sc p sc'" "sc_nodes sc' = sc_nodes sc"
proof -
  from assms obtain hi sc1 cp where s: "hex_quad sc = Inr (hi, sc1)" "surrogate_pair hi sc1 = Inr (cp, sc')"
      "is_scalar_value cp" "n = len_utf8 cp" "a = (if cp < 128 then char_of cp else CHR 0x00)"
    by (auto simp: unicode_escape_def and_then_Inr_iff require_ok_iff)
  from s(1) obtain h where h: "length h = 4" "hex4 0 h = Some hi" "sc_moved sc h sc1"
      "sc_nodes sc1 = sc_nodes sc" by (rule hex_quad_sound)
  have asc: "ascii_of (utf8_encode cp) a"
    using s(5) by (auto simp: ascii_of_def utf8_encode_ascii nul_not_hex)
  show thesis
  proof (cases "0xD800 \<le> hi \<and> hi \<le> 0xDBFF")
    case True
    with s(2) obtain lo where lo: "take 2 (sc_rest sc1) = [backslash, CHR ''u'']"
        "hex_quad (sc_advance 2 sc1) = Inr (lo, sc')" "0xDC00 \<le> lo" "lo \<le> 0xDFFF"
        "cp = 0x10000 + (hi - 0xD800) * 1024 + lo - 0xDC00"
      by (auto simp: surrogate_pair_def and_then_Inr_iff require_ok_iff sc_rest_def)
    from lo(2) obtain l where l: "length l = 4" "hex4 0 l = Some lo" "sc_moved (sc_advance 2 sc1) l sc'"
        "sc_nodes sc' = sc_nodes (sc_advance 2 sc1)" by (rule hex_quad_sound)
    have "2 \<le> length (sc_rest sc1)"
    proof -
      have "length (take 2 (sc_rest sc1)) = 2" by (simp only: lo(1)) simp
      then show ?thesis by (simp add: min_def split: if_splits)
    qed
    then have "sc_moved sc1 (take 2 (sc_rest sc1)) (sc_advance 2 sc1)"
      by (intro sc_moved_take) (simp_all add: sc_advance_def)
    with lo(1) h(3) l(3) have "sc_moved sc (h @ backslash # CHR ''u'' # l) sc'"
      by (metis append_Cons append_Nil sc_moved_trans)
    moreover have "jpiece (backslash # CHR ''u'' # h @ backslash # CHR ''u'' # l) (utf8_encode cp)"
      unfolding jpiece_def lo(5)
      using jchars_pair [OF h(1,2) _ _ l(1,2) lo(3,4)] True by simp
    ultimately show thesis
      using that asc h(4) l(4) s(4) by (simp add: length_utf8_encode)
  next
    case False
    with s(2) have "cp = hi" "sc' = sc1" by (auto simp: surrogate_pair_def)
    moreover have "jpiece (backslash # CHR ''u'' # h) (utf8_encode hi)"
      using h s(3) \<open>cp = hi\<close> by (auto simp: jpiece_def intro: jchars_unicode)
    ultimately show thesis
      using that asc h s(4) by (simp add: length_utf8_encode)
  qed
qed

lemma string_step_sound:
  assumes "string_step lim opq n sc = Inr (Some m, sc')"
  obtains p d where "jpiece p d" "m = n + length d" "m \<le> lim" "opq \<longrightarrow> list_all is_lower_hex d"
    "sc_moved sc p sc'" "sc_nodes sc' = sc_nodes sc"
proof -
  from assms obtain b len a where b: "sc_peek sc = Some b" "b \<noteq> quote_byte" "31 < byte b"
      "(if b = backslash then string_escape (sc_advance 1 sc) else Inr (1, b, sc_advance 1 sc)) = Inr (len, a, sc')"
      "m = n + len" "m \<le> lim" "opq \<longrightarrow> is_lower_hex a"
    by (auto simp: string_step_def Let_def and_then_Inr_iff require_ok_iff cap_ok_iff
        split: option.splits if_splits)
  note adv = sc_advance_moved [OF b(1)]
  show thesis
  proof (cases "b = backslash")
    case False
    with b adv show thesis
      by (intro that [of "[b]" "[b]"]) (auto intro: jpiece_plain)
  next
    case True
    with b(4) obtain e where e: "sc_peek (sc_advance 1 sc) = Some e"
        "(if e \<in> set simple_escapes then Inr (1, CHR 0x00, sc_advance 1 (sc_advance 1 sc))
          else if e = CHR ''u'' then unicode_escape (sc_advance 1 (sc_advance 1 sc))
          else Inl InvalidRequest) = Inr (len, a, sc')"
      by (auto simp: string_escape_def Let_def simp del: One_nat_def split: option.splits)
    note adv2 = sc_moved_trans [OF adv sc_advance_moved [OF e(1)], unfolded True]
    show thesis
    proof (cases "e \<in> set simple_escapes")
      case simple: True
      with e b adv2 show thesis
        by (intro that [of "[backslash, e]" "[unescape e]"]) (auto simp: nul_not_hex intro: jpiece_simple)
    next
      case False
      with e(2) have u: "e = CHR ''u''" "unicode_escape (sc_advance 1 (sc_advance 1 sc)) = Inr (len, a, sc')"
        by (auto split: if_splits)
      from u(2) obtain p d where p: "jpiece (backslash # CHR ''u'' # p) d" "length d = len" "ascii_of d a"
          "sc_moved (sc_advance 1 (sc_advance 1 sc)) p sc'" "sc_nodes sc' = sc_nodes sc"
        using unicode_escape_sound by (metis sc_advance_nodes)
      have "sc_moved sc (backslash # CHR ''u'' # p) sc'"
        using sc_moved_trans [OF adv2 p(4)] u(1) by simp
      with that p b show thesis by (auto simp: ascii_of_def)
    qed
  qed
qed

lemma string_loop_sound:
  "string_loop lim opq n sc = Inr (m, sc') \<Longrightarrow> n \<le> lim \<Longrightarrow>
     \<exists>body d. jchars body d \<and> m = n + length d \<and> m \<le> lim \<and> (opq \<longrightarrow> list_all is_lower_hex d) \<and>
       sc_moved sc (body @ [quote_byte]) sc' \<and> sc_nodes sc' = sc_nodes sc"
proof (induction lim opq n sc rule: string_loop.induct)
  case (1 lim opq n sc)
  from "1.prems"(1) consider (stop) "string_step lim opq n sc = Inr (None, sc')" "m = n"
    | (more) k sc1 where "string_step lim opq n sc = Inr (Some k, sc1)" "string_loop lim opq k sc1 = Inr (m, sc')"
    by (subst (asm) string_loop.simps) (auto split: sum.splits option.splits)
  then show ?case
  proof cases
    case stop
    then have "sc_peek sc = Some quote_byte" "sc' = sc_advance 1 sc"
      by (auto simp: string_step_def Let_def and_then_Inr_iff split: option.splits if_splits)
    with stop "1.prems"(2) show ?thesis
      using sc_advance_moved by (intro exI [of _ "[]"]) (auto intro: jchars_nil)
  next
    case more
    from more(1) obtain p d where p: "jpiece p d" "k = n + length d" "k \<le> lim"
        "opq \<longrightarrow> list_all is_lower_hex d" "sc_moved sc p sc1" "sc_nodes sc1 = sc_nodes sc"
      by (rule string_step_sound)
    from "1.IH" [OF more(1) refl refl more(2) p(3)] obtain body e where b: "jchars body e"
        "m = k + length e" "m \<le> lim" "opq \<longrightarrow> list_all is_lower_hex e"
        "sc_moved sc1 (body @ [quote_byte]) sc'" "sc_nodes sc' = sc_nodes sc1" by blast
    with p sc_moved_trans [OF p(5) b(5)] show ?thesis
      by (intro exI [of _ "p @ body"] exI [of _ "d @ e"]) (auto simp: jpiece_def)
  qed
qed

lemma scan_string_sound:
  assumes "scan_string lim opq sc = Inr (raw, sc')"
  obtains d where "jstring raw d" "length d \<le> lim" "opq \<longrightarrow> hex32 raw"
    "sc_moved sc raw sc'" "sc_nodes sc' = sc_nodes sc"
proof -
  from assms obtain n where q: "sc_peek sc = Some quote_byte"
      "string_loop lim opq 0 (sc_advance 1 sc) = Inr (n, sc')" "\<not> opq \<or> n = 32"
      "raw = take (sc_at sc' - sc_at sc) (sc_rest sc)"
    by (auto simp: scan_string_def and_then_Inr_iff require_ok_iff sc_rest_def)
  from string_loop_sound [OF q(2)] obtain body d where b: "jchars body d" "n = length d" "n \<le> lim"
      "opq \<longrightarrow> list_all is_lower_hex d" "sc_moved (sc_advance 1 sc) (body @ [quote_byte]) sc'"
      "sc_nodes sc' = sc_nodes sc" by auto
  have m: "sc_moved sc (quote_byte # body @ [quote_byte]) sc'"
    using sc_moved_Cons [OF sc_advance_moved [OF q(1)] b(5)] .
  then have "raw = quote_byte # body @ [quote_byte]" using q(4) by (auto simp: sc_moved_def)
  with that m b q(3) show thesis by (auto simp: jstring_def hex32_def)
qed

lemma scan_token_sound:
  assumes "scan_token sc = Inr sc'"
  obtains t where "jval (JAtom t) t" "length t \<le> SCALAR_BYTES" "sc_moved sc t sc'" "sc_nodes sc' = sc_nodes sc"
proof -
  define t where "t = takeWhile (\<lambda>b. \<not> is_token_end b) (sc_rest sc)"
  have stop: "run_while (\<lambda>b. \<not> is_token_end b) (sc_bytes sc) (sc_at sc) = sc_at sc + length t"
    by (simp add: run_while_eq t_def sc_rest_def)
  have "take (length t) (sc_rest sc) = t" by (simp add: t_def takeWhile_eq_take [symmetric])
  then have "scan_token sc =
      and_then (checks [require (t \<in> {''null'', ''true'', ''false''} \<or> number t), cap (length t) SCALAR_BYTES])
        (\<lambda>_. Inr (sc\<lparr>sc_at := sc_at sc + length t\<rparr>))"
    by (simp only: scan_token_def Let_def stop add_diff_cancel_left' sc_rest_def)
  with assms have tok: "t \<in> {''null'', ''true'', ''false''} \<or> number t" "length t \<le> SCALAR_BYTES"
      "sc' = sc\<lparr>sc_at := sc_at sc + length t\<rparr>"
    by (auto simp: and_then_Inr_iff result_simps)
  moreover have "sc_moved sc (take (length t) (sc_rest sc)) sc'"
    using tok(3) by (intro sc_moved_take) (simp_all add: t_def length_takeWhile_le)
  ultimately show thesis
    using that \<open>take (length t) _ = t\<close> by (auto intro: jval_atom simp: number_grammar)
qed

lemma scan_key_sound:
  assumes "scan_key dec object keys sc = Inr (field, sc')"
  obtains k kt where "jkey object k kt" "sc_moved sc kt sc'"
    "sc_nodes sc' = sc_nodes sc + (if object then 1 else 0)"
    "object \<longrightarrow> string_within SCALAR_BYTES k \<and> key_field dec k = Some field \<and> field \<notin> set keys"
    "\<not> object \<longrightarrow> field = []"
proof (cases object)
  case False
  with assms that show thesis by (auto simp: scan_key_def jkey_def intro: sc_moved_refl)
next
  case True
  with assms obtain sc1 k sc2 where s: "sc_node sc = Inr sc1"
      "scan_string SCALAR_BYTES False (sc_space sc1) = Inr (k, sc2)"
      "(if backslash \<in> set k then ok_or InvalidRequest (dec k) else Inr (butlast (tl k))) = Inr field"
      "field \<notin> set keys" "sc_peek (sc_space sc2) = Some (CHR '':'')" "sc' = sc_advance 1 (sc_space sc2)"
    by (auto simp: scan_key_def Let_def and_then_Inr_iff require_ok_iff)
  from s(2) obtain d where d: "jstring k d" "length d \<le> SCALAR_BYTES" "sc_moved (sc_space sc1) k sc2"
      "sc_nodes sc2 = sc_nodes (sc_space sc1)" using scan_string_sound by metis
  obtain a b where a: "jws a" "sc_moved sc1 a (sc_space sc1)" and b: "jws b" "sc_moved sc2 b (sc_space sc2)"
    using sc_space_moved by meson
  have "sc_moved sc1 (a @ k @ b @ [CHR '':'']) sc'"
    using sc_moved_trans [OF a(2) sc_moved_trans [OF d(3) sc_moved_trans [OF b(2) sc_advance_moved [OF s(5)]]]] s(6)
    by simp
  then have "sc_moved sc (a @ k @ b @ [CHR '':'']) sc'"
    using s(1) by (auto simp: sc_node_ok sc_moved_def sc_rest_def)
  moreover have "key_field dec k = Some field"
    using s(3) by (auto simp: key_field_def ok_or_Inr_iff split: if_splits)
  ultimately show thesis
    using True a b d s by (intro that [of k "a @ k @ b @ [CHR '':'']"])
      (auto simp: jkey_def string_within_def sc_node_ok)
qed

section \<open>Values are admitted soundly\<close>

lemma jval_hd:
  assumes "jval t x"
  shows "x \<noteq> []" "hd x = quote_byte \<Longrightarrow> \<exists>raw. t = JStr raw" "hd x = CHR ''{'' \<Longrightarrow> \<exists>its. t = JNode True its"
proof -
  have num: "x \<noteq> [] \<and> (hd x = CHR ''-'' \<or> is_ascii_digit (hd x))" if "json_number x"
    using that by (auto simp: json_number_def json_int_def is_ascii_digit_def)
  show "x \<noteq> []"
    using assms num by (cases rule: jval.cases) (auto simp: jstring_def)
  show "\<exists>raw. t = JStr raw" if "hd x = quote_byte"
    using assms num that by (cases rule: jval.cases) (auto simp: byte_class_defs open_byte_def split: if_splits)
  show "\<exists>its. t = JNode True its" if "hd x = CHR ''{''"
    using assms num that by (cases rule: jval.cases) (auto simp: byte_class_defs open_byte_def jstring_def split: if_splits)
qed

lemma jws_append: "jws (a @ b) \<longleftrightarrow> jws a \<and> jws b"
  by (auto simp: jws_def)

lemma jkey_ws: "jkey True k kt \<Longrightarrow> jws w \<Longrightarrow> jkey True k (w @ kt)"
  by (auto simp: jkey_def) (metis append.assoc jws_append)

lemma jkey_ws_split:
  assumes "jkey object k kt" "jws a" "jws w"
  obtains kt' a' where "jkey object k kt'" "jws a'" "w @ kt @ a = kt' @ a'"
proof (cases object)
  case True
  with assms that [of "w @ kt" a] show thesis by (auto intro: jkey_ws)
next
  case False
  with assms that [of "[]" "w @ a"] show thesis by (auto simp: jkey_def jws_append)
qed

lemma jitems_cases:
  assumes "jitems object its y"
  obtains (one) k kt a t x b where "its = [(k, t)]" "y = kt @ a @ x @ b"
      "jkey object k kt" "jws a" "jval t x" "jws b"
    | (more) k kt a t x b its' y' where "its = (k, t) # its'" "y = kt @ a @ x @ b @ CHR '','' # y'"
      "jkey object k kt" "jws a" "jval t x" "jws b" "jitems object its' y'"
  using assms
proof cases
  case jitems_one
  then show thesis by (intro one) 
next
  case jitems_more
  then show thesis by (intro more)
qed

lemma jitems_ws:
  assumes "jitems object its y" "jws w"
  shows "jitems object its (w @ y)"
  using assms(1)
proof (cases rule: jitems_cases)
  case (one k kt a t x b)
  obtain kt' a' where k: "jkey object k kt'" "jws a'" "w @ kt @ a = kt' @ a'"
    by (rule jkey_ws_split [OF one(3,4) assms(2)])
  have "w @ y = kt' @ a' @ x @ b" using arg_cong [OF k(3), of "\<lambda>z. z @ x @ b"] one(2) by simp
  with jitems_one [OF k(1,2) one(5,6)] one(1) show ?thesis by simp
next
  case (more k kt a t x b its' y')
  obtain kt' a' where k: "jkey object k kt'" "jws a'" "w @ kt @ a = kt' @ a'"
    by (rule jkey_ws_split [OF more(3,4) assms(2)])
  have "w @ y = kt' @ a' @ x @ b @ CHR '','' # y'"
    using arg_cong [OF k(3), of "\<lambda>z. z @ x @ b @ CHR '','' # y'"] more(2) by simp
  with jitems_more [OF k(1,2) more(5-7)] more(1) show ?thesis by simp
qed

text \<open>
  What a completed scan of one value establishes, and of the items of a node up to and including
  its closing byte.
\<close>

definition binding_shape :: "jtree \<Rightarrow> bool" where
  "binding_shape t \<longleftrightarrow> (\<forall>raw. t = JStr raw \<longrightarrow> hex32 raw) \<and>
     (\<forall>its. t = JNode True its \<longrightarrow> (\<forall>p\<in>set its. opaque_string (snd p)))"

definition value_scanned :: "(bytes \<Rightarrow> bytes option) \<Rightarrow> nat \<Rightarrow> nat \<Rightarrow> bool \<Rightarrow> Scanner \<Rightarrow> Scanner \<Rightarrow> bytes \<Rightarrow> jtree \<Rightarrow> bytes \<Rightarrow> bool" where
  "value_scanned dec lim depth binding sc sc' w t x \<longleftrightarrow>
     jws w \<and> jval t x \<and> sc_moved sc (w @ x) sc' \<and>
     sc_nodes sc' = sc_nodes sc + jnodes t \<and> sc_nodes sc' \<le> MAX_NODES \<and>
     depth + jdepth t \<le> Suc MAX_DEPTH \<and> jbounded dec lim t \<and>
     (binding \<longrightarrow> binding_shape t) \<and>
     (sc_frame sc \<and> depth = 1 \<longrightarrow> (\<forall>its. t = JNode True its \<longrightarrow> frame_binding_ok dec its))"

definition items_scanned :: "(bytes \<Rightarrow> bytes option) \<Rightarrow> nat \<Rightarrow> nat \<Rightarrow> bool \<Rightarrow> bool \<Rightarrow> bytes list \<Rightarrow> Scanner \<Rightarrow> Scanner
    \<Rightarrow> (bytes \<times> jtree) list \<Rightarrow> bytes \<Rightarrow> bool" where
  "items_scanned dec lim depth binding object keys sc sc' its y \<longleftrightarrow>
     jitems object its y \<and> sc_moved sc (y @ [close_byte object]) sc' \<and>
     sc_nodes sc' = sc_nodes sc + item_nodes object its \<and> sc_nodes sc' \<le> MAX_NODES \<and>
     (\<forall>p\<in>set its. depth + jdepth (snd p) \<le> MAX_DEPTH \<and> jbounded dec lim (snd p)) \<and>
     (object \<longrightarrow> keys_ok dec (map fst its) \<and> (\<forall>p\<in>set its. key_field dec (fst p) \<notin> Some ` set keys) \<and>
        (binding \<longrightarrow> (\<forall>p\<in>set its. opaque_string (snd p))) \<and>
        (sc_frame sc \<and> depth = 1 \<longrightarrow> frame_binding_ok dec its))"

lemma value_scanned_string:
  assumes "scan_string smax binding (sc_space sc1) = Inr (raw, sc')" "smax \<le> lim"
    "sc_node sc = Inr sc1" "depth \<le> MAX_DEPTH"
  shows "\<exists>w t x. value_scanned dec lim depth binding sc sc' w t x"
proof -
  from assms(1) obtain d where d: "jstring raw d" "length d \<le> smax" "binding \<longrightarrow> hex32 raw"
      "sc_moved (sc_space sc1) raw sc'" "sc_nodes sc' = sc_nodes sc1"
    using scan_string_sound by (metis sc_space_nodes)
  obtain w where w: "jws w" "sc_moved sc1 w (sc_space sc1)" using sc_space_moved by blast
  have "sc_moved sc (w @ raw) sc'"
    using sc_moved_trans [OF w(2) d(4)] assms(3) by (auto simp: sc_node_ok sc_moved_def sc_rest_def)
  with d w assms show ?thesis
    by (intro exI [of _ w] exI [of _ "JStr raw"] exI [of _ raw])
      (auto simp: value_scanned_def binding_shape_def string_within_def sc_node_ok intro!: jval_str)
qed

lemma value_scanned_token:
  assumes "scan_token (sc_space sc1) = Inr sc'" "sc_node sc = Inr sc1" "depth \<le> MAX_DEPTH"
  shows "\<exists>w t x. value_scanned dec lim depth binding sc sc' w t x"
proof -
  from assms(1) obtain t where t: "jval (JAtom t) t" "length t \<le> SCALAR_BYTES"
      "sc_moved (sc_space sc1) t sc'" "sc_nodes sc' = sc_nodes sc1"
    using scan_token_sound by (metis sc_space_nodes)
  obtain w where w: "jws w" "sc_moved sc1 w (sc_space sc1)" using sc_space_moved by blast
  have "sc_moved sc (w @ t) sc'"
    using sc_moved_trans [OF w(2) t(3)] assms(2) by (auto simp: sc_node_ok sc_moved_def sc_rest_def)
  with t w assms show ?thesis
    by (intro exI [of _ w] exI [of _ "JAtom t"] exI [of _ t])
      (auto simp: value_scanned_def binding_shape_def sc_node_ok)
qed

text \<open>An empty or a filled node, given how its inside was scanned.\<close>

lemma value_scanned_node:
  assumes "sc_node sc = Inr sc1" "depth \<le> MAX_DEPTH" "sc_peek (sc_space sc1) = Some (open_byte object)"
    and inner: "(its = [] \<and> y = [] \<and> sc_peek sc3 = Some (close_byte object) \<and> sc' = sc_advance 1 sc3) \<or>
      items_scanned dec lim depth binding object [] sc3 sc' its y"
    and sc3: "sc3 = sc_space (sc_advance 1 (sc_space sc1))"
  shows "\<exists>w t x. value_scanned dec lim depth binding sc sc' w t x"
proof -
  obtain w where w: "jws w" "sc_moved sc1 w (sc_space sc1)" using sc_space_moved by blast
  obtain v where v: "jws v" "sc_moved (sc_advance 1 (sc_space sc1)) v sc3"
    using sc_space_moved sc3 by blast
  have in_moved: "sc_moved sc3 (y @ [close_byte object]) sc'"
    using inner by (auto simp: items_scanned_def dest: sc_advance_moved)
  have m: "sc_moved sc (w @ open_byte object # (v @ y) @ [close_byte object]) sc'"
    using sc_moved_trans [OF w(2) sc_moved_Cons [OF sc_advance_moved [OF assms(3)] sc_moved_trans [OF v(2) in_moved]]]
      assms(1) by (auto simp: sc_node_ok sc_moved_def sc_rest_def)
  have val: "jval (JNode object its) (open_byte object # (v @ y) @ [close_byte object])"
    using inner
  proof
    assume "items_scanned dec lim depth binding object [] sc3 sc' its y"
    then show ?thesis by (intro jval_node jitems_ws v(1)) (simp add: items_scanned_def)
  qed (use v(1) jval_empty in auto)
  have fr: "sc_frame sc3 = sc_frame sc" "sc_nodes sc3 = Suc (sc_nodes sc)" "Suc (sc_nodes sc) \<le> MAX_NODES"
    using assms(1) v(2) sc3 by (auto simp: sc_node_ok sc_space_def sc_advance_def)
  have d: "depth + jdepth (JNode object its) \<le> Suc MAX_DEPTH"
    using inner assms(2) jdepth_node_le [of object its "MAX_DEPTH - depth"]
    by (fastforce simp: items_scanned_def)
  have n: "sc_nodes sc' = sc_nodes sc + jnodes (JNode object its)" "sc_nodes sc' \<le> MAX_NODES"
    using inner fr(2,3) by (auto simp: items_scanned_def jnodes_node item_nodes_def)
  have b: "jbounded dec lim (JNode object its)"
    using inner by (auto simp: items_scanned_def jbounded_node keys_ok_def)
  have bs: "binding \<longrightarrow> binding_shape (JNode object its)"
    using inner by (auto simp: items_scanned_def binding_shape_def)
  have fb: "sc_frame sc \<and> depth = 1 \<longrightarrow> (object \<longrightarrow> frame_binding_ok dec its)"
    using inner fr(1) by (auto simp: items_scanned_def frame_binding_ok_def)
  show ?thesis
    using w(1) m val d n b bs fb unfolding value_scanned_def by blast
qed

text \<open>One member: its key, its value and the space after it.\<close>

definition item_text :: "bool \<Rightarrow> bytes \<Rightarrow> jtree \<Rightarrow> bytes \<Rightarrow> bool" where
  "item_text object k t y \<longleftrightarrow>
     (\<exists>kt a x b. jkey object k kt \<and> jws a \<and> jval t x \<and> jws b \<and> y = kt @ a @ x @ b)"

definition item_scanned :: "(bytes \<Rightarrow> bytes option) \<Rightarrow> nat \<Rightarrow> nat \<Rightarrow> bool \<Rightarrow> bool \<Rightarrow> bytes list \<Rightarrow> Scanner \<Rightarrow> Scanner
    \<Rightarrow> bytes \<Rightarrow> bytes \<Rightarrow> jtree \<Rightarrow> bytes \<Rightarrow> bool" where
  "item_scanned dec lim depth binding object keys sc sc' field k t y \<longleftrightarrow>
     item_text object k t y \<and> sc_moved sc y sc' \<and>
     sc_nodes sc' = sc_nodes sc + (if object then 1 else 0) + jnodes t \<and> sc_nodes sc' \<le> MAX_NODES \<and>
     depth + jdepth t \<le> MAX_DEPTH \<and> jbounded dec lim t \<and>
     (object \<longrightarrow> string_within SCALAR_BYTES k \<and> key_field dec k = Some field \<and> field \<notin> set keys \<and>
        (binding \<longrightarrow> opaque_string t) \<and>
        (sc_frame sc \<and> depth = 1 \<and> field = ''binding'' \<longrightarrow> opaque_object t))"

lemma scanned_starts_with:
  assumes "value_scanned dec lim depth binding sc sc' w t x" "sc_peek sc = Some c" "\<not> is_json_space c"
  shows "hd x = c"
proof -
  obtain r where r: "sc_rest sc = c # r" using assms(2) sc_peek_Some by blast
  have "w = []" using assms r by (cases w) (auto simp: value_scanned_def sc_moved_def jws_def)
  moreover have "x \<noteq> []" using assms(1) jval_hd(1) by (auto simp: value_scanned_def)
  ultimately show ?thesis using assms(1) r by (cases x) (auto simp: value_scanned_def sc_moved_def)
qed

lemma scanned_quote_opaque:
  assumes "value_scanned dec lim depth True sc sc' w t x" "sc_peek sc = Some quote_byte"
  shows "opaque_string t"
proof -
  have "hd x = quote_byte" using scanned_starts_with [OF assms] by (simp add: is_json_space_def)
  moreover have "jval t x" using assms(1) by (simp add: value_scanned_def)
  ultimately obtain raw where "t = JStr raw" using jval_hd(2) by blast
  with assms(1) show ?thesis by (simp add: value_scanned_def binding_shape_def opaque_string_def)
qed

lemma scanned_brace_opaque:
  assumes "value_scanned dec lim depth True sc sc' w t x" "sc_peek sc = Some (CHR ''{'')"
  shows "opaque_object t"
proof -
  have "hd x = CHR ''{''" using scanned_starts_with [OF assms] by (simp add: is_json_space_def)
  moreover have "jval t x" using assms(1) by (simp add: value_scanned_def)
  ultimately obtain its where "t = JNode True its" using jval_hd(3) by blast
  with assms(1) show ?thesis by (simp add: value_scanned_def binding_shape_def opaque_object_def)
qed

lemma item_scanned_intro:
  assumes key: "scan_key dec object keys sc = Inr (field, sc1)"
    and guard: "field_guard (binding \<and> object) child (sc_space sc1) = Inr ()"
    and child: "child = (sc_frame (sc_space sc1) \<and> depth = 1 \<and> field = ''binding'')"
    and val: "value_scanned dec lim (Suc depth) (binding \<and> object \<or> child) (sc_space sc1) sc3 w t x"
  shows "\<exists>k y. item_scanned dec lim depth binding object keys sc (sc_space sc3) field k t y"
proof -
  from key obtain k kt where k: "jkey object k kt" "sc_moved sc kt sc1"
    "sc_nodes sc1 = sc_nodes sc + (if object then 1 else 0)"
    "object \<longrightarrow> string_within SCALAR_BYTES k \<and> key_field dec k = Some field \<and> field \<notin> set keys"
    by (rule scan_key_sound)
  obtain a where a: "jws a" "sc_moved sc1 a (sc_space sc1)" using sc_space_moved by blast
  obtain b where b: "jws b" "sc_moved sc3 b (sc_space sc3)" using sc_space_moved by blast
  have v: "jws w" "jval t x" "sc_moved (sc_space sc1) (w @ x) sc3" "sc_nodes sc3 = sc_nodes sc1 + jnodes t"
    "sc_nodes sc3 \<le> MAX_NODES" "depth + jdepth t \<le> MAX_DEPTH" "jbounded dec lim t"
    using val by (auto simp: value_scanned_def)
  have y: "sc_moved sc (kt @ (a @ w) @ x @ b) (sc_space sc3)"
    using sc_moved_trans [OF k(2) sc_moved_trans [OF a(2) sc_moved_trans [OF v(3) b(2)]]] by simp
  have fr: "sc_frame (sc_space sc1) = sc_frame sc" using k(2) by (simp add: sc_moved_def sc_space_def)
  have g: "binding \<and> object \<Longrightarrow> sc_peek (sc_space sc1) = Some quote_byte"
    "child \<Longrightarrow> sc_peek (sc_space sc1) = Some (CHR ''{'')"
    using guard by (auto simp: field_guard_def result_simps split: if_splits)
  have o1: "binding \<and> object \<Longrightarrow> opaque_string t" using scanned_quote_opaque val g(1) by simp
  have o2: "child \<Longrightarrow> opaque_object t" using scanned_brace_opaque val g(2) by simp
  have ex: "item_text object k t (kt @ (a @ w) @ x @ b)"
    unfolding item_text_def using k(1) a(1) v(1,2) b(1) jws_append by blast
  show ?thesis
    unfolding item_scanned_def
    using ex y k(3,4) v(4-7) o1 o2 fr child
    by (intro exI [of _ k] exI [of _ "kt @ (a @ w) @ x @ b"]) auto
qed

lemma items_scanned_last:
  assumes "item_scanned dec lim depth binding object keys sc sc1 field k t y" "sc_peek sc1 = Some (close_byte object)"
  shows "\<exists>its y. items_scanned dec lim depth binding object keys sc (sc_advance 1 sc1) its y"
proof -
  have "sc_moved sc (y @ [close_byte object]) (sc_advance 1 sc1)"
    using sc_moved_trans [OF _ sc_advance_moved [OF assms(2)]] assms(1) by (simp add: item_scanned_def)
  moreover have "jitems object [(k, t)] y"
    using assms(1) by (auto simp: item_scanned_def item_text_def intro: jitems_one)
  ultimately show ?thesis
    using assms(1) by (intro exI [of _ "[(k, t)]"] exI [of _ y])
      (auto simp: items_scanned_def item_scanned_def item_nodes_def keys_ok_def frame_binding_ok_def)
qed

lemma items_scanned_more:
  assumes one: "item_scanned dec lim depth binding object keys sc sc1 field k t y" "sc_peek sc1 = Some (CHR '','')"
    and more: "items_scanned dec lim depth binding object (if object then field # keys else keys) (sc_advance 1 sc1) sc' its z"
  shows "\<exists>its y. items_scanned dec lim depth binding object keys sc sc' its y"
proof -
  have m: "sc_moved sc ((y @ CHR '','' # z) @ [close_byte object]) sc'"
    using sc_moved_trans [OF _ sc_moved_Cons [OF sc_advance_moved [OF one(2)]]] one(1) more
    by (simp add: item_scanned_def items_scanned_def)
  obtain kt a x b where "jkey object k kt" "jws a" "jval t x" "jws b" "y = kt @ a @ x @ b"
    using one(1) by (auto simp: item_scanned_def item_text_def)
  moreover have "jitems object its z" using more by (simp add: items_scanned_def)
  ultimately have j: "jitems object ((k, t) # its) (y @ CHR '','' # z)"
    using jitems_more [of object k kt a t x b its z] by simp
  have fr: "sc_frame (sc_advance 1 sc1) = sc_frame sc" using one(1) by (simp add: item_scanned_def sc_moved_def sc_advance_def)
  have ko: "object \<longrightarrow> keys_ok dec (map fst ((k, t) # its))"
    using one(1) more by (force simp: item_scanned_def items_scanned_def keys_ok_def)
  have "sc_nodes sc' = sc_nodes sc + item_nodes object ((k, t) # its)"
    using one(1) more by (simp add: item_scanned_def items_scanned_def item_nodes_def)
  with m j fr ko one(1) more show ?thesis
    by (intro exI [of _ "(k, t) # its"] exI [of _ "y @ CHR '','' # z"])
      (auto simp: items_scanned_def item_scanned_def frame_binding_ok_def)
qed

definition covers :: "nat \<Rightarrow> Scanner \<Rightarrow> bool" where
  "covers lim sc \<longleftrightarrow> sc_scalar_max sc \<le> lim \<and> 32 \<le> lim \<and> (sc_frame sc \<longrightarrow> SCALAR_BYTES * 2 \<le> lim)"

lemma covers_moved: "sc_moved sc x sc' \<Longrightarrow> covers lim sc' = covers lim sc"
  by (simp add: covers_def sc_moved_def)

lemma covers_keeps [simp]:
  "covers lim (sc_space sc) = covers lim sc" "covers lim (sc_advance n sc) = covers lim sc"
  "covers lim (sc\<lparr>sc_nodes := n\<rparr>) = covers lim sc"
  by (simp_all add: covers_def sc_space_def sc_advance_def)

lemma covers_field: "covers lim sc \<Longrightarrow> field_scalar_max bf field sc \<le> lim"
  by (simp add: covers_def field_scalar_max_def)

lemma scan_value_ok_cases:
  assumes "scan_value dec (Suc fuel) depth binding smax sc = Some (Inr sc')"
  obtains (string) sc1 raw where "depth \<le> MAX_DEPTH" "sc_node sc = Inr sc1"
      "scan_string smax binding (sc_space sc1) = Inr (raw, sc')"
    | (token) sc1 where "depth \<le> MAX_DEPTH" "sc_node sc = Inr sc1" "scan_token (sc_space sc1) = Inr sc'"
    | (node) sc1 sc3 object where "depth \<le> MAX_DEPTH" "sc_node sc = Inr sc1"
      "sc_peek (sc_space sc1) = Some (open_byte object)" "sc3 = sc_space (sc_advance 1 (sc_space sc1))"
      "sc_peek sc3 = Some (close_byte object) \<and> sc' = sc_advance 1 sc3 \<or>
       scan_members dec fuel depth binding object [] sc3 = Some (Inr sc')"
proof -
  from assms obtain sc1 b where h: "depth \<le> MAX_DEPTH" "sc_node sc = Inr sc1" "sc_peek (sc_space sc1) = Some b"
    by (auto simp: and_then_Inr_iff cap_ok_iff Let_def split: sum.splits option.splits)
  note run = assms [unfolded scan_value.simps, simplified h(2), simplified, simplified h(3), simplified]
  consider "b = quote_byte" | object where "b \<noteq> quote_byte" "b = open_byte object"
    | "b \<noteq> quote_byte" "b \<noteq> CHR ''{''" "b \<noteq> CHR ''[''"
    by (metis open_byte_def)
  then show thesis
  proof cases
    case 1
    with run h string show thesis
      by (cases "scan_string smax binding (sc_space sc1)") (auto simp: Let_def cap_def)
  next
    case 2
    let ?sc3 = "sc_space (sc_advance 1 (sc_space sc1))"
    have o: "(b = CHR ''{'') = object" "b = CHR ''{'' \<or> b = CHR ''[''"
      using 2(2) by (auto simp: open_byte_def)
    have "(if sc_peek ?sc3 = Some (close_byte object) then Some (Inr (sc_advance 1 ?sc3))
           else scan_members dec fuel depth binding object [] ?sc3) = Some (Inr sc')"
      using run 2(1) o h by (simp add: Let_def cap_def del: One_nat_def split: if_splits)
    with h 2(2) show thesis by (intro node [of sc1 object ?sc3]) (auto split: if_splits)
  next
    case 3
    with run h token show thesis by (auto simp: Let_def cap_def)
  qed
qed

lemma scan_members_ok_cases:
  assumes "scan_members dec (Suc fuel) depth binding object keys sc = Some (Inr sc')"
  obtains field sc1 child sc3 where "scan_key dec object keys sc = Inr (field, sc1)"
    "child = (sc_frame (sc_space sc1) \<and> depth = 1 \<and> field = ''binding'')"
    "field_guard (binding \<and> object) child (sc_space sc1) = Inr ()"
    "scan_value dec fuel (Suc depth) (binding \<and> object \<or> child)
       (field_scalar_max (binding \<and> object) field (sc_space sc1)) (sc_space sc1) = Some (Inr sc3)"
    "sc_peek (sc_space sc3) = Some (CHR '','') \<and>
       scan_members dec fuel depth binding object (if object then field # keys else keys)
         (sc_advance 1 (sc_space sc3)) = Some (Inr sc') \<or>
     sc_peek (sc_space sc3) = Some (close_byte object) \<and> sc' = sc_advance 1 (sc_space sc3)"
proof -
  from assms obtain field sc1 where k: "scan_key dec object keys sc = Inr (field, sc1)"
    by (auto split: sum.splits)
  note run = assms [unfolded scan_members.simps Let_def, simplified k, simplified]
  let ?child = "sc_frame (sc_space sc1) \<and> depth = 1 \<and> field = ''binding''"
  from run have g: "field_guard (binding \<and> object) ?child (sc_space sc1) = Inr ()"
    by (simp split: sum.splits)
  note run2 = run [simplified g [simplified], simplified]
  from run2 obtain sc3 where v: "scan_value dec fuel (Suc depth) (binding \<and> object \<or> ?child)
       (field_scalar_max (binding \<and> object) field (sc_space sc1)) (sc_space sc1) = Some (Inr sc3)"
    by (simp split: option.splits sum.splits)
  note run3 = run2 [simplified v [simplified], simplified]
  show thesis
    by (rule that [OF k refl g v]) (use run3 in \<open>auto split: sum.splits if_splits\<close>)
qed

lemma scan_sound:
  "scan_value dec fuel depth binding smax sc = Some (Inr sc') \<Longrightarrow> smax \<le> lim \<Longrightarrow> covers lim sc \<Longrightarrow>
     \<exists>w t x. value_scanned dec lim depth binding sc sc' w t x"
  "scan_members dec fuel depth binding object keys sc = Some (Inr sc') \<Longrightarrow> covers lim sc \<Longrightarrow>
     \<exists>its y. items_scanned dec lim depth binding object keys sc sc' its y"
proof (induction fuel arbitrary: depth binding smax object keys sc sc')
  case (Suc fuel)
  { case 1
    from 1(1) show ?case
    proof (cases rule: scan_value_ok_cases)
      case (string sc1 raw)
      with 1 show ?thesis by (intro value_scanned_string)
    next
      case (token sc1)
      then show ?thesis by (intro value_scanned_token)
    next
      case (node sc1 sc3 object)
      have "covers lim sc3" using 1(3) node(2,4) by (simp add: sc_node_ok)
      with node(5) Suc.IH(2) have "\<exists>its y.
        (its = [] \<and> y = [] \<and> sc_peek sc3 = Some (close_byte object) \<and> sc' = sc_advance 1 sc3) \<or>
         items_scanned dec lim depth binding object [] sc3 sc' its y" by metis
      with value_scanned_node [OF node(2,1,3) _ node(4)] show ?thesis by metis
    qed
  next
    case 2
    from 2(1) obtain field sc1 child sc3 where m: "scan_key dec object keys sc = Inr (field, sc1)"
      "child = (sc_frame (sc_space sc1) \<and> depth = 1 \<and> field = ''binding'')"
      "field_guard (binding \<and> object) child (sc_space sc1) = Inr ()"
      "scan_value dec fuel (Suc depth) (binding \<and> object \<or> child)
         (field_scalar_max (binding \<and> object) field (sc_space sc1)) (sc_space sc1) = Some (Inr sc3)"
      and tail: "sc_peek (sc_space sc3) = Some (CHR '','') \<and>
         scan_members dec fuel depth binding object (if object then field # keys else keys)
           (sc_advance 1 (sc_space sc3)) = Some (Inr sc') \<or>
       sc_peek (sc_space sc3) = Some (close_byte object) \<and> sc' = sc_advance 1 (sc_space sc3)"
      by (rule scan_members_ok_cases)
    from m(1) obtain kt where "sc_moved sc kt sc1" by (rule scan_key_sound)
    with 2(2) have c1: "covers lim (sc_space sc1)" by (simp add: covers_moved)
    then obtain w t x where v: "value_scanned dec lim (Suc depth) (binding \<and> object \<or> child) (sc_space sc1) sc3 w t x"
      using Suc.IH(1) [OF m(4)] covers_field by blast
    then obtain k y where i: "item_scanned dec lim depth binding object keys sc (sc_space sc3) field k t y"
      using item_scanned_intro [OF m(1,3,2)] by blast
    from v c1 have "covers lim (sc_advance 1 (sc_space sc3))"
      using covers_moved by (auto simp: value_scanned_def)
    with tail Suc.IH(2) consider its z where "sc_peek (sc_space sc3) = Some (CHR '','')"
          "items_scanned dec lim depth binding object (if object then field # keys else keys)
             (sc_advance 1 (sc_space sc3)) sc' its z"
        | "sc_peek (sc_space sc3) = Some (close_byte object)" "sc' = sc_advance 1 (sc_space sc3)"
      by blast
    then show ?case
    proof cases
      case 1
      then show ?thesis by (rule items_scanned_more [OF i])
    next
      case 2
      with items_scanned_last [OF i] show ?thesis by simp
    qed
  }
qed simp_all

section \<open>The supplied fuel is enough\<close>

lemma sc_moved_shrinks: "sc_moved sc x sc' \<Longrightarrow> length (sc_rest sc) = length x + length (sc_rest sc')"
  by (simp add: sc_moved_def)

lemma sc_space_shrinks: "length (sc_rest (sc_space sc)) \<le> length (sc_rest sc)"
  using sc_space_moved [of sc] sc_moved_shrinks by fastforce

lemma sc_advance_shrinks: "sc_peek sc = Some c \<Longrightarrow> length (sc_rest (sc_advance 1 sc)) < length (sc_rest sc)"
  using sc_advance_moved sc_moved_shrinks by fastforce

lemma sc_node_rest: "sc_node sc = Inr sc1 \<Longrightarrow> sc_rest sc1 = sc_rest sc"
  by (simp add: sc_node_ok sc_rest_def)

lemma scan_key_shrinks: "scan_key dec object keys sc = Inr (field, sc1) \<Longrightarrow> length (sc_rest sc1) \<le> length (sc_rest sc)"
  by (erule scan_key_sound) (simp add: sc_moved_shrinks)

lemma scan_value_shrinks:
  assumes "scan_value dec fuel depth binding smax sc = Some (Inr sc')"
  shows "length (sc_rest sc') \<le> length (sc_rest sc)"
proof -
  let ?lim = "max smax (max (sc_scalar_max sc) (max 32 (SCALAR_BYTES * 2)))"
  have "covers ?lim sc" by (simp add: covers_def le_max_iff_disj)
  then obtain w t x where "value_scanned dec ?lim depth binding sc sc' w t x"
    using scan_sound(1) [OF assms, of ?lim] by auto
  then show ?thesis by (auto simp: value_scanned_def dest!: sc_moved_shrinks)
qed

lemma scan_fuel_enough:
  "2 * length (sc_rest sc) < fuel \<Longrightarrow> scan_value dec fuel depth binding smax sc \<noteq> None"
  "2 * length (sc_rest sc) + 1 < fuel \<Longrightarrow> scan_members dec fuel depth binding object keys sc \<noteq> None"
proof (induction fuel arbitrary: depth binding smax object keys sc)
  case (Suc fuel)
  { case 1
    have inner: "scan_members dec fuel depth binding object [] (sc_space (sc_advance 1 (sc_space sc1))) \<noteq> None"
      if "sc_node sc = Inr sc1" "sc_peek (sc_space sc1) = Some c" for sc1 c object
      using Suc.IH(2) 1 sc_node_rest [OF that(1)] sc_advance_shrinks [OF that(2)] sc_space_shrinks [of sc1]
        sc_space_shrinks [of "sc_advance 1 (sc_space sc1)"] by fastforce
    then show ?case
      by (auto simp: Let_def and_then_Inr_iff simp del: One_nat_def split: sum.splits option.splits)
  next
    case 2
    have val: "scan_value dec fuel d bd smax (sc_space sc1) \<noteq> None"
      if "scan_key dec object keys sc = Inr (field, sc1)" for object sc1 field d bd smax
      using Suc.IH(1) 2 scan_key_shrinks [OF that] sc_space_shrinks [of sc1] by fastforce
    have rest: "scan_members dec fuel depth binding object ks (sc_advance 1 (sc_space sc3)) \<noteq> None"
      if "scan_key dec object keys sc = Inr (field, sc1)" "scan_value dec fuel d bd smax (sc_space sc1) = Some (Inr sc3)"
        "sc_peek (sc_space sc3) = Some c" for object sc1 sc3 field d bd smax ks c
    proof -
      have "length (sc_rest (sc_advance 1 (sc_space sc3))) < length (sc_rest sc)"
        using scan_key_shrinks [OF that(1)] scan_value_shrinks [OF that(2)] sc_advance_shrinks [OF that(3)]
          sc_space_shrinks [of sc1] sc_space_shrinks [of sc3] by simp
      with Suc.IH(2) 2 show ?thesis by simp
    qed
    show ?case
      by (auto simp: Let_def val simp del: One_nat_def split: sum.splits option.splits
          intro!: rest [unfolded not_None_eq] dest!: val [THEN notE, rotated])
  }
qed simp_all

text \<open>
  C19: the recursive scanner always returns, with a verdict, on every input: the recursion it runs
  is bounded by the length of the input, whatever the bytes, the caps and the key decoder are.
\<close>

theorem scan_json_total: "\<exists>verdict. scan_json_opt dec b lim frame scalar_max = Some verdict"
proof -
  let ?sc = "\<lparr>sc_bytes = b, sc_at = 0, sc_nodes = 0, sc_frame = frame, sc_scalar_max = scalar_max\<rparr>"
  have "scan_value dec (scan_fuel b) 1 False scalar_max ?sc \<noteq> None"
    by (rule scan_fuel_enough(1)) (simp add: sc_rest_def scan_fuel_def)
  then show ?thesis
    by (auto simp: scan_json_opt_def split: sum.splits option.splits)
qed

section \<open>Admitted texts\<close>

lemma scan_json_sound:
  assumes "scan_json dec b lim frame scalar_max = Inr ()"
    and "scalar_max \<le> u" "32 \<le> u" "frame \<longrightarrow> SCALAR_BYTES * 2 \<le> u"
  obtains w t x v where "b = w @ x @ v" "jws w" "jws v" "jval t x" "jdepth t \<le> MAX_DEPTH"
    "jnodes t \<le> MAX_NODES" "jbounded dec u t" "length b \<le> lim" "utf8_valid b"
    "\<And>its. frame \<Longrightarrow> t = JNode True its \<Longrightarrow> frame_binding_ok dec its"
proof -
  let ?sc = "\<lparr>sc_bytes = b, sc_at = 0, sc_nodes = 0, sc_frame = frame, sc_scalar_max = scalar_max\<rparr>"
  from assms(1) obtain sc where s: "length b \<le> lim" "utf8_valid b"
      "scan_value dec (scan_fuel b) 1 False scalar_max ?sc = Some (Inr sc)" "sc_at (sc_space sc) = length b"
    by (auto simp: scan_json_def scan_json_opt_def result_simps and_then_Inl_iff split: option.splits sum.splits)
  have "covers u ?sc" using assms by (simp add: covers_def)
  from scan_sound(1) [OF s(3) assms(2) this] obtain w t x where
    v: "value_scanned dec u 1 False ?sc sc w t x" by blast
  obtain z where z: "jws z" "sc_moved sc z (sc_space sc)" using sc_space_moved by blast
  have "sc_moved ?sc (w @ x) sc" using v by (simp add: value_scanned_def)
  from sc_moved_trans [OF this z(2)] have "b = w @ x @ z"
    using s(4) by (auto simp: sc_moved_def sc_rest_def)
  with that [of w x z t] v z s(1,2) show thesis by (auto simp: value_scanned_def)
qed

text \<open>
  C20: a text that \<^verbatim>\<open>bounds::json\<close> or \<^verbatim>\<open>bounds::source_json\<close> admits is one JSON value of the reference
  grammar, surrounded by white space, of at most \<open>MAX_DEPTH\<close> levels and \<open>MAX_NODES\<close> nodes, in which
  every decoded string is within the scalar cap and no object repeats a decoded key.
\<close>

theorem scan_json_admits:
  assumes "scan_json dec b lim False scalar_max = Inr ()" "32 \<le> scalar_max"
  shows "\<exists>w t x v. b = w @ x @ v \<and> jws w \<and> jws v \<and> jval t x \<and> jdepth t \<le> MAX_DEPTH \<and>
    jnodes t \<le> MAX_NODES \<and> jbounded dec scalar_max t \<and> length b \<le> lim \<and> utf8_valid b"
  by (rule scan_json_sound [OF assms(1) order_refl assms(2)]) blast+

theorem scan_json_admits_witness:
  "scan_json (\<lambda>_. None) ''[1,{}]'' 64 False 32 = Inr () \<and>
   (\<exists>w t x v. ''[1,{}]'' = w @ x @ v \<and> jws w \<and> jws v \<and> jval t x \<and> jdepth t \<le> MAX_DEPTH \<and>
     jnodes t \<le> MAX_NODES \<and> jbounded (\<lambda>_. None) 32 t \<and> length ''[1,{}]'' \<le> 64 \<and> utf8_valid ''[1,{}]'')"
proof -
  have "scan_json (\<lambda>_. None) ''[1,{}]'' 64 False 32 = Inr ()" by code_simp
  with scan_json_admits [OF this] show ?thesis by simp
qed

text \<open>
  A frame that \<^verbatim>\<open>bounds::frame_json\<close> admits and whose value is an object carries, under every key
  that decodes to \<^verbatim>\<open>binding\<close>, an object all of whose members are strings of 32 lower-case hexadecimal
  digits; the frame is within the structural bounds.
\<close>

theorem frame_json_binding_opaque:
  assumes "frame_json dec b lim = Inr ()"
  shows "\<exists>w t x v. b = w @ x @ v \<and> jws w \<and> jws v \<and> jval t x \<and> jdepth t \<le> MAX_DEPTH \<and>
    jnodes t \<le> MAX_NODES \<and> jbounded dec (SCALAR_BYTES * 2) t \<and>
    (\<forall>its. t = JNode True its \<longrightarrow> frame_binding_ok dec its)"
proof -
  have u: "SCALAR_BYTES \<le> SCALAR_BYTES * 2" "32 \<le> SCALAR_BYTES * 2" by (simp_all add: SCALAR_BYTES_def)
  show ?thesis
    using assms unfolding frame_json_def
    by (rule scan_json_sound [where u = "SCALAR_BYTES * 2"]) (use u in auto)
qed

theorem frame_json_binding_opaque_witness:
  "frame_json (\<lambda>_. None) (''{'' @ [quote_byte] @ ''binding'' @ [quote_byte] @ '':{}}'') 64 = Inr () \<and>
   (\<exists>w t x v. ''{'' @ [quote_byte] @ ''binding'' @ [quote_byte] @ '':{}}'' = w @ x @ v \<and> jws w \<and> jws v \<and>
     jval t x \<and> jdepth t \<le> MAX_DEPTH \<and> jnodes t \<le> MAX_NODES \<and> jbounded (\<lambda>_. None) (SCALAR_BYTES * 2) t \<and>
     (\<forall>its. t = JNode True its \<longrightarrow> frame_binding_ok (\<lambda>_. None) its))"
proof -
  have "frame_json (\<lambda>_. None) (''{'' @ [quote_byte] @ ''binding'' @ [quote_byte] @ '':{}}'') 64 = Inr ()"
    by code_simp
  with frame_json_binding_opaque [OF this] show ?thesis by blast
qed

end
