(* ===== verification/Decimal_Text.thy ===== *)
theory Decimal_Text
  imports Lens_Prelude
begin

text \<open>
  Decimal text of machine integers, as the standard library reads and writes it: \<^verbatim>\<open>str::parse\<close> of an
  integer type accepts an optional sign and at least one digit and rejects values outside the type;
  \<^verbatim>\<open>to_string\<close> writes no superfluous zero. Texts that survive reading and writing are exactly the
  canonical ones.
\<close>

named_theorems decimal_simps \<open>reading and writing decimal text\<close>

section \<open>Unsigned text\<close>

definition digit_value :: "char \<Rightarrow> nat" where
  "digit_value c = byte c - 48"

definition digit_char :: "nat \<Rightarrow> char" where
  "digit_char d = char_of (48 + d)"

definition digits_value :: "bytes \<Rightarrow> nat" where
  "digits_value s = foldl (\<lambda>n c. n * 10 + digit_value c) 0 s"

fun nat_to_string :: "nat \<Rightarrow> bytes" where
  "nat_to_string n =
     (if n < 10 then [digit_char n] else nat_to_string (n div 10) @ [digit_char (n mod 10)])"

declare nat_to_string.simps [simp del]

definition all_digits :: "bytes \<Rightarrow> bool" where
  "all_digits s \<longleftrightarrow> list_all is_ascii_digit s"

text \<open>No superfluous leading zero.\<close>

definition canonical_digits :: "bytes \<Rightarrow> bool" where
  "canonical_digits s \<longleftrightarrow> s \<noteq> [] \<and> all_digits s \<and> (length s = 1 \<or> hd s \<noteq> CHR ''0'')"

lemma all_digits_simps [simp]:
  "all_digits []" "all_digits (c # s) \<longleftrightarrow> is_ascii_digit c \<and> all_digits s"
  "all_digits (s @ t) \<longleftrightarrow> all_digits s \<and> all_digits t" "all_digits (replicate n (CHR ''0''))"
  by (auto simp: all_digits_def list_all_iff is_ascii_digit_def)

lemma digits_value_Nil [simp]: "digits_value [] = 0"
  by (simp add: digits_value_def)

lemma digits_value_snoc [decimal_simps]: "digits_value (s @ [c]) = digits_value s * 10 + digit_value c"
  by (simp add: digits_value_def)

lemma digits_value_append [decimal_simps]:
  "digits_value (s @ t) = digits_value s * 10 ^ length t + digits_value t"
proof (induction t rule: rev_induct)
  case (snoc c t)
  then show ?case by (simp add: digits_value_snoc algebra_simps flip: append_assoc)
qed simp

lemma digits_value_single [simp]: "digits_value [c] = digit_value c"
  by (simp add: digits_value_def)

lemma digits_value_Cons: "digits_value (c # s) = digit_value c * 10 ^ length s + digits_value s"
  using digits_value_append [of "[c]" s] by simp

lemma digit_value_less: "is_ascii_digit c \<Longrightarrow> digit_value c < 10"
  unfolding is_ascii_digit_def digit_value_def by linarith

lemma byte_digit_char: "d < 10 \<Longrightarrow> byte (digit_char d) = 48 + d"
  unfolding digit_char_def of_char_of by simp

lemma digit_char_ascii: "d < 10 \<Longrightarrow> is_ascii_digit (digit_char d)"
  using byte_digit_char [of d] by (simp add: is_ascii_digit_def)

lemma digit_value_char: "d < 10 \<Longrightarrow> digit_value (digit_char d) = d"
  using byte_digit_char [of d] by (simp add: digit_value_def)

lemma digit_char_value: "is_ascii_digit c \<Longrightarrow> digit_char (digit_value c) = c"
proof -
  assume "is_ascii_digit c"
  then have "48 + digit_value c = byte c" by (simp add: is_ascii_digit_def digit_value_def)
  then show ?thesis by (simp only: digit_char_def) simp
qed

lemma digit_zero_iff: "is_ascii_digit c \<Longrightarrow> digit_value c = 0 \<longleftrightarrow> c = CHR ''0''"
  by (auto simp: is_ascii_digit_def digit_value_def char_eq_byte)

lemma digits_value_zeros: "digits_value (replicate n (CHR ''0'')) = 0"
  by (induction n) (auto simp: digits_value_Cons digit_value_def)

lemma digits_value_less: "all_digits s \<Longrightarrow> digits_value s < 10 ^ length s"
proof (induction s rule: rev_induct)
  case (snoc c s)
  then have "digits_value s * 10 + digit_value c < 10 * 10 ^ length s"
    using digit_value_less [of c] by simp
  then show ?case by (simp add: digits_value_snoc)
qed simp

lemma canonical_pos:
  assumes "canonical_digits s" "s \<noteq> ''0''"
  shows "0 < digits_value s"
proof (cases s)
  case (Cons c t)
  with assms have "c \<noteq> CHR ''0''" by (auto simp: canonical_digits_def)
  with assms Cons have "0 < digit_value c"
    using digit_zero_iff [of c] by (simp add: canonical_digits_def)
  with Cons show ?thesis by (simp add: digits_value_Cons)
qed (use assms in \<open>simp add: canonical_digits_def\<close>)

lemma digits_value_to_string [simp]: "digits_value (nat_to_string n) = n"
proof (induction n rule: nat_to_string.induct)
  case (1 n)
  then show ?case
    by (subst nat_to_string.simps) (auto simp: digits_value_snoc digit_value_char)
qed

lemma nat_to_string_canonical: "canonical_digits (nat_to_string n)"
proof (induction n rule: nat_to_string.induct)
  case (1 n)
  show ?case
  proof (cases "n < 10")
    case True
    then show ?thesis by (subst nat_to_string.simps) (simp add: canonical_digits_def digit_char_ascii)
  next
    case False
    with 1 have c: "canonical_digits (nat_to_string (n div 10))" by simp
    have "nat_to_string (n div 10) \<noteq> ''0''"
    proof
      assume "nat_to_string (n div 10) = ''0''"
      from arg_cong [OF this, of digits_value] have "n div 10 = 0" by (simp add: digit_value_def)
      with False show False by simp
    qed
    with c False have "hd (nat_to_string (n div 10)) \<noteq> CHR ''0''"
      by (cases "nat_to_string (n div 10)") (auto simp: canonical_digits_def)
    with c False show ?thesis
      by (subst nat_to_string.simps) (auto simp: canonical_digits_def digit_char_ascii)
  qed
qed

lemma canonical_to_string: "canonical_digits s \<Longrightarrow> nat_to_string (digits_value s) = s"
proof (induction s rule: rev_induct)
  case (snoc c s)
  then have c: "is_ascii_digit c" by (simp add: canonical_digits_def)
  show ?case
  proof (cases "s = []")
    case True
    with c show ?thesis
      by (subst nat_to_string.simps) (simp add: digit_value_less digit_char_value)
  next
    case False
    with snoc.prems have s: "canonical_digits s" "s \<noteq> ''0''" by (auto simp: canonical_digits_def)
    then have "10 \<le> digits_value (s @ [c])" using canonical_pos by (fastforce simp: digits_value_snoc)
    with s snoc.IH digit_value_less [OF c] digit_char_value [OF c] show ?thesis
      by (subst nat_to_string.simps) (simp add: digits_value_snoc)
  qed
qed (simp add: canonical_digits_def)

section \<open>Reading machine integers\<close>

definition strip_prefix_char :: "char \<Rightarrow> bytes \<Rightarrow> bytes option" where
  "strip_prefix_char c s = (case s of x # r \<Rightarrow> if x = c then Some r else None | [] \<Rightarrow> None)"

definition strip_or_self :: "char \<Rightarrow> bytes \<Rightarrow> bytes" where
  "strip_or_self c s = (case strip_prefix_char c s of Some r \<Rightarrow> r | None \<Rightarrow> s)"

definition starts_with_char :: "char \<Rightarrow> bytes \<Rightarrow> bool" where
  "starts_with_char c s \<longleftrightarrow> (s \<noteq> [] \<and> hd s = c)"

lemma strip_or_self_simps [simp]:
  "strip_or_self c (c # s) = s" "strip_or_self c [] = []" "x \<noteq> c \<Longrightarrow> strip_or_self c (x # s) = x # s"
  by (simp_all add: strip_or_self_def strip_prefix_char_def)

text \<open>\<^verbatim>\<open>s.parse::<u_w>()\<close> with \<open>lim = 2 ^ w\<close>.\<close>

definition parse_unsigned :: "nat \<Rightarrow> bytes \<Rightarrow> nat option" where
  "parse_unsigned lim s =
     (let r = strip_or_self (CHR ''+'') s
      in if r \<noteq> [] \<and> all_digits r \<and> digits_value r < lim then Some (digits_value r) else None)"

text \<open>\<^verbatim>\<open>s.parse::<i_w>()\<close> with \<open>lim = 2 ^ (w - 1)\<close>.\<close>

definition parse_signed :: "nat \<Rightarrow> bytes \<Rightarrow> int option" where
  "parse_signed lim s =
     (case strip_prefix_char (CHR ''-'') s of
        Some r \<Rightarrow> if r \<noteq> [] \<and> all_digits r \<and> digits_value r \<le> lim then Some (- int (digits_value r)) else None
      | None \<Rightarrow> map_option int (parse_unsigned lim s))"

definition int_to_string :: "int \<Rightarrow> bytes" where
  "int_to_string n = (if n < 0 then CHR ''-'' # nat_to_string (nat (- n)) else nat_to_string (nat n))"

lemma canonical_hd_digit: "canonical_digits s \<Longrightarrow> \<exists>c r. s = c # r \<and> is_ascii_digit c"
  by (cases s) (auto simp: canonical_digits_def)

lemma strip_canonical [simp]:
  assumes "canonical_digits s"
  shows "strip_or_self (CHR ''+'') s = s" "strip_prefix_char (CHR ''-'') s = None" "strip_or_self (CHR ''-'') s = s"
proof -
  from assms obtain c r where s: "s = c # r" "is_ascii_digit c" using canonical_hd_digit by blast
  then have "c \<noteq> CHR ''+''" "c \<noteq> CHR ''-''" by (auto simp: is_ascii_digit_def)
  with s show "strip_or_self (CHR ''+'') s = s" "strip_prefix_char (CHR ''-'') s = None" "strip_or_self (CHR ''-'') s = s"
    by (auto simp: strip_prefix_char_def)
qed

lemma canonical_parts: "canonical_digits s \<Longrightarrow> s \<noteq> [] \<and> all_digits s"
  by (simp add: canonical_digits_def)

lemma parse_unsigned_to_string: "n < lim \<Longrightarrow> parse_unsigned lim (nat_to_string n) = Some n"
  using canonical_parts [OF nat_to_string_canonical, of n]
  by (simp add: parse_unsigned_def nat_to_string_canonical)

lemma parse_unsigned_bound: "parse_unsigned lim s = Some n \<Longrightarrow> n < lim"
  by (auto simp: parse_unsigned_def Let_def split: if_splits)

lemma unsigned_round_trip_iff:
  "(\<exists>n. parse_unsigned lim s = Some n \<and> nat_to_string n = s) \<longleftrightarrow> (\<exists>n. n < lim \<and> s = nat_to_string n)"
  using parse_unsigned_bound parse_unsigned_to_string by metis

lemma parse_signed_bound: "0 < lim \<Longrightarrow> parse_signed lim s = Some n \<Longrightarrow> - int lim \<le> n \<and> n < int lim"
  by (auto simp: parse_signed_def split: option.splits if_splits dest: parse_unsigned_bound)

lemma parse_signed_to_string:
  assumes "- int lim \<le> n" "n < int lim"
  shows "parse_signed lim (int_to_string n) = Some n"
proof (cases "n < 0")
  case True
  with assms canonical_parts [OF nat_to_string_canonical, of "nat (- n)"] show ?thesis
    by (simp add: int_to_string_def parse_signed_def strip_prefix_char_def nat_le_iff)
next
  case False
  with assms have "nat n < lim" by simp
  from parse_unsigned_to_string [OF this] False show ?thesis
    by (simp add: int_to_string_def parse_signed_def nat_to_string_canonical)
qed

lemma signed_round_trip_iff:
  "0 < lim \<Longrightarrow> (\<exists>n. parse_signed lim s = Some n \<and> int_to_string n = s) \<longleftrightarrow>
   (\<exists>n. - int lim \<le> n \<and> n < int lim \<and> s = int_to_string n)"
  using parse_signed_bound parse_signed_to_string by metis

section \<open>Fixed-width fields\<close>

text \<open>\<open>n\<close> written with exactly \<open>w\<close> digits.\<close>

fun padded :: "nat \<Rightarrow> nat \<Rightarrow> bytes" where
  "padded 0 n = []"
| "padded (Suc w) n = padded w (n div 10) @ [digit_char (n mod 10)]"

lemma parse_unsigned_digits:
  "all_digits s \<Longrightarrow> s \<noteq> [] \<Longrightarrow> parse_unsigned lim s = (if digits_value s < lim then Some (digits_value s) else None)"
proof -
  assume s: "all_digits s" "s \<noteq> []"
  then have "strip_or_self (CHR ''+'') s = s"
    by (cases s) (auto simp: is_ascii_digit_def strip_or_self_def strip_prefix_char_def)
  with s show ?thesis by (simp add: parse_unsigned_def)
qed

lemma parse_field:
  assumes "all_digits s" "0 < length s" "10 ^ length s \<le> lim"
  shows "parse_unsigned lim s = Some (digits_value s)"
  using assms digits_value_less [OF assms(1)] by (auto simp: parse_unsigned_digits)

lemma digits_value_inj:
  "all_digits s \<Longrightarrow> all_digits t \<Longrightarrow> length s = length t \<Longrightarrow> digits_value s = digits_value t \<Longrightarrow> s = t"
proof (induction s arbitrary: t rule: rev_induct)
  case (snoc c s)
  then obtain d u where t: "t = u @ [d]" by (cases t rule: rev_cases) auto
  have "digits_value s * 10 + digit_value c = digits_value u * 10 + digit_value d"
    "digit_value c < 10" "digit_value d < 10"
    using snoc.prems t digit_value_less [of c] digit_value_less [of d] by (auto simp: digits_value_snoc)
  then have "digit_value c = digit_value d \<and> digits_value s = digits_value u" by presburger
  with snoc t show ?case using digit_char_value by (metis all_digits_simps(2,3) append_same_eq butlast_snoc length_butlast)
qed simp

lemma length_padded [simp]: "length (padded w n) = w"
  by (induction w n rule: padded.induct) auto

lemma all_digits_padded [simp]: "all_digits (padded w n)"
  by (induction w n rule: padded.induct) (auto simp: digit_char_ascii)

lemma digits_value_padded: "digits_value (padded w n) = n mod 10 ^ w"
proof (induction w n rule: padded.induct)
  case (2 w n)
  have "n mod (10 * 10 ^ w) = 10 * (n div 10 mod 10 ^ w) + n mod 10" by (rule mod_mult2_eq)
  with 2 show ?case by (simp add: digits_value_snoc digit_value_char)
qed simp

lemma padded_digits_value: "all_digits s \<Longrightarrow> padded (length s) (digits_value s) = s"
  using digits_value_inj [of "padded (length s) (digits_value s)" s]
  by (simp add: digits_value_padded digits_value_less)

lemma padded_iff: "s = padded w n \<and> n < 10 ^ w \<longleftrightarrow> length s = w \<and> all_digits s \<and> digits_value s = n"
  using padded_digits_value digits_value_less by (auto simp: digits_value_padded)

section \<open>Signed 64-bit arithmetic\<close>

definition i64_checked :: "int \<Rightarrow> int option" where
  "i64_checked n = (if - (2 ^ 63) \<le> n \<and> n < 2 ^ 63 then Some n else None)"

lemma i64_checked_Some_iff: "i64_checked n = Some m \<longleftrightarrow> m = n \<and> - (2 ^ 63) \<le> n \<and> n < 2 ^ 63"
  by (auto simp: i64_checked_def)

abbreviation parse_i64 :: "bytes \<Rightarrow> int option" where
  "parse_i64 \<equiv> parse_signed (2 ^ 63)"

abbreviation parse_u64 :: "bytes \<Rightarrow> nat option" where
  "parse_u64 \<equiv> parse_unsigned (2 ^ 64)"

end
