(* ===== verification/Wire_Value.thy ===== *)
theory Wire_Value
  imports Json_Grammar Decimal_Text Complex_Main
begin

text \<open>
  Wire values, \<^verbatim>\<open>crates/gaze-lens-protocol/src/value.rs\<close>: compaction of source JSON, the tagged value
  enumeration with its validation, decimal normalisation, calendar dates and times, and the decimal
  comparison that guards floating point text.

  Foreign or numeric-library functions are fields of \<open>Codecs\<close>: serde's key decoder and struct
  decoder, base64, and \<^verbatim>\<open>parse::<f64>\<close> followed by \<^verbatim>\<open>to_string\<close> (\<^const>\<open>None\<close> when the number does not
  parse or is not finite).
\<close>

section \<open>Compaction of source JSON\<close>

fun compact_loop :: "bool \<Rightarrow> bool \<Rightarrow> bytes \<Rightarrow> bytes" where
  "compact_loop quoted escaped [] = []"
| "compact_loop quoted escaped (c # s) =
     (if quoted then
        c # (if escaped then compact_loop True False s
             else if c = backslash then compact_loop True True s
             else if c = quote_byte then compact_loop False False s
             else compact_loop True False s)
      else if \<not> is_json_space c then c # compact_loop (c = quote_byte) escaped s
      else compact_loop False escaped s)"

text \<open>The first argument says whether \<^verbatim>\<open>try_reserve_exact\<close> succeeds.\<close>

definition compact_json :: "bool \<Rightarrow> bytes \<Rightarrow> Error + bytes" where
  "compact_json reserve s = (if reserve then Inr (compact_loop False False s) else Inl CapExceeded)"

definition exact_json_parse :: "(bytes \<Rightarrow> bytes option) \<Rightarrow> (bytes \<Rightarrow> bool) \<Rightarrow> bool \<Rightarrow> bytes \<Rightarrow> Error + bytes" where
  "exact_json_parse dec raw_value_ok reserve s =
     and_then (source_json dec s) (\<lambda>_.
     and_then (compact_json reserve s) (\<lambda>out.
     if raw_value_ok out then Inr out else Inl InvalidRequest))"

text \<open>The reference: the same tree printed without insignificant white space.\<close>

fun comma_join :: "bytes list \<Rightarrow> bytes" where
  "comma_join [] = []"
| "comma_join [x] = x"
| "comma_join (x # y # r) = x @ CHR '','' # comma_join (y # r)"

definition print_item :: "bool \<Rightarrow> bytes \<times> bytes \<Rightarrow> bytes" where
  "print_item object p = fst p @ (if object then '':'' else []) @ snd p"

primrec jprint :: "jtree \<Rightarrow> bytes" where
  "jprint (JAtom t) = t"
| "jprint (JStr raw) = raw"
| "jprint (JNode object its) =
     open_byte object # comma_join (map (print_item object) (map (map_prod id jprint) its)) @ [close_byte object]"

definition print_items :: "bool \<Rightarrow> (bytes \<times> jtree) list \<Rightarrow> bytes" where
  "print_items object its = comma_join (map (print_item object) (map (map_prod id jprint) its))"

definition plain_byte :: "char \<Rightarrow> bool" where
  "plain_byte c \<longleftrightarrow> \<not> is_json_space c \<and> c \<noteq> quote_byte"

lemma plain_byte_digit: "is_ascii_digit c \<Longrightarrow> plain_byte c"
  by (auto simp: plain_byte_def is_json_space_def is_ascii_digit_def)

lemma plain_byte_consts:
  "plain_byte (open_byte object)" "plain_byte (close_byte object)" "plain_byte (CHR '','')" "plain_byte (CHR '':'')"
  "plain_byte (CHR ''+'')" "plain_byte (CHR ''-'')" "plain_byte (CHR ''.'')" "plain_byte (CHR ''e'')" "plain_byte (CHR ''E'')"
  "plain_byte (CHR ''0'')" "list_all plain_byte ''null''" "list_all plain_byte ''true''" "list_all plain_byte ''false''"
  by (simp_all add: plain_byte_def is_json_space_def open_byte_def close_byte_def)

lemma compact_plain:
  "list_all plain_byte t \<Longrightarrow> compact_loop False False (t @ r) = t @ compact_loop False False r"
  by (induction t) (auto simp: plain_byte_def)

lemma compact_byte: "plain_byte c \<Longrightarrow> compact_loop False False (c # r) = c # compact_loop False False r"
  using compact_plain [of "[c]"] by simp

lemma compact_ws: "jws w \<Longrightarrow> compact_loop False False (w @ r) = compact_loop False False r"
  by (induction w) (auto simp: jws_def)

lemma compact_quoted_plain:
  "\<forall>c\<in>set t. c \<noteq> backslash \<and> c \<noteq> quote_byte \<Longrightarrow>
     compact_loop True False (t @ r) = t @ compact_loop True False r"
  by (induction t) auto

lemma hex4_plain: "hex4 acc h = Some v \<Longrightarrow> \<forall>c\<in>set h. c \<noteq> backslash \<and> c \<noteq> quote_byte"
proof (induction acc h rule: hex4.induct)
  case (2 acc c cs)
  have "hex_value backslash = None" "hex_value quote_byte = None" by (simp_all add: hex_value_def)
  with 2 show ?case by (force split: option.splits)
qed simp

lemma compact_jchars:
  "jchars body d \<Longrightarrow> compact_loop True False (body @ r) = body @ compact_loop True False r"
proof (induction rule: jchars.induct)
  case (jchars_unicode h cp r' d)
  then show ?case using compact_quoted_plain [OF hex4_plain] by simp
next
  case (jchars_pair h hi l lo r' d)
  then show ?case
    using compact_quoted_plain [OF hex4_plain [OF jchars_pair(2)]] compact_quoted_plain [OF hex4_plain [OF jchars_pair(6)]]
    by simp
qed simp_all

lemma compact_jstring: "jstring raw d \<Longrightarrow> compact_loop False False (raw @ r) = raw @ compact_loop False False r"
  by (auto simp: jstring_def compact_jchars is_json_space_def)

lemma number_plain:
  assumes "json_number t"
  shows "list_all plain_byte t"
proof -
  have d: "list_all plain_byte ds" if "list_all is_ascii_digit ds" for ds
    using that by (simp add: list_all_iff plain_byte_digit)
  have "list_all plain_byte ip" if "json_int ip" for ip
    using that by (auto simp: json_int_def plain_byte_consts plain_byte_digit is_ascii_digit_def intro: d)
  moreover have "list_all plain_byte fr" if "json_frac fr" for fr
    using that d by (auto simp: json_frac_def plain_byte_consts)
  moreover have "list_all plain_byte ex" if "json_exp ex" for ex
    using that d by (auto simp: json_exp_def plain_byte_consts)
  ultimately show ?thesis using assms by (auto simp: json_number_def plain_byte_consts)
qed

lemma compact_atom:
  assumes "t \<in> {''null'', ''true'', ''false''} \<or> json_number t"
  shows "compact_loop False False (t @ r) = t @ compact_loop False False r"
proof (rule compact_plain)
  show "list_all plain_byte t" using assms number_plain plain_byte_consts(11-13) by blast
qed

lemmas compact_delims = compact_byte [OF plain_byte_consts(1)] compact_byte [OF plain_byte_consts(2)]
  compact_byte [OF plain_byte_consts(3)] compact_byte [OF plain_byte_consts(4)]

lemma compact_key:
  "jkey object k kt \<Longrightarrow> compact_loop False False (kt @ r) =
     k @ (if object then '':'' else []) @ compact_loop False False r"
  by (cases object) (auto simp: jkey_def compact_ws compact_jstring compact_delims simp del: compact_loop.simps)

lemma print_items_simps:
  "print_items object [(k, t)] = k @ (if object then '':'' else []) @ jprint t"
  "its \<noteq> [] \<Longrightarrow> print_items object ((k, t) # its) =
     k @ (if object then '':'' else []) @ jprint t @ CHR '','' # print_items object its"
  by (auto simp: print_items_def print_item_def neq_Nil_conv)

lemma jitems_nonempty: "jitems object its y \<Longrightarrow> its \<noteq> []"
  by (erule jitems_cases) auto

lemma compact_prints:
  "jval t x \<Longrightarrow> \<forall>r. compact_loop False False (x @ r) = jprint t @ compact_loop False False r"
  "jitems object its y \<Longrightarrow> \<forall>r. compact_loop False False (y @ r) = print_items object its @ compact_loop False False r"
proof (induction rule: jval_jitems.inducts)
  case (jval_node object its y)
  then show ?case by (simp add: print_items_def compact_delims del: compact_loop.simps)
next
  case (jitems_one object k kt a t x b)
  then show ?case by (simp add: compact_key compact_ws print_items_simps del: compact_loop.simps)
next
  case (jitems_more object k kt a t x b its y)
  then show ?case
    by (simp add: compact_key compact_ws compact_delims print_items_simps jitems_nonempty del: compact_loop.simps)
qed (simp_all add: compact_atom compact_jstring compact_ws compact_delims del: compact_loop.simps)

lemma jkey_bare: "jkey object k kt \<Longrightarrow> jkey object k (k @ (if object then '':'' else []))"
proof (cases object)
  case True
  assume "jkey object k kt"
  with True obtain d where "jstring k d" by (auto simp: jkey_def)
  with True show ?thesis
    unfolding jkey_def by (simp, intro exI [of _ "[]"]) (auto simp: jws_def)
qed (auto simp: jkey_def)

lemma print_parses:
  "jval t x \<Longrightarrow> jval t (jprint t)"
  "jitems object its y \<Longrightarrow> jitems object its (print_items object its)"
proof (induction rule: jval_jitems.inducts)
  case (jval_empty w object)
  show ?case using jval_jitems.jval_empty [of "[]" object] by (simp add: jws_def)
next
  case (jval_node object its y)
  then show ?case using jval_jitems.jval_node by (simp add: print_items_def)
next
  case (jitems_one object k kt a t x b)
  then have "jkey object k (k @ (if object then '':'' else []))" by (intro jkey_bare)
  from jval_jitems.jitems_one [OF this _ jitems_one(5), of "[]" "[]"] show ?case
    by (simp add: jws_def print_items_simps)
next
  case (jitems_more object k kt a t x b its y)
  then have "jkey object k (k @ (if object then '':'' else []))" by (intro jkey_bare)
  from jval_jitems.jitems_more [OF this _ jitems_more(6) _ jitems_more(7), of "[]" "[]"] jitems_more show ?case
    by (simp add: jws_def print_items_simps jitems_nonempty)
qed (simp_all add: jval_jitems.intros)

text \<open>
  Whatever \<^verbatim>\<open>ExactJson::parse\<close> keeps is the very JSON value it was given, printed without
  insignificant white space: input and output spell the same tree, every literal and key byte for
  byte, and the output is itself a text of the grammar within the caps.
\<close>

theorem exact_json_preserves_tree:
  assumes "exact_json_parse dec raw_value_ok reserve s = Inr out"
  shows "\<exists>t w x v. s = w @ x @ v \<and> jws w \<and> jws v \<and> jval t x \<and> out = jprint t \<and> jval t out \<and>
    jbounded dec SCALAR_BYTES t \<and> jdepth t \<le> MAX_DEPTH \<and> jnodes t \<le> MAX_NODES"
proof -
  from assms have s: "scan_json dec s RESULT_BYTES False SCALAR_BYTES = Inr ()" "out = compact_loop False False s"
    by (auto simp: exact_json_parse_def source_json_def compact_json_def and_then_Inr_iff split: if_splits)
  have u: "32 \<le> SCALAR_BYTES" by (simp add: SCALAR_BYTES_def)
  obtain w t x v where j: "s = w @ x @ v" "jws w" "jws v" "jval t x" "jdepth t \<le> MAX_DEPTH"
      "jnodes t \<le> MAX_NODES" "jbounded dec SCALAR_BYTES t"
    by (rule scan_json_sound [OF s(1) order_refl u]) blast+
  have "out = jprint t"
    using s(2) j(1-4) compact_prints(1) [OF j(4)] compact_ws [OF j(2)] compact_ws [OF j(3), of "[]"] by simp
  with j print_parses(1) show ?thesis by blast
qed

theorem exact_json_preserves_tree_witness:
  "exact_json_parse (\<lambda>_. None) (\<lambda>_. True) True ''[ 1, 2 ]'' = Inr ''[1,2]'' \<and>
   (\<exists>t w x v. ''[ 1, 2 ]'' = w @ x @ v \<and> jws w \<and> jws v \<and> jval t x \<and> ''[1,2]'' = jprint t \<and> jval t ''[1,2]'' \<and>
     jbounded (\<lambda>_. None) SCALAR_BYTES t \<and> jdepth t \<le> MAX_DEPTH \<and> jnodes t \<le> MAX_NODES)"
proof -
  have h: "exact_json_parse (\<lambda>_. None) (\<lambda>_. True) True ''[ 1, 2 ]'' = Inr ''[1,2]''" by code_simp
  show ?thesis by (rule conjI [OF h exact_json_preserves_tree [OF h]])
qed

section \<open>Dates and times\<close>

definition month_max :: "nat \<Rightarrow> nat \<Rightarrow> nat" where
  "month_max y m =
     (if m \<in> {1, 3, 5, 7, 8, 10, 12} then 31
      else if m \<in> {4, 6, 9, 11} then 30
      else if m = 2 \<and> y mod 4 = 0 \<and> (y mod 100 \<noteq> 0 \<or> y mod 400 = 0) then 29
      else if m = 2 then 28
      else 0)"

definition date :: "bytes \<Rightarrow> bool" where
  "date s =
     (if length s \<noteq> 10 \<or> s ! 4 \<noteq> CHR ''-'' \<or> s ! 7 \<noteq> CHR ''-'' then False
      else if \<not> list_all (\<lambda>(i, b). i \<in> {4, 7} \<or> is_ascii_digit b) (enumerate 0 s) then False
      else case parse_unsigned (2 ^ 32) (take 4 s) of None \<Rightarrow> False | Some y \<Rightarrow>
           (case parse_unsigned (2 ^ 32) (take 2 (drop 5 s)) of None \<Rightarrow> False | Some m \<Rightarrow>
           (case parse_unsigned (2 ^ 32) (drop 8 s) of None \<Rightarrow> False | Some d \<Rightarrow>
              0 < y \<and> 0 < d \<and> d \<le> month_max y m)))"

definition split_point :: "bytes \<Rightarrow> bytes \<times> bytes option" where
  "split_point s = (case split_once (CHR ''.'') s of None \<Rightarrow> (s, None) | Some (a, b) \<Rightarrow> (a, Some b))"

definition frac_ok :: "bytes option \<Rightarrow> bool" where
  "frac_ok fr = (case fr of None \<Rightarrow> True | Some f \<Rightarrow> f \<noteq> [] \<and> all_digits f)"

definition parses_below :: "nat \<Rightarrow> bytes \<Rightarrow> bool" where
  "parses_below n s = (case parse_unsigned 256 s of None \<Rightarrow> False | Some k \<Rightarrow> k < n)"

definition time :: "bytes \<Rightarrow> bool" where
  "time s =
     (let (main, fr) = split_point s in
      if length main \<noteq> 8 \<or> main ! 2 \<noteq> CHR '':'' \<or> main ! 5 \<noteq> CHR '':'' \<or>
         \<not> list_all (\<lambda>(i, b). i \<in> {2, 5} \<or> is_ascii_digit b) (enumerate 0 main)
      then False
      else parses_below 24 (take 2 main) \<and> parses_below 60 (take 2 (drop 3 main)) \<and>
           parses_below 60 (drop 6 main) \<and> frac_ok fr)"

datatype Semantic = Date | Time | Naive | Zoned

text \<open>\<^verbatim>\<open>t.strip_suffix('Z')\<close>.\<close>

definition strip_suffix_char :: "char \<Rightarrow> bytes \<Rightarrow> bytes option" where
  "strip_suffix_char c s = (if s \<noteq> [] \<and> last s = c then Some (butlast s) else None)"

definition zone_offset :: "bytes \<Rightarrow> bool" where
  "zone_offset z \<longleftrightarrow> (z ! 0 = CHR ''+'' \<or> z ! 0 = CHR ''-'') \<and> z ! 3 = CHR '':'' \<and>
     all_digits (take 2 (drop 1 z)) \<and> all_digits (drop 4 z) \<and>
     parses_below 24 (take 2 (drop 1 z)) \<and> parses_below 60 (drop 4 z) \<and> z \<noteq> ''-00:00''"

definition zoned_time :: "bytes \<Rightarrow> bytes \<Rightarrow> bool" where
  "zoned_time d t =
     (case strip_suffix_char (CHR ''Z'') t of
        Some u \<Rightarrow> date d \<and> time u
      | None \<Rightarrow>
          if 6 \<le> length t
          then (let (u, z) = (take (length t - 6) t, drop (length t - 6) t)
                in date d \<and> time u \<and> zone_offset z)
          else False)"

definition validate_datetime :: "Semantic \<Rightarrow> bytes \<Rightarrow> Error + unit" where
  "validate_datetime semantic s =
     checks [text_bound s, require (list_all is_ascii s),
       require (case semantic of
          Date \<Rightarrow> date s
        | Time \<Rightarrow> time s
        | _ \<Rightarrow> (case split_once (CHR ''T'') s of
            None \<Rightarrow> False
          | Some (d, t) \<Rightarrow> if semantic = Naive then date d \<and> time t else zoned_time d t))]"

text \<open>The reference: the Gregorian calendar and its ISO 8601 spelling.\<close>

definition leap_year :: "nat \<Rightarrow> bool" where
  "leap_year y \<longleftrightarrow> (4 dvd y \<and> \<not> 100 dvd y) \<or> 400 dvd y"

definition days_in_month :: "nat \<Rightarrow> nat \<Rightarrow> nat" where
  "days_in_month y m =
     [31, if leap_year y then 29 else 28, 31, 30, 31, 30, 31, 31, 30, 31, 30, 31] ! (m - 1)"

definition iso_date :: "nat \<Rightarrow> nat \<Rightarrow> nat \<Rightarrow> bytes" where
  "iso_date y m d = padded 4 y @ ''-'' @ padded 2 m @ ''-'' @ padded 2 d"

definition iso_clock :: "nat \<Rightarrow> nat \<Rightarrow> nat \<Rightarrow> bytes" where
  "iso_clock h m s = padded 2 h @ '':'' @ padded 2 m @ '':'' @ padded 2 s"

lemma month_max_days: "1 \<le> m \<Longrightarrow> m \<le> 12 \<Longrightarrow> month_max y m = days_in_month y m"
proof -
  assume "1 \<le> m" "m \<le> 12"
  then have "m \<in> {1, 2, 3, 4, 5, 6, 7, 8, 9, 10, 11, 12}"
    unfolding insert_iff empty_iff by presburger
  moreover have "(y mod 4 = 0 \<and> (y mod 100 \<noteq> 0 \<or> y mod 400 = 0)) = leap_year y"
    unfolding leap_year_def by presburger
  ultimately show ?thesis
    by (elim insertE) (simp_all add: month_max_def days_in_month_def)
qed

lemma month_max_zero: "\<not> (1 \<le> m \<and> m \<le> 12) \<Longrightarrow> month_max y m = 0"
  by (auto simp: month_max_def)

lemma date_shape:
  "length s = 10 \<and> s ! 4 = CHR ''-'' \<and> s ! 7 = CHR ''-'' \<and>
     list_all (\<lambda>(i, b). i \<in> {4, 7} \<or> is_ascii_digit b) (enumerate 0 s) \<longleftrightarrow>
   (\<exists>a b c. s = a @ ''-'' @ b @ ''-'' @ c \<and> length a = 4 \<and> length b = 2 \<and> length c = 2 \<and>
     all_digits a \<and> all_digits b \<and> all_digits c)" (is "?L \<longleftrightarrow> ?R")
proof
  assume ?L
  then obtain c0 c1 c2 c3 c4 c5 c6 c7 c8 c9 where "s = [c0, c1, c2, c3, c4, c5, c6, c7, c8, c9]"
    by (auto simp: length_Suc_conv eval_nat_numeral)
  with \<open>?L\<close> show ?R
    by (intro exI [of _ "[c0, c1, c2, c3]"] exI [of _ "[c5, c6]"] exI [of _ "[c8, c9]"]) simp
next
  assume ?R
  then show ?L
    by (auto simp: length_Suc_conv eval_nat_numeral)
qed

lemma date_iff:
  "date s \<longleftrightarrow> (\<exists>y m d. s = iso_date y m d \<and> 1 \<le> y \<and> y \<le> 9999 \<and> 1 \<le> m \<and> m \<le> 12 \<and>
     1 \<le> d \<and> d \<le> days_in_month y m)" (is "?L \<longleftrightarrow> ?R")
proof
  assume ?L
  then have "length s = 10 \<and> s ! 4 = CHR ''-'' \<and> s ! 7 = CHR ''-'' \<and>
     list_all (\<lambda>(i, b). i \<in> {4, 7} \<or> is_ascii_digit b) (enumerate 0 s)"
    by (auto simp: date_def split: if_splits)
  then obtain a b c where p: "s = a @ ''-'' @ b @ ''-'' @ c" "length a = 4" "length b = 2" "length c = 2"
      "all_digits a" "all_digits b" "all_digits c" using date_shape by blast
  have "parse_unsigned (2 ^ 32) a = Some (digits_value a)" "parse_unsigned (2 ^ 32) b = Some (digits_value b)"
    "parse_unsigned (2 ^ 32) c = Some (digits_value c)"
    using p parse_field [of a "2 ^ 32"] parse_field [of b "2 ^ 32"] parse_field [of c "2 ^ 32"]
    by (simp_all del: length_0_conv)
  with \<open>?L\<close> p have v: "0 < digits_value a" "0 < digits_value c" "digits_value c \<le> month_max (digits_value a) (digits_value b)"
    by (auto simp: date_def split: if_splits)
  then have m: "1 \<le> digits_value b \<and> digits_value b \<le> 12" using month_max_zero by fastforce
  have "s = iso_date (digits_value a) (digits_value b) (digits_value c)"
    using p padded_digits_value [of a] padded_digits_value [of b] padded_digits_value [of c] by (simp add: iso_date_def)
  with m v p digits_value_less [of a] show ?R
    by (intro exI [of _ "digits_value a"] exI [of _ "digits_value b"] exI [of _ "digits_value c"])
      (auto simp: month_max_days)
next
  assume ?R
  then obtain y m d where r: "s = padded 4 y @ ''-'' @ padded 2 m @ ''-'' @ padded 2 d" "1 \<le> y" "y \<le> 9999"
      "1 \<le> m" "m \<le> 12" "1 \<le> d" "d \<le> month_max y m"
    by (auto simp: iso_date_def month_max_days)
  have d31: "d \<le> 31" using r(7) by (auto simp: month_max_def split: if_splits)
  have shape: "length s = 10 \<and> s ! 4 = CHR ''-'' \<and> s ! 7 = CHR ''-'' \<and>
     list_all (\<lambda>(i, b). i \<in> {4, 7} \<or> is_ascii_digit b) (enumerate 0 s)"
    using r(1) date_shape [of s] by (metis all_digits_padded length_padded)
  have "parse_unsigned (2 ^ 32) (padded 4 y) = Some y" "parse_unsigned (2 ^ 32) (padded 2 m) = Some m"
    "parse_unsigned (2 ^ 32) (padded 2 d) = Some d"
    using r d31 by (simp_all add: parse_unsigned_digits digits_value_padded flip: length_greater_0_conv)
  moreover have "take 4 s = padded 4 y" "take 2 (drop 5 s) = padded 2 m" "drop 8 s = padded 2 d"
    using r(1) by simp_all
  ultimately show ?L using shape r by (simp add: date_def)
qed

text \<open>
  A date text is accepted exactly when it is the ISO spelling of a day of the Gregorian calendar
  in the years 1 to 9999, leap years included.
\<close>

theorem date_iff_calendar:
  "date s \<longleftrightarrow> (\<exists>y m d. s = iso_date y m d \<and> 1 \<le> y \<and> y \<le> 9999 \<and> 1 \<le> m \<and> m \<le> 12 \<and>
     1 \<le> d \<and> d \<le> days_in_month y m)"
  by (rule date_iff)

lemma clock_shape:
  "length s = 8 \<and> s ! 2 = CHR '':'' \<and> s ! 5 = CHR '':'' \<and>
     list_all (\<lambda>(i, b). i \<in> {2, 5} \<or> is_ascii_digit b) (enumerate 0 s) \<longleftrightarrow>
   (\<exists>a b c. s = a @ '':'' @ b @ '':'' @ c \<and> length a = 2 \<and> length b = 2 \<and> length c = 2 \<and>
     all_digits a \<and> all_digits b \<and> all_digits c)" (is "?L \<longleftrightarrow> ?R")
proof
  assume ?L
  then obtain c0 c1 c2 c3 c4 c5 c6 c7 where "s = [c0, c1, c2, c3, c4, c5, c6, c7]"
    by (auto simp: length_Suc_conv eval_nat_numeral)
  with \<open>?L\<close> show ?R
    by (intro exI [of _ "[c0, c1]"] exI [of _ "[c3, c4]"] exI [of _ "[c6, c7]"]) simp
next
  assume ?R
  then show ?L
    by (auto simp: length_Suc_conv eval_nat_numeral)
qed

lemma parses_below_field:
  "all_digits s \<Longrightarrow> length s = 2 \<Longrightarrow> parses_below n s \<longleftrightarrow> digits_value s < n"
  using parse_field [of s 256] by (simp add: parses_below_def)

definition clock_ok :: "bytes \<Rightarrow> bool" where
  "clock_ok s \<longleftrightarrow> (\<exists>h m sec. s = iso_clock h m sec \<and> h < 24 \<and> m < 60 \<and> sec < 60)"

lemma clock_ok_iff:
  "clock_ok s \<longleftrightarrow> (\<exists>a b c. s = a @ '':'' @ b @ '':'' @ c \<and> length a = 2 \<and> length b = 2 \<and> length c = 2 \<and>
     all_digits a \<and> all_digits b \<and> all_digits c \<and> digits_value a < 24 \<and> digits_value b < 60 \<and> digits_value c < 60)"
  (is "_ \<longleftrightarrow> ?R")
proof
  assume "clock_ok s"
  then obtain h m sec where s: "s = iso_clock h m sec" "h < 24" "m < 60" "sec < 60" by (auto simp: clock_ok_def)
  then show ?R
    by (intro exI [of _ "padded 2 h"] exI [of _ "padded 2 m"] exI [of _ "padded 2 sec"])
      (simp add: iso_clock_def digits_value_padded)
next
  assume ?R
  then obtain a b c where r: "s = a @ '':'' @ b @ '':'' @ c" "length a = 2" "length b = 2" "length c = 2"
     "all_digits a" "all_digits b" "all_digits c" "digits_value a < 24" "digits_value b < 60" "digits_value c < 60"
    by blast
  then have "s = iso_clock (digits_value a) (digits_value b) (digits_value c)"
    using padded_digits_value [of a] padded_digits_value [of b] padded_digits_value [of c] by (simp add: iso_clock_def)
  with r(8-10) show "clock_ok s" unfolding clock_ok_def by blast
qed

lemma time_conv: "time s \<longleftrightarrow> (let (main, fr) = split_point s in clock_ok main \<and> frac_ok fr)"
proof -
  obtain main fr where sp: "split_point s = (main, fr)" by (cases "split_point s") auto
  let ?shape = "length main = 8 \<and> main ! 2 = CHR '':'' \<and> main ! 5 = CHR '':'' \<and>
     list_all (\<lambda>(i, b). i \<in> {2, 5} \<or> is_ascii_digit b) (enumerate 0 main)"
  have "time s \<longleftrightarrow> ?shape \<and> parses_below 24 (take 2 main) \<and> parses_below 60 (take 2 (drop 3 main)) \<and>
       parses_below 60 (drop 6 main) \<and> frac_ok fr"
    by (auto simp: time_def sp)
  also have "\<dots> \<longleftrightarrow> clock_ok main \<and> frac_ok fr"
  proof (cases ?shape)
    case True
    then obtain a b c where p: "main = a @ '':'' @ b @ '':'' @ c" "length a = 2" "length b = 2" "length c = 2"
      "all_digits a" "all_digits b" "all_digits c" using clock_shape [of main] by blast
    then have "clock_ok main \<longleftrightarrow> digits_value a < 24 \<and> digits_value b < 60 \<and> digits_value c < 60"
      unfolding clock_ok_iff by auto
    with p True show ?thesis by (simp add: parses_below_field)
  next
    case False
    then have "\<not> clock_ok main" using clock_shape [of main] clock_ok_iff [of main] by blast
    with False show ?thesis by blast
  qed
  finally show ?thesis by (simp add: sp)
qed

lemma clock_no_point: "clock_ok m \<Longrightarrow> CHR ''.'' \<notin> set m"
proof -
  have "CHR ''.'' \<notin> set a" if "all_digits a" for a
  proof
    assume "CHR ''.'' \<in> set a"
    with that have "is_ascii_digit (CHR ''.'')" by (simp add: all_digits_def list_all_iff)
    then show False by (simp add: is_ascii_digit_def)
  qed
  then show "clock_ok m \<Longrightarrow> CHR ''.'' \<notin> set m" by (auto simp: clock_ok_iff)
qed

text \<open>
  A time of day is accepted exactly when it is the spelling of an hour, minute and second of the
  24-hour clock, optionally followed by a point and at least one digit.
\<close>

theorem time_iff_clock:
  "time s \<longleftrightarrow> (\<exists>h m sec. h < 24 \<and> m < 60 \<and> sec < 60 \<and>
     (s = iso_clock h m sec \<or> (\<exists>f. s = iso_clock h m sec @ ''.'' @ f \<and> f \<noteq> [] \<and> all_digits f)))"
  (is "_ \<longleftrightarrow> ?R")
proof -
  have "time s \<longleftrightarrow> clock_ok s \<or> (\<exists>m f. s = m @ ''.'' @ f \<and> clock_ok m \<and> f \<noteq> [] \<and> all_digits f)"
  proof (cases "split_once (CHR ''.'') s")
    case None
    then have "CHR ''.'' \<notin> set s" by (simp add: split_once_None)
    with None show ?thesis by (auto simp: time_conv split_point_def frac_ok_def)
  next
    case (Some p)
    then obtain a b where p: "p = (a, b)" "s = a @ CHR ''.'' # b" "CHR ''.'' \<notin> set a"
      using split_once_Some by (metis surj_pair)
    have uniq: "m = a \<and> f = b" if "s = m @ CHR ''.'' # f" "clock_ok m" for m f
      using that p clock_no_point split_once_append [of "CHR ''.''" m f] Some by simp
    from p have "\<not> clock_ok s" using clock_no_point by fastforce
    moreover have "time s \<longleftrightarrow> clock_ok a \<and> b \<noteq> [] \<and> all_digits b"
      using Some p(1) by (simp add: time_conv split_point_def frac_ok_def)
    moreover have "(\<exists>m f. s = m @ CHR ''.'' # f \<and> clock_ok m \<and> f \<noteq> [] \<and> all_digits f) \<longleftrightarrow>
        clock_ok a \<and> b \<noteq> [] \<and> all_digits b"
      using uniq p(2) by blast
    ultimately show ?thesis by simp
  qed
  then show ?thesis unfolding clock_ok_def by blast
qed

end
