(* ===== verification/Wire_Decimal.thy ===== *)
theory Wire_Decimal
  imports Wire_Value
begin

text \<open>
  The second half of \<^verbatim>\<open>value.rs\<close>: the tagged \<^verbatim>\<open>Value\<close> enumeration, its validation and decoding, the
  normalisation of native decimals and the comparison of decimal spellings.
\<close>

section \<open>Decimal text\<close>

definition trim_zeros :: "bytes \<Rightarrow> bytes" where
  "trim_zeros s = dropWhile (\<lambda>c. c = CHR ''0'') s"

definition trim_end_zeros :: "bytes \<Rightarrow> bytes" where
  "trim_end_zeros s = rev (dropWhile (\<lambda>c. c = CHR ''0'') (rev s))"

definition decimal_metadata :: "bytes \<Rightarrow> Error + nat \<times> nat" where
  "decimal_metadata value =
     (let s = strip_or_self (CHR ''-'') value;
          (ip, fr) = split_point s;
          scale = (case fr of None \<Rightarrow> 0 | Some f \<Rightarrow> length f);
          precision = max (length (trim_zeros ip) + scale) 1
      in and_then (require (ip \<noteq> [] \<and> all_digits ip \<and> (length ip = 1 \<or> \<not> starts_with_char (CHR ''0'') ip) \<and> frac_ok fr)) (\<lambda>_.
         and_then (cap precision 255) (\<lambda>_. Inr (precision, scale))))"

section \<open>Values\<close>

datatype Value = VNull | VBool bool | VI64 bytes | VU64 bytes | VF64 bytes
  | VDecimal bytes nat nat | VString bytes | VBytes bytes nat | VDatetime Semantic bytes
  | VUuid bytes | VJson bytes

record Codecs =
  key_dec :: "bytes \<Rightarrow> bytes option"
  f64_text :: "bytes \<Rightarrow> bytes option"
  b64_decode :: "bytes \<Rightarrow> bytes option"
  b64_encode :: "bytes \<Rightarrow> bytes"

text \<open>The digits of a decimal laid out for a native scale (\<^verbatim>\<open>out\<close> without its sign).\<close>

definition decimal_layout :: "bytes \<Rightarrow> nat \<Rightarrow> nat \<Rightarrow> bytes" where
  "decimal_layout digits scale zeros =
     (if scale = 0 then digits @ (if digits \<noteq> ''0'' then replicate zeros (CHR ''0'') else [])
      else if length digits \<le> scale then ''0.'' @ replicate (scale - length digits) (CHR ''0'') @ digits
      else (let split = length digits - scale in take split digits @ ''.'' @ drop split digits))"

definition decimal :: "bool \<Rightarrow> bytes \<Rightarrow> int \<Rightarrow> Error + Value" where
  "decimal reserve coefficient native_scale =
     (let digits = strip_or_self (CHR ''-'') coefficient;
          scale = nat (max native_scale 0);
          zeros = (if native_scale < 0 then nat (- native_scale) else 0)
      in and_then (require (digits \<noteq> [] \<and> all_digits digits \<and>
                     (length digits = 1 \<or> \<not> starts_with_char (CHR ''0'') digits))) (\<lambda>_.
         and_then (ok_or CapExceeded (checked_add (length digits) zeros)) (\<lambda>n.
         and_then (cap (max n scale) 255) (\<lambda>_.
         if \<not> reserve then Inl CapExceeded
         else let out = (if starts_with_char (CHR ''-'') coefficient then ''-'' else []) @ decimal_layout digits scale zeros
              in and_then (decimal_metadata out) (\<lambda>(precision, sc).
                 Inr (VDecimal out (precision mod 256) (sc mod 256)))))))"

definition split_once_by :: "(char \<Rightarrow> bool) \<Rightarrow> bytes \<Rightarrow> (bytes \<times> bytes) option" where
  "split_once_by p s =
     (case dropWhile (\<lambda>c. \<not> p c) s of [] \<Rightarrow> None | _ # r \<Rightarrow> Some (takeWhile (\<lambda>c. \<not> p c) s, r))"

definition exponent_split :: "bytes \<Rightarrow> (bytes \<times> int) option" where
  "exponent_split s =
     (case split_once_by (\<lambda>c. c = CHR ''e'' \<or> c = CHR ''E'') s of
        None \<Rightarrow> Some (s, 0)
      | Some (m, e) \<Rightarrow> map_option (\<lambda>e. (m, e)) (parse_i64 e))"

definition exponent_adjust :: "int \<Rightarrow> nat \<Rightarrow> nat \<Rightarrow> int option" where
  "exponent_adjust e fr_len removed =
     Option.bind (i64_checked (int fr_len)) (\<lambda>f.
     Option.bind (i64_checked (e - f)) (\<lambda>d.
     Option.bind (i64_checked (int removed)) (\<lambda>c. i64_checked (d + c))))"

definition parts :: "bytes \<Rightarrow> (bool \<times> bytes \<times> int) option" where
  "parts s =
     (let negative = starts_with_char (CHR ''-'') s
      in Option.bind (exponent_split (strip_or_self (CHR ''-'') s)) (\<lambda>(mantissa, e).
         let fr_len = (case split_once (CHR ''.'') mantissa of None \<Rightarrow> 0 | Some (_, f) \<Rightarrow> length f);
             digits = filter (\<lambda>c. c \<noteq> CHR ''.'') mantissa;
             leading = trim_zeros digits
         in if leading = [] then Some (negative, [], 0)
            else let trimmed = trim_end_zeros leading
                 in map_option (\<lambda>x. (negative, trimmed, x))
                      (exponent_adjust e fr_len (length leading - length trimmed))))"

definition decimal_equivalent :: "bytes \<Rightarrow> bytes \<Rightarrow> bool" where
  "decimal_equivalent a b =
     (case parts a of None \<Rightarrow> False | Some x \<Rightarrow> (case parts b of None \<Rightarrow> False | Some y \<Rightarrow> x = y))"

definition uuid_text :: "bytes \<Rightarrow> bool" where
  "uuid_text value \<longleftrightarrow> length value = 36 \<and>
     list_all (\<lambda>(i, b). if i \<in> {8, 13, 18, 23} then b = CHR ''-'' else is_lower_hex b) (enumerate 0 value)"

definition div_ceil :: "nat \<Rightarrow> nat \<Rightarrow> nat" where
  "div_ceil a b = (if a mod b = 0 then a div b else a div b + 1)"

fun value_validate :: "Codecs \<Rightarrow> Value \<Rightarrow> Error + unit" where
  "value_validate cs VNull = Inr ()"
| "value_validate cs (VBool b) = Inr ()"
| "value_validate cs (VI64 value) =
     require (case parse_i64 value of None \<Rightarrow> False | Some n \<Rightarrow> int_to_string n = value)"
| "value_validate cs (VU64 value) =
     require (case parse_u64 value of None \<Rightarrow> False | Some n \<Rightarrow> nat_to_string n = value)"
| "value_validate cs (VF64 value) =
     checks [text_bound value,
       require (number value \<and> (case f64_text cs value of None \<Rightarrow> False | Some n \<Rightarrow> decimal_equivalent value n))]"
| "value_validate cs (VString value) = text_bound value"
| "value_validate cs (VUuid value) = require (uuid_text value)"
| "value_validate cs (VDecimal value precision scale) =
     and_then (text_bound value) (\<lambda>_.
     and_then (decimal_metadata value) (\<lambda>(p, s). require (precision = p \<and> scale = s)))"
| "value_validate cs (VBytes base64 len) =
     checks [cap len SCALAR_BYTES, cap (length base64) (div_ceil SCALAR_BYTES 3 * 4),
       case b64_decode cs base64 of
         None \<Rightarrow> Inl InvalidRequest
       | Some b \<Rightarrow> require (length b = len \<and> b64_encode cs b = base64)]"
| "value_validate cs (VDatetime semantic value) = validate_datetime semantic value"
| "value_validate cs (VJson value) = source_json (key_dec cs) value"

definition value_kinds :: "bytes list" where
  "value_kinds = [''null'', ''bool'', ''i64'', ''u64'', ''f64'', ''string'', ''uuid'', ''json'', ''decimal'', ''bytes'', ''datetime'']"

text \<open>
  \<^verbatim>\<open>decode\<close>: \<open>tag\<close> is serde's reading of the \<^verbatim>\<open>kind\<close> member, \<open>from_fields k\<close> its closed-struct decoder for
  the fields of kind \<open>k\<close>.
\<close>

definition value_decode :: "Codecs \<Rightarrow> (bytes \<Rightarrow> bytes option) \<Rightarrow> (bytes \<Rightarrow> bytes \<Rightarrow> Value option) \<Rightarrow> bytes \<Rightarrow> Error + Value" where
  "value_decode cs tag from_fields raw =
     and_then (require (starts_with_char (CHR ''{'') raw)) (\<lambda>_.
     and_then (json_ok (key_dec cs) raw RESULT_BYTES) (\<lambda>_.
     and_then (ok_or InvalidRequest (tag raw)) (\<lambda>kind.
     if kind \<notin> set value_kinds then Inl InvalidRequest
     else and_then (ok_or InvalidRequest (from_fields kind raw)) (\<lambda>v.
          and_then (value_validate cs v) (\<lambda>_. Inr v)))))"

section \<open>Integers\<close>

text \<open>
  An \<^verbatim>\<open>i64\<close> or \<^verbatim>\<open>u64\<close> value is accepted exactly when its text is the canonical decimal spelling of an
  integer in the range of that type: no plus sign, no superfluous zero, no minus zero, no overflow.
\<close>

theorem integer_values_canonical:
  "(value_validate cs (VI64 s) = Inr () \<longleftrightarrow> (\<exists>n. - (2 ^ 63) \<le> n \<and> n < 2 ^ 63 \<and> s = int_to_string n)) \<and>
   (value_validate cs (VU64 s) = Inr () \<longleftrightarrow> (\<exists>n. n < 2 ^ 64 \<and> s = nat_to_string n))"
proof
  have "value_validate cs (VI64 s) = Inr () \<longleftrightarrow> (\<exists>n. parse_i64 s = Some n \<and> int_to_string n = s)"
    by (auto simp: require_ok_iff split: option.splits)
  then show "value_validate cs (VI64 s) = Inr () \<longleftrightarrow> (\<exists>n. - (2 ^ 63) \<le> n \<and> n < 2 ^ 63 \<and> s = int_to_string n)"
    using signed_round_trip_iff [of "2 ^ 63" s] by simp
  have "value_validate cs (VU64 s) = Inr () \<longleftrightarrow> (\<exists>n. parse_u64 s = Some n \<and> nat_to_string n = s)"
    by (auto simp: require_ok_iff split: option.splits)
  then show "value_validate cs (VU64 s) = Inr () \<longleftrightarrow> (\<exists>n. n < 2 ^ 64 \<and> s = nat_to_string n)"
    by (simp only: unsigned_round_trip_iff)
qed

section \<open>Native decimals\<close>

lemma digits_no_point: "all_digits a \<Longrightarrow> CHR ''.'' \<notin> set a"
  by (force simp: all_digits_def list_all_iff is_ascii_digit_def)

lemma split_point_digits:
  "all_digits a \<Longrightarrow> split_point a = (a, None)"
  "all_digits a \<Longrightarrow> split_point (a @ CHR ''.'' # f) = (a, Some f)"
  using digits_no_point [of a] by (simp_all add: split_point_def split_once_append split_once_None [THEN iffD2])

lemma canonical_guard:
  "s \<noteq> [] \<and> all_digits s \<and> (length s = 1 \<or> \<not> starts_with_char (CHR ''0'') s) \<longleftrightarrow> canonical_digits s"
  by (auto simp: canonical_digits_def starts_with_char_def)

text \<open>The signed number of units of the last place that a decimal text denotes.\<close>

definition dec_units :: "bytes \<Rightarrow> int" where
  "dec_units v = (if starts_with_char (CHR ''-'') v then - 1 else 1) *
     int (digits_value (filter (\<lambda>c. c \<noteq> CHR ''.'') (strip_or_self (CHR ''-'') v)))"

definition sign_text :: "bool \<Rightarrow> bytes" where
  "sign_text neg = (if neg then ''-'' else [])"

lemma strip_signed:
  assumes "canonical_digits ip"
  shows "strip_or_self (CHR ''-'') (sign_text neg @ ip @ r) = ip @ r"
    "starts_with_char (CHR ''-'') (sign_text neg @ ip @ r) = neg"
proof -
  from canonical_hd_digit [OF assms] obtain c t where "ip = c # t" "is_ascii_digit c" by blast
  moreover then have "c \<noteq> CHR ''-''" by (auto simp: is_ascii_digit_def)
  ultimately show "strip_or_self (CHR ''-'') (sign_text neg @ ip @ r) = ip @ r"
    "starts_with_char (CHR ''-'') (sign_text neg @ ip @ r) = neg"
    by (auto simp: sign_text_def starts_with_char_def)
qed

lemma trim_zeros_le: "length (trim_zeros s) \<le> length s"
  by (simp add: trim_zeros_def length_dropWhile_le)

lemma metadata_int:
  assumes "canonical_digits ip" "length ip \<le> 255"
  shows "decimal_metadata (sign_text neg @ ip) = Inr (max (length (trim_zeros ip)) 1, 0)"
proof -
  have "length (trim_zeros ip) \<le> 255"
    using assms(2) trim_zeros_le [of ip] by simp
  with assms strip_signed(1) [OF assms(1), of neg "[]"] canonical_guard [of ip] show ?thesis
    by (simp add: decimal_metadata_def split_point_digits canonical_parts frac_ok_def cap_def)
qed

lemma metadata_frac:
  assumes "canonical_digits ip" "f \<noteq> []" "all_digits f" "length (trim_zeros ip) + length f \<le> 255"
  shows "decimal_metadata (sign_text neg @ ip @ CHR ''.'' # f) =
    Inr (length (trim_zeros ip) + length f, length f)"
proof -
  have "max (length (trim_zeros ip) + length f) 1 = length (trim_zeros ip) + length f"
    using assms(2) by (cases f) auto
  with assms strip_signed(1) [OF assms(1), of neg "CHR ''.'' # f"] canonical_guard [of ip] show ?thesis
    by (simp add: decimal_metadata_def split_point_digits canonical_parts frac_ok_def cap_def Let_def)
qed

lemma filter_digits: "all_digits s \<Longrightarrow> filter (\<lambda>c. c \<noteq> CHR ''.'') s = s"
  using digits_no_point by (auto intro: filter_True)

lemma dec_units_signed:
  assumes "canonical_digits ip" "all_digits f"
  shows "dec_units (sign_text neg @ ip) = (if neg then - 1 else 1) * int (digits_value ip)"
    "dec_units (sign_text neg @ ip @ CHR ''.'' # f) = (if neg then - 1 else 1) * int (digits_value (ip @ f))"
  using assms strip_signed [OF assms(1), of neg "[]"] strip_signed [OF assms(1), of neg "CHR ''.'' # f"]
  by (simp_all add: dec_units_def filter_digits canonical_parts)

text \<open>What each of the three layouts denotes.\<close>

definition layout_exact :: "bool \<Rightarrow> bytes \<Rightarrow> nat \<Rightarrow> nat \<Rightarrow> bytes \<Rightarrow> bool" where
  "layout_exact neg digits scale zeros v \<longleftrightarrow>
     (\<exists>p\<le>255. decimal_metadata v = Inr (p, scale)) \<and> length v \<le> 258 \<and>
     dec_units v = (if neg then - 1 else 1) * int (digits_value digits) * 10 ^ zeros"

lemma layout_integer:
  assumes d: "canonical_digits digits" "length digits + zeros \<le> 255"
  shows "layout_exact neg digits 0 zeros (sign_text neg @ decimal_layout digits 0 zeros)"
proof -
  define ip where "ip = digits @ (if digits \<noteq> ''0'' then replicate zeros (CHR ''0'') else [])"
  have ip: "canonical_digits ip" "length ip \<le> 255"
    using d by (auto simp: ip_def canonical_digits_def hd_append length_Suc_conv)
  have "digits_value ip = digits_value digits * 10 ^ zeros"
    by (auto simp: ip_def digits_value_append digits_value_zeros digit_value_def)
  moreover have "max (length (trim_zeros ip)) 1 \<le> 255"
    using ip(2) trim_zeros_le [of ip] by simp
  ultimately show ?thesis
    using ip metadata_int [OF ip, of neg] dec_units_signed(1) [OF ip(1), of "[]" neg]
    by (auto simp: layout_exact_def decimal_layout_def sign_text_def simp flip: ip_def)
qed

lemma layout_below_one:
  assumes d: "canonical_digits digits" "scale \<le> 255" "0 < scale" "length digits \<le> scale"
  shows "layout_exact neg digits scale 0 (sign_text neg @ decimal_layout digits scale 0)"
proof -
  define f where "f = replicate (scale - length digits) (CHR ''0'') @ digits"
  have z: "canonical_digits ''0''" by (simp add: canonical_digits_def is_ascii_digit_def)
  have f: "f \<noteq> []" "all_digits f" "length f = scale" "digits_value f = digits_value digits"
    using d by (auto simp: f_def canonical_parts digits_value_append digits_value_zeros)
  have v: "sign_text neg @ decimal_layout digits scale 0 = sign_text neg @ ''0'' @ CHR ''.'' # f"
    using d by (simp add: decimal_layout_def f_def)
  have "decimal_metadata (sign_text neg @ ''0'' @ CHR ''.'' # f) = Inr (scale, scale)"
    using metadata_frac [OF z f(1,2), of neg] d f(3) by (simp add: trim_zeros_def)
  moreover have "digits_value (''0'' @ f) = digits_value digits"
    using f(4) by (simp only: digits_value_append) (simp add: digit_value_def)
  ultimately show ?thesis
    using dec_units_signed(2) [OF z f(2), of neg] d(2) f(3) unfolding v layout_exact_def
    by (auto simp: sign_text_def)
qed

lemma layout_split:
  assumes d: "canonical_digits digits" "length digits \<le> 255" "0 < scale" "scale < length digits"
  shows "layout_exact neg digits scale 0 (sign_text neg @ decimal_layout digits scale 0)"
proof -
  define k where "k = length digits - scale"
  define ip f where "ip = take k digits" and "f = drop k digits"
  have k: "0 < k" "k < length digits" using d by (auto simp: k_def)
  have df: "digits = ip @ f" by (simp add: ip_def f_def)
  have ip: "canonical_digits ip" "f \<noteq> []" "all_digits f" "length f = scale" "length ip + length f \<le> 255"
    using d k by (auto simp: canonical_digits_def ip_def f_def k_def all_digits_def list_all_iff
        dest: in_set_takeD in_set_dropD)
  have v: "sign_text neg @ decimal_layout digits scale 0 = sign_text neg @ ip @ CHR ''.'' # f"
    using d by (simp add: decimal_layout_def ip_def f_def k_def Let_def)
  have t: "length (trim_zeros ip) + length f \<le> 255"
    using ip(5) trim_zeros_le [of ip] by simp
  show ?thesis
    using metadata_frac [OF ip(1-3) t, of neg] dec_units_signed(2) [OF ip(1,3), of neg] ip(4,5) t df
    unfolding v layout_exact_def by (auto simp: sign_text_def)
qed

lemma decimal_layout_exact:
  assumes "canonical_digits digits" "length digits + zeros \<le> 255" "scale \<le> 255" "zeros = 0 \<or> scale = 0"
  shows "layout_exact neg digits scale zeros (sign_text neg @ decimal_layout digits scale zeros)"
proof (cases "scale = 0")
  case True
  with layout_integer [of digits zeros neg] assms show ?thesis by simp
next
  case False
  with assms layout_below_one [of digits scale neg] layout_split [of digits scale neg] show ?thesis
    by (cases "length digits \<le> scale") auto
qed

text \<open>
  C21: a native decimal, a canonical signed coefficient with a 64-bit scale, is either rejected with
  \<^verbatim>\<open>cap_exceeded\<close> because its full expansion is wider than 255 digits, or becomes a value that passes
  validation, whose scale is the native scale (none when it is negative) and that denotes the same
  number: the coefficient, with the zeros of a negative scale appended, and nothing rounded.
\<close>

theorem decimal_exact:
  assumes "canonical_digits digits" "- (2 ^ 63) \<le> ns" "ns < 2 ^ 63" "length digits < 2 ^ 63"
  shows "if length digits + nat (- ns) \<le> 255 \<and> ns \<le> 255
    then \<exists>v p. decimal True (sign_text neg @ digits) ns = Inr (VDecimal v p (nat ns)) \<and>
           value_validate cs (VDecimal v p (nat ns)) = Inr () \<and>
           dec_units v = (if neg then - 1 else 1) * int (digits_value digits) * 10 ^ nat (- ns)
    else decimal True (sign_text neg @ digits) ns = Inl CapExceeded"
proof -
  let ?scale = "nat (max ns 0)" and ?zeros = "if ns < 0 then nat (- ns) else 0"
  have strip: "strip_or_self (CHR ''-'') (sign_text neg @ digits) = digits"
    "starts_with_char (CHR ''-'') (sign_text neg @ digits) = neg"
    using strip_signed [OF assms(1), of neg "[]"] by simp_all
  have conv: "?scale = nat ns" "?zeros = nat (- ns)" by auto
  have add: "checked_add (length digits) (nat (- ns)) = Some (length digits + nat (- ns))"
    using assms by (simp add: checked_add_def USIZE_LIMIT_def)
  have run: "decimal True (sign_text neg @ digits) ns =
      and_then (cap (max (length digits + nat (- ns)) (nat ns)) 255) (\<lambda>_.
      and_then (decimal_metadata (sign_text neg @ decimal_layout digits (nat ns) (nat (- ns)))) (\<lambda>(p, s).
      Inr (VDecimal (sign_text neg @ decimal_layout digits (nat ns) (nat (- ns))) (p mod 256) (s mod 256))))"
    using canonical_guard [of digits] assms(1)
    by (simp add: decimal_def strip conv add sign_text_def [symmetric] Let_def)
  show ?thesis
  proof (cases "length digits + nat (- ns) \<le> 255 \<and> ns \<le> 255")
    case True
    let ?v = "sign_text neg @ decimal_layout digits (nat ns) (nat (- ns))"
    from True assms(1) have "layout_exact neg digits (nat ns) (nat (- ns)) ?v"
      by (intro decimal_layout_exact) auto
    then obtain p where p: "p \<le> 255" "decimal_metadata ?v = Inr (p, nat ns)" "length ?v \<le> 258"
        "dec_units ?v = (if neg then - 1 else 1) * int (digits_value digits) * 10 ^ nat (- ns)"
      by (auto simp: layout_exact_def)
    have "decimal True (sign_text neg @ digits) ns = Inr (VDecimal ?v p (nat ns))"
      using run p True by (auto simp: cap_def nat_le_iff intro!: mod_less)
    moreover have "value_validate cs (VDecimal ?v p (nat ns)) = Inr ()"
      using p by (simp add: result_simps SCALAR_BYTES_def text_bound_def cap_def)
    ultimately show ?thesis using p(4) True by auto
  next
    case False
    with run show ?thesis by (auto simp: cap_def)
  qed
qed

theorem decimal_exact_witness:
  "if length ''125'' + nat (- 2) \<le> 255 \<and> (2 :: int) \<le> 255
    then \<exists>v p. decimal True (sign_text True @ ''125'') 2 = Inr (VDecimal v p (nat 2)) \<and>
           value_validate \<lparr>key_dec = (\<lambda>_. None), f64_text = (\<lambda>_. None), b64_decode = (\<lambda>_. None), b64_encode = id\<rparr>
             (VDecimal v p (nat 2)) = Inr () \<and>
           dec_units v = (if True then - 1 else 1) * int (digits_value ''125'') * 10 ^ nat (- 2)
    else decimal True (sign_text True @ ''125'') 2 = Inl CapExceeded"
  by (rule decimal_exact) (simp_all add: canonical_digits_def is_ascii_digit_def)

section \<open>Equivalent spellings\<close>

text \<open>\<open>spells s v\<close>: the decimal literal \<open>s\<close>, with an exponent that fits 64 bits, denotes \<open>v\<close>.\<close>

definition exponent_text :: "bytes \<Rightarrow> int \<Rightarrow> bool" where
  "exponent_text ex e \<longleftrightarrow> (ex = [] \<and> e = 0) \<or>
     (\<exists>c r. ex = c # r \<and> (c = CHR ''e'' \<or> c = CHR ''E'') \<and> parse_i64 r = Some e)"

definition spells :: "bytes \<Rightarrow> rat \<Rightarrow> bool" where
  "spells s v \<longleftrightarrow> (\<exists>neg ip f point ex e.
     s = sign_text neg @ ip @ point @ ex \<and> ip \<noteq> [] \<and> all_digits ip \<and> all_digits f \<and>
     (point = [] \<and> f = [] \<or> point = CHR ''.'' # f) \<and> exponent_text ex e \<and>
     v = (if neg then - 1 else 1) * of_nat (digits_value (ip @ f)) * 10 powi (e - int (length f)))"

lemma digits_value_trim: "digits_value (trim_zeros s) = digits_value s"
  unfolding trim_zeros_def by (induction s) (auto simp: digits_value_Cons digit_value_def)

lemma dropWhile_zeros: "replicate (length s - length (dropWhile (\<lambda>c. c = CHR ''0'') s)) (CHR ''0'') @
    dropWhile (\<lambda>c. c = CHR ''0'') s = s"
proof (induction s)
  case (Cons c s)
  then show ?case
    using length_dropWhile_le [of "\<lambda>c. c = CHR ''0''" s] by (auto simp: Suc_diff_le)
qed simp

lemma trim_end_split: "s = trim_end_zeros s @ replicate (length s - length (trim_end_zeros s)) (CHR ''0'')"
  using arg_cong [OF dropWhile_zeros [of "rev s"], of rev] by (simp add: trim_end_zeros_def)

lemma digits_value_trim_end:
  "digits_value s = digits_value (trim_end_zeros s) * 10 ^ (length s - length (trim_end_zeros s))"
  using arg_cong [OF trim_end_split [of s], of digits_value]
  by (simp add: digits_value_append digits_value_zeros)

lemma digits_no_exponent: "all_digits a \<Longrightarrow> \<forall>c\<in>set a. c \<noteq> CHR ''e'' \<and> c \<noteq> CHR ''E''"
  by (force simp: all_digits_def list_all_iff is_ascii_digit_def)

lemma split_once_by_first:
  "\<forall>c\<in>set m. \<not> p c \<Longrightarrow> p x \<Longrightarrow> split_once_by p (m @ x # r) = Some (m, r)"
  "\<forall>c\<in>set m. \<not> p c \<Longrightarrow> split_once_by p m = None"
proof -
  assume m: "\<forall>c\<in>set m. \<not> p c"
  then have "dropWhile (\<lambda>c. \<not> p c) m = []" "\<And>x r. p x \<Longrightarrow> dropWhile (\<lambda>c. \<not> p c) (m @ x # r) = x # r"
    "\<And>x r. p x \<Longrightarrow> takeWhile (\<lambda>c. \<not> p c) (m @ x # r) = m"
    by (induction m) auto
  then show "p x \<Longrightarrow> split_once_by p (m @ x # r) = Some (m, r)" "split_once_by p m = None"
    by (simp_all only: split_once_by_def list.case)
qed

lemma exponent_split_text:
  assumes "exponent_text ex e" "\<forall>c\<in>set m. c \<noteq> CHR ''e'' \<and> c \<noteq> CHR ''E''"
  shows "exponent_split (m @ ex) = Some (m, e)"
proof -
  let ?p = "\<lambda>c. c = CHR ''e'' \<or> c = CHR ''E''"
  have m: "\<forall>c\<in>set m. \<not> ?p c" using assms(2) by blast
  from assms(1) show ?thesis
    unfolding exponent_text_def
  proof (elim disjE exE conjE)
    assume "ex = []" "e = 0"
    then show ?thesis using split_once_by_first(2) [OF m] by (simp add: exponent_split_def)
  qed (use split_once_by_first(1) [OF m] in \<open>simp_all add: exponent_split_def\<close>)
qed

lemma exponent_adjust_value:
  "exponent_adjust e l c = Some x \<Longrightarrow> x = e - int l + int c"
  by (auto simp: exponent_adjust_def bind_eq_Some_conv i64_checked_Some_iff)

lemma strip_digits:
  assumes "all_digits ip" "ip \<noteq> []"
  shows "strip_or_self (CHR ''-'') (sign_text neg @ ip @ r) = ip @ r"
    "starts_with_char (CHR ''-'') (sign_text neg @ ip @ r) = neg"
proof -
  from assms obtain c t where "ip = c # t" "is_ascii_digit c" by (cases ip) auto
  moreover then have "c \<noteq> CHR ''-''" by (auto simp: is_ascii_digit_def)
  ultimately show "strip_or_self (CHR ''-'') (sign_text neg @ ip @ r) = ip @ r"
    "starts_with_char (CHR ''-'') (sign_text neg @ ip @ r) = neg"
    by (auto simp: sign_text_def starts_with_char_def)
qed

lemma mantissa_parts_conj:
  assumes "all_digits ip" "all_digits f" "point = [] \<and> f = [] \<or> point = CHR ''.'' # f"
  shows "(case split_once (CHR ''.'') (ip @ point) of None \<Rightarrow> 0 | Some (_, g) \<Rightarrow> length g) = length f \<and>
    filter (\<lambda>c. c \<noteq> CHR ''.'') (ip @ point) = ip @ f \<and>
    (\<forall>c\<in>set (ip @ point). c \<noteq> CHR ''e'' \<and> c \<noteq> CHR ''E'')"
  using assms(3)
proof (elim disjE conjE)
  assume "point = []" "f = []"
  with assms(1) digits_no_point [of ip] digits_no_exponent [of ip] split_once_None [of "CHR ''.''" ip]
  show ?thesis by (simp add: filter_digits)
next
  assume "point = CHR ''.'' # f"
  with assms(1,2) digits_no_exponent [of ip] digits_no_exponent [of f]
    split_once_append [OF digits_no_point [OF assms(1)], of f]
  show ?thesis by (simp add: filter_digits ball_Un)
qed

lemmas mantissa_parts = mantissa_parts_conj [THEN conjunct1]
  mantissa_parts_conj [THEN conjunct2, THEN conjunct1] mantissa_parts_conj [THEN conjunct2, THEN conjunct2]

text \<open>The normal form computed by \<^verbatim>\<open>parts\<close> denotes the number its input spells.\<close>

lemma parts_value:
  assumes "spells s v" "parts s = Some (n, t, x)"
  shows "v = (if n then - 1 else 1) * of_nat (digits_value t) * 10 powi x"
proof -
  from assms(1) obtain neg ip f point ex e where s: "s = sign_text neg @ ip @ point @ ex" "ip \<noteq> []"
      "all_digits ip" "all_digits f" "point = [] \<and> f = [] \<or> point = CHR ''.'' # f" "exponent_text ex e"
      "v = (if neg then - 1 else 1) * of_nat (digits_value (ip @ f)) * 10 powi (e - int (length f))"
    unfolding spells_def by blast
  note m = mantissa_parts [OF s(3-5)]
  have sp: "exponent_split (ip @ point @ ex) = Some (ip @ point, e)"
    using exponent_split_text [OF s(6) m(3)] by simp
  let ?lead = "trim_zeros (ip @ f)"
  let ?cut = "length ?lead - length (trim_end_zeros ?lead)"
  have p: "parts s = (if ?lead = [] then Some (neg, [], 0)
      else map_option (\<lambda>x. (neg, trim_end_zeros ?lead, x)) (exponent_adjust e (length f) ?cut))"
    using m(1,2) by (simp add: parts_def s(1) strip_digits [OF s(3,2)] sp Let_def)
  show ?thesis
  proof (cases "?lead = []")
    case True
    then have "digits_value (ip @ f) = 0" using digits_value_trim [of "ip @ f"] by simp
    with True p assms(2) s(7) show ?thesis by simp
  next
    case False
    with p assms(2) have nt: "n = neg" "t = trim_end_zeros ?lead" "exponent_adjust e (length f) ?cut = Some x"
      by (cases "exponent_adjust e (length f) ?cut"; simp)+
    have "digits_value (ip @ f) = digits_value t * 10 ^ ?cut"
      using digits_value_trim_end [of ?lead] nt(2) by (simp add: digits_value_trim)
    moreover have "x = e - int (length f) + int ?cut" using exponent_adjust_value nt(3) by blast
    ultimately show ?thesis using s(7) nt(1) by (simp add: power_int_add)
  qed
qed

text \<open>
  A floating point text passes validation only when the number it spells and the number that
  the parsed \<^verbatim>\<open>f64\<close> prints are the same rational: no digit is lost by going through floating point.
\<close>

theorem f64_value_lossless:
  assumes "value_validate cs (VF64 s) = Inr ()"
  shows "number s \<and> (\<exists>shown. f64_text cs s = Some shown \<and>
    (\<forall>x y. spells s x \<and> spells shown y \<longrightarrow> x = y))"
proof -
  from assms obtain shown where sh: "number s" "f64_text cs s = Some shown" "decimal_equivalent s shown"
    by (auto simp: result_simps split: option.splits)
  from sh(3) obtain n t e where "parts s = Some (n, t, e)" "parts shown = Some (n, t, e)"
    by (auto simp: decimal_equivalent_def split: option.splits)
  with parts_value sh(1,2) show ?thesis by blast
qed

theorem f64_value_lossless_witness:
  "number ''1.50'' \<and> (\<exists>shown. f64_text \<lparr>key_dec = (\<lambda>_. None), f64_text = (\<lambda>_. Some ''1.5''), b64_decode = (\<lambda>_. None), b64_encode = id\<rparr> ''1.50'' = Some shown \<and>
    (\<forall>x y. spells ''1.50'' x \<and> spells shown y \<longrightarrow> x = y))"
  by (rule f64_value_lossless) code_simp

end
