(* ===== verification/Wire_Query.thy ===== *)
theory Wire_Query
  imports Wire_Decimal
begin

text \<open>
  The query DTO, \<^verbatim>\<open>crates/gaze-lens-protocol/src/query.rs\<close>: scalars, operands, predicates and the
  validation every query passes before it is sent or executed. A loop that returns early is a
  recursive function over the remaining elements.
\<close>

section \<open>Data\<close>

datatype Scalar = ScString bytes | ScNumber bytes | ScBool bool | ScNull
datatype Operand = OperandScalar Scalar | OperandList "Scalar list"
datatype Op = Eq | Ne | Gt | Gte | Lt | Lte | In | Like | IsNull | IsNotNull
datatype Combinator = CombAnd | CombOr
datatype Direction = Asc | Desc

record Predicate =
  p_col :: bytes
  p_op :: Op
  p_val :: "Operand option"

record Order =
  o_col :: bytes
  o_dir :: Direction

record Query =
  q_table :: bytes
  q_columns :: "bytes list option"
  q_where :: "Predicate list option"
  q_combinator :: "Combinator option"
  q_order_by :: "Order list option"
  q_limit :: "nat option"

text \<open>
  \<^verbatim>\<open>Scalar::deserialize\<close> on the raw text of a JSON value; \<open>dec\<close> is serde's string decoder.
\<close>

definition scalar_decode :: "(bytes \<Rightarrow> bytes option) \<Rightarrow> bytes \<Rightarrow> Error + Scalar" where
  "scalar_decode dec s =
     (if starts_with_char quote_byte s then
        (case dec s of Some t \<Rightarrow> Inr (ScString t) | None \<Rightarrow> Inl InvalidRequest)
      else if s = ''null'' then Inr ScNull
      else if s = ''true'' \<or> s = ''false'' then Inr (ScBool (s = ''true''))
      else if number s then Inr (ScNumber s)
      else Inl InvalidRequest)"

section \<open>Validation\<close>

text \<open>Labels checked one by one against those already seen.\<close>

fun distinct_labels :: "bytes list \<Rightarrow> bytes list \<Rightarrow> Error + unit" where
  "distinct_labels seen [] = Inr ()"
| "distinct_labels seen (x # xs) =
     and_then (identifier_bound x) (\<lambda>_.
     and_then (require (x \<notin> set seen)) (\<lambda>_. distinct_labels (x # seen) xs))"

fun scalar_check :: "Scalar \<Rightarrow> Error + unit" where
  "scalar_check ScNull = Inl InvalidRequest"
| "scalar_check (ScString s) = text_bound s"
| "scalar_check (ScNumber n) = checks [cap (length n) SCALAR_BYTES, require (number n)]"
| "scalar_check (ScBool b) = Inr ()"

text \<open>One predicate: the number of bind values it contributes.\<close>

definition predicate_binds :: "Predicate \<Rightarrow> Error + nat" where
  "predicate_binds p =
     and_then (identifier_bound (p_col p)) (\<lambda>_.
     if p_op p = IsNull \<or> p_op p = IsNotNull then
       (case p_val p of None \<Rightarrow> Inr 0 | Some _ \<Rightarrow> Inl InvalidRequest)
     else if p_op p = In then
       (case p_val p of
          Some (OperandList xs) \<Rightarrow>
            and_then (require (xs \<noteq> [])) (\<lambda>_. and_then (checks (map scalar_check xs)) (\<lambda>_. Inr (length xs)))
        | _ \<Rightarrow> Inl InvalidRequest)
     else
       (case p_val p of
          Some (OperandScalar x) \<Rightarrow> and_then (scalar_check x) (\<lambda>_. Inr 1)
        | _ \<Rightarrow> Inl InvalidRequest))"

fun count_binds :: "nat \<Rightarrow> Predicate list \<Rightarrow> Error + nat" where
  "count_binds n [] = Inr n"
| "count_binds n (p # ps) = and_then (predicate_binds p) (\<lambda>k. count_binds (n + k) ps)"

definition query_limit :: "Query \<Rightarrow> nat" where
  "query_limit q = (case q_limit q of None \<Rightarrow> DEFAULT_ROWS | Some n \<Rightarrow> n)"

definition query_validate :: "Query \<Rightarrow> Error + unit" where
  "query_validate q =
     and_then (identifier_bound (q_table q)) (\<lambda>_.
     and_then (require (0 < query_limit q)) (\<lambda>_.
     and_then (cap (query_limit q) MAX_ROWS) (\<lambda>_.
     and_then (case q_columns q of
         None \<Rightarrow> Inr ()
       | Some cols \<Rightarrow> checks [require (cols \<noteq> []), cap (length cols) MAX_COLUMNS, distinct_labels [] cols]) (\<lambda>_.
     and_then (case q_where q of
         None \<Rightarrow> Inr 0
       | Some ps \<Rightarrow> and_then (cap (length ps) MAX_PREDICATES) (\<lambda>_. count_binds 0 ps)) (\<lambda>binds.
     and_then (cap binds MAX_BINDS) (\<lambda>_.
     case q_order_by q of
       None \<Rightarrow> Inr ()
     | Some os \<Rightarrow> checks (cap (length os) MAX_ORDER # map (\<lambda>o'. identifier_bound (o_col o')) os)))))))"

section \<open>The declarative contract\<close>

definition identifier_ok :: "bytes \<Rightarrow> bool" where
  "identifier_ok s \<longleftrightarrow> s \<noteq> [] \<and> length s \<le> IDENTIFIER_BYTES"

definition scalar_ok :: "Scalar \<Rightarrow> bool" where
  "scalar_ok x \<longleftrightarrow> (case x of ScNull \<Rightarrow> False | ScString s \<Rightarrow> length s \<le> SCALAR_BYTES
     | ScNumber n \<Rightarrow> length n \<le> SCALAR_BYTES \<and> json_number n | ScBool _ \<Rightarrow> True)"

text \<open>The bind values a predicate carries.\<close>

definition bind_values :: "Predicate \<Rightarrow> Scalar list" where
  "bind_values p = (case p_val p of None \<Rightarrow> [] | Some (OperandScalar x) \<Rightarrow> [x] | Some (OperandList xs) \<Rightarrow> xs)"

definition operand_fits :: "Predicate \<Rightarrow> bool" where
  "operand_fits p \<longleftrightarrow>
     (case p_op p of
        IsNull \<Rightarrow> p_val p = None
      | IsNotNull \<Rightarrow> p_val p = None
      | In \<Rightarrow> (\<exists>xs. xs \<noteq> [] \<and> p_val p = Some (OperandList xs))
      | _ \<Rightarrow> (\<exists>x. p_val p = Some (OperandScalar x)))"

definition predicate_ok :: "Predicate \<Rightarrow> bool" where
  "predicate_ok p \<longleftrightarrow> identifier_ok (p_col p) \<and> operand_fits p \<and> list_all scalar_ok (bind_values p)"

definition query_ok :: "Query \<Rightarrow> bool" where
  "query_ok q \<longleftrightarrow> identifier_ok (q_table q) \<and> 1 \<le> query_limit q \<and> query_limit q \<le> MAX_ROWS \<and>
     (\<forall>cols. q_columns q = Some cols \<longrightarrow> cols \<noteq> [] \<and> length cols \<le> MAX_COLUMNS \<and> distinct cols \<and> list_all identifier_ok cols) \<and>
     (\<forall>ps. q_where q = Some ps \<longrightarrow> length ps \<le> MAX_PREDICATES \<and> list_all predicate_ok ps \<and>
        length (concat (map bind_values ps)) \<le> MAX_BINDS) \<and>
     (\<forall>os. q_order_by q = Some os \<longrightarrow> length os \<le> MAX_ORDER \<and> list_all (\<lambda>x. identifier_ok (o_col x)) os)"

lemma identifier_bound_iff [result_simps]: "identifier_bound s = Inr () \<longleftrightarrow> identifier_ok s"
  by (simp add: identifier_ok_def identifier_bound_ok_iff)

lemma distinct_labels_iff [result_simps]:
  "distinct_labels seen xs = Inr () \<longleftrightarrow> list_all identifier_ok xs \<and> distinct xs \<and> set xs \<inter> set seen = {}"
  by (induction seen xs rule: distinct_labels.induct) (auto simp: result_simps identifier_ok_def)

lemma scalar_check_iff [result_simps]: "scalar_check x = Inr () \<longleftrightarrow> scalar_ok x"
  by (cases x) (auto simp: scalar_ok_def result_simps number_grammar)

lemma scalars_check_iff [result_simps]: "checks (map scalar_check xs) = Inr () \<longleftrightarrow> list_all scalar_ok xs"
  by (auto simp: checks_ok_iff list_all_iff scalar_check_iff)

lemma predicate_binds_iff [result_simps]:
  "predicate_binds p = Inr k \<longleftrightarrow> predicate_ok p \<and> k = length (bind_values p)"
proof -
  have id: "(\<exists>u. identifier_bound (p_col p) = Inr u) \<longleftrightarrow> identifier_ok (p_col p)"
    by (simp add: identifier_bound_iff)
  show ?thesis
    unfolding predicate_binds_def and_then_Inr_iff
    by (cases "p_op p"; cases "p_val p") (auto simp: predicate_ok_def operand_fits_def bind_values_def
        and_then_Inr_iff id require_ok_iff scalars_check_iff scalar_check_iff identifier_bound_iff split: Operand.splits)
qed

lemma count_binds_iff [result_simps]:
  "count_binds n ps = Inr m \<longleftrightarrow> list_all predicate_ok ps \<and> m = n + length (concat (map bind_values ps))"
proof (induction ps arbitrary: n)
  case (Cons p ps)
  have "count_binds n (p # ps) = Inr m \<longleftrightarrow>
      predicate_ok p \<and> count_binds (n + length (bind_values p)) ps = Inr m"
    by (simp add: and_then_Inr_iff predicate_binds_iff)
  with Cons.IH show ?case by (simp add: add.assoc)
qed auto

lemma query_validate_iff: "query_validate q = Inr () \<longleftrightarrow> query_ok q"
proof -
  have ord: "checks (cap (length os) MAX_ORDER # map (\<lambda>o'. identifier_bound (o_col o')) os) = Inr () \<longleftrightarrow>
      length os \<le> MAX_ORDER \<and> list_all (\<lambda>x. identifier_ok (o_col x)) os" for os
    by (auto simp: checks_ok_iff list_all_iff identifier_bound_iff cap_ok_iff simp del: checks.simps)
  show ?thesis
    unfolding query_validate_def query_ok_def and_then_Inr_iff
    by (cases "q_columns q"; cases "q_where q"; cases "q_order_by q")
      (auto simp: ord and_then_Inr_iff require_ok_iff cap_ok_iff identifier_bound_iff count_binds_iff
        distinct_labels_iff checks_ok_iff Suc_le_eq list_all_iff simp del: checks.simps)
qed

text \<open>
  A query passes validation exactly when it meets the declarative contract: bounded non-empty
  identifiers, a row limit between 1 and 1000 (100 when absent), distinct columns, predicates whose
  operand has the shape their operator needs and whose values are bounded non-null scalars with
  numbers in JSON syntax, and at most 1024 bind values in all.
\<close>

theorem query_validate_contract: "query_validate q = Inr () \<longleftrightarrow> query_ok q"
  by (rule query_validate_iff)

end
