(* ===== verification/Wire_Results.thy ===== *)
theory Wire_Results
  imports Wire_Query "HOL-Library.Product_Lexorder"
begin

text \<open>
  Operation arguments and result bodies of \<^verbatim>\<open>crates/gaze-lens-protocol/src/wire.rs\<close>, lines 13 to 814:
  the enumerations and records that cross the wire, \<^verbatim>\<open>Args::validate\<close>, \<^verbatim>\<open>ResultBody::validate_for\<close> with
  its helpers, and the paging contract of package inspections.
\<close>

section \<open>Arguments\<close>

datatype Operation = OpQuery | OpSchema | OpListTables | OpLogTail | OpLogWindow | OpLogRegex
  | OpInspect | OpReadiness

datatype View = ViewHost | ViewPackages | ViewPhp

record Regex =
  re_pattern :: bytes
  re_level :: "bytes option"
  re_limit :: nat

record Inspect =
  in_view :: View
  in_collector :: bytes
  in_limit :: nat
  in_offset :: "nat option"

datatype Args = ArgQuery Query | ArgSchema bytes | ArgListTables | ArgLogTail nat | ArgLogWindow
  | ArgLogRegex Regex | ArgInspect Inspect | ArgReadiness

fun args_operation :: "Args \<Rightarrow> Operation" where
  "args_operation (ArgQuery _) = OpQuery"
| "args_operation (ArgSchema _) = OpSchema"
| "args_operation ArgListTables = OpListTables"
| "args_operation (ArgLogTail _) = OpLogTail"
| "args_operation ArgLogWindow = OpLogWindow"
| "args_operation (ArgLogRegex _) = OpLogRegex"
| "args_operation (ArgInspect _) = OpInspect"
| "args_operation ArgReadiness = OpReadiness"

definition offset_or_zero :: "Inspect \<Rightarrow> nat" where
  "offset_or_zero i = (case in_offset i of None \<Rightarrow> 0 | Some n \<Rightarrow> n)"

fun args_validate :: "Args \<Rightarrow> Error + unit" where
  "args_validate (ArgQuery q) = query_validate q"
| "args_validate (ArgSchema table) = identifier_bound table"
| "args_validate (ArgLogTail lns) = checks [require (0 < lns), cap lns KEYWORD_WINDOW_LINES]"
| "args_validate (ArgLogRegex r) =
     checks [require (0 < re_limit r), cap (re_limit r) 1000, cap (length (re_pattern r)) REGEX_BYTES,
       case re_level r of None \<Rightarrow> Inr () | Some l \<Rightarrow> text_bound l]"
| "args_validate (ArgInspect i) =
     checks [configured_id (in_collector i), require (0 < in_limit i),
       case in_view i of
         ViewHost \<Rightarrow> require (in_limit i = 1 \<and> in_offset i = None)
       | ViewPhp \<Rightarrow> checks [require (in_offset i = None), cap (in_limit i) MAX_PHP]
       | ViewPackages \<Rightarrow> checks [cap (in_limit i) MAX_PACKAGES, cap (offset_or_zero i) INVENTORY_RECORDS]]"
| "args_validate _ = Inr ()"

section \<open>Result bodies\<close>

datatype Reason = RBytes | RRows | RLines | RScanBytes | RScanLines | RBoundary | RRecords

fun reason_index :: "Reason \<Rightarrow> nat" where
  "reason_index RBytes = 0" | "reason_index RRows = 1" | "reason_index RLines = 2"
| "reason_index RScanBytes = 3" | "reason_index RScanLines = 4" | "reason_index RBoundary = 5"
| "reason_index RRecords = 6"

text \<open>The derived order of the enumeration.\<close>

instantiation Reason :: linorder
begin

definition less_eq_Reason :: "Reason \<Rightarrow> Reason \<Rightarrow> bool" where
  "less_eq_Reason a b \<longleftrightarrow> reason_index a \<le> reason_index b"

definition less_Reason :: "Reason \<Rightarrow> Reason \<Rightarrow> bool" where
  "less_Reason a b \<longleftrightarrow> reason_index a < reason_index b"

instance
proof
  fix x y :: Reason
  show "x \<le> y \<Longrightarrow> y \<le> x \<Longrightarrow> x = y"
    unfolding less_eq_Reason_def by (cases x; cases y; simp)
qed (auto simp: less_eq_Reason_def less_Reason_def)

end

record Window =
  w_scanned_bytes :: nat
  w_scanned_lines :: nat
  w_admitted_lines :: nat

record PackagePage =
  pg_offset :: nat
  pg_returned :: nat
  pg_total :: nat
  pg_next_offset :: "nat option"

record Column =
  c_name :: bytes
  c_data_type :: bytes
  c_nullable :: bool

datatype Status = StOk | StUnavailable | StUnsupported | StUnknown
datatype Evidence = EvOsRelease | EvDpkgDatabase | EvConfiguredPhp | EvNone

record Host =
  h_os_id :: bytes
  h_version_id :: "bytes option"
  h_architecture :: bytes

record Package =
  pk_name :: bytes
  pk_version :: bytes
  pk_architecture :: bytes

datatype PackageStatus = PkPresent | PkAbsent | PkUnavailable | PkUnsupported
datatype ObservationStatus = ObObserved | ObUnavailable | ObUnknown
datatype AppBinding = Proven | BindingUnknown

record PackageObservation =
  po_status :: PackageStatus
  po_name :: "bytes option"
  po_version :: "bytes option"

record CliObservation =
  co_status :: ObservationStatus
  co_version :: "bytes option"

record FpmObservation =
  fo_status :: ObservationStatus
  fo_version :: "bytes option"
  fo_active :: "bool option"
  fo_app_binding :: AppBinding

record Php =
  ph_runtime_id :: bytes
  ph_installed :: PackageObservation
  ph_cli :: CliObservation
  ph_fpm :: FpmObservation

datatype Records = RecHost "Host list" | RecPackages "Package list" | RecPhp "Php list"

fun records_len :: "Records \<Rightarrow> nat" where
  "records_len (RecHost v) = length v"
| "records_len (RecPackages v) = length v"
| "records_len (RecPhp v) = length v"

record Inspection =
  ins_view :: View
  ins_collector :: bytes
  ins_status :: Status
  ins_evidence :: Evidence
  ins_records :: Records
  ins_page :: "PackagePage option"
  ins_truncated :: "Reason list"

datatype ResultBody =
    QueryRows "bytes list" "Value list list" "Reason list"
  | TableSchema bytes "Column list" "Reason list"
  | TableList "bytes list" "Reason list"
  | LogWindow "bytes list" Window "Reason list"
  | LogMatches "bytes list" Window nat "Reason list"
  | InspectionBody Inspection
  | ReadinessBody

section \<open>Validation of results\<close>

definition reasons :: "Reason list \<Rightarrow> Reason list \<Rightarrow> Error + unit" where
  "reasons xs allowed = require (windows2_all (<) xs \<and> list_all (\<lambda>r. r \<in> set allowed) xs)"

definition labels :: "bytes list \<Rightarrow> nat \<Rightarrow> bool \<Rightarrow> Error + unit" where
  "labels xs mx must_sort =
     checks [cap (length xs) mx, distinct_labels [] xs, require (\<not> must_sort \<or> windows2_all (<) xs)]"

fun lines_bytes :: "nat \<Rightarrow> bytes list \<Rightarrow> Error + nat" where
  "lines_bytes n [] = Inr n"
| "lines_bytes n (l # ls) =
     and_then (text_bound l) (\<lambda>_.
     and_then (require (newline \<notin> set l)) (\<lambda>_.
     and_then (ok_or CapExceeded (checked_add n (length l + 1))) (\<lambda>m. lines_bytes m ls)))"

definition log_window :: "Window \<Rightarrow> bytes list \<Rightarrow> Reason list \<Rightarrow> Error + unit" where
  "log_window w lns truncated =
     and_then (cap (w_scanned_bytes w) SCAN_BYTES) (\<lambda>_.
     and_then (cap (w_scanned_lines w) SCAN_LINES) (\<lambda>_.
     and_then (require (w_admitted_lines w \<le> w_scanned_lines w \<and> w_scanned_lines w \<le> w_scanned_bytes w)) (\<lambda>_.
     and_then (lines_bytes 0 lns) (\<lambda>n.
     and_then (require (n \<le> w_scanned_bytes w)) (\<lambda>_.
     reasons truncated [RBytes, RLines, RScanBytes, RScanLines, RBoundary])))))"

text \<open>Ascending keys, each element checked before its key is compared with the previous one.\<close>

fun ascending :: "('a \<Rightarrow> Error + unit) \<Rightarrow> ('a \<Rightarrow> 'k :: order) \<Rightarrow> 'k option \<Rightarrow> 'a list \<Rightarrow> Error + unit" where
  "ascending chk key lst [] = Inr ()"
| "ascending chk key lst (x # xs) =
     and_then (chk x) (\<lambda>_.
     and_then (require (case lst of None \<Rightarrow> True | Some p \<Rightarrow> p < key x)) (\<lambda>_.
     ascending chk key (Some (key x)) xs))"

definition column_check :: "Column \<Rightarrow> Error + unit" where
  "column_check c = checks [identifier_bound (c_name c), text_bound (c_data_type c)]"

definition opt_text :: "bytes option \<Rightarrow> Error + unit" where
  "opt_text v = (case v of None \<Rightarrow> Inr () | Some s \<Rightarrow> text_bound s)"

definition host_check :: "Host \<Rightarrow> Error + unit" where
  "host_check h = checks [text_bound (h_os_id h), text_bound (h_architecture h), opt_text (h_version_id h)]"

definition package_check :: "Package \<Rightarrow> Error + unit" where
  "package_check p = checks [text_bound (pk_name p), text_bound (pk_version p), text_bound (pk_architecture p)]"

text \<open>The checks of a PHP record after its position in the list was checked.\<close>

definition php_check :: "Php \<Rightarrow> Error + unit" where
  "php_check x =
     (let p = ph_installed x; cli = ph_cli x; fpm = ph_fpm x in
      checks [require ((po_status p = PkPresent) = (po_version p \<noteq> None) \<and>
                       (po_status p = PkPresent) = (po_name p \<noteq> None)),
              require ((co_status cli = ObObserved) = (co_version cli \<noteq> None)),
              require ((fo_status fpm = ObObserved) = (fo_version fpm \<noteq> None)),
              if fo_status fpm \<noteq> ObObserved
                then require (fo_active fpm = None \<and> fo_app_binding fpm = BindingUnknown) else Inr (),
              if fo_app_binding fpm = Proven then require (fo_active fpm = Some True) else Inr (),
              opt_text (po_name p), opt_text (po_version p), opt_text (co_version cli), opt_text (fo_version fpm)])"

fun php_loop :: "bytes option \<Rightarrow> Php list \<Rightarrow> Error + unit" where
  "php_loop lst [] = Inr ()"
| "php_loop lst (x # xs) =
     and_then (configured_id (ph_runtime_id x)) (\<lambda>_.
     and_then (require (case lst of None \<Rightarrow> True | Some p \<Rightarrow> p < ph_runtime_id x)) (\<lambda>_.
     and_then (php_check x) (\<lambda>_. php_loop (Some (ph_runtime_id x)) xs)))"

definition page_validate :: "PackagePage \<Rightarrow> Inspect \<Rightarrow> nat \<Rightarrow> Reason list \<Rightarrow> Error + unit" where
  "page_validate pg request returned truncated =
     and_then (checks
       [require (in_view request = ViewPackages \<and> pg_offset pg = offset_or_zero request \<and> pg_returned pg = returned),
        cap (pg_offset pg) INVENTORY_RECORDS,
        cap (pg_total pg) INVENTORY_RECORDS,
        require (0 < in_limit request),
        cap (in_limit request) MAX_PACKAGES,
        reasons truncated [RBytes, RRecords],
        cap returned (in_limit request)]) (\<lambda>_.
     and_then (ok_or CapExceeded (checked_add (pg_offset pg) returned)) (\<lambda>endp.
     if pg_total pg \<le> pg_offset pg then
       require (returned = 0 \<and> pg_next_offset pg = None \<and> truncated = [])
     else
       checks
         [require (0 < returned \<and> endp \<le> pg_total pg),
          require (pg_next_offset pg = (if endp < pg_total pg then Some endp else None)),
          if endp < pg_total pg then require (truncated \<noteq> []) else require (truncated = []),
          require (RRecords \<notin> set truncated \<or> endp < pg_total pg)]))"

definition view_evidence :: "View \<Rightarrow> Evidence" where
  "view_evidence v = (case v of ViewHost \<Rightarrow> EvOsRelease | ViewPackages \<Rightarrow> EvDpkgDatabase | ViewPhp \<Rightarrow> EvConfiguredPhp)"

definition records_match :: "View \<Rightarrow> Records \<Rightarrow> bool" where
  "records_match v rs \<longleftrightarrow> (case (v, rs) of
     (ViewHost, RecHost _) \<Rightarrow> True | (ViewPackages, RecPackages _) \<Rightarrow> True | (ViewPhp, RecPhp _) \<Rightarrow> True | _ \<Rightarrow> False)"

fun records_validate :: "Inspect \<Rightarrow> Inspection \<Rightarrow> Records \<Rightarrow> Error + unit" where
  "records_validate i b (RecHost xs) =
     checks (require (ins_evidence b = EvOsRelease \<and> length xs = 1 \<and> ins_page b = None \<and> ins_truncated b = [])
       # map host_check xs)"
| "records_validate i b (RecPackages xs) =
     checks
       [require (ins_evidence b = EvDpkgDatabase),
        reasons (ins_truncated b) [RBytes, RRecords],
        ascending package_check (\<lambda>x. (pk_name x, pk_architecture x)) None xs,
        case ins_page b of None \<Rightarrow> Inl InvalidRequest | Some p \<Rightarrow> page_validate p i (length xs) (ins_truncated b)]"
| "records_validate i b (RecPhp xs) =
     checks
       [require (ins_evidence b = EvConfiguredPhp \<and> ins_page b = None),
        reasons (ins_truncated b) [RBytes, RRecords],
        php_loop None xs]"

definition inspection_validate :: "Inspection \<Rightarrow> Inspect \<Rightarrow> Error + unit" where
  "inspection_validate b i =
     and_then (checks
       [require (ins_view b = in_view i \<and> ins_collector b = in_collector i),
        configured_id (ins_collector b),
        require (records_match (ins_view b) (ins_records b))]) (\<lambda>_.
     if ins_status b \<noteq> StOk then
       checks
         [require (ins_evidence b = EvNone \<or> ins_evidence b = view_evidence (ins_view b)),
          require (records_len (ins_records b) = 0 \<and> ins_page b = None \<and> ins_truncated b = [])]
     else
       checks [cap (records_len (ins_records b)) (in_limit i), records_validate i b (ins_records b)])"

text \<open>\<open>body_writes\<close>: the buffers serde writes for a body, counted by \<^verbatim>\<open>serialized_size\<close>.\<close>

definition query_rows_validate :: "Codecs \<Rightarrow> bytes list \<Rightarrow> Value list list \<Rightarrow> Reason list \<Rightarrow> Query \<Rightarrow> Error + unit" where
  "query_rows_validate cs columns rows truncated q =
     checks ([require (columns \<noteq> []), labels columns MAX_COLUMNS False, cap (length rows) (query_limit q)] @
       map (\<lambda>row. checks (require (length row = length columns) # map (value_validate cs) row)) rows @
       [reasons truncated [RBytes, RRows]])"

definition log_body_validate :: "nat \<Rightarrow> bytes list \<Rightarrow> Window \<Rightarrow> Reason list \<Rightarrow> Error + unit" where
  "log_body_validate mx lns w truncated =
     checks [cap (length lns) mx, require (w_admitted_lines w = length lns), log_window w lns truncated]"

fun body_match :: "Codecs \<Rightarrow> ResultBody \<Rightarrow> Args \<Rightarrow> Error + unit" where
  "body_match cs (QueryRows columns rows truncated) (ArgQuery q) = query_rows_validate cs columns rows truncated q"
| "body_match cs (TableSchema table columns truncated) (ArgSchema _) =
     checks [identifier_bound table, cap (length columns) MAX_ENTRIES,
       ascending column_check c_name None columns, reasons truncated [RBytes, RRecords]]"
| "body_match cs (TableList tables truncated) ArgListTables =
     checks [labels tables MAX_ENTRIES True, reasons truncated [RBytes, RRecords]]"
| "body_match cs (LogWindow lns w truncated) (ArgLogTail n) = log_body_validate n lns w truncated"
| "body_match cs (LogWindow lns w truncated) ArgLogWindow = log_body_validate KEYWORD_WINDOW_LINES lns w truncated"
| "body_match cs (LogMatches lns w matched truncated) (ArgLogRegex r) =
     checks [cap (length lns) (re_limit r), require (length lns \<le> matched \<and> matched \<le> w_admitted_lines w),
       log_window w lns truncated, require (RLines \<notin> set truncated \<or> length lns < matched)]"
| "body_match cs (InspectionBody b) (ArgInspect i) = inspection_validate b i"
| "body_match cs ReadinessBody ArgReadiness = Inr ()"
| "body_match cs _ _ = Inl InvalidRequest"

definition validate_for :: "Codecs \<Rightarrow> (ResultBody \<Rightarrow> bytes list) \<Rightarrow> ResultBody \<Rightarrow> Args \<Rightarrow> Error + unit" where
  "validate_for cs body_writes body args =
     and_then (args_validate args) (\<lambda>_.
     and_then (serialized_size (body_writes body) RESULT_BYTES) (\<lambda>_.
     body_match cs body args))"

section \<open>Accepted results\<close>

lemma reasons_iff [result_simps]:
  "reasons xs allowed = Inr () \<longleftrightarrow> sorted_wrt (<) xs \<and> set xs \<subseteq> set allowed"
  by (auto simp: reasons_def require_ok_iff windows2_all_less list_all_iff)

lemma labels_iff [result_simps]:
  "labels xs mx srt = Inr () \<longleftrightarrow> length xs \<le> mx \<and> list_all identifier_ok xs \<and> distinct xs \<and>
     (srt \<longrightarrow> sorted_wrt (<) xs)"
  by (auto simp: labels_def result_simps windows2_all_less)

lemma lines_bytes_ok:
  "lines_bytes n ls = Inr m \<Longrightarrow>
     m = n + sum_list (map (\<lambda>l. length l + 1) ls) \<and> (\<forall>l\<in>set ls. length l \<le> SCALAR_BYTES \<and> newline \<notin> set l)"
proof (induction ls arbitrary: n)
  case (Cons l ls)
  then obtain k where "text_bound l = Inr ()" "newline \<notin> set l" "checked_add n (length l + 1) = Some k"
      "lines_bytes k ls = Inr m"
    by (auto simp: and_then_Inr_iff require_ok_iff ok_or_Inr_iff)
  with Cons.IH [of k] show ?case by (auto simp: checked_add_Some_iff text_bound_ok_iff)
qed simp

lemma log_window_ok:
  assumes "log_window w lns tr = Inr ()"
  shows "w_scanned_bytes w \<le> SCAN_BYTES \<and> w_scanned_lines w \<le> SCAN_LINES \<and>
    w_admitted_lines w \<le> w_scanned_lines w \<and>
    sum_list (map (\<lambda>l. length l + 1) lns) \<le> w_scanned_bytes w \<and>
    (\<forall>l\<in>set lns. length l \<le> SCALAR_BYTES \<and> newline \<notin> set l)"
proof -
  from assms obtain n where "lines_bytes 0 lns = Inr n" "n \<le> w_scanned_bytes w"
      "w_scanned_bytes w \<le> SCAN_BYTES" "w_scanned_lines w \<le> SCAN_LINES" "w_admitted_lines w \<le> w_scanned_lines w"
    by (auto simp: log_window_def and_then_Inr_iff require_ok_iff cap_ok_iff)
  with lines_bytes_ok show ?thesis by fastforce
qed

lemma ascending_sorted:
  "ascending chk key lst xs = Inr () \<Longrightarrow>
     sorted_wrt (<) (map key xs) \<and> (\<forall>x\<in>set xs. chk x = Inr () \<and> (\<forall>p. lst = Some p \<longrightarrow> p < key x))"
proof (induction chk key lst xs rule: ascending.induct)
  case (2 chk key lst x xs)
  then have x: "chk x = Inr ()" "case lst of None \<Rightarrow> True | Some p \<Rightarrow> p < key x" "ascending chk key (Some (key x)) xs = Inr ()"
    by (auto simp: and_then_Inr_iff require_ok_iff)
  with 2 have ih: "sorted_wrt (<) (map key xs) \<and> (\<forall>y\<in>set xs. chk y = Inr () \<and> key x < key y)" by auto
  with x show ?case by (auto split: option.splits intro: less_trans)
qed simp

lemma serialized_size_bound:
  assumes "serialized_size ws mx = Inr n" "mx < USIZE_LIMIT"
  shows "n = length (concat ws) \<and> length (concat ws) \<le> mx"
  using assms counter_writes_eq [of mx 0 ws]
  by (auto simp: serialized_size_def ok_or_Inr_iff split: if_splits)

text \<open>
  A query result that passes \<^verbatim>\<open>validate_for\<close> serialises within the result cap, has at most as many
  rows as the query's limit, and is rectangular over distinct bounded column names, every cell a
  value that itself validates.
\<close>

theorem query_result_rectangular:
  assumes "validate_for cs writes (QueryRows columns rows truncated) (ArgQuery q) = Inr ()"
  shows "length (concat (writes (QueryRows columns rows truncated))) \<le> RESULT_BYTES \<and>
    length rows \<le> query_limit q \<and> query_limit q \<le> MAX_ROWS \<and>
    columns \<noteq> [] \<and> distinct columns \<and> length columns \<le> MAX_COLUMNS \<and> list_all identifier_ok columns \<and>
    (\<forall>row\<in>set rows. length row = length columns \<and> (\<forall>v\<in>set row. value_validate cs v = Inr ()))"
proof -
  from assms obtain n where v: "query_validate q = Inr ()"
      "serialized_size (writes (QueryRows columns rows truncated)) RESULT_BYTES = Inr n"
      "query_rows_validate cs columns rows truncated q = Inr ()"
    by (auto simp: validate_for_def and_then_Inr_iff)
  have "RESULT_BYTES < USIZE_LIMIT" by (simp add: RESULT_BYTES_def USIZE_LIMIT_def)
  with serialized_size_bound [OF v(2)] v(1,3) show ?thesis
    by (auto simp: query_validate_iff query_ok_def query_rows_validate_def checks_ok_iff labels_iff
        require_ok_iff cap_ok_iff simp del: checks.simps)
qed

theorem query_result_rectangular_witness:
  "\<exists>cs writes q. validate_for cs writes (QueryRows [''id''] [[VNull], [VBool True]] []) (ArgQuery q) = Inr () \<and>
    length [[VNull], [VBool True]] \<le> query_limit q"
proof -
  let ?cs = "\<lparr>key_dec = (\<lambda>_. None), f64_text = (\<lambda>_. None), b64_decode = (\<lambda>_. None), b64_encode = id\<rparr>"
  let ?q = "\<lparr>q_table = ''t'', q_columns = None, q_where = None, q_combinator = None, q_order_by = None, q_limit = Some 2\<rparr>"
  have "validate_for ?cs (\<lambda>_. [''{}'']) (QueryRows [''id''] [[VNull], [VBool True]] []) (ArgQuery ?q) = Inr ()"
    by code_simp
  with query_result_rectangular [OF this] show ?thesis by blast
qed

text \<open>
  A log result that passes \<^verbatim>\<open>validate_for\<close> has only lines without a newline, each within the scalar
  cap, no more of them than were asked for, and never claims more delivered bytes than were scanned.
\<close>

theorem log_result_bounded:
  assumes "validate_for cs writes (LogWindow lns w truncated) (ArgLogTail n) = Inr ()"
  shows "length lns \<le> n \<and> n \<le> KEYWORD_WINDOW_LINES \<and> w_admitted_lines w = length lns \<and>
    w_admitted_lines w \<le> w_scanned_lines w \<and> w_scanned_lines w \<le> SCAN_LINES \<and> w_scanned_bytes w \<le> SCAN_BYTES \<and>
    sum_list (map (\<lambda>l. length l + 1) lns) \<le> w_scanned_bytes w \<and>
    (\<forall>l\<in>set lns. length l \<le> SCALAR_BYTES \<and> newline \<notin> set l)"
proof -
  from assms have v: "n \<le> KEYWORD_WINDOW_LINES" "length lns \<le> n" "w_admitted_lines w = length lns"
      "log_window w lns truncated = Inr ()"
    by (auto simp: validate_for_def and_then_Inr_iff log_body_validate_def result_simps)
  from log_window_ok [OF v(4)] v(1-3) show ?thesis by simp
qed

theorem log_result_bounded_witness:
  "\<exists>cs writes w. validate_for cs writes (LogWindow [''abc''] w []) (ArgLogTail 1) = Inr () \<and> length ''abc'' + 1 \<le> w_scanned_bytes w"
proof -
  let ?cs = "\<lparr>key_dec = (\<lambda>_. None), f64_text = (\<lambda>_. None), b64_decode = (\<lambda>_. None), b64_encode = id\<rparr>"
  let ?w = "\<lparr>w_scanned_bytes = 4, w_scanned_lines = 1, w_admitted_lines = 1\<rparr>"
  have "validate_for ?cs (\<lambda>_. [''{}'']) (LogWindow [''abc''] ?w []) (ArgLogTail 1) = Inr ()"
    by code_simp
  with log_result_bounded [OF this] show ?thesis by force
qed

section \<open>Paging through an inventory\<close>

lemma page_validate_ok:
  assumes "page_validate pg req n tr = Inr ()"
  shows "pg_returned pg = n \<and> pg_offset pg = offset_or_zero req \<and> n \<le> in_limit req \<and>
    (if pg_total pg \<le> pg_offset pg then n = 0 \<and> pg_next_offset pg = None
     else 0 < n \<and> pg_offset pg + n \<le> pg_total pg \<and>
       pg_next_offset pg = (if pg_offset pg + n < pg_total pg then Some (pg_offset pg + n) else None))"
  using assms
  by (auto simp: page_validate_def and_then_Inr_iff ok_or_Inr_iff checked_add_Some_iff checks_ok_iff
      require_ok_iff cap_ok_iff simp del: checks.simps split: if_splits)

text \<open>
  A client walks the inventory: each exchange is the request, the page and the truncation reasons;
  the offset of the next request is the \<^verbatim>\<open>next_offset\<close> it was given.
\<close>

type_synonym exchange = "Inspect \<times> PackagePage \<times> Reason list"

definition exchange_ok :: "nat \<Rightarrow> exchange \<Rightarrow> bool" where
  "exchange_ok tot x \<longleftrightarrow> (case x of (req, pg, tr) \<Rightarrow>
     pg_total pg = tot \<and> page_validate pg req (pg_returned pg) tr = Inr ())"

fun page_walk :: "nat \<Rightarrow> nat \<Rightarrow> exchange list \<Rightarrow> bool" where
  "page_walk tot off [] = False"
| "page_walk tot off [x] =
     (exchange_ok tot x \<and> offset_or_zero (fst x) = off \<and> pg_next_offset (fst (snd x)) = None)"
| "page_walk tot off (x # y # xs) =
     (exchange_ok tot x \<and> offset_or_zero (fst x) = off \<and>
      (case pg_next_offset (fst (snd x)) of None \<Rightarrow> False | Some n \<Rightarrow> page_walk tot n (y # xs)))"

definition delivered :: "exchange list \<Rightarrow> nat list" where
  "delivered xs = concat (map (\<lambda>(req, pg, tr). [pg_offset pg ..< pg_offset pg + pg_returned pg]) xs)"

lemma page_walk_delivers: "page_walk tot off xs \<Longrightarrow> off \<le> tot \<Longrightarrow> delivered xs = [off ..< tot]"
proof (induction tot off xs rule: page_walk.induct)
  case (2 tot off x)
  obtain req pg tr where x: "x = (req, pg, tr)" by (cases x) auto
  with 2 page_validate_ok [of pg req "pg_returned pg" tr] show ?case
    by (auto simp: exchange_ok_def delivered_def split: if_splits)
next
  case (3 tot off x y xs)
  obtain req pg tr where x: "x = (req, pg, tr)" by (cases x) auto
  from "3.prems" x obtain n where n: "pg_next_offset pg = Some n" "page_walk tot n (y # xs)"
      "page_validate pg req (pg_returned pg) tr = Inr ()" "offset_or_zero req = off" "pg_total pg = tot"
    by (auto simp: exchange_ok_def split: option.splits)
  from page_validate_ok [OF n(3)] n(1,4,5) have o: "pg_offset pg = off" "n = off + pg_returned pg" "n \<le> tot"
    by (auto split: if_splits)
  with "3.IH" [of n] n x have "delivered (y # xs) = [n ..< tot]" by simp
  then show ?case
    using o x upt_add_eq_append [of off n "tot - n"] by (simp add: delivered_def)
qed simp

text \<open>
  A client that starts at offset 0 and follows \<^verbatim>\<open>next_offset\<close> through pages that validate, over an
  inventory of constant size, until there is no next offset, has received every record position
  exactly once and in order: no page overlaps another and none leaves a gap.
\<close>

theorem package_pages_cover:
  assumes "page_walk tot 0 xs"
  shows "delivered xs = [0 ..< tot]"
  using page_walk_delivers [OF assms] by simp

theorem package_pages_cover_witness:
  "\<exists>a b. delivered [a, b] = [0 ..< 3]"
proof -
  let ?req = "\<lambda>o'. \<lparr>in_view = ViewPackages, in_collector = ''c'', in_limit = 2, in_offset = o'\<rparr>"
  let ?a = "(?req None, \<lparr>pg_offset = 0, pg_returned = 2, pg_total = 3, pg_next_offset = Some 2\<rparr>, [RRecords])"
  let ?b = "(?req (Some 2), \<lparr>pg_offset = 2, pg_returned = 1, pg_total = 3, pg_next_offset = None\<rparr>, [])"
  have "page_walk 3 0 [?a, ?b]" by code_simp
  with package_pages_cover show ?thesis by blast
qed

end
