(* ===== verification/Wire_Sequence.thy ===== *)
theory Wire_Sequence
  imports Wire_Results Lens_Interfaces
begin

text \<open>
  Frames and the connection grammar, \<^verbatim>\<open>crates/gaze-lens-protocol/src/wire.rs\<close>, lines 36 to 147 and
  485 to 559 and 816 to 1017: the frame check, the encoders and decoders of the five message kinds
  and the \<^verbatim>\<open>Sequence\<close> state machine of one connection.

  serde is the record \<open>Serde\<close>: for each message type the buffers its serialiser writes and the
  partial function its deserialiser computes. \<^verbatim>\<open>Version\<close>, \<^verbatim>\<open>Privacy\<close> and \<^verbatim>\<open>ReadinessStatus\<close> have one
  value each, so the messages here do not carry them.
\<close>

section \<open>Messages\<close>

record DestinationBinding =
  db_principal :: bytes
  db_principal_generation :: bytes
  db_resource :: bytes
  db_resource_generation :: bytes

record Prepare =
  pr_id :: bytes
  pr_credential :: bytes
  pr_resource :: bytes
  pr_operation :: Operation

record Prepared =
  pd_id :: bytes
  pd_operation :: Operation
  pd_binding :: DestinationBinding

record Failure =
  fl_id :: bytes
  fl_code :: Error

record RawCall =
  rc_id :: bytes
  rc_operation :: Operation
  rc_binding :: DestinationBinding
  rc_args :: bytes

record RawSuccess =
  rs_id :: bytes
  rs_operation :: Operation
  rs_binding :: DestinationBinding
  rs_result :: bytes

record Call =
  ca_id :: bytes
  ca_binding :: DestinationBinding
  ca_args :: Args

record Success =
  su_id :: bytes
  su_operation :: Operation
  su_binding :: DestinationBinding
  su_result :: ResultBody

record RawInspection =
  ri_view :: View
  ri_collector :: bytes
  ri_status :: Status
  ri_evidence :: Evidence
  ri_records :: bytes
  ri_page :: bytes
  ri_truncated :: "Reason list"

record Serde =
  sd_codecs :: Codecs
  sd_reserve :: "nat \<Rightarrow> bool"
  ser_prepare :: "Prepare \<Rightarrow> bytes list"
  de_prepare :: "bytes \<Rightarrow> Prepare option"
  ser_prepared :: "Prepared \<Rightarrow> bytes list"
  de_prepared :: "bytes \<Rightarrow> Prepared option"
  ser_failure :: "Failure \<Rightarrow> bytes list"
  de_failure :: "bytes \<Rightarrow> Failure option"
  ser_call :: "RawCall \<Rightarrow> bytes list"
  de_call :: "bytes \<Rightarrow> RawCall option"
  ser_success :: "RawSuccess \<Rightarrow> bytes list"
  de_success :: "bytes \<Rightarrow> RawSuccess option"
  ser_args :: "Args \<Rightarrow> bytes list"
  de_args :: "Operation \<Rightarrow> bytes \<Rightarrow> Args option"
  ser_result :: "ResultBody \<Rightarrow> bytes list"
  de_result_tag :: "bytes \<Rightarrow> bytes option"
  de_result_fields :: "bytes \<Rightarrow> bytes \<Rightarrow> ResultBody option"
  de_inspection :: "bytes \<Rightarrow> RawInspection option"
  de_records :: "View \<Rightarrow> bytes \<Rightarrow> Records option"
  de_page :: "bytes \<Rightarrow> PackagePage option option"

section \<open>Checks on identities\<close>

definition opaque_field :: "bytes \<Rightarrow> bool" where
  "opaque_field s \<longleftrightarrow> length s = 32 \<and> list_all is_lower_hex s"

definition binding_validate :: "DestinationBinding \<Rightarrow> Error + unit" where
  "binding_validate b = checks (map (\<lambda>f. require (opaque_field f))
     [db_principal b, db_principal_generation b, db_resource b, db_resource_generation b])"

definition crockford :: bytes where
  "crockford = ''0123456789ABCDEFGHJKMNPQRSTVWXYZ''"

definition id_check :: "bytes \<Rightarrow> Error + unit" where
  "id_check s = require (length s = 26 \<and> byte (s ! 0) \<le> byte (CHR ''7'') \<and> list_all (\<lambda>b. b \<in> set crockford) s)"

section \<open>Frames\<close>

definition frame :: "(bytes \<Rightarrow> bytes option) \<Rightarrow> bytes \<Rightarrow> nat \<Rightarrow> Error + bytes" where
  "frame dec b mx =
     and_then (cap (length b) mx) (\<lambda>_.
     and_then (require (b \<noteq> [] \<and> last b = newline \<and> newline \<notin> set (butlast b))) (\<lambda>_.
     let body = butlast b in
     and_then (frame_json dec body (mx - 1)) (\<lambda>_.
     and_then (require (body \<noteq> [] \<and> hd body = CHR ''{'' \<and> last body = CHR ''}'')) (\<lambda>_.
     if utf8_valid body then Inr body else Inl InvalidRequest))))"

abbreviation sd_frame :: "Serde \<Rightarrow> bytes \<Rightarrow> nat \<Rightarrow> Error + bytes" where
  "sd_frame sd \<equiv> frame (key_dec (sd_codecs sd))"

definition encode :: "Serde \<Rightarrow> bytes list \<Rightarrow> nat \<Rightarrow> Error + bytes" where
  "encode sd writes mx =
     and_then (serialized_size writes (mx - 1)) (\<lambda>n.
     if \<not> sd_reserve sd (n + 1) then Inl CapExceeded
     else let out = concat writes @ [newline]
          in and_then (sd_frame sd out mx) (\<lambda>_. Inr out))"

definition decode_prepare :: "Serde \<Rightarrow> bytes \<Rightarrow> Error + Prepare" where
  "decode_prepare sd b =
     and_then (sd_frame sd b PREPARE_BYTES) (\<lambda>s.
     and_then (ok_or InvalidRequest (de_prepare sd s)) (\<lambda>p.
     and_then (id_check (pr_id p)) (\<lambda>_.
     and_then (configured_id (pr_resource p)) (\<lambda>_.
     and_then (require (length (pr_credential p) = 64 \<and> list_all is_ascii_hexdigit (pr_credential p))) (\<lambda>_.
     Inr p)))))"

definition encode_prepare :: "Serde \<Rightarrow> Prepare \<Rightarrow> Error + bytes" where
  "encode_prepare sd p =
     and_then (encode sd (ser_prepare sd p) PREPARE_BYTES) (\<lambda>out.
     and_then (decode_prepare sd out) (\<lambda>_. Inr out))"

definition decode_prepared :: "Serde \<Rightarrow> bytes \<Rightarrow> Error + Prepared" where
  "decode_prepared sd b =
     and_then (sd_frame sd b PREPARE_BYTES) (\<lambda>s.
     and_then (ok_or InvalidRequest (de_prepared sd s)) (\<lambda>p.
     and_then (id_check (pd_id p)) (\<lambda>_.
     and_then (binding_validate (pd_binding p)) (\<lambda>_. Inr p))))"

definition encode_prepared :: "Serde \<Rightarrow> Prepared \<Rightarrow> Error + bytes" where
  "encode_prepared sd p =
     and_then (encode sd (ser_prepared sd p) PREPARE_BYTES) (\<lambda>out.
     and_then (decode_prepared sd out) (\<lambda>_. Inr out))"

text \<open>\<^verbatim>\<open>args(op, s)\<close>.\<close>

definition decode_args :: "Serde \<Rightarrow> Operation \<Rightarrow> bytes \<Rightarrow> Error + Args" where
  "decode_args sd op s =
     and_then (ok_or InvalidRequest (de_args sd op s)) (\<lambda>a.
     and_then (args_validate a) (\<lambda>_. Inr a))"

definition args_raw :: "Serde \<Rightarrow> Args \<Rightarrow> Error + bytes" where
  "args_raw sd a = and_then (serialized_size (ser_args sd a) REQUEST_BYTES) (\<lambda>_. Inr (concat (ser_args sd a)))"

definition decode_call :: "Serde \<Rightarrow> bytes \<Rightarrow> Error + Call" where
  "decode_call sd b =
     and_then (sd_frame sd b FRAME_BYTES) (\<lambda>s.
     and_then (ok_or InvalidRequest (de_call sd s)) (\<lambda>c.
     and_then (id_check (rc_id c)) (\<lambda>_.
     and_then (binding_validate (rc_binding c)) (\<lambda>_.
     and_then (cap (length (rc_args c)) REQUEST_BYTES) (\<lambda>_.
     and_then (decode_args sd (rc_operation c) (rc_args c)) (\<lambda>a.
     Inr \<lparr>ca_id = rc_id c, ca_binding = rc_binding c, ca_args = a\<rparr>))))))"

definition raw_call :: "Call \<Rightarrow> bytes \<Rightarrow> RawCall" where
  "raw_call c a = \<lparr>rc_id = ca_id c, rc_operation = args_operation (ca_args c), rc_binding = ca_binding c, rc_args = a\<rparr>"

definition encode_call :: "Serde \<Rightarrow> Call \<Rightarrow> Error + bytes" where
  "encode_call sd c =
     and_then (args_validate (ca_args c)) (\<lambda>_.
     and_then (args_raw sd (ca_args c)) (\<lambda>a.
     and_then (cap (length a) REQUEST_BYTES) (\<lambda>_.
     and_then (encode sd (ser_call sd (raw_call c a)) FRAME_BYTES) (\<lambda>out.
     and_then (decode_call sd out) (\<lambda>_. Inr out)))))"

definition result_kinds :: "bytes list" where
  "result_kinds = [''query_rows'', ''table_schema'', ''table_list'', ''log_window'', ''log_matches'', ''readiness'']"

text \<open>\<^verbatim>\<open>result(s)\<close>: the tag picks the closed field list; an inspection decodes its records by its view.\<close>

definition decode_result :: "Serde \<Rightarrow> bytes \<Rightarrow> Error + ResultBody" where
  "decode_result sd s =
     and_then (require (starts_with_char (CHR ''{'') s)) (\<lambda>_.
     and_then (ok_or InvalidRequest (de_result_tag sd s)) (\<lambda>kind.
     if kind = ''inspection'' then
       and_then (ok_or InvalidRequest (de_inspection sd s)) (\<lambda>f.
       and_then (ok_or InvalidRequest (de_records sd (ri_view f) (ri_records f))) (\<lambda>rs.
       and_then (ok_or InvalidRequest (de_page sd (ri_page f))) (\<lambda>pg.
       Inr (InspectionBody \<lparr>ins_view = ri_view f, ins_collector = ri_collector f, ins_status = ri_status f,
         ins_evidence = ri_evidence f, ins_records = rs, ins_page = pg, ins_truncated = ri_truncated f\<rparr>))))
     else if kind \<in> set result_kinds then ok_or InvalidRequest (de_result_fields sd kind s)
     else Inl InvalidRequest))"

definition decode_success :: "Serde \<Rightarrow> bytes \<Rightarrow> Call \<Rightarrow> Error + Success" where
  "decode_success sd b call =
     and_then (sd_frame sd b FRAME_BYTES) (\<lambda>s.
     and_then (ok_or InvalidRequest (de_success sd s)) (\<lambda>r.
     and_then (id_check (rs_id r)) (\<lambda>_.
     and_then (binding_validate (rs_binding r)) (\<lambda>_.
     and_then (require (rs_id r = ca_id call \<and> rs_operation r = args_operation (ca_args call))) (\<lambda>_.
     if rs_binding r \<noteq> ca_binding call then Inl BindingChanged
     else
       and_then (cap (length (rs_result r)) RESULT_BYTES) (\<lambda>_.
       and_then (decode_result sd (rs_result r)) (\<lambda>body.
       and_then (validate_for (sd_codecs sd) (ser_result sd) body (ca_args call)) (\<lambda>_.
       Inr \<lparr>su_id = rs_id r, su_operation = rs_operation r, su_binding = rs_binding r, su_result = body\<rparr>))))))))"

definition raw_success :: "Success \<Rightarrow> bytes \<Rightarrow> RawSuccess" where
  "raw_success s r = \<lparr>rs_id = su_id s, rs_operation = su_operation s, rs_binding = su_binding s, rs_result = r\<rparr>"

definition encode_success :: "Serde \<Rightarrow> Success \<Rightarrow> Call \<Rightarrow> Error + bytes" where
  "encode_success sd s call =
     and_then (validate_for (sd_codecs sd) (ser_result sd) (su_result s) (ca_args call)) (\<lambda>_.
     and_then (serialized_size (ser_result sd (su_result s)) RESULT_BYTES) (\<lambda>_.
     let r = concat (ser_result sd (su_result s)) in
     and_then (encode sd (ser_success sd (raw_success s r)) FRAME_BYTES) (\<lambda>out.
     and_then (decode_success sd out call) (\<lambda>_. Inr out))))"

definition decode_failure :: "Serde \<Rightarrow> bytes \<Rightarrow> bytes \<Rightarrow> Error + Failure" where
  "decode_failure sd b expected_id =
     and_then (sd_frame sd b PREPARE_BYTES) (\<lambda>s.
     and_then (ok_or InvalidRequest (de_failure sd s)) (\<lambda>f.
     and_then (id_check (fl_id f)) (\<lambda>_.
     and_then (require (fl_id f = expected_id)) (\<lambda>_. Inr f))))"

definition encode_failure :: "Serde \<Rightarrow> Failure \<Rightarrow> Error + bytes" where
  "encode_failure sd f = and_then (id_check (fl_id f)) (\<lambda>_. encode sd (ser_failure sd f) PREPARE_BYTES)"

section \<open>The connection sequence\<close>

datatype State = New | Preparing bytes Operation | PreparedState bytes Operation DestinationBinding
  | Called Call | Closed

text \<open>
  Each method first moves the state out, leaving \<^const>\<open>Closed\<close>, and stores a new one only when it
  succeeds.
\<close>

definition seq_prepare :: "Serde \<Rightarrow> State \<Rightarrow> Prepare \<Rightarrow> (Error + unit) \<times> State" where
  "seq_prepare sd st p =
     (case and_then (require (st = New)) (\<lambda>_. encode_prepare sd p) of
        Inl e \<Rightarrow> (Inl e, Closed)
      | Inr _ \<Rightarrow> (Inr (), Preparing (pr_id p) (pr_operation p)))"

definition seq_prepared :: "Serde \<Rightarrow> State \<Rightarrow> Prepared \<Rightarrow> (Error + unit) \<times> State" where
  "seq_prepared sd st p =
     (case st of
        Preparing i op \<Rightarrow>
          (case and_then (encode_prepared sd p) (\<lambda>_. require (i = pd_id p \<and> op = pd_operation p)) of
             Inl e \<Rightarrow> (Inl e, Closed)
           | Inr _ \<Rightarrow> (Inr (), PreparedState i op (pd_binding p)))
      | _ \<Rightarrow> (Inl InvalidRequest, Closed))"

definition seq_call :: "Serde \<Rightarrow> State \<Rightarrow> Call \<Rightarrow> (Error + unit) \<times> State" where
  "seq_call sd st c =
     (case st of
        PreparedState i op b \<Rightarrow>
          (case and_then (require (ca_id c = i \<and> args_operation (ca_args c) = op)) (\<lambda>_.
                if ca_binding c \<noteq> b then Inl BindingChanged else encode_call sd c) of
             Inl e \<Rightarrow> (Inl e, Closed)
           | Inr _ \<Rightarrow> (Inr (), Called c))
      | _ \<Rightarrow> (Inl InvalidRequest, Closed))"

definition seq_success :: "Serde \<Rightarrow> State \<Rightarrow> bytes \<Rightarrow> (Error + Success) \<times> State" where
  "seq_success sd st b =
     (case st of Called c \<Rightarrow> (decode_success sd b c, Closed) | _ \<Rightarrow> (Inl InvalidRequest, Closed))"

definition seq_failure :: "Serde \<Rightarrow> State \<Rightarrow> bytes \<Rightarrow> (Error + Failure) \<times> State" where
  "seq_failure sd st b =
     (case st of
        Preparing i _ \<Rightarrow> (decode_failure sd b i, Closed)
      | PreparedState i _ _ \<Rightarrow> (decode_failure sd b i, Closed)
      | Called c \<Rightarrow> (decode_failure sd b (ca_id c), Closed)
      | _ \<Rightarrow> (Inl InvalidRequest, Closed))"

text \<open>Any order of method calls.\<close>

datatype Event = EvPrepare Prepare | EvPrepared Prepared | EvCall Call | EvSuccess bytes | EvFailure bytes
datatype Reply = Accepted | Succeeded Success | FailedWith Failure

fun seq_step :: "Serde \<Rightarrow> State \<Rightarrow> Event \<Rightarrow> (Error + Reply) \<times> State" where
  "seq_step sd st (EvPrepare p) = map_prod (map_sum id (\<lambda>_. Accepted)) id (seq_prepare sd st p)"
| "seq_step sd st (EvPrepared p) = map_prod (map_sum id (\<lambda>_. Accepted)) id (seq_prepared sd st p)"
| "seq_step sd st (EvCall c) = map_prod (map_sum id (\<lambda>_. Accepted)) id (seq_call sd st c)"
| "seq_step sd st (EvSuccess b) = map_prod (map_sum id Succeeded) id (seq_success sd st b)"
| "seq_step sd st (EvFailure b) = map_prod (map_sum id FailedWith) id (seq_failure sd st b)"

section \<open>Correlation\<close>

lemma reply_ok_iff: "map_prod (map_sum id f) id m = (Inr r, s) \<longleftrightarrow> (\<exists>x. m = (Inr x, s) \<and> r = f x)"
  by (cases m; cases "fst m") auto

lemma seq_prepare_ok:
  "seq_prepare sd st p = (Inr u, st') \<longleftrightarrow>
     st = New \<and> (\<exists>b. encode_prepare sd p = Inr b) \<and> st' = Preparing (pr_id p) (pr_operation p)"
  by (cases "encode_prepare sd p") (auto simp: seq_prepare_def require_def)

lemma seq_prepared_ok:
  "seq_prepared sd st p = (Inr u, st') \<longleftrightarrow>
     st = Preparing (pd_id p) (pd_operation p) \<and> (\<exists>b. encode_prepared sd p = Inr b) \<and>
     st' = PreparedState (pd_id p) (pd_operation p) (pd_binding p)"
  by (cases "encode_prepared sd p") (auto simp: seq_prepared_def require_def split: State.splits)

lemma seq_call_ok:
  "seq_call sd st c = (Inr u, st') \<longleftrightarrow>
     st = PreparedState (ca_id c) (args_operation (ca_args c)) (ca_binding c) \<and>
     (\<exists>b. encode_call sd c = Inr b) \<and> st' = Called c"
  by (cases "encode_call sd c") (auto simp: seq_call_def require_def split: State.splits)

lemma seq_success_ok:
  "seq_success sd st b = (Inr s, st') \<longleftrightarrow> (\<exists>c. st = Called c \<and> decode_success sd b c = Inr s) \<and> st' = Closed"
  by (auto simp: seq_success_def split: State.splits)

lemma seq_error_closes: "seq_step sd st e = (Inl x, st') \<Longrightarrow> st' = Closed"
  by (cases e) (auto simp: seq_prepare_def seq_prepared_def seq_call_def seq_success_def seq_failure_def
      split: State.splits sum.splits)

lemma seq_closed_rejects: "\<exists>x. seq_step sd Closed e = (Inl x, Closed)"
  by (cases e) (simp_all add: seq_prepare_def seq_prepared_def seq_call_def seq_success_def seq_failure_def)

interpretation sequence: fail_closed "seq_step sd" "\<lambda>st. st = Closed" for sd
  by unfold_locales (use seq_error_closes seq_closed_rejects in blast)+

text \<open>How far a state is from an accepted success.\<close>

fun seq_stage :: "State \<Rightarrow> nat" where
  "seq_stage New = 0"
| "seq_stage (Preparing _ _) = 1"
| "seq_stage (PreparedState _ _ _) = 2"
| "seq_stage (Called _) = 3"
| "seq_stage Closed = 4"

lemma seq_step_accepted:
  assumes "seq_step sd st e = (Inr r, st')"
  shows "(\<exists>p. st = New \<and> e = EvPrepare p \<and> r = Accepted \<and> st' = Preparing (pr_id p) (pr_operation p)) \<or>
    (\<exists>p. st = Preparing (pd_id p) (pd_operation p) \<and> e = EvPrepared p \<and> r = Accepted \<and>
       st' = PreparedState (pd_id p) (pd_operation p) (pd_binding p)) \<or>
    (\<exists>c. st = PreparedState (ca_id c) (args_operation (ca_args c)) (ca_binding c) \<and> e = EvCall c \<and>
       r = Accepted \<and> st' = Called c) \<or>
    (\<exists>c b s. st = Called c \<and> e = EvSuccess b \<and> decode_success sd b c = Inr s \<and> r = Succeeded s \<and> st' = Closed) \<or>
    ((\<exists>f. r = FailedWith f) \<and> st' = Closed)"
proof (cases e)
  case (EvPrepare p)
  with assms have "seq_prepare sd st p = (Inr (), st')" "r = Accepted" by (auto simp: reply_ok_iff)
  with EvPrepare show ?thesis by (simp add: seq_prepare_ok)
next
  case (EvPrepared p)
  with assms have "seq_prepared sd st p = (Inr (), st')" "r = Accepted" by (auto simp: reply_ok_iff)
  with EvPrepared show ?thesis by (simp add: seq_prepared_ok)
next
  case (EvCall c)
  with assms have "seq_call sd st c = (Inr (), st')" "r = Accepted" by (auto simp: reply_ok_iff)
  with EvCall show ?thesis by (simp add: seq_call_ok)
next
  case (EvSuccess b)
  with assms obtain s where "seq_success sd st b = (Inr s, st')" "r = Succeeded s" by (auto simp: reply_ok_iff)
  with EvSuccess show ?thesis by (simp add: seq_success_ok)
next
  case (EvFailure b)
  with assms obtain f where "seq_failure sd st b = (Inr f, st')" "r = FailedWith f" by (auto simp: reply_ok_iff)
  then show ?thesis by (auto simp: seq_failure_def split: State.splits)
qed

text \<open>What must have happened before a success is accepted, counted from a given state.\<close>

lemma run_steps_Cons:
  "fst (run_steps step s (e # es)) ! 0 = fst (step s e)"
  "fst (run_steps step s (e # es)) ! Suc k = fst (run_steps step (snd (step s e)) es) ! k"
  by (simp_all add: case_prod_beta Let_def)

lemma success_first:
  assumes "fst (run_steps (seq_step sd) st es) ! k = Inr (Succeeded s)" "k < length es"
  shows "(k = 0 \<longrightarrow> (\<exists>c b. st = Called c \<and> es ! 0 = EvSuccess b \<and> decode_success sd b c = Inr s)) \<and>
    (0 < k \<longrightarrow> (\<exists>st'. seq_step sd st (es ! 0) = (Inr Accepted, st') \<and> st' \<noteq> Closed \<and>
       fst (run_steps (seq_step sd) st' (tl es)) ! (k - 1) = Inr (Succeeded s) \<and> k - 1 < length (tl es)))"
proof (cases es)
  case (Cons e r)
  obtain x st' where st: "seq_step sd st e = (x, st')" by (cases "seq_step sd st e") auto
  show ?thesis
  proof (cases k)
    case 0
    with assms Cons st have "x = Inr (Succeeded s)" by (simp add: run_steps_Cons del: run_steps.simps)
    with 0 st Cons seq_step_accepted [of sd st e "Succeeded s" st'] show ?thesis by auto
  next
    case (Suc j)
    with assms Cons st have j: "fst (run_steps (seq_step sd) st' r) ! j = Inr (Succeeded s)" "j < length r"
      by (simp_all add: run_steps_Cons del: run_steps.simps)
    have nc: "st' \<noteq> Closed"
    proof
      assume "st' = Closed"
      from sequence.closed_all_errors [OF this, of sd r] j show False
        by (metis length_run_steps nth_mem sum.distinct(2))
    qed
    then obtain q where q: "x = Inr q" using seq_error_closes st by (metis sumE)
    with st nc seq_step_accepted [of sd st e q st'] have "q = Accepted" by auto
    with Suc q st nc j Cons show ?thesis by simp
  qed
qed (use assms in simp)

lemma success_from_Called:
  assumes "fst (run_steps (seq_step sd) (Called c) es) ! k = Inr (Succeeded s)" "k < length es"
  shows "k = 0 \<and> (\<exists>b r. es = EvSuccess b # r \<and> decode_success sd b c = Inr s)"
proof -
  obtain e r where es: "es = e # r" using assms(2) by (cases es) auto
  have "\<not> (\<exists>st'. seq_step sd (Called c) e = (Inr Accepted, st') \<and> st' \<noteq> Closed)"
    using seq_step_accepted [of sd "Called c" e] by fastforce
  with success_first [OF assms] es show ?thesis by auto
qed

lemma success_from_Prepared:
  assumes "fst (run_steps (seq_step sd) (PreparedState i op b) es) ! k = Inr (Succeeded s)" "k < length es"
  shows "k = 1 \<and> (\<exists>c x r. es = EvCall c # EvSuccess x # r \<and> ca_id c = i \<and> args_operation (ca_args c) = op \<and>
    ca_binding c = b \<and> decode_success sd x c = Inr s)"
proof -
  obtain e r where es: "es = e # r" using assms(2) by (cases es) auto
  from success_first [OF assms] es obtain st' where st: "0 < k" "seq_step sd (PreparedState i op b) e = (Inr Accepted, st')"
      "st' \<noteq> Closed" "fst (run_steps (seq_step sd) st' r) ! (k - 1) = Inr (Succeeded s)" "k - 1 < length r" by auto
  from seq_step_accepted [OF st(2)] obtain c where c: "e = EvCall c" "st' = Called c" "ca_id c = i"
      "args_operation (ca_args c) = op" "ca_binding c = b" by auto
  from success_from_Called [OF st(4) [unfolded c(2)] st(5)] c es st(1) show ?thesis by auto
qed

lemma success_from_Preparing:
  assumes "fst (run_steps (seq_step sd) (Preparing i op) es) ! k = Inr (Succeeded s)" "k < length es"
  shows "k = 2 \<and> (\<exists>p c x r. es = EvPrepared p # EvCall c # EvSuccess x # r \<and> pd_id p = i \<and> pd_operation p = op \<and>
    ca_id c = i \<and> args_operation (ca_args c) = op \<and> ca_binding c = pd_binding p \<and> decode_success sd x c = Inr s)"
proof -
  obtain e r where es: "es = e # r" using assms(2) by (cases es) auto
  from success_first [OF assms] es obtain st' where st: "0 < k" "seq_step sd (Preparing i op) e = (Inr Accepted, st')"
      "st' \<noteq> Closed" "fst (run_steps (seq_step sd) st' r) ! (k - 1) = Inr (Succeeded s)" "k - 1 < length r" by auto
  from seq_step_accepted [OF st(2)] obtain p where p: "e = EvPrepared p" "st' = PreparedState i op (pd_binding p)"
      "pd_id p = i" "pd_operation p = op" by auto
  from success_from_Prepared [OF st(4) [unfolded p(2)] st(5)] p es st(1) show ?thesis by auto
qed

lemma decode_success_ok:
  assumes "decode_success sd b call = Inr s"
  shows "su_id s = ca_id call \<and> su_operation s = args_operation (ca_args call) \<and> su_binding s = ca_binding call \<and>
    validate_for (sd_codecs sd) (ser_result sd) (su_result s) (ca_args call) = Inr ()"
  using assms by (auto simp: decode_success_def and_then_Inr_iff require_ok_iff split: if_splits)

text \<open>
  C22: on one connection a success is released only as the fourth event, after exactly one prepare,
  one prepared and one call, in this order, that agree on the request id, the operation and the
  destination binding; the released result carries that id, operation and binding and validates
  for the arguments of that call. No other order of events, and no event after an error, releases one.
\<close>

theorem sequence_success_correlated:
  assumes "fst (run_steps (seq_step sd) New es) ! k = Inr (Succeeded s)" "k < length es"
  shows "k = 3 \<and> (\<exists>p pd c b rest. es = EvPrepare p # EvPrepared pd # EvCall c # EvSuccess b # rest \<and>
    pd_id pd = pr_id p \<and> ca_id c = pr_id p \<and> su_id s = pr_id p \<and>
    pd_operation pd = pr_operation p \<and> args_operation (ca_args c) = pr_operation p \<and> su_operation s = pr_operation p \<and>
    ca_binding c = pd_binding pd \<and> su_binding s = pd_binding pd \<and>
    validate_for (sd_codecs sd) (ser_result sd) (su_result s) (ca_args c) = Inr ())"
proof -
  obtain e r where es: "es = e # r" using assms(2) by (cases es) auto
  from success_first [OF assms] es obtain st' where st: "0 < k" "seq_step sd New e = (Inr Accepted, st')"
      "fst (run_steps (seq_step sd) st' r) ! (k - 1) = Inr (Succeeded s)" "k - 1 < length r" by auto
  from seq_step_accepted [OF st(2)] obtain p where p: "e = EvPrepare p" "st' = Preparing (pr_id p) (pr_operation p)"
    by auto
  from success_from_Preparing [OF st(3) [unfolded p(2)] st(4)] obtain pd c x rest where f: "k - 1 = 2"
      "r = EvPrepared pd # EvCall c # EvSuccess x # rest" "pd_id pd = pr_id p" "pd_operation pd = pr_operation p"
      "ca_id c = pr_id p" "args_operation (ca_args c) = pr_operation p" "ca_binding c = pd_binding pd"
      "decode_success sd x c = Inr s" by blast
  with decode_success_ok [OF f(8)] es p st(1) show ?thesis by auto
qed

text \<open>A serde that writes \<^verbatim>\<open>{}\<close> for every message and reads back one fixed readiness exchange.\<close>

definition demo_id :: bytes where "demo_id = replicate 26 (CHR ''0'')"
definition demo_binding :: DestinationBinding where
  "demo_binding = \<lparr>db_principal = replicate 32 (CHR ''a''), db_principal_generation = replicate 32 (CHR ''b''),
     db_resource = replicate 32 (CHR ''c''), db_resource_generation = replicate 32 (CHR ''d'')\<rparr>"
definition demo_prepare :: Prepare where
  "demo_prepare = \<lparr>pr_id = demo_id, pr_credential = replicate 64 (CHR ''0''), pr_resource = ''db'', pr_operation = OpReadiness\<rparr>"
definition demo_prepared :: Prepared where
  "demo_prepared = \<lparr>pd_id = demo_id, pd_operation = OpReadiness, pd_binding = demo_binding\<rparr>"
definition demo_call :: Call where
  "demo_call = \<lparr>ca_id = demo_id, ca_binding = demo_binding, ca_args = ArgReadiness\<rparr>"
definition demo_success :: Success where
  "demo_success = \<lparr>su_id = demo_id, su_operation = OpReadiness, su_binding = demo_binding, su_result = ReadinessBody\<rparr>"

definition demo_serde :: Serde where
  "demo_serde = \<lparr>
     sd_codecs = \<lparr>key_dec = (\<lambda>_. None), f64_text = (\<lambda>_. None), b64_decode = (\<lambda>_. None), b64_encode = id\<rparr>,
     sd_reserve = (\<lambda>_. True),
     ser_prepare = (\<lambda>_. [''{}'']), de_prepare = (\<lambda>_. Some demo_prepare),
     ser_prepared = (\<lambda>_. [''{}'']), de_prepared = (\<lambda>_. Some demo_prepared),
     ser_failure = (\<lambda>_. [''{}'']), de_failure = (\<lambda>_. None),
     ser_call = (\<lambda>_. [''{}'']), de_call = (\<lambda>_. Some (raw_call demo_call ''{}'')),
     ser_success = (\<lambda>_. [''{}'']), de_success = (\<lambda>_. Some (raw_success demo_success ''{}'')),
     ser_args = (\<lambda>_. [''{}'']), de_args = (\<lambda>_ _. Some ArgReadiness),
     ser_result = (\<lambda>_. [''{}'']), de_result_tag = (\<lambda>_. Some ''readiness''),
     de_result_fields = (\<lambda>_ _. Some ReadinessBody), de_inspection = (\<lambda>_. None),
     de_records = (\<lambda>_ _. None), de_page = (\<lambda>_. None)\<rparr>"

theorem sequence_success_correlated_witness:
  "\<exists>es s. fst (run_steps (seq_step demo_serde) New es) ! 3 = Inr (Succeeded s) \<and> length es = 4 \<and> su_id s = demo_id"
proof -
  let ?es = "[EvPrepare demo_prepare, EvPrepared demo_prepared, EvCall demo_call, EvSuccess (''{}'' @ [newline])]"
  have r: "fst (run_steps (seq_step demo_serde) New ?es) ! 3 = Inr (Succeeded demo_success)" by code_simp
  have "su_id demo_success = pr_id demo_prepare"
    using sequence_success_correlated [OF r] by auto
  then have "su_id demo_success = demo_id" by (simp add: demo_prepare_def)
  with r show ?thesis by (intro exI [of _ ?es] exI [of _ demo_success]) simp
qed

section \<open>Framing and round trips\<close>

definition framed_line :: "(bytes \<Rightarrow> bytes option) \<Rightarrow> nat \<Rightarrow> bytes \<Rightarrow> bool" where
  "framed_line dec mx b \<longleftrightarrow> (\<exists>s. b = s @ [newline] \<and> newline \<notin> set s \<and> length b \<le> mx \<and>
     s \<noteq> [] \<and> hd s = CHR ''{'' \<and> last s = CHR ''}'' \<and> frame_json dec s (mx - 1) = Inr () \<and> utf8_valid s)"

lemma frame_ok: "frame dec b mx = Inr s \<Longrightarrow> framed_line dec mx b \<and> b = s @ [newline]"
  by (auto simp: frame_def framed_line_def Let_def and_then_Inr_iff require_ok_iff cap_ok_iff split: if_splits)
    (metis append_butlast_last_id)+

lemma encode_ok:
  "encode sd ws mx = Inr out \<Longrightarrow> out = concat ws @ [newline] \<and> sd_frame sd out mx = Inr (concat ws)"
  by (auto simp: encode_def Let_def and_then_Inr_iff split: if_splits dest: frame_ok)

interpretation prepare_codec: checked_codec "encode_prepare sd" "decode_prepare sd"
    "framed_line (key_dec (sd_codecs sd)) PREPARE_BYTES" for sd
  by unfold_locales
    (auto simp: encode_prepare_def and_then_Inr_iff decode_prepare_def dest: frame_ok)

interpretation prepared_codec: checked_codec "encode_prepared sd" "decode_prepared sd"
    "framed_line (key_dec (sd_codecs sd)) PREPARE_BYTES" for sd
  by unfold_locales
    (auto simp: encode_prepared_def and_then_Inr_iff decode_prepared_def dest: frame_ok)

interpretation call_codec: checked_codec "encode_call sd" "decode_call sd"
    "framed_line (key_dec (sd_codecs sd)) FRAME_BYTES" for sd
  by unfold_locales
    (auto simp: encode_call_def and_then_Inr_iff decode_call_def dest: frame_ok)

interpretation success_codec: checked_codec "\<lambda>s. encode_success sd s call" "\<lambda>b. decode_success sd b call"
    "framed_line (key_dec (sd_codecs sd)) FRAME_BYTES" for sd call
  by unfold_locales
    (auto simp: encode_success_def Let_def and_then_Inr_iff decode_success_def dest: frame_ok)

text \<open>A failure is not decoded again before it is released; its frame is checked.\<close>

lemma encode_failure_ok:
  "encode_failure sd f = Inr out \<Longrightarrow> id_check (fl_id f) = Inr () \<and> out = concat (ser_failure sd f) @ [newline] \<and>
     sd_frame sd out PREPARE_BYTES = Inr (concat (ser_failure sd f))"
  by (auto simp: encode_failure_def and_then_Inr_iff dest: encode_ok)

lemma failure_framed: "encode_failure sd f = Inr out \<Longrightarrow> framed_line (key_dec (sd_codecs sd)) PREPARE_BYTES out"
  by (blast dest: encode_failure_ok frame_ok)

text \<open>What each decoder makes of a released message that serde reads back.\<close>

lemma prepare_decoded:
  assumes "encode_prepare sd p = Inr out" "de_prepare sd (concat (ser_prepare sd p)) = Some p"
  shows "decode_prepare sd out = Inr p"
proof -
  from assms(1) obtain q where e: "encode sd (ser_prepare sd p) PREPARE_BYTES = Inr out" and d: "decode_prepare sd out = Inr q"
    by (auto simp: encode_prepare_def and_then_Inr_iff)
  with encode_ok [OF e] assms(2) show ?thesis by (auto simp: decode_prepare_def and_then_Inr_iff)
qed

lemma prepared_decoded:
  assumes "encode_prepared sd p = Inr out" "de_prepared sd (concat (ser_prepared sd p)) = Some p"
  shows "decode_prepared sd out = Inr p"
proof -
  from assms(1) obtain q where e: "encode sd (ser_prepared sd p) PREPARE_BYTES = Inr out" and d: "decode_prepared sd out = Inr q"
    by (auto simp: encode_prepared_def and_then_Inr_iff)
  with encode_ok [OF e] assms(2) show ?thesis by (auto simp: decode_prepared_def and_then_Inr_iff)
qed

lemma failure_decoded:
  assumes "encode_failure sd f = Inr out" "de_failure sd (concat (ser_failure sd f)) = Some f"
  shows "decode_failure sd out i = (if fl_id f = i then Inr f else Inl InvalidRequest)"
proof -
  from encode_failure_ok [OF assms(1)] have "sd_frame sd out PREPARE_BYTES = Inr (concat (ser_failure sd f))" "id_check (fl_id f) = Inr ()"
    by blast+
  with assms(2) show ?thesis by (simp add: decode_failure_def require_def)
qed

lemma success_decoded:
  assumes "encode_success sd s call = Inr out" "r = concat (ser_result sd (su_result s))"
    "de_success sd (concat (ser_success sd (raw_success s r))) = Some (raw_success s r)" "decode_result sd r = Inr (su_result s)"
  shows "decode_success sd out call = Inr s \<and> su_id s = ca_id call \<and> su_operation s = args_operation (ca_args call) \<and> su_binding s = ca_binding call"
proof -
  from assms(1,2) obtain q where e: "encode sd (ser_success sd (raw_success s r)) FRAME_BYTES = Inr out" and d: "decode_success sd out call = Inr q"
    by (auto simp: encode_success_def and_then_Inr_iff Let_def)
  from encode_ok [OF e] have fr: "sd_frame sd out FRAME_BYTES = Inr (concat (ser_success sd (raw_success s r)))" by blast
  with d assms(3,4) have m: "su_id s = ca_id call \<and> su_operation s = args_operation (ca_args call) \<and> su_binding s = ca_binding call"
    by (auto simp: decode_success_def and_then_Inr_iff raw_success_def require_ok_iff split: if_splits)
  from fr d assms(3,4) have "q = \<lparr>su_id = su_id s, su_operation = su_operation s, su_binding = su_binding s, su_result = su_result s\<rparr>"
    by (auto simp: decode_success_def and_then_Inr_iff raw_success_def split: if_splits)
  with m d show ?thesis by simp
qed

text \<open>
  When serde reads back what it wrote for this call and its arguments, decoding the released
  frame yields the very call that was encoded: id, binding and arguments are unchanged.
\<close>

theorem call_round_trip:
  assumes "encode_call sd c = Inr out"
    and "a = concat (ser_args sd (ca_args c))"
    and "de_call sd (concat (ser_call sd (raw_call c a))) = Some (raw_call c a)"
    and "de_args sd (args_operation (ca_args c)) a = Some (ca_args c)"
  shows "decode_call sd out = Inr c"
proof -
  from assms(1,2) have e: "encode sd (ser_call sd (raw_call c a)) FRAME_BYTES = Inr out"
      "args_validate (ca_args c) = Inr ()" and d: "\<exists>x. decode_call sd out = Inr x"
    by (auto simp: encode_call_def args_raw_def and_then_Inr_iff)
  have "sd_frame sd out FRAME_BYTES = Inr (concat (ser_call sd (raw_call c a)))"
    using encode_ok [OF e(1)] by blast
  with d e(2) assms(3,4) show ?thesis
    by (auto simp: decode_call_def and_then_Inr_iff decode_args_def raw_call_def)
qed

theorem call_round_trip_witness:
  "decode_call demo_serde (''{}'' @ [newline]) = Inr demo_call"
proof (rule call_round_trip)
  show "encode_call demo_serde demo_call = Inr (''{}'' @ [newline])" by code_simp
  show "''{}'' = concat (ser_args demo_serde (ca_args demo_call))" by code_simp
  show "de_call demo_serde (concat (ser_call demo_serde (raw_call demo_call ''{}''))) = Some (raw_call demo_call ''{}'')"
    by code_simp
  show "de_args demo_serde (args_operation (ca_args demo_call)) ''{}'' = Some (ca_args demo_call)" by code_simp
qed

end
