(* ===== verification/Server_Auth.thy ===== *)
theory Server_Auth
  imports Wire_Sequence
begin

text \<open>
  The authority of the execution server, \<^verbatim>\<open>crates/gaze-lens-server/src/auth.rs\<close>, and the trusted file
  reader it is loaded with, \<^verbatim>\<open>private.rs\<close>. SHA-256 (as lower-case hexadecimal text) and serde's reader
  of the authority file are parameters; file metadata is a record of what \<^verbatim>\<open>stat\<close> reports.
\<close>

section \<open>Trusted files\<close>

record Metadata =
  m_is_dir :: bool
  m_is_file :: bool
  m_mode :: nat
  m_uid :: nat
  m_ino :: nat
  m_dev :: nat

definition FILE_BYTES :: nat where "FILE_BYTES = 65536"

text \<open>\<^verbatim>\<open>meta.mode() & 0o077 != 0\<close>: some permission bit of the group or of others is set.\<close>

definition private_meta :: "nat \<Rightarrow> Metadata \<Rightarrow> bool \<Rightarrow> Error + unit" where
  "private_meta euid meta directory =
     (if \<not> (if directory then m_is_dir meta else m_is_file meta) then Inl Unavailable
      else if m_mode meta mod 64 \<noteq> 0 \<or> m_uid meta \<noteq> euid then Inl Unavailable
      else Inr ())"

definition same_inode :: "Metadata \<Rightarrow> Metadata \<Rightarrow> Error + unit" where
  "same_inode link opened =
     (if m_ino link \<noteq> m_ino opened \<or> m_dev link \<noteq> m_dev opened then Inl Unavailable else Inr ())"

text \<open>What the file system answers while one path is opened; \<^const>\<open>None\<close> is an I/O error.\<close>

record FileView =
  fv_parent :: "Metadata option"
  fv_link :: "Metadata option"
  fv_opens :: bool
  fv_opened :: "Metadata option"
  fv_reads :: "bytes option list"

definition open_file :: "nat \<Rightarrow> FileView \<Rightarrow> Error + unit" where
  "open_file euid fv =
     and_then (ok_or Unavailable (fv_parent fv)) (\<lambda>par.
     and_then (private_meta euid par True) (\<lambda>_.
     and_then (ok_or Unavailable (fv_link fv)) (\<lambda>link.
     and_then (private_meta euid link False) (\<lambda>_.
     and_then (if fv_opens fv then Inr () else Inl Unavailable) (\<lambda>_.
     and_then (ok_or Unavailable (fv_opened fv)) (\<lambda>opened.
     and_then (private_meta euid opened False) (\<lambda>_.
     same_inode link opened)))))))"

text \<open>
  The read loop over what successive reads return; an empty read, or no further one, is the end of
  the file. A read returns at most the room left in the buffer.
\<close>

fun read_loop :: "bytes \<Rightarrow> bytes option list \<Rightarrow> Error + bytes" where
  "read_loop acc [] = Inr acc"
| "read_loop acc (r # rs) =
     (if FILE_BYTES < length acc then Inr acc
      else case r of
        None \<Rightarrow> Inl Unavailable
      | Some got \<Rightarrow>
          let taken = take (FILE_BYTES + 1 - length acc) got
          in if taken = [] then Inr acc else read_loop (acc @ taken) rs)"

definition private_read :: "nat \<Rightarrow> FileView \<Rightarrow> Error + bytes" where
  "private_read euid fv =
     and_then (open_file euid fv) (\<lambda>_.
     and_then (read_loop [] (fv_reads fv)) (\<lambda>b.
     if FILE_BYTES < length b then Inl CapExceeded else Inr b))"

section \<open>Authority\<close>

definition hex_text :: "bytes \<Rightarrow> nat \<Rightarrow> bool" where
  "hex_text s n \<longleftrightarrow> length s = n \<and> list_all is_lower_hex s"

datatype ResourceClass = Database | Log

record Principal =
  pn_id :: bytes
  pn_generation :: bytes
  pn_sha256 :: bytes

record Resource =
  rn_alias :: bytes
  rn_id :: bytes
  rn_generation :: bytes
  rn_class :: ResourceClass

record Grant =
  gr_principal :: bytes
  gr_resource :: bytes
  gr_operation :: Operation
  gr_enabled :: bool
  gr_expires_unix :: nat

record Authority =
  au_principals :: "Principal list"
  au_resources :: "Resource list"
  au_grants :: "Grant list"

record Pinned =
  pin_principal :: Principal
  pin_resource :: Resource
  pin_operation :: Operation
  pin_binding :: DestinationBinding

text \<open>Each loop checks an element against those before it.\<close>

fun principals_ok :: "Principal list \<Rightarrow> Principal list \<Rightarrow> Error + unit" where
  "principals_ok before [] = Inr ()"
| "principals_ok before (p # ps) =
     (if \<not> hex_text (pn_id p) 32 \<or> \<not> hex_text (pn_generation p) 32 \<or> \<not> hex_text (pn_sha256 p) 64 \<or>
         list_ex (\<lambda>x. pn_id x = pn_id p \<or> pn_sha256 x = pn_sha256 p) before
      then Inl Unauthorized else principals_ok (before @ [p]) ps)"

fun resources_ok :: "Principal list \<Rightarrow> Resource list \<Rightarrow> Resource list \<Rightarrow> Error + unit" where
  "resources_ok prs before [] = Inr ()"
| "resources_ok prs before (r # rs) =
     and_then (configured_id (rn_alias r)) (\<lambda>_.
     if \<not> hex_text (rn_id r) 32 \<or> \<not> hex_text (rn_generation r) 32 \<or>
        list_ex (\<lambda>p. pn_id p = rn_id r) prs \<or>
        list_ex (\<lambda>x. rn_id x = rn_id r \<or> rn_alias x = rn_alias r) before
     then Inl Unauthorized else resources_ok prs (before @ [r]) rs)"

fun grants_ok :: "Principal list \<Rightarrow> Resource list \<Rightarrow> Grant list \<Rightarrow> Grant list \<Rightarrow> Error + unit" where
  "grants_ok prs rss before [] = Inr ()"
| "grants_ok prs rss before (g # gs) =
     (if \<not> list_ex (\<lambda>p. pn_id p = gr_principal g) prs \<or> \<not> list_ex (\<lambda>r. rn_id r = gr_resource g) rss \<or>
         list_ex (\<lambda>x. gr_principal x = gr_principal g \<and> gr_resource x = gr_resource g \<and> gr_operation x = gr_operation g) before
      then Inl Unauthorized else grants_ok prs rss (before @ [g]) gs)"

definition authority_parse :: "(bytes \<Rightarrow> bytes option) \<Rightarrow> (bytes \<Rightarrow> Authority option) \<Rightarrow> bytes \<Rightarrow> Error + Authority" where
  "authority_parse dec de b =
     and_then (json_ok dec b 65536) (\<lambda>_.
     and_then (ok_or Unauthorized (de b)) (\<lambda>au.
     and_then (checks
       [cap (length (au_principals au)) 128, cap (length (au_resources au)) 128, cap (length (au_grants au)) 1024,
        principals_ok [] (au_principals au),
        resources_ok (au_principals au) [] (au_resources au),
        grants_ok (au_principals au) (au_resources au) [] (au_grants au)]) (\<lambda>_. Inr au)))"

definition grant_check :: "Authority \<Rightarrow> bytes \<Rightarrow> bytes \<Rightarrow> Operation \<Rightarrow> nat \<Rightarrow> Error + unit" where
  "grant_check au p r op now =
     (if list_ex (\<lambda>g. gr_principal g = p \<and> gr_resource g = r \<and> gr_operation g = op \<and> gr_enabled g \<and> now < gr_expires_unix g)
           (au_grants au)
      then Inr () else Inl Unauthorized)"

definition auth_prepare :: "(bytes \<Rightarrow> bytes) \<Rightarrow> Authority \<Rightarrow> Prepare \<Rightarrow> nat \<Rightarrow> Error + Pinned" where
  "auth_prepare sha au p now =
     (let digest = sha (pr_credential p) in
      and_then (ok_or Unauthorized
        (fold (\<lambda>x found. if pn_sha256 x = digest then Some x else found) (au_principals au) None)) (\<lambda>pn.
      and_then (ok_or Unauthorized (List.find (\<lambda>x. rn_alias x = pr_resource p) (au_resources au))) (\<lambda>rn.
      and_then (grant_check au (pn_id pn) (rn_id rn) (pr_operation p) now) (\<lambda>_.
      Inr \<lparr>pin_principal = pn, pin_resource = rn, pin_operation = pr_operation p,
           pin_binding = \<lparr>db_principal = pn_id pn, db_principal_generation = pn_generation pn,
                          db_resource = rn_id rn, db_resource_generation = rn_generation rn\<rparr>\<rparr>))))"

definition auth_revalidate :: "Authority \<Rightarrow> Pinned \<Rightarrow> nat \<Rightarrow> Error + unit" where
  "auth_revalidate au pin now =
     (if pin_principal pin \<notin> set (au_principals au) \<or> pin_resource pin \<notin> set (au_resources au)
      then Inl BindingChanged
      else grant_check au (pn_id (pin_principal pin)) (rn_id (pin_resource pin)) (pin_operation pin) now)"

section \<open>What parsing establishes\<close>

definition authority_wf :: "Authority \<Rightarrow> bool" where
  "authority_wf au \<longleftrightarrow>
     (\<forall>p\<in>set (au_principals au). hex_text (pn_id p) 32 \<and> hex_text (pn_generation p) 32 \<and> hex_text (pn_sha256 p) 64) \<and>
     (\<forall>r\<in>set (au_resources au). hex_text (rn_id r) 32 \<and> hex_text (rn_generation r) 32) \<and>
     distinct (map pn_id (au_principals au) @ map rn_id (au_resources au)) \<and>
     distinct (map pn_sha256 (au_principals au)) \<and> distinct (map rn_alias (au_resources au)) \<and>
     (\<forall>g\<in>set (au_grants au). gr_principal g \<in> pn_id ` set (au_principals au) \<and> gr_resource g \<in> rn_id ` set (au_resources au)) \<and>
     distinct (map (\<lambda>g. (gr_principal g, gr_resource g, gr_operation g)) (au_grants au))"

lemma principals_ok_iff:
  "principals_ok before ps = Inr () \<longleftrightarrow>
     (\<forall>p\<in>set ps. hex_text (pn_id p) 32 \<and> hex_text (pn_generation p) 32 \<and> hex_text (pn_sha256 p) 64) \<and>
     distinct (map pn_id ps) \<and> distinct (map pn_sha256 ps) \<and>
     pn_id ` set ps \<inter> pn_id ` set before = {} \<and> pn_sha256 ` set ps \<inter> pn_sha256 ` set before = {}"
proof (induction ps arbitrary: before)
  case (Cons p ps)
  have "list_ex (\<lambda>x. pn_id x = pn_id p \<or> pn_sha256 x = pn_sha256 p) before \<longleftrightarrow>
      pn_id p \<in> pn_id ` set before \<or> pn_sha256 p \<in> pn_sha256 ` set before"
    by (force simp: list_ex_iff image_iff)
  then show ?case by (simp add: Cons.IH) blast
qed simp

lemma resources_ok_imp:
  "resources_ok prs before rs = Inr () \<Longrightarrow>
     (\<forall>r\<in>set rs. hex_text (rn_id r) 32 \<and> hex_text (rn_generation r) 32 \<and> rn_id r \<notin> pn_id ` set prs) \<and>
     distinct (map rn_id rs) \<and> distinct (map rn_alias rs) \<and>
     rn_id ` set rs \<inter> rn_id ` set before = {} \<and> rn_alias ` set rs \<inter> rn_alias ` set before = {}"
proof (induction rs arbitrary: before)
  case (Cons r rs)
  then have r: "hex_text (rn_id r) 32" "hex_text (rn_generation r) 32" "rn_id r \<notin> pn_id ` set prs"
      "rn_id r \<notin> rn_id ` set before" "rn_alias r \<notin> rn_alias ` set before"
    and "resources_ok prs (before @ [r]) rs = Inr ()"
    by (force simp: and_then_Inr_iff list_ex_iff image_iff split: if_splits)+
  from Cons.IH [OF this(6)] r show ?case by auto
qed simp

lemma grants_ok_imp:
  "grants_ok prs rss before gs = Inr () \<Longrightarrow>
     (\<forall>g\<in>set gs. gr_principal g \<in> pn_id ` set prs \<and> gr_resource g \<in> rn_id ` set rss) \<and>
     distinct (map (\<lambda>g. (gr_principal g, gr_resource g, gr_operation g)) gs) \<and>
     (\<lambda>g. (gr_principal g, gr_resource g, gr_operation g)) ` set gs \<inter>
       (\<lambda>g. (gr_principal g, gr_resource g, gr_operation g)) ` set before = {}"
proof (induction gs arbitrary: before)
  case (Cons g gs)
  then have g: "gr_principal g \<in> pn_id ` set prs" "gr_resource g \<in> rn_id ` set rss"
      "(gr_principal g, gr_resource g, gr_operation g) \<notin> (\<lambda>g. (gr_principal g, gr_resource g, gr_operation g)) ` set before"
    and n: "grants_ok prs rss (before @ [g]) gs = Inr ()"
    by (force simp: list_ex_iff image_iff split: if_splits)+
  from Cons.IH [OF n] g show ?case by auto
qed simp

lemma authority_parse_wf:
  assumes "authority_parse dec de b = Inr au"
  shows "authority_wf au \<and> de b = Some au \<and> json_ok dec b 65536 = Inr ()"
proof -
  from assms have c: "json_ok dec b 65536 = Inr ()" "de b = Some au" "principals_ok [] (au_principals au) = Inr ()"
      "resources_ok (au_principals au) [] (au_resources au) = Inr ()"
      "grants_ok (au_principals au) (au_resources au) [] (au_grants au) = Inr ()"
    by (simp_all add: authority_parse_def and_then_Inr_iff ok_or_Inr_iff checks_ok_iff del: checks.simps)
  have "\<forall>r\<in>set (au_resources au). rn_id r \<notin> pn_id ` set (au_principals au)"
    using resources_ok_imp [OF c(4)] by blast
  then have "set (map pn_id (au_principals au)) \<inter> set (map rn_id (au_resources au)) = {}"
    unfolding set_map disjoint_iff by (metis imageE)
  with c(1,2) c(3) [unfolded principals_ok_iff] resources_ok_imp [OF c(4)] grants_ok_imp [OF c(5)]
  show ?thesis by (simp add: authority_wf_def)
qed

section \<open>Preparing and revalidating\<close>

text \<open>
  The authorisation relation, stated without reference to any search order: who the credential
  identifies, what the alias names, and a live grant between the two.
\<close>

definition authorised :: "(bytes \<Rightarrow> bytes) \<Rightarrow> Authority \<Rightarrow> Prepare \<Rightarrow> nat \<Rightarrow> Principal \<Rightarrow> Resource \<Rightarrow> bool" where
  "authorised sha au p now pn rn \<longleftrightarrow>
     pn \<in> set (au_principals au) \<and> pn_sha256 pn = sha (pr_credential p) \<and>
     rn \<in> set (au_resources au) \<and> rn_alias rn = pr_resource p \<and>
     (\<exists>g\<in>set (au_grants au). gr_principal g = pn_id pn \<and> gr_resource g = rn_id rn \<and>
        gr_operation g = pr_operation p \<and> gr_enabled g \<and> now < gr_expires_unix g)"

definition pinned_as :: "Operation \<Rightarrow> Principal \<Rightarrow> Resource \<Rightarrow> Pinned" where
  "pinned_as op pn rn = \<lparr>pin_principal = pn, pin_resource = rn, pin_operation = op,
     pin_binding = \<lparr>db_principal = pn_id pn, db_principal_generation = pn_generation pn,
                    db_resource = rn_id rn, db_resource_generation = rn_generation rn\<rparr>\<rparr>"

lemma grant_check_iff:
  "grant_check au p r op now = Inr () \<longleftrightarrow>
     (\<exists>g\<in>set (au_grants au). gr_principal g = p \<and> gr_resource g = r \<and> gr_operation g = op \<and> gr_enabled g \<and> now < gr_expires_unix g)"
  by (auto simp: grant_check_def list_ex_iff)

lemma grant_check_cases: "grant_check au p r op now = Inr () \<or> grant_check au p r op now = Inl Unauthorized"
  by (simp add: grant_check_def)

lemma fold_last_match:
  "fold (\<lambda>x found. if f x = d then Some x else found) xs acc = Some y \<Longrightarrow>
     (y \<in> set xs \<and> f y = d) \<or> (acc = Some y \<and> d \<notin> f ` set xs)"
  by (induction xs arbitrary: acc) (auto split: if_splits)

lemma fold_last_match_None:
  "fold (\<lambda>x found. if f x = d then Some x else found) xs acc = None \<Longrightarrow> acc = None \<and> d \<notin> f ` set xs"
  by (induction xs arbitrary: acc) (auto split: if_splits)

lemma distinct_map_unique: "distinct (map f xs) \<Longrightarrow> x \<in> set xs \<Longrightarrow> y \<in> set xs \<Longrightarrow> f x = f y \<Longrightarrow> x = y"
  by (meson distinct_map inj_onD)

lemma fold_unique_match:
  assumes "distinct (map f xs)"
  shows "fold (\<lambda>x found. if f x = d then Some x else found) xs None = Some y \<longleftrightarrow> y \<in> set xs \<and> f y = d"
proof
  assume "fold (\<lambda>x found. if f x = d then Some x else found) xs None = Some y"
  from fold_last_match [OF this] show "y \<in> set xs \<and> f y = d" by simp
next
  assume y: "y \<in> set xs \<and> f y = d"
  show "fold (\<lambda>x found. if f x = d then Some x else found) xs None = Some y"
  proof (cases "fold (\<lambda>x found. if f x = d then Some x else found) xs None")
    case None
    with y fold_last_match_None [OF None] show ?thesis by auto
  next
    case (Some z)
    with fold_last_match [OF Some] y distinct_map_unique [OF assms, of z y] show ?thesis by simp
  qed
qed

lemma find_unique_match:
  assumes "distinct (map f xs)"
  shows "List.find (\<lambda>x. f x = d) xs = Some y \<longleftrightarrow> y \<in> set xs \<and> f y = d"
proof
  assume "List.find (\<lambda>x. f x = d) xs = Some y"
  then show "y \<in> set xs \<and> f y = d" by (auto simp: find_Some_iff)
next
  assume y: "y \<in> set xs \<and> f y = d"
  then have "List.find (\<lambda>x. f x = d) xs \<noteq> None" by (auto simp: find_None_iff)
  then obtain z where z: "List.find (\<lambda>x. f x = d) xs = Some z" by blast
  then have "z \<in> set xs \<and> f z = d" by (auto simp: find_Some_iff)
  with y z distinct_map_unique [OF assms, of z y] show "List.find (\<lambda>x. f x = d) xs = Some y" by simp
qed

lemma auth_prepare_iff:
  assumes "authority_wf au"
  shows "auth_prepare sha au p now = Inr pin \<longleftrightarrow>
    (\<exists>pn rn. authorised sha au p now pn rn \<and> pin = pinned_as (pr_operation p) pn rn)"
proof -
  have d: "distinct (map pn_sha256 (au_principals au))" "distinct (map rn_alias (au_resources au))"
    using assms by (simp_all add: authority_wf_def)
  have "auth_prepare sha au p now = Inr pin \<longleftrightarrow>
      (\<exists>pn. (pn \<in> set (au_principals au) \<and> pn_sha256 pn = sha (pr_credential p)) \<and>
        (\<exists>rn. (rn \<in> set (au_resources au) \<and> rn_alias rn = pr_resource p) \<and>
          grant_check au (pn_id pn) (rn_id rn) (pr_operation p) now = Inr () \<and>
          pinned_as (pr_operation p) pn rn = pin))"
    unfolding auth_prepare_def Let_def and_then_Inr_iff ok_or_Inr_iff fold_unique_match [OF d(1)]
      find_unique_match [OF d(2)] pinned_as_def by simp
  then show ?thesis unfolding authorised_def grant_check_iff by metis
qed

text \<open>
  C11: over any authority file that parses, a prepare is pinned exactly when the credential's digest
  belongs to an enrolled principal, the alias names an enrolled resource and an enabled, unexpired
  grant joins the two for the requested operation; the pinned binding names that principal and
  resource with their generations, and every refusal is \<^verbatim>\<open>unauthorized\<close>.
\<close>

theorem prepare_pins_exactly_the_authorised:
  assumes "authority_parse dec de b = Inr au"
  shows "(auth_prepare sha au p now = Inr pin \<longleftrightarrow>
      (\<exists>pn rn. authorised sha au p now pn rn \<and> pin = pinned_as (pr_operation p) pn rn)) \<and>
    (auth_prepare sha au p now = Inl e \<longrightarrow> e = Unauthorized)"
proof
  show "auth_prepare sha au p now = Inr pin \<longleftrightarrow>
      (\<exists>pn rn. authorised sha au p now pn rn \<and> pin = pinned_as (pr_operation p) pn rn)"
    using assms by (intro auth_prepare_iff) (simp add: authority_parse_wf)
  show "auth_prepare sha au p now = Inl e \<longrightarrow> e = Unauthorized"
    by (auto simp: auth_prepare_def and_then_Inl_iff ok_or_def grant_check_def Let_def split: option.splits if_splits)
qed

definition demo_authority :: Authority where
  "demo_authority = \<lparr>
     au_principals = [\<lparr>pn_id = replicate 32 (CHR ''a''), pn_generation = replicate 32 (CHR ''b''), pn_sha256 = replicate 64 (CHR ''0'')\<rparr>],
     au_resources = [\<lparr>rn_alias = ''db'', rn_id = replicate 32 (CHR ''c''), rn_generation = replicate 32 (CHR ''d''), rn_class = Database\<rparr>],
     au_grants = [\<lparr>gr_principal = replicate 32 (CHR ''a''), gr_resource = replicate 32 (CHR ''c''),
       gr_operation = OpReadiness, gr_enabled = True, gr_expires_unix = 100\<rparr>]\<rparr>"

theorem prepare_pins_exactly_the_authorised_witness:
  "\<exists>pn rn. authorised id demo_authority demo_prepare 99 pn rn \<and>
     auth_prepare id demo_authority demo_prepare 99 = Inr (pinned_as OpReadiness pn rn)"
proof -
  have p: "authority_parse (\<lambda>_. None) (\<lambda>_. Some demo_authority) ''{}'' = Inr demo_authority" by code_simp
  let ?pin = "pinned_as OpReadiness (hd (au_principals demo_authority)) (hd (au_resources demo_authority))"
  have r: "auth_prepare id demo_authority demo_prepare 99 = Inr ?pin" by code_simp
  from prepare_pins_exactly_the_authorised [OF p, of id demo_prepare 99 ?pin InvalidRequest] r
  obtain pn rn where "authorised id demo_authority demo_prepare 99 pn rn" "?pin = pinned_as (pr_operation demo_prepare) pn rn"
    by blast
  with r show ?thesis by (simp add: demo_prepare_def) metis
qed

section \<open>Reading trusted files\<close>

lemma read_loop_ok: "read_loop acc rs = Inr b \<Longrightarrow> length acc \<le> FILE_BYTES + 1 \<Longrightarrow> length b \<le> FILE_BYTES + 1"
  by (induction acc rs rule: read_loop.induct) (auto simp: Let_def split: if_splits option.splits)

definition private_file :: "nat \<Rightarrow> Metadata \<Rightarrow> bool" where
  "private_file euid m \<longleftrightarrow> m_is_file m \<and> m_uid m = euid \<and> m_mode m mod 64 = 0"

lemma private_meta_iff:
  "private_meta euid m d = Inr () \<longleftrightarrow> (if d then m_is_dir m else m_is_file m) \<and> m_uid m = euid \<and> m_mode m mod 64 = 0"
  by (auto simp: private_meta_def)

text \<open>
  Bytes of an operator file are admitted only when the opened descriptor is a regular file of
  the running user without group or other permissions, is the very inode that was inspected on the
  path, lies in a directory with the same privacy, and holds at most 65536 bytes.
\<close>

theorem private_read_admits:
  assumes "private_read euid fv = Inr b"
  shows "\<exists>par link opened. fv_parent fv = Some par \<and> fv_link fv = Some link \<and> fv_opened fv = Some opened \<and>
    m_is_dir par \<and> m_uid par = euid \<and> m_mode par mod 64 = 0 \<and>
    private_file euid link \<and> private_file euid opened \<and>
    m_ino link = m_ino opened \<and> m_dev link = m_dev opened \<and> length b \<le> FILE_BYTES"
  using assms
  by (auto simp: private_read_def open_file_def and_then_Inr_iff ok_or_Inr_iff private_meta_iff
      same_inode_def private_file_def split: if_splits)

theorem private_read_admits_witness:
  "\<exists>b fv opened. private_read 7 fv = Inr b \<and> fv_opened fv = Some opened \<and> private_file 7 opened"
proof -
  let ?dir = "\<lparr>m_is_dir = True, m_is_file = False, m_mode = 448, m_uid = 7, m_ino = 1, m_dev = 1\<rparr>"
  let ?file = "\<lparr>m_is_dir = False, m_is_file = True, m_mode = 384, m_uid = 7, m_ino = 2, m_dev = 1\<rparr>"
  let ?fv = "\<lparr>fv_parent = Some ?dir, fv_link = Some ?file, fv_opens = True, fv_opened = Some ?file, fv_reads = [Some ''ab'', Some []]\<rparr>"
  have "private_read 7 ?fv = Inr ''ab''" by code_simp
  with private_read_admits [OF this] show ?thesis by blast
qed

end
