(* ===== verification/Server_History.thy ===== *)
theory Server_History
  imports Server_Auth
begin

text \<open>
  The durable identity ledger, \<^verbatim>\<open>crates/gaze-lens-server/src/history.rs\<close>: which generation of which
  principal or resource is or was enrolled. Locking and the file system are outside the model: the
  ledger a server starts from is an argument, the ledger it persists is the result. SHA-256 and
  serde's text of an identity definition enter through \<open>fp_principal\<close> and \<open>fp_resource\<close>.
\<close>

section \<open>Identities and the ledger\<close>

datatype Kind = KPrincipal | KResource

record Identity =
  idn_kind :: Kind
  idn_id :: bytes
  idn_generation :: bytes
  idn_fingerprint :: bytes

record Entry =
  en_identity :: Identity
  en_active :: bool

record Ledger =
  lg_version :: nat
  lg_entries :: "Entry list"

definition identities :: "(Principal \<Rightarrow> bytes) \<Rightarrow> (Resource \<Rightarrow> bytes) \<Rightarrow> Authority \<Rightarrow> Identity list" where
  "identities fp_principal fp_resource au =
     sort_key idn_id
       (map (\<lambda>p. \<lparr>idn_kind = KPrincipal, idn_id = pn_id p, idn_generation = pn_generation p, idn_fingerprint = fp_principal p\<rparr>) (au_principals au) @
        map (\<lambda>r. \<lparr>idn_kind = KResource, idn_id = rn_id r, idn_generation = rn_generation r, idn_fingerprint = fp_resource r\<rparr>) (au_resources au))"

fun entries_ok :: "Entry list \<Rightarrow> Entry list \<Rightarrow> Error + unit" where
  "entries_ok before [] = Inr ()"
| "entries_ok before (e # es) =
     (let v = en_identity e in
      if \<not> hex_text (idn_id v) 32 \<or> \<not> hex_text (idn_generation v) 32 \<or> \<not> hex_text (idn_fingerprint v) 64
      then Inl Unavailable
      else if list_ex (\<lambda>old. idn_generation (en_identity old) = idn_generation v \<or>
             (idn_id (en_identity old) = idn_id v \<and> (idn_kind (en_identity old) \<noteq> idn_kind v \<or> en_active old))) before
      then Inl Unavailable
      else entries_ok (before @ [e]) es)"

definition ledger_validate :: "Ledger \<Rightarrow> Error + unit" where
  "ledger_validate l =
     (if lg_version l \<noteq> 1 then Inl Unavailable
      else and_then (cap (length (lg_entries l)) 1024) (\<lambda>_. entries_ok [] (lg_entries l)))"

text \<open>\<^verbatim>\<open>rposition\<close>: the index of the last match.\<close>

fun rposition :: "('a \<Rightarrow> bool) \<Rightarrow> 'a list \<Rightarrow> nat option" where
  "rposition p [] = None"
| "rposition p (x # xs) =
     (case rposition p xs of Some i \<Rightarrow> Some (Suc i) | None \<Rightarrow> if p x then Some 0 else None)"

definition push_entry :: "Identity \<Rightarrow> Entry list \<Rightarrow> Error + Entry list" where
  "push_entry v es =
     and_then (cap (length es + 1) 1024) (\<lambda>_. Inr (es @ [\<lparr>en_identity = v, en_active = True\<rparr>]))"

definition retire :: "nat \<Rightarrow> Entry list \<Rightarrow> Entry list" where
  "retire i es = es[i := (es ! i)\<lparr>en_active := False\<rparr>]"

text \<open>One requested identity: the new entries and whether anything changed.\<close>

definition enroll_one :: "Entry list \<Rightarrow> Identity \<Rightarrow> Error + Entry list \<times> bool" where
  "enroll_one es v =
     (let previous = rposition (\<lambda>e. idn_id (en_identity e) = idn_id v) es;
          fresh = (if list_ex (\<lambda>e. idn_generation (en_identity e) = idn_generation v) es then Inl BindingChanged
                   else and_then (push_entry v (case previous of Some i \<Rightarrow> retire i es | None \<Rightarrow> es)) (\<lambda>es1. Inr (es1, True)))
      in case previous of
           None \<Rightarrow> fresh
         | Some i \<Rightarrow>
             let old = es ! i in
             if \<not> en_active old \<or> idn_kind (en_identity old) \<noteq> idn_kind v then Inl BindingChanged
             else if idn_generation (en_identity old) = idn_generation v then
               (if en_identity old \<noteq> v then Inl BindingChanged else Inr (es, False))
             else fresh)"

fun enroll_all :: "Entry list \<Rightarrow> bool \<Rightarrow> Identity list \<Rightarrow> Error + Entry list \<times> bool" where
  "enroll_all es changed [] = Inr (es, changed)"
| "enroll_all es changed (v # vs) =
     and_then (enroll_one es v) (\<lambda>(es1, c). enroll_all es1 (changed \<or> c) vs)"

definition drop_absent :: "Identity list \<Rightarrow> Entry list \<Rightarrow> Entry list" where
  "drop_absent requested es =
     map (\<lambda>e. if en_active e \<and> \<not> list_ex (\<lambda>v. idn_id v = idn_id (en_identity e)) requested
              then e\<lparr>en_active := False\<rparr> else e) es"

text \<open>\<open>ledger_writes\<close>: the buffers serde writes for the ledger, counted against the file cap.\<close>

definition ledger_enroll :: "(Ledger \<Rightarrow> bytes list) \<Rightarrow> Ledger \<Rightarrow> Identity list \<Rightarrow> Error + Ledger \<times> bool" where
  "ledger_enroll ledger_writes l requested =
     and_then (ledger_validate l) (\<lambda>_.
     and_then (enroll_all (lg_entries l) False requested) (\<lambda>(es, changed).
     let es1 = drop_absent requested es;
         l1 = l\<lparr>lg_entries := es1\<rparr>
     in and_then (serialized_size (ledger_writes l1) FILE_BYTES) (\<lambda>_.
        Inr (l1, changed \<or> es1 \<noteq> es))))"

text \<open>\<^verbatim>\<open>History\<close> keeps the identities enrolled at start.\<close>

definition history_validate :: "(Principal \<Rightarrow> bytes) \<Rightarrow> (Resource \<Rightarrow> bytes) \<Rightarrow> Identity list \<Rightarrow> Authority \<Rightarrow> Error + unit" where
  "history_validate fpp fpr enrolled au =
     (if enrolled = identities fpp fpr au then Inr () else Inl BindingChanged)"

section \<open>The ledger invariant\<close>

definition identity_wf :: "Identity \<Rightarrow> bool" where
  "identity_wf v \<longleftrightarrow> hex_text (idn_id v) 32 \<and> hex_text (idn_generation v) 32 \<and> hex_text (idn_fingerprint v) 64"

definition succeeds :: "Entry \<Rightarrow> Entry \<Rightarrow> bool" where
  "succeeds old e \<longleftrightarrow> idn_generation (en_identity old) \<noteq> idn_generation (en_identity e) \<and>
     (idn_id (en_identity old) = idn_id (en_identity e) \<longrightarrow>
        idn_kind (en_identity old) = idn_kind (en_identity e) \<and> \<not> en_active old)"

definition entries_wf :: "Entry list \<Rightarrow> bool" where
  "entries_wf es \<longleftrightarrow> (\<forall>e\<in>set es. identity_wf (en_identity e)) \<and> sorted_wrt succeeds es"

lemma entries_ok_iff:
  "entries_ok before es = Inr () \<longleftrightarrow>
     (\<forall>e\<in>set es. identity_wf (en_identity e)) \<and> sorted_wrt succeeds es \<and> (\<forall>o'\<in>set before. \<forall>e\<in>set es. succeeds o' e)"
proof (induction es arbitrary: before)
  case (Cons e es)
  have "list_ex (\<lambda>old. idn_generation (en_identity old) = idn_generation (en_identity e) \<or>
      (idn_id (en_identity old) = idn_id (en_identity e) \<and> (idn_kind (en_identity old) \<noteq> idn_kind (en_identity e) \<or> en_active old))) before
      \<longleftrightarrow> \<not> (\<forall>o'\<in>set before. succeeds o' e)"
    by (auto simp: list_ex_iff succeeds_def)
  then show ?case by (simp add: Let_def Cons.IH identity_wf_def) blast
qed simp

lemma ledger_validate_iff:
  "ledger_validate l = Inr () \<longleftrightarrow> lg_version l = 1 \<and> length (lg_entries l) \<le> 1024 \<and> entries_wf (lg_entries l)"
  by (auto simp: ledger_validate_def entries_ok_iff entries_wf_def and_then_Inr_iff cap_ok_iff)

lemma rposition_None: "rposition p xs = None \<longleftrightarrow> (\<forall>x\<in>set xs. \<not> p x)"
  by (induction xs) (auto split: option.splits)

lemma rposition_Some: "rposition p xs = Some i \<Longrightarrow> i < length xs \<and> p (xs ! i) \<and> (\<forall>j<length xs. i < j \<longrightarrow> \<not> p (xs ! j))"
proof (induction xs arbitrary: i)
  case (Cons x xs)
  show ?case
  proof (cases "rposition p xs")
    case None
    with Cons.prems have "i = 0" "p x" "\<forall>y\<in>set xs. \<not> p y" by (auto simp: rposition_None split: if_splits)
    then show ?thesis by (auto simp: nth_Cons split: nat.splits)
  next
    case (Some k)
    with Cons show ?thesis by (auto simp: nth_Cons split: nat.splits)
  qed
qed simp

section \<open>Retiring only\<close>

text \<open>\<open>weaker es es'\<close>: the same identities, some of them retired.\<close>

definition weaker :: "Entry list \<Rightarrow> Entry list \<Rightarrow> bool" where
  "weaker es es' \<longleftrightarrow> list_all2 (\<lambda>e e'. en_identity e' = en_identity e \<and> (en_active e' \<longrightarrow> en_active e)) es es'"

lemma weaker_refl [intro]: "weaker es es"
  by (simp add: weaker_def list.rel_refl)

lemma weaker_nth: "weaker es es' \<longleftrightarrow> length es' = length es \<and>
    (\<forall>i<length es. en_identity (es' ! i) = en_identity (es ! i) \<and> (en_active (es' ! i) \<longrightarrow> en_active (es ! i)))"
  by (auto simp: weaker_def list_all2_conv_all_nth)

lemma weaker_trans: "weaker a b \<Longrightarrow> weaker b c \<Longrightarrow> weaker a c"
  by (simp add: weaker_nth)

lemma weaker_identities: "weaker es es' \<Longrightarrow> en_identity ` set es' = en_identity ` set es"
proof -
  assume "weaker es es'"
  then have "map en_identity es' = map en_identity es" by (simp add: weaker_nth list_eq_iff_nth_eq)
  from arg_cong [OF this, of set] show ?thesis by simp
qed

lemma weaker_retire [intro]: "weaker es (retire i es)"
  by (cases "i < length es") (auto simp: weaker_nth retire_def nth_list_update)

lemma weaker_drop_absent [intro]: "weaker es (drop_absent req es)"
  by (auto simp: weaker_nth drop_absent_def)

lemma weaker_wf:
  assumes "weaker es es'" "entries_wf es"
  shows "entries_wf es'"
proof -
  have "succeeds (es' ! i) (es' ! j)" if "i < j" "j < length es'" for i j
  proof -
    have "succeeds (es ! i) (es ! j)"
      using assms that by (auto simp: entries_wf_def weaker_nth sorted_wrt_iff_nth_less)
    with assms(1) that show ?thesis by (auto simp: succeeds_def weaker_nth)
  qed
  moreover have "\<forall>e\<in>set es'. identity_wf (en_identity e)"
    using weaker_identities [OF assms(1)] assms(2) unfolding entries_wf_def by (metis imageE imageI)
  ultimately show ?thesis by (simp add: entries_wf_def sorted_wrt_iff_nth_less)
qed

text \<open>\<open>extends es es'\<close>: the ledger only grows at the end, and old entries are at most retired.\<close>

definition extends :: "Entry list \<Rightarrow> Entry list \<Rightarrow> bool" where
  "extends es es' \<longleftrightarrow> (\<exists>old new. es' = old @ new \<and> weaker es old)"

lemma extends_weaker [intro]: "weaker es es' \<Longrightarrow> extends es es'"
  unfolding extends_def by (metis append_Nil2)

lemma extends_trans: "extends a b \<Longrightarrow> extends b c \<Longrightarrow> extends a c"
proof -
  assume "extends a b" "extends b c"
  then obtain o1 n1 o2 n2 where b: "b = o1 @ n1" "weaker a o1" and c: "c = o2 @ n2" "weaker b o2"
    by (auto simp: extends_def)
  from c(2) b(1) obtain o3 n3 where o: "o2 = o3 @ n3" "weaker o1 o3"
    unfolding weaker_def by (auto simp: list_all2_append1)
  with b c show ?thesis unfolding extends_def by (metis append.assoc weaker_trans)
qed

lemma extends_retired:
  assumes "extends es es'" "i < length es" "\<not> en_active (es ! i)"
  shows "i < length es'" "\<not> en_active (es' ! i)" "en_identity (es' ! i) = en_identity (es ! i)"
  using assms by (auto simp: extends_def weaker_nth nth_append)

section \<open>Enrolling\<close>

lemma wf_same_id:
  assumes "entries_wf es" "i < length es" "j < length es" "i < j" "idn_id (en_identity (es ! i)) = idn_id (en_identity (es ! j))"
  shows "\<not> en_active (es ! i) \<and> idn_kind (en_identity (es ! i)) = idn_kind (en_identity (es ! j))"
  using assms by (auto simp: entries_wf_def sorted_wrt_iff_nth_less succeeds_def)

lemma wf_push:
  assumes "entries_wf es" "identity_wf v" "\<forall>e\<in>set es. idn_generation (en_identity e) \<noteq> idn_generation v"
    "\<forall>e\<in>set es. idn_id (en_identity e) = idn_id v \<longrightarrow> idn_kind (en_identity e) = idn_kind v \<and> \<not> en_active e"
  shows "entries_wf (es @ [\<lparr>en_identity = v, en_active = True\<rparr>])"
  using assms by (auto simp: entries_wf_def sorted_wrt_append succeeds_def)

text \<open>The outcomes of one enrolment that succeed.\<close>

lemma enroll_one_ok:
  assumes "enroll_one es v = Inr (es', c)" "entries_wf es" "identity_wf v"
  obtains (kept) e where "es' = es" "\<not> c" "e \<in> set es" "en_identity e = v" "en_active e"
    | (pushed) old where "weaker es old" "es' = old @ [\<lparr>en_identity = v, en_active = True\<rparr>]" "c" "length es' \<le> 1024"
      "entries_wf es'" "\<And>w. w \<noteq> v \<Longrightarrow> idn_id w \<noteq> idn_id v \<Longrightarrow>
         (\<exists>e\<in>set es. en_identity e = w \<and> en_active e) \<Longrightarrow> (\<exists>e\<in>set es'. en_identity e = w \<and> en_active e)"
proof (cases "rposition (\<lambda>e. idn_id (en_identity e) = idn_id v) es")
  case None
  then have no: "\<forall>e\<in>set es. idn_id (en_identity e) \<noteq> idn_id v" by (simp add: rposition_None)
  from assms(1) None have r: "\<forall>e\<in>set es. idn_generation (en_identity e) \<noteq> idn_generation v"
      "length es + 1 \<le> 1024" "es' = es @ [\<lparr>en_identity = v, en_active = True\<rparr>]" "c"
    by (auto simp: enroll_one_def push_entry_def and_then_Inr_iff cap_ok_iff list_ex_iff split: if_splits)
  show thesis
    by (rule pushed [of es]) (use r no assms wf_push [OF assms(2,3) r(1)] in auto)
next
  case (Some i)
  note i = rposition_Some [OF Some]
  let ?old = "es ! i"
  from assms(1) Some have a: "en_active ?old" "idn_kind (en_identity ?old) = idn_kind v"
    by (auto simp: enroll_one_def Let_def split: if_splits)
  show thesis
  proof (cases "idn_generation (en_identity ?old) = idn_generation v")
    case True
    with assms(1) Some a have "en_identity ?old = v" "es' = es" "\<not> c"
      by (auto simp: enroll_one_def Let_def split: if_splits)
    with kept [of ?old] a i show thesis by simp
  next
    case False
    with assms(1) Some a have r: "\<forall>e\<in>set es. idn_generation (en_identity e) \<noteq> idn_generation v"
        "length es + 1 \<le> 1024" "es' = retire i es @ [\<lparr>en_identity = v, en_active = True\<rparr>]" "c"
      by (auto simp: enroll_one_def push_entry_def Let_def and_then_Inr_iff cap_ok_iff list_ex_iff retire_def split: if_splits)
    have w: "weaker es (retire i es)" by (rule weaker_retire)
    have g: "\<forall>e\<in>set (retire i es). idn_generation (en_identity e) \<noteq> idn_generation v"
      using r(1) weaker_identities [OF w] by (metis imageE imageI)
    have k: "idn_kind (en_identity e) = idn_kind v \<and> \<not> en_active e"
      if e: "e \<in> set (retire i es)" "idn_id (en_identity e) = idn_id v" for e
    proof -
      from e(1) obtain j where j: "j < length es" "e = retire i es ! j" by (auto simp: in_set_conv_nth retire_def)
      show ?thesis
      proof (cases "j = i")
        case True
        with j i a show ?thesis by (simp add: retire_def)
      next
        case False
        then have ej: "e = es ! j" using j by (simp add: retire_def)
        with i j e(2) False have "j < i" by (metis linorder_neqE_nat)
        with wf_same_id [OF assms(2) j(1) _ this] i a ej e(2) show ?thesis by simp
      qed
    qed
    have keep: "\<exists>e\<in>set es'. en_identity e = w \<and> en_active e"
      if "idn_id w \<noteq> idn_id v" "\<exists>e\<in>set es. en_identity e = w \<and> en_active e" for w
    proof -
      from that(2) obtain j where j: "j < length es" "en_identity (es ! j) = w" "en_active (es ! j)"
        by (auto simp: in_set_conv_nth)
      with that(1) i have "j \<noteq> i" by auto
      then have "es ! j \<in> set (retire i es)" using j(1) by (metis length_list_update nth_list_update_neq nth_mem retire_def)
      with j r(3) show ?thesis by auto
    qed
    have wf: "entries_wf es'"
      using wf_push [OF weaker_wf [OF w assms(2)] assms(3) g] k r(3) by simp
    have len: "length es' \<le> 1024" using r(2,3) by (simp add: retire_def)
    show thesis by (rule pushed [OF w r(3,4) len wf keep])
  qed
qed

definition enrolled_in :: "Entry list \<Rightarrow> Identity \<Rightarrow> bool" where
  "enrolled_in es v \<longleftrightarrow> (\<exists>e\<in>set es. en_identity e = v \<and> en_active e)"

lemma enroll_all_ok:
  assumes "enroll_all es c vs = Inr (es', c')" "entries_wf es" "length es \<le> 1024" "\<forall>v\<in>set vs. identity_wf v"
  shows "entries_wf es' \<and> length es' \<le> 1024 \<and> extends es es' \<and>
    (distinct (map idn_id vs) \<longrightarrow> (\<forall>v\<in>set vs. enrolled_in es' v) \<and>
       (\<forall>w. idn_id w \<notin> idn_id ` set vs \<and> enrolled_in es w \<longrightarrow> enrolled_in es' w))"
  using assms
proof (induction vs arbitrary: es c)
  case (Cons v vs)
  from Cons.prems(1) obtain es1 c1 where one: "enroll_one es v = Inr (es1, c1)" "enroll_all es1 (c \<or> c1) vs = Inr (es', c')"
    by (auto simp: and_then_Inr_iff)
  have v: "identity_wf v" using Cons.prems(4) by simp
  have st: "entries_wf es1 \<and> length es1 \<le> 1024 \<and> extends es es1 \<and> enrolled_in es1 v \<and>
      (\<forall>w. idn_id w \<noteq> idn_id v \<and> enrolled_in es w \<longrightarrow> enrolled_in es1 w)"
    using one(1) Cons.prems(2) v
  proof (cases rule: enroll_one_ok)
    case (kept e)
    then show ?thesis using Cons.prems(2,3) by (auto simp: enrolled_in_def)
  next
    case (pushed old)
    from pushed(1,2) have "extends es es1" by (auto simp: extends_def)
    with pushed show ?thesis unfolding enrolled_in_def by fastforce
  qed
  have ih: "entries_wf es' \<and> length es' \<le> 1024 \<and> extends es1 es' \<and>
    (distinct (map idn_id vs) \<longrightarrow> (\<forall>v\<in>set vs. enrolled_in es' v) \<and>
       (\<forall>w. idn_id w \<notin> idn_id ` set vs \<and> enrolled_in es1 w \<longrightarrow> enrolled_in es' w))"
    using Cons.IH [OF one(2)] st Cons.prems(4) by simp
  with st extends_trans show ?case by (auto simp: image_iff)
qed auto

text \<open>At most one active entry per identity id.\<close>

lemma active_unique:
  assumes "entries_wf es" "e \<in> set es" "f \<in> set es" "en_active e" "en_active f"
    "idn_id (en_identity e) = idn_id (en_identity f)"
  shows "en_identity e = en_identity f"
proof -
  from assms(2,3) obtain i j where ij: "i < length es" "e = es ! i" "j < length es" "f = es ! j"
    by (auto simp: in_set_conv_nth)
  have "\<not> i < j" "\<not> j < i"
    using wf_same_id [OF assms(1) ij(1,3)] wf_same_id [OF assms(1) ij(3,1)] assms(4-6) ij by auto
  then have "i = j" by simp
  with ij show ?thesis by simp
qed

lemma drop_absent_active:
  "enrolled_in (drop_absent req es) v \<longleftrightarrow> enrolled_in es v \<and> idn_id v \<in> idn_id ` set req"
proof -
  let ?f = "\<lambda>e. if en_active e \<and> \<not> list_ex (\<lambda>v. idn_id v = idn_id (en_identity e)) req then e\<lparr>en_active := False\<rparr> else e"
  have f: "en_identity (?f e) = en_identity e" "en_active (?f e) \<longleftrightarrow> en_active e \<and> idn_id (en_identity e) \<in> idn_id ` set req" for e
    by (auto simp: list_ex_iff image_iff) metis+
  have "enrolled_in (drop_absent req es) v \<longleftrightarrow> (\<exists>e\<in>set es. en_identity (?f e) = v \<and> en_active (?f e))"
    unfolding enrolled_in_def drop_absent_def set_map by (rule bex_simps(7))
  then show ?thesis unfolding f enrolled_in_def by metis
qed

lemma ledger_enroll_ok:
  assumes "ledger_enroll writes l req = Inr (l', ch)" "\<forall>v\<in>set req. identity_wf v"
  shows "ledger_validate l' = Inr () \<and> extends (lg_entries l) (lg_entries l') \<and>
    length (concat (writes l')) \<le> FILE_BYTES \<and>
    (distinct (map idn_id req) \<longrightarrow> (\<forall>v. enrolled_in (lg_entries l') v \<longleftrightarrow> v \<in> set req))"
proof -
  from assms(1) obtain es c n where s: "ledger_validate l = Inr ()" "enroll_all (lg_entries l) False req = Inr (es, c)"
      "l' = l\<lparr>lg_entries := drop_absent req es\<rparr>" "serialized_size (writes l') FILE_BYTES = Inr n"
    by (auto simp: ledger_enroll_def and_then_Inr_iff Let_def)
  from s(1) have w: "entries_wf (lg_entries l)" "length (lg_entries l) \<le> 1024" "lg_version l = 1"
    by (simp_all add: ledger_validate_iff)
  note a = enroll_all_ok [OF s(2) w(1,2) assms(2)]
  have d: "weaker es (drop_absent req es)" by (rule weaker_drop_absent)
  have wf: "entries_wf (drop_absent req es)" using weaker_wf [OF d] a by blast
  have ext: "extends (lg_entries l) (drop_absent req es)" using a d extends_trans extends_weaker by blast
  have act: "enrolled_in (drop_absent req es) v \<longleftrightarrow> v \<in> set req" if dist: "distinct (map idn_id req)" for v
  proof
    assume v: "enrolled_in (drop_absent req es) v"
    then obtain r where r: "r \<in> set req" "idn_id v = idn_id r" by (auto simp: drop_absent_active)
    have "enrolled_in es r" "enrolled_in es v" using a dist r(1) v drop_absent_active by blast+
    with active_unique [of es] a r(2) have "v = r" by (auto simp: enrolled_in_def)
    with r(1) show "v \<in> set req" by simp
  next
    assume "v \<in> set req"
    with a dist show "enrolled_in (drop_absent req es) v" by (auto simp: drop_absent_active)
  qed
  have "length (drop_absent req es) \<le> 1024" using a by (simp add: drop_absent_def)
  moreover have "length (concat (writes l')) \<le> FILE_BYTES"
    using serialized_size_bound [OF s(4)] by (simp add: FILE_BYTES_def USIZE_LIMIT_def)
  ultimately show ?thesis using s(3) wf ext act w(3) by (simp add: ledger_validate_iff)
qed

section \<open>Restarts\<close>

text \<open>Any number of successful enrolments, each of well-formed requests with distinct ids.\<close>

inductive restarts :: "(Ledger \<Rightarrow> bytes list) \<Rightarrow> Ledger \<Rightarrow> Ledger \<Rightarrow> bool" for writes where
  restarts_none: "restarts writes l l"
| restarts_one: "restarts writes l l1 \<Longrightarrow> ledger_enroll writes l1 req = Inr (l2, ch) \<Longrightarrow>
     \<forall>v\<in>set req. identity_wf v \<Longrightarrow> distinct (map idn_id req) \<Longrightarrow> restarts writes l l2"

lemma restarts_extend: "restarts writes l l' \<Longrightarrow> extends (lg_entries l) (lg_entries l')"
  by (induction rule: restarts.induct) (use ledger_enroll_ok extends_trans in blast)+

lemma wf_generation_unique:
  assumes "entries_wf es" "i < length es" "j < length es"
    "idn_generation (en_identity (es ! i)) = idn_generation (en_identity (es ! j))"
  shows "i = j"
proof (rule ccontr)
  assume "i \<noteq> j"
  then have "succeeds (es ! i) (es ! j) \<or> succeeds (es ! j) (es ! i)"
    using assms(1-3) by (auto simp: entries_wf_def sorted_wrt_iff_nth_less neq_iff)
  with assms(4) show False by (auto simp: succeeds_def)
qed

text \<open>
  C24: enrolling keeps the ledger valid: when it succeeds, the ledger it leaves passes its own
  validation again, fits the file cap, and its active entries are exactly the requested identities.
\<close>

theorem enroll_keeps_ledger_valid:
  assumes "ledger_enroll writes l req = Inr (l', ch)" "\<forall>v\<in>set req. identity_wf v" "distinct (map idn_id req)"
  shows "ledger_validate l' = Inr () \<and> length (concat (writes l')) \<le> FILE_BYTES \<and>
    (\<forall>v. enrolled_in (lg_entries l') v \<longleftrightarrow> v \<in> set req)"
  using ledger_enroll_ok [OF assms(1,2)] assms(3) by blast

definition demo_identity :: "char \<Rightarrow> Identity" where
  "demo_identity g = \<lparr>idn_kind = KPrincipal, idn_id = replicate 32 (CHR ''a''), idn_generation = replicate 32 g,
     idn_fingerprint = replicate 64 (CHR ''f'')\<rparr>"

definition demo_ledger :: Ledger where
  "demo_ledger = \<lparr>lg_version = 1, lg_entries = [\<lparr>en_identity = demo_identity (CHR ''1''), en_active = False\<rparr>,
     \<lparr>en_identity = demo_identity (CHR ''2''), en_active = True\<rparr>]\<rparr>"

definition demo_ledger3 :: Ledger where
  "demo_ledger3 = \<lparr>lg_version = 1, lg_entries = [\<lparr>en_identity = demo_identity (CHR ''1''), en_active = False\<rparr>,
     \<lparr>en_identity = demo_identity (CHR ''2''), en_active = False\<rparr>, \<lparr>en_identity = demo_identity (CHR ''3''), en_active = True\<rparr>]\<rparr>"

lemma demo_enroll: "ledger_enroll (\<lambda>_. [''{}'']) demo_ledger [demo_identity (CHR ''3'')] = Inr (demo_ledger3, True)"
  by code_simp

lemma demo_identity_wf: "\<forall>v\<in>set [demo_identity (CHR ''3'')]. identity_wf v"
  by code_simp

theorem enroll_keeps_ledger_valid_witness:
  "ledger_validate demo_ledger3 = Inr () \<and> (\<forall>v. enrolled_in (lg_entries demo_ledger3) v \<longleftrightarrow> v \<in> set [demo_identity (CHR ''3'')])"
  using enroll_keeps_ledger_valid [OF demo_enroll demo_identity_wf] by simp

text \<open>
  C25: no rollback. Once a generation is recorded and retired, no later enrolment, after any number
  of restarts, accepts an identity with that generation again: the request fails and the recorded
  entry stays retired.
\<close>

theorem retired_generation_never_returns:
  assumes "restarts writes l l1" "i < length (lg_entries l)" "\<not> en_active (lg_entries l ! i)"
    and "v \<in> set req" "idn_generation v = idn_generation (en_identity (lg_entries l ! i))"
    and "\<forall>w\<in>set req. identity_wf w" "distinct (map idn_id req)"
  shows "(\<exists>e. ledger_enroll writes l1 req = Inl e) \<and> \<not> en_active (lg_entries l1 ! i)"
proof
  note ext = restarts_extend [OF assms(1)]
  note old = extends_retired [OF ext assms(2,3)]
  show "\<not> en_active (lg_entries l1 ! i)" by (rule old(2))
  show "\<exists>e. ledger_enroll writes l1 req = Inl e"
  proof (cases "ledger_enroll writes l1 req")
    case (Inr r)
    then obtain l2 ch where r: "ledger_enroll writes l1 req = Inr (l2, ch)" by (cases r) auto
    note ok = ledger_enroll_ok [OF r assms(6)]
    with assms(4,7) have "enrolled_in (lg_entries l2) v" by blast
    then obtain j where j: "j < length (lg_entries l2)" "en_identity (lg_entries l2 ! j) = v" "en_active (lg_entries l2 ! j)"
      by (auto simp: enrolled_in_def in_set_conv_nth)
    have "extends (lg_entries l1) (lg_entries l2)" using ok by blast
    note o2 = extends_retired [OF this old(1,2)]
    have "entries_wf (lg_entries l2)" using ok by (simp add: ledger_validate_iff)
    from wf_generation_unique [OF this j(1) o2(1)] j o2 old(3) assms(5) have "j = i" by simp
    with j(3) o2(2) show ?thesis by simp
  qed simp
qed

theorem retired_generation_never_returns_witness:
  "(\<exists>e. ledger_enroll (\<lambda>_. [''{}'']) demo_ledger3 [demo_identity (CHR ''1'')] = Inl e) \<and>
    \<not> en_active (lg_entries demo_ledger3 ! 0)"
proof (rule retired_generation_never_returns)
  show "restarts (\<lambda>_. [''{}'']) demo_ledger demo_ledger3"
    by (rule restarts_one [OF restarts_none demo_enroll demo_identity_wf]) simp
  show "\<forall>w\<in>set [demo_identity (CHR ''1'')]. identity_wf w" by code_simp
qed (simp_all add: demo_ledger_def)

end
