(* ===== verification/Server_Service.thy ===== *)
theory Server_Service
  imports Server_History
begin

text \<open>
  The service loop and the connection handler of the execution server,
  \<^verbatim>\<open>crates/gaze-lens-server/src/service.rs\<close>. Sockets, TLS, files and the clock are inputs of the model:
  each read, write, file load and clock reading has an outcome chosen by the environment. A connection
  returns its result together with the frames it handed to the transport and the principal permit it
  holds; the accept loop is a function of one \<^verbatim>\<open>accept\<close> outcome and the tasks interleave in a step
  relation.
\<close>

section \<open>The accept loop\<close>

text \<open>\<^verbatim>\<open>std::io::ErrorKind\<close>; \<open>OtherKind\<close> is every kind \<^verbatim>\<open>classify\<close> does not name.\<close>

datatype ErrorKind = ConnectionAborted | ConnectionReset | ConnectionRefused | Interrupted | TimedOut
  | HostUnreachable | NetworkUnreachable | NetworkDown | InvalidInput | NotConnected | BrokenPipe
  | AddrNotAvailable | NotFound | WouldBlock | OtherKind

datatype Accept = Peer | ResourceShort | Dead

definition classify :: "ErrorKind \<Rightarrow> Accept" where
  "classify k =
     (if k \<in> {ConnectionAborted, ConnectionReset, ConnectionRefused, Interrupted, TimedOut,
              HostUnreachable, NetworkUnreachable, NetworkDown} then Peer
      else if k \<in> {InvalidInput, NotConnected, BrokenPipe, AddrNotAvailable, NotFound} then Dead
      else ResourceShort)"

definition ACCEPT_FAILURES :: nat where "ACCEPT_FAILURES = 64"

text \<open>
  A task holds one of the service permits; \<^term>\<open>Some i\<close> also holds a permit of principal \<open>i\<close>.
\<close>

record Service =
  sv_tasks :: "bytes option list"
  sv_counts :: "bytes \<Rightarrow> nat option"
  sv_failures :: nat

definition serve_start :: Service where
  "serve_start = \<lparr>sv_tasks = [], sv_counts = Map.empty, sv_failures = 0\<rparr>"

text \<open>One outcome of \<^verbatim>\<open>listener.accept()\<close>: \<^const>\<open>None\<close> is a connection, \<open>Some k\<close> a failure of kind \<open>k\<close>.\<close>

definition serve_accept :: "Service \<Rightarrow> ErrorKind option \<Rightarrow> Error + Service" where
  "serve_accept s r =
     (case r of
        None \<Rightarrow>
          (let s1 = s\<lparr>sv_failures := 0\<rparr>
           in if length (sv_tasks s1) < DEFAULT_ACTIVE_CALLS
              then Inr (s1\<lparr>sv_tasks := sv_tasks s1 @ [None]\<rparr>) else Inr s1)
      | Some k \<Rightarrow>
          (case classify k of
             Peer \<Rightarrow> Inr s
           | Dead \<Rightarrow> Inl Unavailable
           | ResourceShort \<Rightarrow>
               (let s1 = s\<lparr>sv_failures := sv_failures s + 1\<rparr>
                in if ACCEPT_FAILURES \<le> sv_failures s1 then Inl Unavailable else Inr s1)))"

section \<open>Principal permits\<close>

definition permit_acquire :: "(bytes \<Rightarrow> nat option) \<Rightarrow> bytes \<Rightarrow> Error + (bytes \<Rightarrow> nat option)" where
  "permit_acquire counts i =
     (let n = (case counts i of None \<Rightarrow> 0 | Some n \<Rightarrow> n)
      in if MAX_PRINCIPAL_CALLS \<le> n then Inl Unavailable else Inr (counts(i \<mapsto> n + 1)))"

text \<open>\<^verbatim>\<open>*count -= 1\<close> on a \<^verbatim>\<open>usize\<close>; the invariant below shows that the count is never zero here.\<close>

definition permit_drop :: "(bytes \<Rightarrow> nat option) \<Rightarrow> bytes \<Rightarrow> (bytes \<Rightarrow> nat option)" where
  "permit_drop counts i =
     (case counts i of
        None \<Rightarrow> counts
      | Some n \<Rightarrow> if n - 1 = 0 then counts(i := None) else counts(i \<mapsto> n - 1))"

definition task_admit :: "Service \<Rightarrow> nat \<Rightarrow> bytes \<Rightarrow> Error + Service" where
  "task_admit s k i =
     and_then (permit_acquire (sv_counts s) i) (\<lambda>c. Inr (s\<lparr>sv_counts := c, sv_tasks := (sv_tasks s)[k := Some i]\<rparr>))"

definition task_end :: "Service \<Rightarrow> nat \<Rightarrow> Service" where
  "task_end s k =
     s\<lparr>sv_counts := (case sv_tasks s ! k of None \<Rightarrow> sv_counts s | Some i \<Rightarrow> permit_drop (sv_counts s) i),
       sv_tasks := take k (sv_tasks s) @ drop (Suc k) (sv_tasks s)\<rparr>"

text \<open>
  The service interleaves accepts with its tasks: a task that has prepared asks for its principal's
  permit, and a task may end at any moment (it finished, failed, panicked or met its deadline).
\<close>

inductive srv_step :: "Service \<Rightarrow> Service \<Rightarrow> bool" where
  step_accept: "serve_accept s r = Inr s1 \<Longrightarrow> srv_step s s1"
| step_admit: "k < length (sv_tasks s) \<Longrightarrow> sv_tasks s ! k = None \<Longrightarrow> task_admit s k i = Inr s1 \<Longrightarrow> srv_step s s1"
| step_end: "k < length (sv_tasks s) \<Longrightarrow> srv_step s (task_end s k)"

inductive_cases srv_stepE: "srv_step s s1"

inductive srv_reachable :: "Service \<Rightarrow> bool" where
  reach_start: "srv_reachable serve_start"
| reach_step: "srv_reachable s \<Longrightarrow> srv_step s s1 \<Longrightarrow> srv_reachable s1"

section \<open>The admission invariant\<close>

definition holders :: "Service \<Rightarrow> bytes \<Rightarrow> nat" where
  "holders s i = count_list (sv_tasks s) (Some i)"

definition admission_inv :: "Service \<Rightarrow> bool" where
  "admission_inv s \<longleftrightarrow> length (sv_tasks s) \<le> DEFAULT_ACTIVE_CALLS \<and>
     sv_failures s < ACCEPT_FAILURES \<and>
     (\<forall>i. holders s i \<le> MAX_PRINCIPAL_CALLS \<and> sv_counts s i = (if holders s i = 0 then None else Some (holders s i)))"

lemma count_list_update:
  "k < length xs \<Longrightarrow> count_list (xs[k := x]) y + (if xs ! k = y then 1 else 0) = count_list xs y + (if x = y then 1 else 0)"
proof (induction xs arbitrary: k)
  case (Cons a xs)
  show ?case
  proof (cases k)
    case (Suc m)
    with Cons.IH [of m] Cons.prems show ?thesis by (simp split: if_splits)
  qed simp
qed simp

lemma count_list_remove:
  "k < length xs \<Longrightarrow> count_list (take k xs @ drop (Suc k) xs) y + (if xs ! k = y then 1 else 0) = count_list xs y"
  by (subst (3) id_take_nth_drop [of k xs]) simp_all

lemma serve_accept_effect:
  assumes "serve_accept s r = Inr s1"
  shows "sv_counts s1 = sv_counts s \<and> holders s1 = holders s \<and>
    (sv_failures s < ACCEPT_FAILURES \<longrightarrow> sv_failures s1 < ACCEPT_FAILURES) \<and>
    (length (sv_tasks s) \<le> DEFAULT_ACTIVE_CALLS \<longrightarrow> length (sv_tasks s1) \<le> DEFAULT_ACTIVE_CALLS)"
  using assms
  by (auto simp: serve_accept_def holders_def fun_eq_iff Let_def ACCEPT_FAILURES_def
      split: option.splits Accept.splits if_splits)

lemma serve_accept_inv: "serve_accept s r = Inr s1 \<Longrightarrow> admission_inv s \<Longrightarrow> admission_inv s1"
  using serve_accept_effect [of s r s1] by (simp add: admission_inv_def)

lemma task_admit_inv:
  assumes "k < length (sv_tasks s)" "sv_tasks s ! k = None" "task_admit s k i = Inr s1" "admission_inv s"
  shows "admission_inv s1"
proof -
  from assms(3) obtain n where n: "n = (case sv_counts s i of None \<Rightarrow> 0 | Some n \<Rightarrow> n)" "n < MAX_PRINCIPAL_CALLS"
      "s1 = s\<lparr>sv_counts := (sv_counts s)(i \<mapsto> n + 1), sv_tasks := (sv_tasks s)[k := Some i]\<rparr>"
    by (auto simp: task_admit_def permit_acquire_def Let_def and_then_Inr_iff split: if_splits)
  have "n = holders s i" using assms(4) n(1) by (auto simp: admission_inv_def)
  moreover have "holders s1 j = holders s j + (if j = i then 1 else 0)" for j
    using count_list_update [OF assms(1), of "Some i" "Some j"] assms(2) n(3) by (auto simp: holders_def)
  ultimately show ?thesis using assms(4) n(2,3) by (auto simp: admission_inv_def)
qed

lemma task_end_holders:
  assumes "k < length (sv_tasks s)"
  shows "holders (task_end s k) j = holders s j - (if sv_tasks s ! k = Some j then 1 else 0)"
    "sv_tasks s ! k = Some j \<Longrightarrow> 0 < holders s j"
  using count_list_remove [OF assms, of "Some j"] by (auto simp: holders_def task_end_def split: if_splits)

lemma task_end_inv:
  assumes k: "k < length (sv_tasks s)" and inv: "admission_inv s"
  shows "admission_inv (task_end s k)"
proof -
  have "sv_counts (task_end s k) j = (if holders (task_end s k) j = 0 then None else Some (holders (task_end s k) j))" for j
    using inv task_end_holders [OF k, of j]
    by (auto simp: task_end_def permit_drop_def admission_inv_def split: option.splits)
  moreover have "holders (task_end s k) j \<le> MAX_PRINCIPAL_CALLS" for j
    using inv task_end_holders(1) [OF k, of j] by (auto simp: admission_inv_def intro: le_diff_conv [THEN iffD2] trans_le_add1)
  moreover have "length (sv_tasks (task_end s k)) \<le> DEFAULT_ACTIVE_CALLS" "sv_failures (task_end s k) = sv_failures s"
    using inv k by (auto simp: task_end_def admission_inv_def)
  ultimately show ?thesis using inv by (simp add: admission_inv_def)
qed

lemma srv_step_inv: "srv_step s s1 \<Longrightarrow> admission_inv s \<Longrightarrow> admission_inv s1"
  by (erule srv_stepE) (auto intro: serve_accept_inv task_admit_inv task_end_inv)

lemma srv_reachable_inv: "srv_reachable s \<Longrightarrow> admission_inv s"
proof (induction rule: srv_reachable.induct)
  case reach_start
  show ?case by (simp add: admission_inv_def serve_start_def holders_def ACCEPT_FAILURES_def)
qed (rule srv_step_inv)

text \<open>
  C26: in every reachable state of the service at most four tasks run, at most two of them hold a
  permit of the same principal, and the shared count of a principal is exactly the number of its
  running tasks, with no entry left for an idle principal; so releasing a permit never takes a count
  below zero.
\<close>

theorem service_admission_bounded:
  assumes "srv_reachable s"
  shows "length (sv_tasks s) \<le> 4 \<and> holders s i \<le> 2 \<and>
    sv_counts s i = (if holders s i = 0 then None else Some (holders s i)) \<and>
    (Some i \<in> set (sv_tasks s) \<longrightarrow> (\<exists>n. sv_counts s i = Some n \<and> 1 \<le> n))"
proof -
  have "holders s i \<noteq> 0" if "Some i \<in> set (sv_tasks s)"
    using that by (simp add: holders_def count_list_0_iff)
  with srv_reachable_inv [OF assms] show ?thesis
    by (auto simp: admission_inv_def DEFAULT_ACTIVE_CALLS_def MAX_PRINCIPAL_CALLS_def Suc_le_eq)
qed

theorem service_admission_bounded_witness:
  "\<exists>s. srv_reachable s \<and> sv_tasks s = [Some ''p''] \<and> sv_counts s ''p'' = Some 1"
proof -
  let ?s1 = "\<lparr>sv_tasks = [None], sv_counts = Map.empty, sv_failures = 0\<rparr>"
  let ?s2 = "\<lparr>sv_tasks = [Some ''p''], sv_counts = [''p'' \<mapsto> Suc 0], sv_failures = 0\<rparr>"
  have "srv_step serve_start ?s1"
    by (rule step_accept [of _ None]) (simp add: serve_accept_def serve_start_def DEFAULT_ACTIVE_CALLS_def)
  moreover have "srv_step ?s1 ?s2"
    by (rule step_admit [of 0 _ "''p''"]) (simp_all add: task_admit_def permit_acquire_def MAX_PRINCIPAL_CALLS_def)
  ultimately have r: "srv_reachable ?s2" by (blast intro: srv_reachable.intros)
  have "sv_counts ?s2 ''p'' = Some 1"
    using service_admission_bounded [OF r, of "''p''"] by (simp add: holders_def)
  with r show ?thesis by (intro exI [of _ ?s2]) simp
qed

section \<open>When the listener gives up\<close>

fun serve_accepts :: "Service \<Rightarrow> ErrorKind option list \<Rightarrow> Error + Service" where
  "serve_accepts s [] = Inr s"
| "serve_accepts s (r # rs) = and_then (serve_accept s r) (\<lambda>s1. serve_accepts s1 rs)"

definition resource_failure :: "ErrorKind option \<Rightarrow> bool" where
  "resource_failure r \<longleftrightarrow> (\<exists>k. r = Some k \<and> classify k = ResourceShort)"

text \<open>Resource failures since the last accepted connection.\<close>

definition recent_failures :: "ErrorKind option list \<Rightarrow> nat" where
  "recent_failures rs = length (filter resource_failure (takeWhile (\<lambda>r. r \<noteq> None) (rev rs)))"

definition fatal :: "ErrorKind option list \<Rightarrow> bool" where
  "fatal rs \<longleftrightarrow> (\<exists>k. last rs = Some k \<and> classify k = Dead) \<or> (rs \<noteq> [] \<and> ACCEPT_FAILURES \<le> recent_failures rs)"

lemma serve_accepts_append:
  "serve_accepts s (rs @ [r]) = and_then (serve_accepts s rs) (\<lambda>s1. serve_accept s1 r)"
proof (induction rs arbitrary: s)
  case Nil
  show ?case by (cases "serve_accept s r") simp_all
next
  case (Cons a rs)
  then show ?case by (cases "serve_accept s a") simp_all
qed

lemma recent_failures_snoc:
  "recent_failures (rs @ [r]) =
     (case r of None \<Rightarrow> 0 | Some k \<Rightarrow> (if classify k = ResourceShort then 1 else 0) + recent_failures rs)"
  by (auto simp: recent_failures_def resource_failure_def split: option.splits)

lemma serve_accepts_failures:
  "serve_accepts s rs = Inr s1 \<Longrightarrow> sv_failures s = 0 \<Longrightarrow> sv_failures s1 = recent_failures rs"
proof (induction rs arbitrary: s1 rule: rev_induct)
  case Nil
  then show ?case by (simp add: recent_failures_def)
next
  case (snoc r rs)
  then obtain s0 where s0: "serve_accepts s rs = Inr s0" "serve_accept s0 r = Inr s1" "sv_failures s0 = recent_failures rs"
    by (auto simp: serve_accepts_append and_then_Inr_iff)
  then show ?case
    by (auto simp: serve_accept_def recent_failures_snoc Let_def split: option.splits Accept.splits if_splits)
qed

lemma serve_accept_error:
  "serve_accept s r = Inl e \<longleftrightarrow> e = Unavailable \<and>
     (\<exists>k. r = Some k \<and> (classify k = Dead \<or> classify k = ResourceShort \<and> ACCEPT_FAILURES \<le> sv_failures s + 1))"
  by (auto simp: serve_accept_def Let_def split: option.splits Accept.splits if_splits)

lemma serve_accepts_ok_iff:
  assumes "sv_failures s = 0"
  shows "(\<exists>s1. serve_accepts s rs = Inr s1) \<longleftrightarrow> (\<forall>n\<le>length rs. n \<noteq> 0 \<longrightarrow> \<not> fatal (take n rs))"
proof (induction rs rule: rev_induct)
  case (snoc r rs)
  have t: "take n (rs @ [r]) = (if n \<le> length rs then take n rs else rs @ [r])" if "n \<le> length (rs @ [r])" for n
    using that by auto
  have split_last: "(\<forall>n\<le>length (rs @ [r]). n \<noteq> 0 \<longrightarrow> \<not> fatal (take n (rs @ [r]))) \<longleftrightarrow>
      (\<forall>n\<le>length rs. n \<noteq> 0 \<longrightarrow> \<not> fatal (take n rs)) \<and> \<not> fatal (rs @ [r])"
    using t by (auto simp: le_Suc_eq)
  show ?case
  proof (cases "serve_accepts s rs")
    case (Inl e)
    then have "\<not> (\<exists>s1. serve_accepts s rs = Inr s1)" by simp
    with snoc.IH split_last Inl show ?thesis by (simp add: serve_accepts_append)
  next
    case (Inr s0)
    then have ok: "\<forall>n\<le>length rs. n \<noteq> 0 \<longrightarrow> \<not> fatal (take n rs)" using snoc.IH by blast
    note f0 = serve_accepts_failures [OF Inr assms]
    have small: "recent_failures rs < ACCEPT_FAILURES"
    proof (cases "rs = []")
      case False
      then have "\<not> fatal rs" using ok by (metis length_0_conv order_refl take_all)
      with False show ?thesis by (simp add: fatal_def)
    qed (simp add: recent_failures_def ACCEPT_FAILURES_def)
    have "(\<exists>s1. serve_accept s0 r = Inr s1) \<longleftrightarrow> \<not> (\<exists>e. serve_accept s0 r = Inl e)"
      by (cases "serve_accept s0 r") auto
    also have "\<dots> \<longleftrightarrow> \<not> fatal (rs @ [r])"
      using small by (auto simp: serve_accept_error fatal_def f0 recent_failures_snoc ACCEPT_FAILURES_def split: option.splits)
    finally show ?thesis using Inr ok split_last by (simp add: serve_accepts_append)
  qed
qed simp

text \<open>
  C27: over any sequence of accept outcomes the listener keeps serving exactly as long as no failure
  showed a dead descriptor and no 64 resource failures came without an accepted connection in between;
  failures of single peers never count. It stops with \<^verbatim>\<open>unavailable\<close>.
\<close>

theorem listener_survives_peers:
  "((\<exists>s. serve_accepts serve_start rs = Inr s) \<longleftrightarrow> (\<forall>n\<le>length rs. n \<noteq> 0 \<longrightarrow> \<not> fatal (take n rs))) \<and>
   (serve_accepts serve_start rs = Inl e \<longrightarrow> e = Unavailable)"
proof
  show "(\<exists>s. serve_accepts serve_start rs = Inr s) \<longleftrightarrow> (\<forall>n\<le>length rs. n \<noteq> 0 \<longrightarrow> \<not> fatal (take n rs))"
    by (rule serve_accepts_ok_iff) (simp add: serve_start_def)
  have "serve_accepts s rs = Inl e \<Longrightarrow> e = Unavailable" for s
    by (induction rs arbitrary: s) (auto simp: and_then_Inl_iff serve_accept_error)
  then show "serve_accepts serve_start rs = Inl e \<longrightarrow> e = Unavailable" by blast
qed

theorem listener_survives_peers_witness:
  "(\<exists>s. serve_accepts serve_start [Some ConnectionReset, None] = Inr s) \<and>
   serve_accepts serve_start (replicate 64 (Some OtherKind)) = Inl Unavailable \<and>
   \<not> (\<forall>n\<le>64. n \<noteq> 0 \<longrightarrow> \<not> fatal (take n (replicate 64 (Some OtherKind))))"
proof -
  have a: "map_sum id sv_failures (serve_accepts serve_start [Some ConnectionReset, None]) = Inr 0" by code_simp
  have b: "map_sum id sv_failures (serve_accepts serve_start (replicate 64 (Some OtherKind))) = Inl Unavailable" by code_simp
  from a have a1: "\<exists>s. serve_accepts serve_start [Some ConnectionReset, None] = Inr s"
    by (cases "serve_accepts serve_start [Some ConnectionReset, None]") simp_all
  from b have b1: "serve_accepts serve_start (replicate 64 (Some OtherKind)) = Inl Unavailable"
    by (cases "serve_accepts serve_start (replicate 64 (Some OtherKind))") simp_all
  have "\<not> (\<exists>s. serve_accepts serve_start (replicate 64 (Some OtherKind)) = Inr s)" by (simp only: b1) simp
  with listener_survives_peers [of "replicate 64 (Some OtherKind)" Unavailable] a1 b1 show ?thesis by simp
qed

section \<open>Reading one frame\<close>

text \<open>
  What one read of at most 1024 bytes returns: the bytes (with the outcome of the allocation that
  stores them) or an I/O error. When the outcomes are used up nothing arrives before the deadline.
\<close>

datatype ReadOutcome = Got bool bytes | ReadError

fun read_frame_loop :: "FrameBuffer \<Rightarrow> ReadOutcome list \<Rightarrow> (Error + bytes) \<times> ReadOutcome list" where
  "read_frame_loop fb [] = (Inl Timeout, [])"
| "read_frame_loop fb (ReadError # rs) = (Inl Unavailable, rs)"
| "read_frame_loop fb (Got reserve chunk # rs) =
     (if chunk = [] then (Inl InvalidRequest, rs)
      else case frame_buffer_push reserve fb chunk of
             (Inl e, _) \<Rightarrow> (Inl e, rs)
           | (Inr True, fb1) \<Rightarrow> (frame_buffer_finish fb1, rs)
           | (Inr False, fb1) \<Rightarrow> read_frame_loop fb1 rs)"

definition read_frame :: "nat \<Rightarrow> ReadOutcome list \<Rightarrow> (Error + bytes) \<times> ReadOutcome list" where
  "read_frame mx rs =
     (case frame_buffer_new mx of Inl e \<Rightarrow> (Inl e, rs) | Inr fb \<Rightarrow> read_frame_loop fb rs)"

lemma got_prefix_Cons:
  "(\<exists>cs. Got r c # rs = map (Got True) cs @ rest \<and> cs \<noteq> [] \<and> P cs) \<longleftrightarrow>
     r \<and> (\<exists>cs. rs = map (Got True) cs @ rest \<and> P (c # cs))"
  by (auto simp: Cons_eq_append_conv map_eq_Cons_conv Cons_eq_map_conv)

lemma read_frame_loop_ok:
  assumes "fb_max fb \<le> FRAME_BYTES" "\<not> fb_finished fb" "\<not> fb_failed fb" "newline \<notin> set (fb_bytes fb)"
  shows "read_frame_loop fb rs = (Inr f, rest) \<longleftrightarrow>
    (\<exists>cs. rs = map (Got True) cs @ rest \<and> cs \<noteq> [] \<and> [] \<notin> set cs \<and> f = fb_bytes fb @ concat cs \<and>
       one_line f \<and> length f \<le> fb_max fb)"
  using assms
proof (induction fb rs rule: read_frame_loop.induct)
  case (3 fb reserve chunk rs)
  note push = push_open [OF "3.prems"(2,3,1), of reserve chunk]
  let ?fb = "fb\<lparr>fb_bytes := fb_bytes fb @ chunk\<rparr>"
  consider (refused) "chunk = [] \<or> fb_max fb < length (fb_bytes fb @ chunk) \<or> \<not> reserve"
    | (more) "chunk \<noteq> []" "length (fb_bytes fb @ chunk) \<le> fb_max fb" "reserve" "newline \<notin> set chunk"
    | (line) "chunk \<noteq> []" "length (fb_bytes fb @ chunk) \<le> fb_max fb" "reserve" "newline \<in> set chunk"
    by linarith
  then show ?case
  proof cases
    case refused
    with push show ?thesis unfolding got_prefix_Cons by (auto simp: Let_def)
  next
    case more
    then have st: "frame_buffer_push reserve fb chunk = (Inr False, ?fb)" using push by (simp add: Let_def)
    then have "read_frame_loop fb (Got reserve chunk # rs) = read_frame_loop ?fb rs" using more by simp
    moreover have "read_frame_loop ?fb rs = (Inr f, rest) \<longleftrightarrow>
        (\<exists>cs. rs = map (Got True) cs @ rest \<and> cs \<noteq> [] \<and> [] \<notin> set cs \<and> f = (fb_bytes fb @ chunk) @ concat cs \<and>
          one_line f \<and> length f \<le> fb_max fb)"
      using "3.IH" [OF more(1) st [symmetric]] "3.prems" more(4) by simp
    moreover have "\<not> one_line (fb_bytes fb @ chunk)" using "3.prems"(4) more(4) one_line_has_newline by fastforce
    ultimately show ?thesis using more(1,3) unfolding got_prefix_Cons by auto
  next
    case line
    have one: "one_line (fb_bytes fb @ chunk @ ys) \<longleftrightarrow> one_line chunk \<and> ys = []" for ys
      using one_line_append [OF "3.prems"(4)] one_line_concat [OF line(4)] by simp
    have no: "[] \<notin> set cs \<and> concat cs = [] \<longleftrightarrow> cs = []" for cs :: "bytes list"
      by (cases cs) auto
    have rhs: "(\<exists>cs. rs = map (Got True) cs @ rest \<and> [] \<notin> set (chunk # cs) \<and> f = fb_bytes fb @ concat (chunk # cs) \<and>
        one_line f \<and> length f \<le> fb_max fb) \<longleftrightarrow> rs = rest \<and> f = fb_bytes fb @ chunk \<and> one_line chunk"
      (is "(\<exists>cs. ?P cs) \<longleftrightarrow> ?Q")
    proof
      assume "\<exists>cs. ?P cs"
      then obtain cs where "?P cs" by blast
      then show ?Q using no [of cs] one [of "concat cs"] by auto
    next
      assume ?Q
      with line one [of "[]"] have "?P []" by simp
      then show "\<exists>cs. ?P cs" by (rule exI)
    qed
    have "read_frame_loop fb (Got reserve chunk # rs) =
        (if one_line chunk then Inr (fb_bytes fb @ chunk) else Inl InvalidRequest, rs)"
      using line push "3.prems" by (simp add: Let_def frame_buffer_finish_def)
    then show ?thesis using line(3) unfolding got_prefix_Cons rhs by auto
  qed
qed (auto simp: Cons_eq_append_conv Cons_eq_map_conv)

lemma frame_is_read:
  assumes "read_frame mx rs = (Inr f, rest)" "0 < mx" "mx \<le> FRAME_BYTES"
  shows "\<exists>cs. rs = map (Got True) cs @ rest \<and> f = concat cs"
  using assms read_frame_loop_ok [of "\<lparr>fb_bytes = [], fb_max = mx, fb_finished = False, fb_failed = False\<rparr>" rs f rest]
  by (auto simp: read_frame_def frame_buffer_new_def)

text \<open>
  A frame is read exactly when the peer's next reads are non-empty pieces whose concatenation is
  one line within the limit; the frame is that concatenation, and what follows is left for the next
  read. A peer that closes early, fails, stalls or sends bytes behind the newline yields no frame.
\<close>

theorem read_frame_exact:
  assumes "0 < mx" "mx \<le> FRAME_BYTES"
  shows "read_frame mx rs = (Inr f, rest) \<longleftrightarrow>
    (\<exists>cs. rs = map (Got True) cs @ rest \<and> cs \<noteq> [] \<and> [] \<notin> set cs \<and> f = concat cs \<and> one_line f \<and> length f \<le> mx)"
  using assms read_frame_loop_ok [of "\<lparr>fb_bytes = [], fb_max = mx, fb_finished = False, fb_failed = False\<rparr>" rs f rest]
  by (simp add: read_frame_def frame_buffer_new_def)

theorem read_frame_exact_witness:
  "read_frame 4096 [Got True ''{'', Got True (''}'' @ [newline]), Got True ''x''] = (Inr (''{}'' @ [newline]), [Got True ''x''])"
proof -
  have m: "(0::nat) < 4096" "4096 \<le> FRAME_BYTES" by (simp_all add: FRAME_BYTES_def)
  show ?thesis unfolding read_frame_exact [OF m]
    by (rule exI [of _ "[''{'', ''}'' @ [newline]]"]) (simp add: one_line_def newline_def)
qed

lemma framed_one_line: "framed_line dec mx out \<Longrightarrow> one_line out \<and> length out \<le> mx \<and> 0 < mx"
  by (auto simp: framed_line_def one_line_def)

text \<open>A released message, cut anywhere, is read whole, and nothing behind it is touched.\<close>

lemma framed_is_read:
  assumes "framed_line dec mx (concat cs)" "[] \<notin> set cs" "mx \<le> FRAME_BYTES"
  shows "read_frame mx (map (Got True) cs @ rest) = (Inr (concat cs), rest)"
proof -
  note f = framed_one_line [OF assms(1)]
  then have "cs \<noteq> []" by (auto simp: one_line_def)
  with f assms(2,3) show ?thesis by (subst read_frame_exact) auto
qed

text \<open>
  C23: what an encoder releases reaches the other side. Let a message be released by one of the five encoders, and let serde
  read back what it wrote for this message. However the bytes are cut into pieces on the way, the read loop with the cap
  of that kind takes exactly this message and leaves what follows for the next read; the decoder then gives the very
  message that was encoded. A failure is accepted only for the request it names, and a success only ever
  carries the id, the operation and the binding of the call that it was encoded for.
\<close>

theorem released_messages_arrive:
  assumes "concat cs = out" "[] \<notin> set cs"
  shows "(encode_prepare sd p = Inr out \<and> de_prepare sd (concat (ser_prepare sd p)) = Some p \<longrightarrow>
      read_frame PREPARE_BYTES (map (Got True) cs @ rest) = (Inr out, rest) \<and> decode_prepare sd out = Inr p) \<and>
    (encode_prepared sd d = Inr out \<and> de_prepared sd (concat (ser_prepared sd d)) = Some d \<longrightarrow>
      read_frame PREPARE_BYTES (map (Got True) cs @ rest) = (Inr out, rest) \<and> decode_prepared sd out = Inr d) \<and>
    (encode_failure sd f = Inr out \<and> de_failure sd (concat (ser_failure sd f)) = Some f \<longrightarrow>
      read_frame PREPARE_BYTES (map (Got True) cs @ rest) = (Inr out, rest) \<and>
      (\<forall>i. decode_failure sd out i = (if fl_id f = i then Inr f else Inl InvalidRequest))) \<and>
    (encode_call sd c = Inr out \<and> a = concat (ser_args sd (ca_args c)) \<and> de_args sd (args_operation (ca_args c)) a = Some (ca_args c) \<and>
       de_call sd (concat (ser_call sd (raw_call c a))) = Some (raw_call c a) \<longrightarrow>
      read_frame FRAME_BYTES (map (Got True) cs @ rest) = (Inr out, rest) \<and> decode_call sd out = Inr c) \<and>
    (encode_success sd s c = Inr out \<and> b = concat (ser_result sd (su_result s)) \<and> decode_result sd b = Inr (su_result s) \<and>
       de_success sd (concat (ser_success sd (raw_success s b))) = Some (raw_success s b) \<longrightarrow>
      read_frame FRAME_BYTES (map (Got True) cs @ rest) = (Inr out, rest) \<and> decode_success sd out c = Inr s \<and>
      su_id s = ca_id c \<and> su_operation s = args_operation (ca_args c) \<and> su_binding s = ca_binding c)"
proof -
  let ?read = "\<lambda>mx. read_frame mx (map (Got True) cs @ rest) = (Inr out, rest)"
  have small: "PREPARE_BYTES \<le> FRAME_BYTES" by (simp add: PREPARE_BYTES_def FRAME_BYTES_def)
  have read: "read_frame mx (map (Got True) cs @ rest) = (Inr out, rest)"
    if "framed_line (key_dec (sd_codecs sd)) mx out" "mx = PREPARE_BYTES \<or> mx = FRAME_BYTES" for mx
    using framed_is_read [of "key_dec (sd_codecs sd)" mx cs rest] that assms small by auto
  have p: "?read PREPARE_BYTES \<and> decode_prepare sd out = Inr p"
    if "encode_prepare sd p = Inr out" "de_prepare sd (concat (ser_prepare sd p)) = Some p"
    using prepare_decoded [OF that] read [OF prepare_codec.enc_framed [OF that(1)]] by simp
  have d: "?read PREPARE_BYTES \<and> decode_prepared sd out = Inr d"
    if "encode_prepared sd d = Inr out" "de_prepared sd (concat (ser_prepared sd d)) = Some d"
    using prepared_decoded [OF that] read [OF prepared_codec.enc_framed [OF that(1)]] by simp
  have f: "?read PREPARE_BYTES \<and> (\<forall>i. decode_failure sd out i = (if fl_id f = i then Inr f else Inl InvalidRequest))"
    if "encode_failure sd f = Inr out" "de_failure sd (concat (ser_failure sd f)) = Some f"
    using failure_decoded [OF that] read [OF failure_framed [OF that(1)]] by simp
  have c: "?read FRAME_BYTES \<and> decode_call sd out = Inr c"
    if "encode_call sd c = Inr out" "a = concat (ser_args sd (ca_args c))" "de_args sd (args_operation (ca_args c)) a = Some (ca_args c)"
      "de_call sd (concat (ser_call sd (raw_call c a))) = Some (raw_call c a)"
    using call_round_trip [OF that(1,2,4,3)] read [OF call_codec.enc_framed [OF that(1)]] by simp
  have s: "?read FRAME_BYTES \<and> decode_success sd out c = Inr s \<and>
      su_id s = ca_id c \<and> su_operation s = args_operation (ca_args c) \<and> su_binding s = ca_binding c"
    if "encode_success sd s c = Inr out" "b = concat (ser_result sd (su_result s))" "decode_result sd b = Inr (su_result s)"
      "de_success sd (concat (ser_success sd (raw_success s b))) = Some (raw_success s b)"
    using success_decoded [OF that(1,2,4,3)] read [OF success_codec.enc_framed [OF that(1)]] by simp
  show ?thesis by (intro conjI impI; elim conjE; (drule (1) p | drule (1) d | drule (1) f | drule (3) c | drule (3) s); simp)
qed

text \<open>A serde that writes and reads the id of a failure.\<close>

definition demo_quote :: "bytes \<Rightarrow> bytes" where
  "demo_quote s = [CHR 0x22] @ s @ [CHR 0x22]"

definition demo_wire :: Serde where
  "demo_wire = demo_serde\<lparr>sd_codecs := (sd_codecs demo_serde)\<lparr>key_dec := Some\<rparr>,
     ser_failure := (\<lambda>f. [''{'', demo_quote ''id'', '':'', demo_quote (fl_id f), ''}'']),
     de_failure := (\<lambda>b. Some \<lparr>fl_id = take 26 (drop 7 b), fl_code = Unauthorized\<rparr>)\<rparr>"

definition demo_failure :: Failure where
  "demo_failure = \<lparr>fl_id = demo_id, fl_code = Unauthorized\<rparr>"

definition demo_failure_bytes :: bytes where
  "demo_failure_bytes = ''{'' @ demo_quote ''id'' @ '':'' @ demo_quote demo_id @ ''}'' @ [newline]"

text \<open>A failure in two pieces and a call in three, each with a byte behind it.\<close>

theorem released_messages_arrive_witness:
  "encode_failure demo_wire demo_failure = Inr demo_failure_bytes \<and>
   read_frame PREPARE_BYTES [Got True (take 5 demo_failure_bytes), Got True (drop 5 demo_failure_bytes), Got True ''x''] = (Inr demo_failure_bytes, [Got True ''x'']) \<and>
   decode_failure demo_wire demo_failure_bytes demo_id = Inr demo_failure \<and>
   encode_call demo_serde demo_call = Inr (''{}'' @ [newline]) \<and>
   read_frame FRAME_BYTES [Got True ''{'', Got True ''}'', Got True [newline], Got True ''x''] = (Inr (''{}'' @ [newline]), [Got True ''x'']) \<and>
   decode_call demo_serde (''{}'' @ [newline]) = Inr demo_call"
proof -
  let ?cs = "[take 5 demo_failure_bytes, drop 5 demo_failure_bytes]" and ?ds = "[''{'', ''}'', [newline]]"
  have e: "encode_failure demo_wire demo_failure = Inr demo_failure_bytes" by code_simp
  have r: "de_failure demo_wire (concat (ser_failure demo_wire demo_failure)) = Some demo_failure" by code_simp
  have c: "concat ?cs = demo_failure_bytes" by simp
  have n: "[] \<notin> set ?cs" by code_simp
  have i: "fl_id demo_failure = demo_id" by (simp add: demo_failure_def)
  have ec: "encode_call demo_serde demo_call = Inr (''{}'' @ [newline])" by code_simp
  have rc: "de_args demo_serde (args_operation (ca_args demo_call)) ''{}'' = Some (ca_args demo_call)"
    "de_call demo_serde (concat (ser_call demo_serde (raw_call demo_call ''{}''))) = Some (raw_call demo_call ''{}'')"
    "''{}'' = concat (ser_args demo_serde (ca_args demo_call))" by code_simp+
  have d: "concat ?ds = ''{}'' @ [newline]" "[] \<notin> set ?ds" by simp_all
  from released_messages_arrive [OF c n, of demo_wire _ "[Got True ''x'']"] e r i
  have "read_frame PREPARE_BYTES (map (Got True) ?cs @ [Got True ''x'']) = (Inr demo_failure_bytes, [Got True ''x'']) \<and>
    decode_failure demo_wire demo_failure_bytes demo_id = Inr demo_failure" by auto
  moreover from released_messages_arrive [OF d, of demo_serde _ "[Got True ''x'']"] ec rc
  have "read_frame FRAME_BYTES (map (Got True) ?ds @ [Got True ''x'']) = (Inr (''{}'' @ [newline]), [Got True ''x'']) \<and>
    decode_call demo_serde (''{}'' @ [newline]) = Inr demo_call" by blast
  ultimately show ?thesis using e ec by simp
qed

section \<open>One connection\<close>

text \<open>What is fixed for the life of the server, and the environment of one connection.\<close>

record Server =
  sr_serde :: Serde
  sr_sha :: "bytes \<Rightarrow> bytes"
  sr_de_authority :: "bytes \<Rightarrow> Authority option"
  sr_fp_principal :: "Principal \<Rightarrow> bytes"
  sr_fp_resource :: "Resource \<Rightarrow> bytes"
  sr_euid :: nat
  sr_enrolled :: "Identity list"

text \<open>
  The handshake outcome (\<^const>\<open>None\<close> when its deadline passes), the reads, the authority file, the clock
  and the transport as they are at the successive moments the handler looks at them. A file view is
  \<^const>\<open>None\<close> when the blocking worker fails.
\<close>

record Conn =
  cn_handshake :: "bool option"
  cn_reads :: "ReadOutcome list"
  cn_file :: "nat \<Rightarrow> FileView option"
  cn_now :: "nat \<Rightarrow> nat option"
  cn_write :: "nat \<Rightarrow> Error + unit"
  cn_shutdown :: "Error + unit"

definition bounded_file :: "Server \<Rightarrow> FileView option \<Rightarrow> Error + bytes" where
  "bounded_file sr fv = and_then (ok_or InternalFailure fv) (private_read (sr_euid sr))"

definition authority_load :: "Server \<Rightarrow> FileView option \<Rightarrow> Error + Authority" where
  "authority_load sr fv =
     and_then (bounded_file sr fv) (\<lambda>b.
     and_then (case authority_parse (key_dec (sd_codecs (sr_serde sr))) (sr_de_authority sr) b of
                 Inl _ \<Rightarrow> Inl Unauthorized | Inr au \<Rightarrow> Inr au) (\<lambda>au.
     and_then (history_validate (sr_fp_principal sr) (sr_fp_resource sr) (sr_enrolled sr) au) (\<lambda>_. Inr au)))"

definition now_secs :: "nat option \<Rightarrow> Error + nat" where
  "now_secs t = ok_or Unavailable t"

definition revalidated :: "Server \<Rightarrow> Conn \<Rightarrow> nat \<Rightarrow> Pinned \<Rightarrow> Error + unit" where
  "revalidated sr cn k pin =
     and_then (authority_load sr (cn_file cn k)) (\<lambda>au.
     and_then (now_secs (cn_now cn k)) (\<lambda>t. auth_revalidate au pin t))"

text \<open>The reply body is derived from the pinned operation; only readiness is implemented.\<close>

definition reply_body :: "Operation \<Rightarrow> Error + ResultBody" where
  "reply_body op = (if op = OpReadiness then Inr ReadinessBody else Inl UnsupportedOperation)"

definition serve_call :: "Server \<Rightarrow> Conn \<Rightarrow> ReadOutcome list \<Rightarrow> Pinned \<Rightarrow> bytes \<Rightarrow> Error + bytes" where
  "serve_call sr cn reads pin i =
     and_then (fst (read_frame FRAME_BYTES reads)) (\<lambda>b.
     and_then (decode_call (sr_serde sr) b) (\<lambda>call.
     if ca_id call \<noteq> i \<or> args_operation (ca_args call) \<noteq> pin_operation pin then Inl InvalidRequest
     else if ca_binding call \<noteq> pin_binding pin then Inl BindingChanged
     else and_then (revalidated sr cn 1 pin) (\<lambda>_.
          and_then (reply_body (pin_operation pin)) (\<lambda>body.
          and_then (encode_success (sr_serde sr)
            \<lparr>su_id = ca_id call, su_operation = pin_operation pin, su_binding = pin_binding pin, su_result = body\<rparr> call) (\<lambda>out.
          and_then (revalidated sr cn 2 pin) (\<lambda>_. Inr out))))))"

text \<open>\<^verbatim>\<open>finish\<close>: the frame is handed to the transport, then the stream is shut down.\<close>

definition finish_frame :: "Conn \<Rightarrow> nat \<Rightarrow> Error + unit" where
  "finish_frame cn k = and_then (cn_write cn k) (\<lambda>_. cn_shutdown cn)"

text \<open>Handshake, first frame and authorisation: the request, what it is pinned to and the remaining reads.\<close>

definition conn_pin :: "Server \<Rightarrow> Conn \<Rightarrow> Error + Prepare \<times> Pinned \<times> ReadOutcome list" where
  "conn_pin sr cn =
     and_then (case cn_handshake cn of None \<Rightarrow> Inl Timeout | Some ok \<Rightarrow> if ok then Inr () else Inl Unauthorized) (\<lambda>_.
     let (r, rest) = read_frame PREPARE_BYTES (cn_reads cn) in
     and_then r (\<lambda>b.
     and_then (decode_prepare (sr_serde sr) b) (\<lambda>p.
     and_then (authority_load sr (cn_file cn 0)) (\<lambda>au.
     and_then (now_secs (cn_now cn 0)) (\<lambda>t.
     and_then (auth_prepare (sr_sha sr) au p t) (\<lambda>pin. Inr (p, pin, rest)))))))"

text \<open>The result, the frames handed to the transport, the permit held and the principal counts.\<close>

type_synonym conn_result = "(Error + unit) \<times> bytes list \<times> bytes option \<times> (bytes \<Rightarrow> nat option)"

definition connection :: "Server \<Rightarrow> Conn \<Rightarrow> (bytes \<Rightarrow> nat option) \<Rightarrow> conn_result" where
  "connection sr cn counts =
     (case conn_pin sr cn of
        Inl e \<Rightarrow> (Inl e, [], None, counts)
      | Inr (p, pin, rest) \<Rightarrow>
          (case (if pin_operation pin = OpReadiness then permit_acquire counts (db_principal (pin_binding pin))
                 else Inl UnsupportedOperation) of
             Inl code \<Rightarrow>
               (case encode_failure (sr_serde sr) \<lparr>fl_id = pr_id p, fl_code = code\<rparr> of
                  Inl e \<Rightarrow> (Inl e, [], None, counts)
                | Inr out \<Rightarrow> (finish_frame cn 0, [out], None, counts))
           | Inr counts1 \<Rightarrow>
               (let held = Some (db_principal (pin_binding pin)) in
                case encode_prepared (sr_serde sr)
                       \<lparr>pd_id = pr_id p, pd_operation = pr_operation p, pd_binding = pin_binding pin\<rparr> of
                  Inl e \<Rightarrow> (Inl e, [], held, counts1)
                | Inr pb \<Rightarrow>
                    (case cn_write cn 0 of
                       Inl e \<Rightarrow> (Inl e, [pb], held, counts1)
                     | Inr _ \<Rightarrow>
                         (case (case serve_call sr cn rest pin (pr_id p) of
                                  Inr out \<Rightarrow> Inr out
                                | Inl code \<Rightarrow> encode_failure (sr_serde sr) \<lparr>fl_id = pr_id p, fl_code = code\<rparr>) of
                            Inl e \<Rightarrow> (Inl e, [pb], held, counts1)
                          | Inr out \<Rightarrow> (finish_frame cn 1, [pb, out], held, counts1))))))"

section \<open>What a connection releases\<close>

definition live_grant :: "Authority \<Rightarrow> Pinned \<Rightarrow> nat \<Rightarrow> bool" where
  "live_grant au pin t \<longleftrightarrow>
     pin_principal pin \<in> set (au_principals au) \<and> pin_resource pin \<in> set (au_resources au) \<and>
     (\<exists>g\<in>set (au_grants au). gr_principal g = pn_id (pin_principal pin) \<and> gr_resource g = rn_id (pin_resource pin) \<and>
        gr_operation g = pin_operation pin \<and> gr_enabled g \<and> t < gr_expires_unix g)"

lemma auth_revalidate_iff: "auth_revalidate au pin t = Inr () \<longleftrightarrow> live_grant au pin t"
  by (auto simp: auth_revalidate_def live_grant_def grant_check_iff)

lemma authority_load_ok:
  assumes "authority_load sr fv = Inr au"
  shows "authority_wf au \<and> identities (sr_fp_principal sr) (sr_fp_resource sr) au = sr_enrolled sr"
proof -
  have lift: "(case m of Inl _ \<Rightarrow> Inl Unauthorized | Inr a \<Rightarrow> Inr a) = Inr au \<longleftrightarrow> m = Inr au" for m :: "Error + Authority"
    by (cases m) simp_all
  from assms obtain b where "authority_parse (key_dec (sd_codecs (sr_serde sr))) (sr_de_authority sr) b = Inr au"
      "history_validate (sr_fp_principal sr) (sr_fp_resource sr) (sr_enrolled sr) au = Inr ()"
    by (auto simp: authority_load_def and_then_Inr_iff lift)
  then show ?thesis by (auto dest: authority_parse_wf simp: history_validate_def split: if_splits)
qed

lemma revalidated_ok:
  "revalidated sr cn k pin = Inr u \<longleftrightarrow>
     (\<exists>au t. authority_load sr (cn_file cn k) = Inr au \<and> cn_now cn k = Some t \<and> live_grant au pin t)"
  by (auto simp: revalidated_def and_then_Inr_iff now_secs_def ok_or_Inr_iff auth_revalidate_iff)

lemma serve_call_ok:
  assumes "serve_call sr cn reads pin i = Inr out"
  obtains call b where "fst (read_frame FRAME_BYTES reads) = Inr b" "decode_call (sr_serde sr) b = Inr call" "ca_id call = i"
    "args_operation (ca_args call) = pin_operation pin" "ca_binding call = pin_binding pin"
    "revalidated sr cn 1 pin = Inr ()" "pin_operation pin = OpReadiness"
    "encode_success (sr_serde sr) \<lparr>su_id = ca_id call, su_operation = pin_operation pin,
       su_binding = pin_binding pin, su_result = ReadinessBody\<rparr> call = Inr out"
    "revalidated sr cn 2 pin = Inr ()"
  using assms by (auto simp: serve_call_def and_then_Inr_iff reply_body_def split: if_splits)

text \<open>
  C9: a call is answered with bytes only when the next frame of the peer, whose bytes were read off the
  connection, decodes to a call with the prepared id, operation and binding, and the authority file, loaded
  before and again after the reply was encoded, both times has the enrolled identities and a live grant for
  the pinned principal, resource and operation at that moment. A client in the connection grammar that sent
  this very call accepts the bytes as its success.
\<close>

theorem call_released_under_live_grant:
  assumes "serve_call sr cn reads pin i = Inr out"
  shows "\<exists>b rest call s. read_frame FRAME_BYTES reads = (Inr b, rest) \<and>
    (\<exists>cs. reads = map (Got True) cs @ rest \<and> b = concat cs) \<and> decode_call (sr_serde sr) b = Inr call \<and>
    ca_id call = i \<and> args_operation (ca_args call) = pin_operation pin \<and> ca_binding call = pin_binding pin \<and> pin_operation pin = OpReadiness \<and>
    (\<forall>k\<in>{1, 2}. \<exists>au t. authority_load sr (cn_file cn k) = Inr au \<and> cn_now cn k = Some t \<and> live_grant au pin t \<and>
       identities (sr_fp_principal sr) (sr_fp_resource sr) au = sr_enrolled sr) \<and>
    seq_success (sr_serde sr) (Called call) out = (Inr s, Closed) \<and>
    su_id s = i \<and> su_operation s = pin_operation pin \<and> su_binding s = pin_binding pin"
  using assms
proof (rule serve_call_ok)
  fix call :: Call and b
  assume f: "fst (read_frame FRAME_BYTES reads) = Inr b" "decode_call (sr_serde sr) b = Inr call"
  assume c: "ca_id call = i" "args_operation (ca_args call) = pin_operation pin" "ca_binding call = pin_binding pin"
    "pin_operation pin = OpReadiness" "revalidated sr cn 1 pin = Inr ()" "revalidated sr cn 2 pin = Inr ()"
  assume "encode_success (sr_serde sr) \<lparr>su_id = ca_id call, su_operation = pin_operation pin,
       su_binding = pin_binding pin, su_result = ReadinessBody\<rparr> call = Inr out"
  then obtain s where s: "decode_success (sr_serde sr) out call = Inr s"
    by (auto simp: encode_success_def Let_def and_then_Inr_iff)
  have g: "\<exists>au t. authority_load sr (cn_file cn k) = Inr au \<and> cn_now cn k = Some t \<and> live_grant au pin t \<and>
       identities (sr_fp_principal sr) (sr_fp_resource sr) au = sr_enrolled sr" if "revalidated sr cn k pin = Inr ()" for k
    using that authority_load_ok unfolding revalidated_ok by blast
  obtain rest where r: "read_frame FRAME_BYTES reads = (Inr b, rest)" using f(1) by (metis prod.collapse)
  then have "\<exists>cs. reads = map (Got True) cs @ rest \<and> b = concat cs"
    using frame_is_read [of FRAME_BYTES reads b rest] by (simp add: FRAME_BYTES_def)
  moreover have "seq_success (sr_serde sr) (Called call) out = (Inr s, Closed)" using s by (simp add: seq_success_def)
  ultimately show ?thesis using r f(2) c g decode_success_ok [OF s] by (metis insertE empty_iff)
qed

definition demo_file :: "bytes \<Rightarrow> FileView" where
  "demo_file b = (let file = \<lparr>m_is_dir = False, m_is_file = True, m_mode = 384, m_uid = 7, m_ino = 2, m_dev = 1\<rparr> in
     \<lparr>fv_parent = Some \<lparr>m_is_dir = True, m_is_file = False, m_mode = 448, m_uid = 7, m_ino = 1, m_dev = 1\<rparr>,
      fv_link = Some file, fv_opens = True, fv_opened = Some file, fv_reads = [Some b, Some []]\<rparr>)"

definition demo_server :: Server where
  "demo_server = \<lparr>sr_serde = demo_serde, sr_sha = id, sr_de_authority = (\<lambda>_. Some demo_authority),
     sr_fp_principal = pn_sha256, sr_fp_resource = (\<lambda>_. replicate 64 (CHR ''0'')), sr_euid = 7,
     sr_enrolled = identities pn_sha256 (\<lambda>_. replicate 64 (CHR ''0'')) demo_authority\<rparr>"

definition demo_conn :: Conn where
  "demo_conn = \<lparr>cn_handshake = Some True,
     cn_reads = [Got True (''{}'' @ [newline]), Got True ''{'', Got True (''}'' @ [newline])],
     cn_file = (\<lambda>_. Some (demo_file ''{}'')), cn_now = (\<lambda>k. Some (90 + k)), cn_write = (\<lambda>_. Inr ()), cn_shutdown = Inr ()\<rparr>"

definition demo_pin :: Pinned where
  "demo_pin = pinned_as OpReadiness (hd (au_principals demo_authority)) (hd (au_resources demo_authority))"

theorem call_released_under_live_grant_witness:
  "\<exists>call. decode_call demo_serde (''{}'' @ [newline]) = Inr call \<and> ca_id call = demo_id \<and> ca_binding call = pin_binding demo_pin \<and>
    (\<exists>au t. authority_load demo_server (cn_file demo_conn 2) = Inr au \<and> cn_now demo_conn 2 = Some t \<and> live_grant au demo_pin t)"
proof -
  let ?reads = "[Got True (''{}'' @ [newline])]"
  have r: "fst (read_frame FRAME_BYTES ?reads) = Inr (''{}'' @ [newline])" by code_simp
  have d: "sr_serde demo_server = demo_serde" by (simp add: demo_server_def)
  have "serve_call demo_server demo_conn ?reads demo_pin demo_id = Inr (''{}'' @ [newline])" by code_simp
  from call_released_under_live_grant [OF this] obtain b rest call where
    "read_frame FRAME_BYTES ?reads = (Inr b, rest)" "decode_call demo_serde b = Inr call" "ca_id call = demo_id"
    "ca_binding call = pin_binding demo_pin"
    "\<exists>au t. authority_load demo_server (cn_file demo_conn 2) = Inr au \<and> cn_now demo_conn 2 = Some t \<and> live_grant au demo_pin t"
    unfolding d by blast
  with r show ?thesis by auto
qed

text \<open>The first frame on the connection, decoded, is authorised for a principal and a resource at the start of the call.\<close>

definition presented :: "Server \<Rightarrow> Conn \<Rightarrow> Prepare \<Rightarrow> ReadOutcome list \<Rightarrow> bool" where
  "presented sr cn p rest \<longleftrightarrow>
     (\<exists>b cs. read_frame PREPARE_BYTES (cn_reads cn) = (Inr b, rest) \<and> cn_reads cn = map (Got True) cs @ rest \<and> b = concat cs \<and>
        decode_prepare (sr_serde sr) b = Inr p)"

lemma conn_pin_ok:
  assumes "conn_pin sr cn = Inr (p, pin, rest)"
  obtains au t pn rn where "cn_handshake cn = Some True" "presented sr cn p rest" "authority_load sr (cn_file cn 0) = Inr au" "cn_now cn 0 = Some t"
    "authorised (sr_sha sr) au p t pn rn" "pin = pinned_as (pr_operation p) pn rn"
proof -
  obtain r rest1 where r: "read_frame PREPARE_BYTES (cn_reads cn) = (r, rest1)" by (cases "read_frame PREPARE_BYTES (cn_reads cn)")
  from assms obtain b au t where a: "cn_handshake cn = Some True" "authority_load sr (cn_file cn 0) = Inr au" "cn_now cn 0 = Some t"
      "auth_prepare (sr_sha sr) au p t = Inr pin" and b: "r = Inr b" "decode_prepare (sr_serde sr) b = Inr p" "rest1 = rest"
    by (auto simp: conn_pin_def r and_then_Inr_iff now_secs_def ok_or_Inr_iff split: option.splits if_splits)
  have "presented sr cn p rest"
    using frame_is_read [of PREPARE_BYTES "cn_reads cn" b rest] r b by (auto simp: presented_def PREPARE_BYTES_def FRAME_BYTES_def)
  moreover have "authority_wf au" using authority_load_ok [OF a(2)] by blast
  ultimately show thesis using a auth_prepare_iff that by blast
qed

text \<open>
  C28: a peer gets bytes only after a completed handshake and an authorised prepare: the first frame read off
  its connection decodes to a prepare whose own credential a live grant of the authority joins to the resource it
  names. The first frame sent is then the admission of this prepare with the binding of that grant, or the one
  failure with its id. There are never more than two frames, a second one only to a peer that holds an admission,
  and the principal counts are left as the permit it holds requires.
\<close>

theorem connection_releases_nothing_unauthorised:
  assumes "connection sr cn counts = (r, fs, held, counts1)"
  shows "(fs \<noteq> [] \<longrightarrow> cn_handshake cn = Some True \<and>
       (\<exists>p rest au t pn rn. presented sr cn p rest \<and> authority_load sr (cn_file cn 0) = Inr au \<and> cn_now cn 0 = Some t \<and>
          authorised (sr_sha sr) au p t pn rn \<and>
          (if held = None then \<exists>code. map Inr fs = [encode_failure (sr_serde sr) \<lparr>fl_id = pr_id p, fl_code = code\<rparr>]
           else held = Some (pn_id pn) \<and> Inr (hd fs) = encode_prepared (sr_serde sr)
             \<lparr>pd_id = pr_id p, pd_operation = pr_operation p, pd_binding = pin_binding (pinned_as (pr_operation p) pn rn)\<rparr>))) \<and>
    length fs \<le> 2 \<and> (length fs = 2 \<longrightarrow> held \<noteq> None) \<and>
    (case held of None \<Rightarrow> counts1 = counts | Some i \<Rightarrow> permit_acquire counts i = Inr counts1)"
proof (cases "conn_pin sr cn")
  case (Inl e)
  with assms show ?thesis by (auto simp: connection_def)
next
  case (Inr ppr)
  obtain p pin rest where ppr: "ppr = (p, pin, rest)" by (cases ppr)
  from conn_pin_ok [OF Inr [unfolded ppr]] obtain au t pn rn where a: "cn_handshake cn = Some True" "presented sr cn p rest"
      "authority_load sr (cn_file cn 0) = Inr au" "cn_now cn 0 = Some t"
      "authorised (sr_sha sr) au p t pn rn" and pin: "pin = pinned_as (pr_operation p) pn rn" .
  have "length fs \<le> 2 \<and> (length fs = 2 \<longrightarrow> held \<noteq> None) \<and>
      (fs \<noteq> [] \<longrightarrow> (if held = None then \<exists>code. map Inr fs = [encode_failure (sr_serde sr) \<lparr>fl_id = pr_id p, fl_code = code\<rparr>]
         else held = Some (pn_id pn) \<and> Inr (hd fs) = encode_prepared (sr_serde sr)
           \<lparr>pd_id = pr_id p, pd_operation = pr_operation p, pd_binding = pin_binding pin\<rparr>)) \<and>
      (case held of None \<Rightarrow> counts1 = counts | Some i \<Rightarrow> permit_acquire counts i = Inr counts1)"
    using assms Inr pin
    by (auto simp: connection_def ppr Let_def pinned_as_def split: sum.splits if_splits) (metis (no_types))+
  with a pin show ?thesis by blast
qed

lemma demo_connection:
  "map_prod id (map_prod id fst) (connection demo_server demo_conn Map.empty) =
     (Inr (), [''{}'' @ [newline], ''{}'' @ [newline]], Some (replicate 32 (CHR ''a'')))"
  by code_simp

theorem connection_releases_nothing_unauthorised_witness:
  "\<exists>p rest au pn rn. presented demo_server demo_conn p rest \<and> authorised id au p 90 pn rn \<and> pn_id pn = replicate 32 (CHR ''a'')"
proof -
  obtain r fs held c where e: "connection demo_server demo_conn Map.empty = (r, fs, held, c)"
    by (cases "connection demo_server demo_conn Map.empty") auto
  with demo_connection have h: "fs \<noteq> []" "held = Some (replicate 32 (CHR ''a''))" by auto
  have c: "cn_now demo_conn 0 = Some 90" "sr_sha demo_server = id" by (simp_all add: demo_conn_def demo_server_def)
  from connection_releases_nothing_unauthorised [OF e] h obtain p rest au t pn rn where
    "presented demo_server demo_conn p rest" "cn_now demo_conn 0 = Some t" "authorised (sr_sha demo_server) au p t pn rn"
    "held = Some (pn_id pn)" by (auto split: if_splits)
  with c h show ?thesis by (simp del: id_apply) blast
qed

section \<open>Opening the history\<close>

definition ledger_read :: "(bytes \<Rightarrow> bytes option) \<Rightarrow> (bytes \<Rightarrow> Ledger option) \<Rightarrow> nat \<Rightarrow> FileView \<Rightarrow> Error + Ledger" where
  "ledger_read dec de euid fv =
     and_then (private_read euid fv) (\<lambda>b.
     and_then (json_ok dec b FILE_BYTES) (\<lambda>_.
     and_then (ok_or Unavailable (de b)) (\<lambda>l.
     and_then (ledger_validate l) (\<lambda>_. Inr l))))"

text \<open>
  \<open>stored\<close> tells whether the temporary file was written, synced and renamed over the ledger; the
  result is the new content of the ledger file.
\<close>

definition persist :: "(Ledger \<Rightarrow> bytes list) \<Rightarrow> bool \<Rightarrow> Ledger \<Rightarrow> Error + bytes" where
  "persist writes stored l =
     and_then (serialized_size (writes l) FILE_BYTES) (\<lambda>_.
     if stored then Inr (concat (writes l)) else Inl Unavailable)"

definition history_open ::
  "Server \<Rightarrow> (bytes \<Rightarrow> Ledger option) \<Rightarrow> (Ledger \<Rightarrow> bytes list) \<Rightarrow> bool \<Rightarrow> bool \<Rightarrow> FileView \<Rightarrow> Authority
     \<Rightarrow> Error + Identity list \<times> bytes option" where
  "history_open sr de writes locked stored fv au =
     (if \<not> locked then Inl Unavailable
      else
        (let enrolled = identities (sr_fp_principal sr) (sr_fp_resource sr) au in
         and_then (ledger_read (key_dec (sd_codecs (sr_serde sr))) de (sr_euid sr) fv) (\<lambda>l.
         and_then (ledger_enroll writes l enrolled) (\<lambda>(l1, changed).
         if changed then and_then (persist writes stored l1) (\<lambda>b. Inr (enrolled, Some b))
         else Inr (enrolled, None)))))"

lemma identities_wf:
  assumes "authority_wf au" "\<forall>p\<in>set (au_principals au). hex_text (fpp p) 64" "\<forall>r\<in>set (au_resources au). hex_text (fpr r) 64"
  shows "(\<forall>v\<in>set (identities fpp fpr au). identity_wf v) \<and> distinct (map idn_id (identities fpp fpr au))"
proof
  show "\<forall>v\<in>set (identities fpp fpr au). identity_wf v"
    using assms by (auto simp: identities_def authority_wf_def identity_wf_def)
  have "distinct (map idn_id (sort_key idn_id xs)) \<longleftrightarrow> distinct (map idn_id xs)" for xs :: "Identity list"
    by (metis distinct_map distinct_sort set_sort)
  then show "distinct (map idn_id (identities fpp fpr au))"
    using assms(1) by (simp add: identities_def authority_wf_def comp_def)
qed

lemma enroll_one_again:
  assumes "entries_wf es" "enrolled_in es v"
  shows "enroll_one es v = Inr (es, False)"
proof -
  from assms(2) obtain j where j: "j < length es" "en_identity (es ! j) = v" "en_active (es ! j)"
    by (auto simp: enrolled_in_def in_set_conv_nth)
  let ?p = "\<lambda>e. idn_id (en_identity e) = idn_id v"
  have "rposition ?p es \<noteq> None" using j nth_mem [OF j(1)] by (auto simp: rposition_None)
  then obtain i where i: "rposition ?p es = Some i" by blast
  note r = rposition_Some [OF i]
  have "\<not> j < i" using wf_same_id [OF assms(1) j(1), of i] r j by auto
  moreover have "\<not> i < j" using r j by auto
  ultimately have "i = j" by simp
  with i j show ?thesis by (simp add: enroll_one_def Let_def)
qed

lemma enroll_all_again:
  "entries_wf es \<Longrightarrow> \<forall>v\<in>set vs. enrolled_in es v \<Longrightarrow> enroll_all es False vs = Inr (es, False)"
  by (induction vs) (simp_all add: enroll_one_again)

lemma drop_absent_again:
  assumes "\<forall>v. enrolled_in es v \<longleftrightarrow> v \<in> set req"
  shows "drop_absent req es = es"
proof -
  have "list_ex (\<lambda>v. idn_id v = idn_id (en_identity e)) req" if "e \<in> set es" "en_active e" for e
    using assms that by (auto simp: enrolled_in_def list_ex_iff)
  then show ?thesis unfolding drop_absent_def by (intro map_idI) auto
qed

lemma ledger_enroll_again:
  assumes "ledger_enroll writes l req = Inr (l1, ch)" "\<forall>v\<in>set req. identity_wf v" "distinct (map idn_id req)"
  shows "ledger_enroll writes l1 req = Inr (l1, False)"
proof -
  note ok = ledger_enroll_ok [OF assms(1,2)]
  from ok assms(3) have act: "\<forall>v. enrolled_in (lg_entries l1) v \<longleftrightarrow> v \<in> set req" and val: "ledger_validate l1 = Inr ()" by blast+
  then have "entries_wf (lg_entries l1)" by (simp add: ledger_validate_iff)
  then have "enroll_all (lg_entries l1) False req = Inr (lg_entries l1, False)"
    using act by (intro enroll_all_again) blast+
  moreover have "\<exists>n. serialized_size (writes l1) FILE_BYTES = Inr n"
    using assms(1) by (auto simp: ledger_enroll_def and_then_Inr_iff Let_def split: prod.splits)
  ultimately show ?thesis
    using val drop_absent_again [OF act] by (auto simp: ledger_enroll_def Let_def)
qed

text \<open>
  Restarting is stable. When the history opens for an authority and its new content is stored,
  opening it again for the same authority, from a file that reads back the stored ledger, succeeds
  with the same identities and writes nothing.
\<close>

theorem restart_is_stable:
  assumes "authority_parse dec de_au a = Inr au"
    and "\<forall>p\<in>set (au_principals au). hex_text (sr_fp_principal sr p) 64" "\<forall>r\<in>set (au_resources au). hex_text (sr_fp_resource sr r) 64"
    and "history_open sr de writes True True fv au = Inr (vs, Some b)"
    and "ledger_read (key_dec (sd_codecs (sr_serde sr))) de (sr_euid sr) fv = Inr l" "ledger_enroll writes l vs = Inr (l1, ch)"
    and "private_read (sr_euid sr) fv1 = Inr b" "json_ok (key_dec (sd_codecs (sr_serde sr))) b FILE_BYTES = Inr ()" "de b = Some l1"
  shows "history_open sr de writes True stored fv1 au = Inr (vs, None)"
proof -
  let ?ids = "identities (sr_fp_principal sr) (sr_fp_resource sr) au"
  have wf: "\<forall>v\<in>set ?ids. identity_wf v" "distinct (map idn_id ?ids)"
    using identities_wf authority_parse_wf [OF assms(1)] assms(2,3) by blast+
  from assms(4-6) have e: "vs = ?ids"
    by (auto simp: history_open_def Let_def and_then_Inr_iff split: if_splits)
  note en = assms(6) [unfolded e]
  have "ledger_validate l1 = Inr ()" using ledger_enroll_ok [OF en wf(1)] by blast
  then have "ledger_read (key_dec (sd_codecs (sr_serde sr))) de (sr_euid sr) fv1 = Inr l1"
    using assms(7-9) by (simp add: ledger_read_def)
  with ledger_enroll_again [OF en wf] e show ?thesis by (simp add: history_open_def Let_def)
qed

definition demo_reader :: "bytes \<Rightarrow> Ledger option" where
  "demo_reader b = (if b = ''{}'' then Some \<lparr>lg_version = 1, lg_entries = []\<rparr>
     else Some \<lparr>lg_version = 1, lg_entries = map (\<lambda>v. \<lparr>en_identity = v, en_active = True\<rparr>) (sr_enrolled demo_server)\<rparr>)"

theorem restart_is_stable_witness:
  "history_open demo_server demo_reader (\<lambda>_. [''[]'']) True False (demo_file ''[]'') demo_authority = Inr (sr_enrolled demo_server, None)"
proof (rule restart_is_stable)
  show "authority_parse (\<lambda>_. None) (\<lambda>_. Some demo_authority) ''{}'' = Inr demo_authority" by code_simp
  show "\<forall>p\<in>set (au_principals demo_authority). hex_text (sr_fp_principal demo_server p) 64" by code_simp
  show "\<forall>r\<in>set (au_resources demo_authority). hex_text (sr_fp_resource demo_server r) 64" by code_simp
  show "history_open demo_server demo_reader (\<lambda>_. [''[]'']) True True (demo_file ''{}'') demo_authority = Inr (sr_enrolled demo_server, Some ''[]'')"
    by code_simp
  show "ledger_read (key_dec (sd_codecs (sr_serde demo_server))) demo_reader (sr_euid demo_server) (demo_file ''{}'') = Inr \<lparr>lg_version = 1, lg_entries = []\<rparr>"
    by code_simp
  show "ledger_enroll (\<lambda>_. [''[]'']) \<lparr>lg_version = 1, lg_entries = []\<rparr> (sr_enrolled demo_server) =
      Inr (\<lparr>lg_version = 1, lg_entries = map (\<lambda>v. \<lparr>en_identity = v, en_active = True\<rparr>) (sr_enrolled demo_server)\<rparr>, True)"
    by code_simp
  show "private_read (sr_euid demo_server) (demo_file ''[]'') = Inr ''[]''" by code_simp
  show "json_ok (key_dec (sd_codecs (sr_serde demo_server))) ''[]'' FILE_BYTES = Inr ()" by code_simp
  show "demo_reader ''[]'' = Some \<lparr>lg_version = 1, lg_entries = map (\<lambda>v. \<lparr>en_identity = v, en_active = True\<rparr>) (sr_enrolled demo_server)\<rparr>"
    by code_simp
qed

end
