(* ===== verification/Rust_Text.thy ===== *)
theory Rust_Text
  imports Decimal_Text
begin

text \<open>
  The operations of \<^verbatim>\<open>str\<close> and of slices of strings that the client's own crate uses: joining,
  replacing, searching, trimming and ASCII case. Texts are byte strings in UTF-8.
\<close>

text \<open>\<^verbatim>\<open>Option::unwrap_or\<close>.\<close>

definition unwrap_or :: "'a option \<Rightarrow> 'a \<Rightarrow> 'a" where
  "unwrap_or m d = (case m of None \<Rightarrow> d | Some x \<Rightarrow> x)"

fun join :: "bytes \<Rightarrow> bytes list \<Rightarrow> bytes" where
  "join sep [] = []"
| "join sep [x] = x"
| "join sep (x # y # zs) = x @ sep @ join sep (y # zs)"

text \<open>\<^verbatim>\<open>s.replace(c, t)\<close> for a character \<open>c\<close>.\<close>

definition replace_char :: "char \<Rightarrow> bytes \<Rightarrow> bytes \<Rightarrow> bytes" where
  "replace_char c t s = concat (map (\<lambda>x. if x = c then t else [x]) s)"

definition to_ascii_lowercase :: "bytes \<Rightarrow> bytes" where
  "to_ascii_lowercase s = map (\<lambda>c. if 65 \<le> byte c \<and> byte c \<le> 90 then char_of (byte c + 32) else c) s"

text \<open>\<^verbatim>\<open>s.contains(t)\<close>, \<^verbatim>\<open>s.starts_with(t)\<close>, \<^verbatim>\<open>s.ends_with(t)\<close>.\<close>

fun starts_with :: "bytes \<Rightarrow> bytes \<Rightarrow> bool" where
  "starts_with s [] = True"
| "starts_with [] (_ # _) = False"
| "starts_with (x # xs) (y # ys) = (x = y \<and> starts_with xs ys)"

fun contains_text :: "bytes \<Rightarrow> bytes \<Rightarrow> bool" where
  "contains_text [] t = (t = [])"
| "contains_text (x # xs) t = (starts_with (x # xs) t \<or> contains_text xs t)"

text \<open>\<^verbatim>\<open>s.find(t)\<close> and \<^verbatim>\<open>s.rfind(c)\<close>: the position of the first, of the last occurrence.\<close>

fun find_text :: "bytes \<Rightarrow> bytes \<Rightarrow> nat option" where
  "find_text [] t = (if t = [] then Some 0 else None)"
| "find_text (x # xs) t = (if starts_with (x # xs) t then Some 0 else map_option Suc (find_text xs t))"

definition rfind_char :: "char \<Rightarrow> bytes \<Rightarrow> nat option" where
  "rfind_char c s = (if c \<in> set s then Some (length s - 1 - length (takeWhile (\<lambda>x. x \<noteq> c) (rev s))) else None)"

definition ends_with :: "bytes \<Rightarrow> bytes \<Rightarrow> bool" where
  "ends_with s t = starts_with (rev s) (rev t)"

lemma starts_with_iff: "starts_with s t \<longleftrightarrow> (\<exists>r. s = t @ r)"
  by (induction s t rule: starts_with.induct) auto

lemma contains_text_iff: "contains_text s t \<longleftrightarrow> (\<exists>a r. s = a @ t @ r)"
proof (induction s)
  case step: (Cons x xs)
  show ?case
  proof
    assume "contains_text (x # xs) t"
    then consider "starts_with (x # xs) t" | "contains_text xs t" by auto
    then show "\<exists>a r. x # xs = a @ t @ r"
    proof cases
      case 1
      then obtain r where "x # xs = [] @ t @ r" by (auto simp: starts_with_iff)
      then show ?thesis by blast
    next
      case 2
      then obtain a r where "x # xs = (x # a) @ t @ r" using step.IH by auto
      then show ?thesis by blast
    qed
  next
    assume "\<exists>a r. x # xs = a @ t @ r"
    then obtain a r where e: "x # xs = a @ t @ r" by blast
    show "contains_text (x # xs) t"
    proof (cases a)
      case Nil
      with e have "starts_with (x # xs) t" unfolding starts_with_iff by (intro exI [of _ r]) simp
      then show ?thesis by simp
    next
      case (Cons y b)
      with e have "xs = b @ t @ r" by simp
      then have "contains_text xs t" using step.IH by blast
      then show ?thesis by simp
    qed
  qed
qed auto

lemma ends_with_iff: "ends_with s t \<longleftrightarrow> (\<exists>r. s = r @ t)"
  unfolding ends_with_def starts_with_iff by (metis rev_append rev_rev_ident)

lemma join_Cons: "join sep (x # xs) = x @ concat (map (\<lambda>y. sep @ y) xs)"
  by (induction sep "x # xs" arbitrary: x xs rule: join.induct) auto

section \<open>White space\<close>

text \<open>
  The bytes of a leading white-space character of UTF-8 text (the Unicode property
  \<^verbatim>\<open>White_Space\<close>, which \<^verbatim>\<open>char::is_whitespace\<close> and \<^verbatim>\<open>str::trim\<close> use); 0 when there is none.
\<close>

definition white_len :: "bytes \<Rightarrow> nat" where
  "white_len s =
     (case map byte s of
        [] \<Rightarrow> 0
      | a # r \<Rightarrow>
          if a = 32 \<or> (9 \<le> a \<and> a \<le> 13) then 1
          else (case r of
              [] \<Rightarrow> 0
            | b # t \<Rightarrow>
                if a = 194 \<and> (b = 133 \<or> b = 160) then 2
                else (case t of
                    [] \<Rightarrow> 0
                  | c # _ \<Rightarrow>
                      if (a, b, c) = (225, 154, 128) \<or>
                         (a = 226 \<and> b = 128 \<and> ((128 \<le> c \<and> c \<le> 138) \<or> c = 168 \<or> c = 169 \<or> c = 175)) \<or>
                         (a, b, c) = (226, 129, 159) \<or> (a, b, c) = (227, 128, 128)
                      then 3 else 0)))"

function trim_start :: "bytes \<Rightarrow> bytes" where
  "trim_start s = (if s \<noteq> [] \<and> white_len s \<noteq> 0 then trim_start (drop (white_len s) s) else s)"
  by pat_completeness auto
termination
  by (relation "measure length") auto

declare trim_start.simps [simp del]

text \<open>\<^verbatim>\<open>s.trim().is_empty()\<close>, and \<^verbatim>\<open>s.trim()\<close>: no byte inside a character starts a white-space one.\<close>

definition is_blank :: "bytes \<Rightarrow> bool" where
  "is_blank s \<longleftrightarrow> trim_start s = []"

fun trim_end :: "bytes \<Rightarrow> bytes" where
  "trim_end [] = []"
| "trim_end (c # s) = (if is_blank (c # s) then [] else c # trim_end s)"

definition trim :: "bytes \<Rightarrow> bytes" where
  "trim s = trim_end (trim_start s)"

definition to_ascii_uppercase :: "bytes \<Rightarrow> bytes" where
  "to_ascii_uppercase s = map (\<lambda>c. if 97 \<le> byte c \<and> byte c \<le> 122 then char_of (byte c - 32) else c) s"

text \<open>The first character of a text, and whether an index of it is a character boundary.\<close>

definition first_char :: "bytes \<Rightarrow> bytes" where
  "first_char s = (case s of [] \<Rightarrow> [] | c # _ \<Rightarrow> take (if byte c < 128 then 1 else if byte c < 224 then 2 else if byte c < 240 then 3 else 4) s)"

definition is_char_boundary :: "bytes \<Rightarrow> nat \<Rightarrow> bool" where
  "is_char_boundary s i \<longleftrightarrow> i = 0 \<or> i = length s \<or> (i < length s \<and> \<not> (128 \<le> byte (s ! i) \<and> byte (s ! i) < 192))"

end
