(* ===== verification/Sql_Compile.thy ===== *)
theory Sql_Compile
  imports Rust_Text
begin

text \<open>
  The compiler of canned queries, \<^verbatim>\<open>src/source/db/query.rs\<close>, with the data types of \<^verbatim>\<open>query_dto.rs\<close>. The
  compiled text is read back by a small SQL lexer that knows only quoted identifiers: what lies
  outside the quotes is a fixed skeleton, whatever names and values the query carries.
\<close>

section \<open>Data\<close>

datatype WhereOp = OpEq | OpNe | OpGt | OpGte | OpLt | OpLte | OpIn | OpLike | OpIsNull | OpIsNotNull
datatype WhereCombinator = And | Or
datatype OrderDir = Ascending | Descending

text \<open>\<^verbatim>\<open>f64\<close> values are passed through unread; they are kept as their bit pattern.\<close>

datatype ScalarValue = SString bytes | SI64 int | SU64 nat | SF64 nat | SBool bool | SNull
datatype ScalarOrList = ScalarOf ScalarValue | ListOf "ScalarValue list"

record WhereClause =
  wc_col :: bytes
  wc_op :: WhereOp
  wc_val :: "ScalarOrList option"

record OrderBy =
  ob_col :: bytes
  ob_dir :: OrderDir

record CannedQuery =
  cq_profile :: bytes
  cq_table :: bytes
  cq_columns :: "bytes list option"
  cq_where :: "WhereClause list option"
  cq_combinator :: "WhereCombinator option"
  cq_order_by :: "OrderBy list option"
  cq_limit :: "nat option"

record ColumnInfo =
  ci_name :: bytes
  ci_name_token :: bytes
  ci_data_type :: bytes
  ci_nullable :: bool
  ci_allowed :: bool

record TableSchema =
  ts_table :: bytes
  ts_table_token :: bytes
  ts_columns :: "ColumnInfo list"
  ts_limit_cap :: "nat option"

datatype Dialect = Mysql | Postgres | Sqlite
datatype QueryValue = QString bytes | QI64 int | QU64 nat | QF64 nat | QBool bool

record CompiledQuery =
  sql :: bytes
  binds :: "QueryValue list"

datatype QueryError = TableMismatch bytes bytes | UnknownColumn bytes | DisallowedColumn bytes
  | OperatorTypeMismatch bytes WhereOp bytes | OperatorRequiresList WhereOp | OperatorRequiresScalar WhereOp
  | OperatorRequiresNoValue WhereOp | OperatorRequiresValue WhereOp | LimitExceedsCap nat nat | UnsafeColumn bytes

definition U32_MAX :: nat where "U32_MAX = 4294967295"

section \<open>Identifiers and placeholders\<close>

definition sql_keywords :: "bytes list" where
  "sql_keywords = [''alter'', ''delete'', ''drop'', ''insert'', ''order'', ''select'', ''truncate'', ''union'', ''update'', ''where'']"

definition has_sql_keyword :: "bytes \<Rightarrow> bool" where
  "has_sql_keyword column \<longleftrightarrow> to_ascii_lowercase column \<in> set sql_keywords"

definition validate_column :: "bytes \<Rightarrow> TableSchema \<Rightarrow> QueryError + ColumnInfo" where
  "validate_column column ts =
     (if has_sql_keyword column \<or> CHR '';'' \<in> set column \<or> contains_text column ''--'' then Inl (UnsafeColumn column)
      else and_then (ok_or (UnknownColumn column) (List.find (\<lambda>c. ci_name c = column) (ts_columns ts))) (\<lambda>info.
           if \<not> ci_allowed info then Inl (DisallowedColumn column) else Inr info))"

definition string_families :: "bytes list" where
  "string_families = [''char'', ''varchar'', ''text'', ''tinytext'', ''mediumtext'', ''longtext'', ''json'']"

definition is_string_family :: "bytes \<Rightarrow> bool" where
  "is_string_family data_type \<longleftrightarrow> to_ascii_lowercase data_type \<in> set string_families"

definition operator_matches_type :: "WhereOp \<Rightarrow> bytes \<Rightarrow> bool" where
  "operator_matches_type op data_type = (if op = OpLike then is_string_family data_type else True)"

definition quote_char :: "Dialect \<Rightarrow> char" where
  "quote_char d = (case d of Postgres \<Rightarrow> CHR 0x22 | _ \<Rightarrow> CHR 0x60)"

definition escape_ident :: "bytes \<Rightarrow> Dialect \<Rightarrow> bytes" where
  "escape_ident ident d = [quote_char d] @ replace_char (quote_char d) [quote_char d, quote_char d] ident @ [quote_char d]"

text \<open>\<^verbatim>\<open>PlaceholderState::next\<close>: the text and the next index, which only Postgres advances.\<close>

definition next_placeholder :: "Dialect \<Rightarrow> nat \<Rightarrow> bytes \<times> nat" where
  "next_placeholder d i = (case d of Postgres \<Rightarrow> (CHR ''$'' # nat_to_string i, i + 1) | _ \<Rightarrow> (''?'', i))"

fun next_placeholders :: "Dialect \<Rightarrow> nat \<Rightarrow> nat \<Rightarrow> bytes list \<times> nat" where
  "next_placeholders d i 0 = ([], i)"
| "next_placeholders d i (Suc k) =
     (let (p, i1) = next_placeholder d i; (ps, i2) = next_placeholders d i1 k in (p # ps, i2))"

definition sql_operator :: "WhereOp \<Rightarrow> bytes" where
  "sql_operator op = (case op of OpEq \<Rightarrow> ''='' | OpNe \<Rightarrow> ''!='' | OpGt \<Rightarrow> ''>'' | OpGte \<Rightarrow> ''>='' | OpLt \<Rightarrow> ''<''
     | OpLte \<Rightarrow> ''<='' | _ \<Rightarrow> ''LIKE'')"

fun query_value :: "ScalarValue \<Rightarrow> WhereOp \<Rightarrow> QueryError + QueryValue" where
  "query_value (SString v) op = Inr (QString v)"
| "query_value (SI64 v) op = Inr (QI64 v)"
| "query_value (SU64 v) op = Inr (QU64 v)"
| "query_value (SF64 v) op = Inr (QF64 v)"
| "query_value (SBool v) op = Inr (QBool v)"
| "query_value SNull op = Inl (OperatorRequiresNoValue op)"

fun push_values :: "QueryValue list \<Rightarrow> WhereOp \<Rightarrow> ScalarValue list \<Rightarrow> QueryError + QueryValue list" where
  "push_values bs op [] = Inr bs"
| "push_values bs op (v # vs) = and_then (query_value v op) (\<lambda>q. push_values (bs @ [q]) op vs)"

section \<open>Compilation\<close>

type_synonym clause_out = "bytes \<times> QueryValue list \<times> nat"

definition compile_where_clause ::
  "WhereClause \<Rightarrow> ColumnInfo \<Rightarrow> QueryValue list \<Rightarrow> nat \<Rightarrow> Dialect \<Rightarrow> QueryError + clause_out" where
  "compile_where_clause clause column bs i d =
     (if \<not> operator_matches_type (wc_op clause) (ci_data_type column)
      then Inl (OperatorTypeMismatch (wc_col clause) (wc_op clause) (ci_data_type column))
      else
        (let ident = escape_ident (wc_col clause) d; op = wc_op clause in
         if op = OpIsNull \<or> op = OpIsNotNull then
           (if wc_val clause \<noteq> None then Inl (OperatorRequiresNoValue op)
            else Inr (ident @ '' IS '' @ (if op = OpIsNotNull then ''NOT '' else []) @ ''NULL'', bs, i))
         else if op = OpIn then
           (case wc_val clause of
              None \<Rightarrow> Inl (OperatorRequiresValue op)
            | Some (ScalarOf _) \<Rightarrow> Inl (OperatorRequiresList op)
            | Some (ListOf vs) \<Rightarrow>
                if vs = [] then Inl (OperatorRequiresList op)
                else and_then (push_values bs op vs) (\<lambda>bs1.
                       let (ps, i1) = next_placeholders d i (length vs)
                       in Inr (ident @ '' IN ('' @ join '', '' ps @ '')'', bs1, i1)))
         else
           (case wc_val clause of
              None \<Rightarrow> Inl (OperatorRequiresValue op)
            | Some (ListOf _) \<Rightarrow> Inl (OperatorRequiresScalar op)
            | Some (ScalarOf v) \<Rightarrow>
                and_then (query_value v op) (\<lambda>q.
                let (p, i1) = next_placeholder d i
                in Inr (ident @ '' '' @ sql_operator op @ '' '' @ p, bs @ [q], i1)))))"

fun compile_where :: "TableSchema \<Rightarrow> Dialect \<Rightarrow> QueryValue list \<Rightarrow> nat \<Rightarrow> WhereClause list
    \<Rightarrow> QueryError + bytes list \<times> QueryValue list \<times> nat" where
  "compile_where ts d bs i [] = Inr ([], bs, i)"
| "compile_where ts d bs i (w # ws) =
     and_then (validate_column (wc_col w) ts) (\<lambda>column.
     and_then (compile_where_clause w column bs i d) (\<lambda>(part, bs1, i1).
     and_then (compile_where ts d bs1 i1 ws) (\<lambda>(parts, bs2, i2). Inr (part # parts, bs2, i2))))"

definition dir_text :: "OrderDir \<Rightarrow> bytes" where
  "dir_text dir = (case dir of Ascending \<Rightarrow> ''ASC'' | Descending \<Rightarrow> ''DESC'')"

fun compile_order :: "TableSchema \<Rightarrow> Dialect \<Rightarrow> OrderBy list \<Rightarrow> QueryError + bytes list" where
  "compile_order ts d [] = Inr []"
| "compile_order ts d (ob # obs) =
     and_then (validate_column (ob_col ob) ts) (\<lambda>_.
     and_then (compile_order ts d obs) (\<lambda>parts.
     Inr ((escape_ident (ob_col ob) d @ '' '' @ dir_text (ob_dir ob)) # parts)))"

definition combinator_text :: "WhereCombinator option \<Rightarrow> bytes" where
  "combinator_text c = (case c of Some Or \<Rightarrow> '' OR '' | _ \<Rightarrow> '' AND '')"

definition selected_columns :: "CannedQuery \<Rightarrow> TableSchema \<Rightarrow> bytes list" where
  "selected_columns q ts =
     (case cq_columns q of
        Some cs \<Rightarrow> if cs \<noteq> [] then cs else map ci_name (filter ci_allowed (ts_columns ts))
      | None \<Rightarrow> map ci_name (filter ci_allowed (ts_columns ts)))"

fun validate_columns :: "TableSchema \<Rightarrow> bytes list \<Rightarrow> QueryError + unit" where
  "validate_columns ts [] = Inr ()"
| "validate_columns ts (c # cs) = and_then (validate_column c ts) (\<lambda>_. validate_columns ts cs)"

definition where_list :: "CannedQuery \<Rightarrow> WhereClause list" where
  "where_list q = (case cq_where q of None \<Rightarrow> [] | Some ws \<Rightarrow> ws)"

definition order_list :: "CannedQuery \<Rightarrow> OrderBy list" where
  "order_list q = (case cq_order_by q of None \<Rightarrow> [] | Some obs \<Rightarrow> obs)"

definition hard_cap :: "TableSchema \<Rightarrow> nat" where
  "hard_cap ts = (case ts_limit_cap ts of None \<Rightarrow> U32_MAX | Some c \<Rightarrow> c)"

definition bound_limit :: "CannedQuery \<Rightarrow> TableSchema \<Rightarrow> nat" where
  "bound_limit q ts =
     (case cq_limit q of
        Some r \<Rightarrow> if r = hard_cap ts then r + 1 else r
      | None \<Rightarrow> hard_cap ts + 1)"

definition select_text :: "CannedQuery \<Rightarrow> TableSchema \<Rightarrow> Dialect \<Rightarrow> bytes" where
  "select_text q ts d =
     (let selected = selected_columns q ts;
          select_list = (if selected = [] then ''1'' else join '', '' (map (\<lambda>c. escape_ident c d) selected))
      in ''SELECT '' @ select_list @ '' FROM '' @ escape_ident (ts_table ts) d)"

definition where_part :: "CannedQuery \<Rightarrow> TableSchema \<Rightarrow> Dialect \<Rightarrow> bytes \<Rightarrow> QueryError + clause_out" where
  "where_part q ts d text0 =
     (if where_list q = [] then Inr (text0, [], 1)
      else and_then (compile_where ts d [] 1 (where_list q)) (\<lambda>(parts, bs, i).
             Inr (text0 @ '' WHERE '' @ join (combinator_text (cq_combinator q)) parts, bs, i)))"

definition order_part :: "CannedQuery \<Rightarrow> TableSchema \<Rightarrow> Dialect \<Rightarrow> bytes \<Rightarrow> QueryError + bytes" where
  "order_part q ts d text1 =
     (if order_list q = [] then Inr text1
      else and_then (compile_order ts d (order_list q)) (\<lambda>parts. Inr (text1 @ '' ORDER BY '' @ join '', '' parts)))"

definition limit_part :: "CannedQuery \<Rightarrow> TableSchema \<Rightarrow> QueryError + unit" where
  "limit_part q ts =
     (case cq_limit q of
        Some r \<Rightarrow> if r > hard_cap ts then Inl (LimitExceedsCap r (hard_cap ts)) else Inr ()
      | None \<Rightarrow> Inr ())"

definition compile_to_sql_for :: "CannedQuery \<Rightarrow> TableSchema \<Rightarrow> Dialect \<Rightarrow> QueryError + CompiledQuery" where
  "compile_to_sql_for q ts d =
     (if cq_table q \<noteq> ts_table ts then Inl (TableMismatch (cq_table q) (ts_table ts))
      else
        and_then (validate_columns ts (selected_columns q ts)) (\<lambda>_.
        and_then (where_part q ts d (select_text q ts d)) (\<lambda>(text1, bs, i).
        and_then (order_part q ts d text1) (\<lambda>text2.
        and_then (limit_part q ts) (\<lambda>_.
        Inr \<lparr>sql = text2 @ '' LIMIT '' @ fst (next_placeholder d i), binds = bs @ [QU64 (bound_limit q ts)]\<rparr>)))))"

definition compile_to_sql :: "CannedQuery \<Rightarrow> TableSchema \<Rightarrow> QueryError + CompiledQuery" where
  "compile_to_sql q ts = compile_to_sql_for q ts Mysql"

section \<open>Reading the text back\<close>

datatype SqlToken = TRaw char | TId bytes

text \<open>Outside and inside a quoted identifier; a doubled quote inside stands for one.\<close>

function (sequential) sql_lex :: "char \<Rightarrow> bytes \<Rightarrow> SqlToken list option"
  and lex_ident :: "char \<Rightarrow> bytes \<Rightarrow> bytes \<Rightarrow> SqlToken list option" where
  "sql_lex q [] = Some []"
| "sql_lex q (c # cs) = (if c = q then lex_ident q [] cs else map_option (Cons (TRaw c)) (sql_lex q cs))"
| "lex_ident q acc [] = None"
| "lex_ident q acc [c] = (if c = q then Some [TId acc] else None)"
| "lex_ident q acc (c # e # cs) =
     (if c \<noteq> q then lex_ident q (acc @ [c]) (e # cs)
      else if e = q then lex_ident q (acc @ [q]) cs
      else map_option (Cons (TId acc)) (sql_lex q (e # cs)))"
  by pat_completeness auto
termination
  by (relation "measure (\<lambda>x. case x of Inl (q, s) \<Rightarrow> 2 * length s + 1 | Inr (q, acc, s) \<Rightarrow> 2 * length s + 2)") auto

definition idents :: "SqlToken list \<Rightarrow> bytes list" where
  "idents ts = concat (map (\<lambda>t. case t of TId i \<Rightarrow> [i] | TRaw _ \<Rightarrow> []) ts)"

definition raw_text :: "SqlToken list \<Rightarrow> bytes" where
  "raw_text ts = concat (map (\<lambda>t. case t of TRaw c \<Rightarrow> [c] | TId _ \<Rightarrow> []) ts)"

text \<open>Texts as they are assembled: raw stretches and identifiers.\<close>

datatype piece = PRaw bytes | PId bytes

fun render :: "Dialect \<Rightarrow> piece list \<Rightarrow> bytes" where
  "render d [] = []"
| "render d (PRaw s # ps) = s @ render d ps"
| "render d (PId i # ps) = escape_ident i d @ render d ps"

fun tokens :: "piece list \<Rightarrow> SqlToken list" where
  "tokens [] = []"
| "tokens (PRaw s # ps) = map TRaw s @ tokens ps"
| "tokens (PId i # ps) = TId i # tokens ps"

fun wf_pieces :: "piece list \<Rightarrow> bool" where
  "wf_pieces [] = True"
| "wf_pieces (PRaw s # ps) = (s \<noteq> [] \<and> CHR 0x22 \<notin> set s \<and> CHR 0x60 \<notin> set s \<and> wf_pieces ps)"
| "wf_pieces (PId i # ps) = ((case ps of PId _ # _ \<Rightarrow> False | _ \<Rightarrow> True) \<and> wf_pieces ps)"

lemma render_append [simp]: "render d (ps @ qs) = render d ps @ render d qs"
  by (induction d ps rule: render.induct) auto

lemma tokens_append [simp]: "tokens (ps @ qs) = tokens ps @ tokens qs"
  by (induction ps rule: tokens.induct) auto

lemma wf_pieces_append:
  "wf_pieces ps \<Longrightarrow> wf_pieces qs \<Longrightarrow> (case qs of PId _ # _ \<Rightarrow> False | _ \<Rightarrow> True) \<Longrightarrow> wf_pieces (ps @ qs)"
  by (induction ps rule: wf_pieces.induct) (auto split: list.splits piece.splits)

lemma quote_char_cases: "quote_char d = CHR 0x22 \<or> quote_char d = CHR 0x60"
  by (cases d) (simp_all add: quote_char_def)

lemma lex_raw: "q \<notin> set s \<Longrightarrow> sql_lex q (s @ r) = map_option (append (map TRaw s)) (sql_lex q r)"
  by (induction s; cases "sql_lex q r") auto

lemma lex_ident_escaped:
  assumes "r = [] \<or> hd r \<noteq> q"
  shows "lex_ident q acc (replace_char q [q, q] i @ q # r) = map_option (Cons (TId (acc @ i))) (sql_lex q r)"
proof (induction i arbitrary: acc)
  case Nil
  then show ?case using assms by (cases r) (auto simp: replace_char_def)
next
  case (Cons c i)
  show ?case
  proof (cases "c = q")
    case True
    then have "replace_char q [q, q] (c # i) @ q # r = q # q # replace_char q [q, q] i @ q # r" by (simp add: replace_char_def)
    then show ?thesis using Cons.IH [of "acc @ [q]"] True by simp
  next
    case False
    obtain e s where es: "replace_char q [q, q] i @ q # r = e # s" by (cases "replace_char q [q, q] i @ q # r") auto
    have "replace_char q [q, q] (c # i) @ q # r = c # e # s" using False es by (simp add: replace_char_def)
    then show ?thesis using Cons.IH [of "acc @ [c]"] False es by simp
  qed
qed

lemma lex_render: "wf_pieces ps \<Longrightarrow> sql_lex (quote_char d) (render d ps) = Some (tokens ps)"
proof (induction ps rule: wf_pieces.induct)
  case (2 s ps)
  then show ?case using quote_char_cases [of d] by (auto simp: lex_raw)
next
  case (3 i ps)
  have "render d ps = [] \<or> hd (render d ps) \<noteq> quote_char d"
  proof (cases ps)
    case (Cons p qs)
    then show ?thesis using "3.prems" quote_char_cases [of d] by (cases p) (auto simp: neq_Nil_conv)
  qed simp
  from lex_ident_escaped [OF this, of "[]" i] show ?case
    using 3 by (simp add: escape_ident_def)
qed simp

section \<open>The skeleton of a compiled query\<close>

definition placeholder :: "Dialect \<Rightarrow> nat \<Rightarrow> bytes" where
  "placeholder d j = (case d of Postgres \<Rightarrow> CHR ''$'' # nat_to_string j | _ \<Rightarrow> ''?'')"

definition clause_values :: "WhereClause \<Rightarrow> ScalarValue list" where
  "clause_values w = (case wc_val w of None \<Rightarrow> [] | Some (ScalarOf v) \<Rightarrow> [v] | Some (ListOf vs) \<Rightarrow> vs)"

text \<open>What follows the column of a condition with \<open>k\<close> values, \<open>n\<close> values having been bound before.\<close>

definition clause_tail :: "Dialect \<Rightarrow> nat \<Rightarrow> WhereOp \<Rightarrow> nat \<Rightarrow> bytes" where
  "clause_tail d n op k =
     (case op of
        OpIsNull \<Rightarrow> '' IS NULL''
      | OpIsNotNull \<Rightarrow> '' IS NOT NULL''
      | OpIn \<Rightarrow> '' IN ('' @ join '', '' (map (placeholder d) [Suc n..<Suc (n + k)]) @ '')''
      | _ \<Rightarrow> '' '' @ sql_operator op @ '' '' @ placeholder d (Suc n))"

fun where_tails :: "Dialect \<Rightarrow> nat \<Rightarrow> (WhereOp \<times> nat) list \<Rightarrow> bytes list" where
  "where_tails d n [] = []"
| "where_tails d n ((op, k) # ws) = clause_tail d n op k # where_tails d (n + k) ws"

text \<open>
  The text outside the identifiers, from the number of selected columns, the operator and number of
  values of each condition, the combinator and the sort directions alone.
\<close>

definition skeleton :: "Dialect \<Rightarrow> nat \<Rightarrow> WhereCombinator option \<Rightarrow> (WhereOp \<times> nat) list \<Rightarrow> OrderDir list \<Rightarrow> bytes" where
  "skeleton d cols comb ws dirs =
     ''SELECT '' @ (if cols = 0 then ''1'' else join '', '' (replicate cols [])) @ '' FROM '' @
     (if ws = [] then [] else '' WHERE '' @ join (combinator_text comb) (where_tails d 0 ws)) @
     (if dirs = [] then [] else '' ORDER BY '' @ join '', '' (map (\<lambda>dir. '' '' @ dir_text dir) dirs)) @
     '' LIMIT '' @ placeholder d (Suc (sum_list (map snd ws)))"

definition clause_shape :: "WhereClause \<Rightarrow> WhereOp \<times> nat" where
  "clause_shape w = (wc_op w, length (clause_values w))"

section \<open>Assembled pieces\<close>

definition raw_piece :: "bytes \<Rightarrow> piece list" where
  "raw_piece t = (if t = [] then [] else [PRaw t])"

fun joined :: "bytes \<Rightarrow> (bytes \<times> bytes) list \<Rightarrow> piece list" where
  "joined sep [] = []"
| "joined sep [(c, t)] = PId c # raw_piece t"
| "joined sep ((c, t) # y # zs) = PId c # PRaw (t @ sep) # joined sep (y # zs)"

definition unquoted :: "bytes \<Rightarrow> bool" where
  "unquoted s \<longleftrightarrow> CHR 0x22 \<notin> set s \<and> CHR 0x60 \<notin> set s"

lemma unquoted_simps [simp]:
  "unquoted []" "unquoted (c # s) \<longleftrightarrow> c \<noteq> CHR 0x22 \<and> c \<noteq> CHR 0x60 \<and> unquoted s" "unquoted (s @ t) \<longleftrightarrow> unquoted s \<and> unquoted t"
  by (auto simp: unquoted_def)

lemma raw_piece_simps [simp]:
  "render d (raw_piece t) = t" "idents (tokens (raw_piece t)) = []" "raw_text (tokens (raw_piece t)) = t"
  "wf_pieces (raw_piece t) \<longleftrightarrow> unquoted t"
  by (auto simp: raw_piece_def idents_def raw_text_def unquoted_def comp_def)

lemma tokens_split [simp]:
  "idents (xs @ ys) = idents xs @ idents ys" "raw_text (xs @ ys) = raw_text xs @ raw_text ys"
  "idents (TId i # xs) = i # idents xs" "raw_text (TId i # xs) = raw_text xs"
  "idents (TRaw c # xs) = idents xs" "raw_text (TRaw c # xs) = c # raw_text xs"
  "idents (map TRaw s) = []" "raw_text (map TRaw s) = s" "idents [] = []" "raw_text [] = []"
  by (auto simp: idents_def raw_text_def comp_def)

lemma render_joined: "render d (joined sep cts) = join sep (map (\<lambda>(c, t). escape_ident c d @ t) cts)"
  by (induction sep cts rule: joined.induct) auto

lemma idents_joined: "idents (tokens (joined sep cts)) = map fst cts"
  by (induction sep cts rule: joined.induct) auto

lemma raw_joined: "raw_text (tokens (joined sep cts)) = join sep (map snd cts)"
  by (induction sep cts rule: joined.induct) auto

lemma wf_joined: "sep \<noteq> [] \<Longrightarrow> unquoted sep \<Longrightarrow> \<forall>t\<in>set (map snd cts). unquoted t \<Longrightarrow> wf_pieces (joined sep cts)"
  by (induction sep cts rule: joined.induct) (auto simp: raw_piece_def unquoted_def)

lemma unquoted_join: "unquoted sep \<Longrightarrow> \<forall>s\<in>set xs. unquoted s \<Longrightarrow> unquoted (join sep xs)"
  by (induction sep xs rule: join.induct) auto

lemma unquoted_placeholder [simp]: "unquoted (placeholder d j)"
proof -
  have "unquoted s" if "all_digits s" for s using that by (induction s) (auto simp: is_ascii_digit_def)
  moreover have "all_digits (nat_to_string j)" using nat_to_string_canonical by (simp add: canonical_digits_def)
  ultimately show ?thesis by (cases d) (simp_all add: placeholder_def)
qed

lemma unquoted_clause_tail [simp]: "unquoted (clause_tail d n op k)"
  by (cases op) (auto simp: clause_tail_def sql_operator_def intro!: unquoted_join)

lemma unquoted_where_tails: "t \<in> set (where_tails d n ws) \<Longrightarrow> unquoted t"
  by (induction d n ws rule: where_tails.induct) auto

lemma length_where_tails [simp]: "length (where_tails d n ws) = length ws"
  by (induction d n ws rule: where_tails.induct) auto

section \<open>Compilation assembles the skeleton\<close>

definition slot :: "Dialect \<Rightarrow> nat \<Rightarrow> nat" where
  "slot d n = (if d = Postgres then Suc n else 1)"

lemma next_placeholder_slot: "next_placeholder d (slot d n) = (placeholder d (Suc n), slot d (Suc n))"
  by (cases d) (simp_all add: next_placeholder_def placeholder_def slot_def)

lemma next_placeholders_slot:
  "next_placeholders d (slot d n) k = (map (placeholder d) [Suc n..<Suc (n + k)], slot d (n + k))"
proof (induction k arbitrary: n)
  case (Suc k)
  have "[Suc n..<Suc (n + Suc k)] = Suc n # [Suc (Suc n)..<Suc (Suc n + k)]" by (simp add: upt_rec)
  then show ?case using Suc.IH [of "Suc n"] by (simp add: next_placeholder_slot)
qed simp

fun value_bind :: "ScalarValue \<Rightarrow> QueryValue option" where
  "value_bind (SString v) = Some (QString v)"
| "value_bind (SI64 v) = Some (QI64 v)"
| "value_bind (SU64 v) = Some (QU64 v)"
| "value_bind (SF64 v) = Some (QF64 v)"
| "value_bind (SBool v) = Some (QBool v)"
| "value_bind SNull = None"

lemma query_value_ok_iff: "query_value v op = Inr q \<longleftrightarrow> value_bind v = Some q"
  by (cases v) auto

lemma push_values_ok_iff:
  "push_values bs op vs = Inr bs1 \<longleftrightarrow> (\<exists>qs. bs1 = bs @ qs \<and> map value_bind vs = map Some qs)"
proof (induction vs arbitrary: bs)
  case (Cons v vs)
  show ?case
    by (auto simp: and_then_Inr_iff query_value_ok_iff Cons.IH Cons_eq_map_conv)
qed auto

lemma query_value_total: "(\<exists>q. query_value v op = Inr q) \<longleftrightarrow> v \<noteq> SNull"
  by (cases v) auto

definition clause_ok :: "ColumnInfo \<Rightarrow> WhereClause \<Rightarrow> bool" where
  "clause_ok column w \<longleftrightarrow>
     (wc_op w = OpLike \<longrightarrow> is_string_family (ci_data_type column)) \<and>
     (case wc_op w of
        OpIsNull \<Rightarrow> wc_val w = None
      | OpIsNotNull \<Rightarrow> wc_val w = None
      | OpIn \<Rightarrow> (\<exists>vs. wc_val w = Some (ListOf vs) \<and> vs \<noteq> [] \<and> SNull \<notin> set vs)
      | _ \<Rightarrow> (\<exists>v. wc_val w = Some (ScalarOf v) \<and> v \<noteq> SNull))"

lemma value_binds_total: "(\<exists>qs. map value_bind vs = map Some qs) \<longleftrightarrow> SNull \<notin> set vs"
proof (induction vs)
  case (Cons v vs)
  then show ?case by (cases v) (auto simp: Cons_eq_map_conv)
qed simp

lemma compile_where_clause_iff:
  "compile_where_clause w column bs (slot d (length bs)) d = Inr (part, bs1, i1) \<longleftrightarrow>
     clause_ok column w \<and> part = escape_ident (wc_col w) d @ clause_tail d (length bs) (wc_op w) (length (clause_values w)) \<and>
     (\<exists>qs. bs1 = bs @ qs \<and> map value_bind (clause_values w) = map Some qs) \<and> i1 = slot d (length bs1)"
proof (cases "operator_matches_type (wc_op w) (ci_data_type column)")
  case False
  then show ?thesis
    by (auto simp: compile_where_clause_def clause_ok_def operator_matches_type_def split: if_splits)
next
  case True
  have len: "map value_bind vs = map Some qs \<Longrightarrow> length qs = length vs" for vs qs
    by (metis length_map)
  consider (null) "wc_op w = OpIsNull \<or> wc_op w = OpIsNotNull" | (list) "wc_op w = OpIn"
    | (scalar) "wc_op w \<notin> {OpIsNull, OpIsNotNull, OpIn}" by blast
  then show ?thesis
  proof cases
    case null
    with True show ?thesis
      by (auto simp: compile_where_clause_def clause_ok_def clause_tail_def clause_values_def Let_def)
  next
    case list
    with True show ?thesis
      by (auto simp: compile_where_clause_def clause_ok_def clause_tail_def clause_values_def push_values_ok_iff
          next_placeholders_slot and_then_Inr_iff Let_def len value_binds_total [symmetric]
          split: option.splits ScalarOrList.splits)
  next
    case scalar
    with True show ?thesis
      by (cases "wc_op w") (auto simp: compile_where_clause_def clause_ok_def clause_tail_def clause_values_def query_value_ok_iff
          next_placeholder_slot and_then_Inr_iff Let_def operator_matches_type_def map_eq_Cons_conv
          query_value_total [of _ OpEq, symmetric]
          split: option.splits ScalarOrList.splits)
  qed
qed

text \<open>The column a name refers to, when the schema policy lets a query use it.\<close>

definition usable_column :: "TableSchema \<Rightarrow> bytes \<Rightarrow> ColumnInfo option" where
  "usable_column ts c =
     (case List.find (\<lambda>i. ci_name i = c) (ts_columns ts) of
        None \<Rightarrow> None
      | Some i \<Rightarrow> if ci_allowed i \<and> \<not> has_sql_keyword c \<and> CHR '';'' \<notin> set c \<and> \<not> contains_text c ''--'' then Some i else None)"

lemma validate_column_iff: "validate_column c ts = Inr i \<longleftrightarrow> usable_column ts c = Some i"
  by (auto simp: validate_column_def usable_column_def and_then_Inr_iff ok_or_Inr_iff split: option.splits if_splits)

lemma validate_columns_iff: "validate_columns ts cs = Inr u \<longleftrightarrow> (\<forall>c\<in>set cs. usable_column ts c \<noteq> None)"
  by (induction cs) (auto simp: and_then_Inr_iff validate_column_iff)

lemma compile_order_iff:
  "compile_order ts d obs = Inr parts \<longleftrightarrow>
     (\<forall>b\<in>set obs. usable_column ts (ob_col b) \<noteq> None) \<and>
     parts = map (\<lambda>b. escape_ident (ob_col b) d @ '' '' @ dir_text (ob_dir b)) obs"
  by (induction obs arbitrary: parts) (auto simp: and_then_Inr_iff validate_column_iff)

definition where_ok :: "TableSchema \<Rightarrow> WhereClause \<Rightarrow> bool" where
  "where_ok ts w \<longleftrightarrow> (\<exists>i. usable_column ts (wc_col w) = Some i \<and> clause_ok i w)"

definition all_values :: "WhereClause list \<Rightarrow> ScalarValue list" where
  "all_values ws = concat (map clause_values ws)"

lemma compile_where_ok:
  assumes "compile_where ts d bs (slot d (length bs)) ws = Inr (parts, bs1, i1)"
  shows "(\<forall>w\<in>set ws. where_ok ts w) \<and>
    parts = map2 (\<lambda>w t. escape_ident (wc_col w) d @ t) ws (where_tails d (length bs) (map clause_shape ws)) \<and>
    (\<exists>qs. bs1 = bs @ qs \<and> map value_bind (all_values ws) = map Some qs) \<and> i1 = slot d (length bs1)"
  using assms
proof (induction ws arbitrary: bs parts)
  case (Cons w ws)
  from Cons.prems obtain column part bs2 i2 parts2 where w: "usable_column ts (wc_col w) = Some column"
      "compile_where_clause w column bs (slot d (length bs)) d = Inr (part, bs2, i2)"
      "compile_where ts d bs2 i2 ws = Inr (parts2, bs1, i1)" "parts = part # parts2"
    by (auto simp: and_then_Inr_iff validate_column_iff)
  note c = w(2) [unfolded compile_where_clause_iff]
  then obtain qs where q: "bs2 = bs @ qs" "map value_bind (clause_values w) = map Some qs" by blast
  then have l: "length bs2 = length bs + length (clause_values w)" by (metis length_append length_map)
  from c have "i2 = slot d (length bs2)" by blast
  note IH = Cons.IH [OF w(3) [unfolded this]]
  then obtain qs2 where q2: "bs1 = bs2 @ qs2" "map value_bind (all_values ws) = map Some qs2" by blast
  have "bs1 = bs @ (qs @ qs2) \<and> map value_bind (all_values (w # ws)) = map Some (qs @ qs2)"
    using q q2 by (simp add: all_values_def)
  moreover have "where_ok ts w" using w(1) c by (auto simp: where_ok_def)
  ultimately show ?case using IH c w(4) l by (auto simp: clause_shape_def)
qed (simp add: all_values_def)

lemma compile_where_total:
  "\<forall>w\<in>set ws. where_ok ts w \<Longrightarrow> \<exists>r. compile_where ts d bs (slot d (length bs)) ws = Inr r"
proof (induction ws arbitrary: bs)
  case (Cons w ws)
  then obtain i where i: "usable_column ts (wc_col w) = Some i" "clause_ok i w" by (auto simp: where_ok_def)
  then have "SNull \<notin> set (clause_values w)"
    by (cases "wc_op w") (auto simp: clause_ok_def clause_values_def)
  then obtain qs where "map value_bind (clause_values w) = map Some qs" using value_binds_total by blast
  with i have c: "compile_where_clause w i bs (slot d (length bs)) d =
      Inr (escape_ident (wc_col w) d @ clause_tail d (length bs) (wc_op w) (length (clause_values w)), bs @ qs, slot d (length (bs @ qs)))"
    unfolding compile_where_clause_iff by blast
  moreover obtain r where "compile_where ts d (bs @ qs) (slot d (length (bs @ qs))) ws = Inr r"
    using Cons.IH [of "bs @ qs"] Cons.prems by auto
  moreover have "validate_column (wc_col w) ts = Inr i" using i(1) by (simp add: validate_column_iff)
  ultimately show ?case by (cases r) simp
qed simp

section \<open>The compiled query\<close>

definition select_pieces :: "bytes list \<Rightarrow> piece list" where
  "select_pieces sel = PRaw ''SELECT '' # (if sel = [] then [PRaw ''1''] else joined '', '' (map (\<lambda>c. (c, [])) sel))"

definition where_pieces :: "Dialect \<Rightarrow> WhereCombinator option \<Rightarrow> WhereClause list \<Rightarrow> piece list" where
  "where_pieces d comb ws =
     (if ws = [] then [] else PRaw '' WHERE '' # joined (combinator_text comb) (zip (map wc_col ws) (where_tails d 0 (map clause_shape ws))))"

definition order_pieces :: "OrderBy list \<Rightarrow> piece list" where
  "order_pieces obs =
     (if obs = [] then [] else PRaw '' ORDER BY '' # joined '', '' (map (\<lambda>b. (ob_col b, '' '' @ dir_text (ob_dir b))) obs))"

definition query_pieces :: "Dialect \<Rightarrow> CannedQuery \<Rightarrow> TableSchema \<Rightarrow> piece list" where
  "query_pieces d q ts =
     select_pieces (selected_columns q ts) @ [PRaw '' FROM '', PId (ts_table ts)] @
     where_pieces d (cq_combinator q) (where_list q) @ order_pieces (order_list q) @
     [PRaw '' LIMIT '', PRaw (placeholder d (Suc (length (all_values (where_list q)))))]"

definition accepts_query :: "CannedQuery \<Rightarrow> TableSchema \<Rightarrow> bool" where
  "accepts_query q ts \<longleftrightarrow>
     cq_table q = ts_table ts \<and>
     (\<forall>c\<in>set (selected_columns q ts). usable_column ts c \<noteq> None) \<and>
     (\<forall>w\<in>set (where_list q). where_ok ts w) \<and>
     (\<forall>b\<in>set (order_list q). usable_column ts (ob_col b) \<noteq> None) \<and>
     (\<forall>r. cq_limit q = Some r \<longrightarrow> r \<le> hard_cap ts)"

lemma slot_1: "slot d 0 = 1"
  by (simp add: slot_def)

lemma sum_shapes: "sum_list (map snd (map clause_shape ws)) = length (all_values ws)"
  by (induction ws) (simp_all add: clause_shape_def all_values_def)

abbreviation text_first :: "piece list \<Rightarrow> bool" where
  "text_first ps \<equiv> (case ps of PId _ # _ \<Rightarrow> False | _ \<Rightarrow> True)"

lemma text_first_append: "text_first ps \<Longrightarrow> text_first qs \<Longrightarrow> text_first (ps @ qs)"
  by (cases ps) auto

lemma combinator_separates: "combinator_text c \<noteq> [] \<and> unquoted (combinator_text c)"
  by (auto simp: combinator_text_def split: option.splits WhereCombinator.splits)

lemma wf_where_pieces: "wf_pieces (where_pieces d comb ws)"
proof -
  have "\<forall>t\<in>set (map snd (zip (map wc_col ws) (where_tails d 0 (map clause_shape ws)))). unquoted t"
    using unquoted_where_tails by (auto dest: set_zip_rightD)
  with combinator_separates [of comb] show ?thesis by (simp add: where_pieces_def wf_joined)
qed

lemma wf_order_pieces: "wf_pieces (order_pieces obs)"
proof -
  have "unquoted ('' '' @ dir_text dir)" for dir by (cases dir) (simp_all add: dir_text_def)
  then show ?thesis by (simp add: order_pieces_def wf_joined)
qed

lemma wf_query_pieces: "wf_pieces (query_pieces d q ts)"
proof -
  have "placeholder d j \<noteq> []" for j by (cases d) (simp_all add: placeholder_def)
  then have lim: "wf_pieces [PRaw '' LIMIT '', PRaw (placeholder d j)]" for j
    using unquoted_placeholder [of d j] by (simp add: unquoted_def)
  have first: "text_first (where_pieces d c ws)" "text_first (order_pieces obs)" for c ws obs
    by (simp_all add: where_pieces_def order_pieces_def)
  have "wf_pieces (select_pieces sel)" for sel by (simp add: select_pieces_def wf_joined)
  with lim first wf_where_pieces wf_order_pieces show ?thesis
    unfolding query_pieces_def by (intro wf_pieces_append text_first_append) simp_all
qed

lemma raw_select_pieces:
  "raw_text (tokens (select_pieces sel)) = ''SELECT '' @ (if sel = [] then ''1'' else join '', '' (replicate (length sel) []))"
proof -
  have "map snd (map (\<lambda>c. (c, [])) sel) = replicate (length sel) ([] :: bytes)" by (induction sel) simp_all
  then show ?thesis by (simp add: select_pieces_def raw_joined del: map_map)
qed

lemma raw_where_pieces:
  "raw_text (tokens (where_pieces d comb ws)) =
     (if ws = [] then [] else '' WHERE '' @ join (combinator_text comb) (where_tails d 0 (map clause_shape ws)))"
  by (simp add: where_pieces_def raw_joined)

lemma raw_order_pieces:
  "raw_text (tokens (order_pieces obs)) =
     (if obs = [] then [] else '' ORDER BY '' @ join '', '' (map (\<lambda>dir. '' '' @ dir_text dir) (map ob_dir obs)))"
  by (simp add: order_pieces_def raw_joined comp_def)

lemma raw_query_pieces:
  "raw_text (tokens (query_pieces d q ts)) =
     skeleton d (length (selected_columns q ts)) (cq_combinator q) (map clause_shape (where_list q)) (map ob_dir (order_list q))"
  unfolding query_pieces_def tokens_append tokens_split raw_select_pieces raw_where_pieces raw_order_pieces
  unfolding skeleton_def sum_shapes by simp

lemma idents_query_pieces:
  "idents (tokens (query_pieces d q ts)) =
     selected_columns q ts @ [ts_table ts] @ map wc_col (where_list q) @ map ob_col (order_list q)"
  by (simp add: query_pieces_def select_pieces_def where_pieces_def order_pieces_def idents_joined comp_def)

lemma where_part_ok:
  assumes "where_part q ts d text0 = Inr (text1, bs, i)"
  shows "(\<forall>w\<in>set (where_list q). where_ok ts w) \<and> text1 = text0 @ render d (where_pieces d (cq_combinator q) (where_list q)) \<and>
    map value_bind (all_values (where_list q)) = map Some bs \<and> i = slot d (length (all_values (where_list q)))"
proof (cases "where_list q = []")
  case True
  with assms show ?thesis by (simp add: where_part_def where_pieces_def all_values_def slot_1)
next
  case False
  let ?ws = "where_list q"
  let ?tails = "where_tails d 0 (map clause_shape ?ws)"
  from assms False obtain parts where p: "compile_where ts d [] 1 ?ws = Inr (parts, bs, i)"
      "text1 = text0 @ '' WHERE '' @ join (combinator_text (cq_combinator q)) parts"
    by (auto simp: where_part_def and_then_Inr_iff)
  have c: "(\<forall>w\<in>set ?ws. where_ok ts w)" "parts = map2 (\<lambda>w t. escape_ident (wc_col w) d @ t) ?ws ?tails"
      "map value_bind (all_values ?ws) = map Some bs" "i = slot d (length bs)"
    using compile_where_ok [of ts d "[]" ?ws parts bs i] p(1) by (simp_all add: slot_1)
  have "length bs = length (all_values ?ws)" using c(3) by (metis length_map)
  moreover have "map (\<lambda>(c, t). escape_ident c d @ t) (zip (map wc_col ?ws) ?tails) = parts"
    unfolding c(2) zip_map1 by (simp add: split_def)
  then have "render d (where_pieces d (cq_combinator q) ?ws) = '' WHERE '' @ join (combinator_text (cq_combinator q)) parts"
    using False by (simp only: where_pieces_def if_False render.simps render_joined)
  ultimately show ?thesis using c p(2) by simp
qed

lemma order_part_iff:
  "order_part q ts d text1 = Inr text2 \<longleftrightarrow>
    (\<forall>b\<in>set (order_list q). usable_column ts (ob_col b) \<noteq> None) \<and> text2 = text1 @ render d (order_pieces (order_list q))"
  by (auto simp: order_part_def and_then_Inr_iff compile_order_iff order_pieces_def render_joined comp_def)

lemma limit_part_iff: "limit_part q ts = Inr u \<longleftrightarrow> (\<forall>r. cq_limit q = Some r \<longrightarrow> r \<le> hard_cap ts)"
  by (auto simp: limit_part_def split: option.splits)

lemma select_text_render:
  "select_text q ts d = render d (select_pieces (selected_columns q ts) @ [PRaw '' FROM '', PId (ts_table ts)])"
  by (simp add: select_text_def select_pieces_def render_joined comp_def Let_def)

lemma compile_ok:
  assumes "compile_to_sql_for q ts d = Inr c"
  shows "accepts_query q ts \<and> sql c = render d (query_pieces d q ts) \<and>
    (\<exists>qs. binds c = qs @ [QU64 (bound_limit q ts)] \<and> map value_bind (all_values (where_list q)) = map Some qs)"
proof -
  from assms obtain text1 bs i text2 where s: "cq_table q = ts_table ts" "validate_columns ts (selected_columns q ts) = Inr ()"
    "where_part q ts d (select_text q ts d) = Inr (text1, bs, i)" "order_part q ts d text1 = Inr text2" "limit_part q ts = Inr ()"
    "c = \<lparr>sql = text2 @ '' LIMIT '' @ fst (next_placeholder d i), binds = bs @ [QU64 (bound_limit q ts)]\<rparr>"
    by (auto simp: compile_to_sql_for_def and_then_Inr_iff split: if_splits)
  show ?thesis
    using s(1,2,6) where_part_ok [OF s(3)] s(4) [unfolded order_part_iff] s(5) [unfolded limit_part_iff]
    by (simp add: accepts_query_def validate_columns_iff query_pieces_def next_placeholder_slot select_text_render)
qed

lemma compile_total:
  assumes "accepts_query q ts"
  shows "\<exists>c. compile_to_sql_for q ts d = Inr c"
proof -
  from assms have a: "cq_table q = ts_table ts" "validate_columns ts (selected_columns q ts) = Inr ()"
      "\<forall>w\<in>set (where_list q). where_ok ts w" "\<forall>b\<in>set (order_list q). usable_column ts (ob_col b) \<noteq> None"
      "limit_part q ts = Inr ()"
    by (simp_all add: accepts_query_def validate_columns_iff limit_part_iff)
  obtain r where "compile_where ts d [] 1 (where_list q) = Inr r"
    using compile_where_total [OF a(3), of d "[]"] by (auto simp: slot_1)
  then obtain text1 bs i where "where_part q ts d (select_text q ts d) = Inr (text1, bs, i)"
    by (cases r; cases "where_list q = []") (auto simp: where_part_def simp del: One_nat_def)
  moreover obtain text2 where "order_part q ts d text1 = Inr text2"
    using a(4) by (simp add: order_part_iff)
  ultimately show ?thesis using a by (simp add: compile_to_sql_for_def)
qed

text \<open>
  C4: no injection. When a query compiles, the SQL text lexes, its quoted identifiers are exactly the
  selected columns, the table and the columns of the conditions and of the order, and everything
  outside the quotes is a skeleton computed from the number of columns and values, the operators, the
  combinator and the directions: no name and no value of the query occurs there.
\<close>

theorem compiled_sql_is_skeleton:
  assumes "compile_to_sql_for q ts d = Inr c"
  shows "\<exists>tks. sql_lex (quote_char d) (sql c) = Some tks \<and>
    idents tks = selected_columns q ts @ [ts_table ts] @ map wc_col (where_list q) @ map ob_col (order_list q) \<and>
    raw_text tks = skeleton d (length (selected_columns q ts)) (cq_combinator q) (map clause_shape (where_list q)) (map ob_dir (order_list q))"
  using compile_ok [OF assms] wf_query_pieces
  by (intro exI [of _ "tokens (query_pieces d q ts)"]) (simp add: lex_render idents_query_pieces raw_query_pieces)

definition demo_schema :: TableSchema where
  "demo_schema = \<lparr>ts_table = ''t'', ts_table_token = ''T'', ts_columns =
     [\<lparr>ci_name = ''a`b'', ci_name_token = ''A'', ci_data_type = ''TEXT'', ci_nullable = True, ci_allowed = True\<rparr>], ts_limit_cap = Some 10\<rparr>"

definition demo_query :: CannedQuery where
  "demo_query = \<lparr>cq_profile = ''p'', cq_table = ''t'', cq_columns = None,
     cq_where = Some [\<lparr>wc_col = ''a`b'', wc_op = OpIn, wc_val = Some (ListOf [SString ''` OR 1=1'', SU64 3])\<rparr>],
     cq_combinator = None, cq_order_by = None, cq_limit = Some 10\<rparr>"

definition demo_compiled :: CompiledQuery where
  "demo_compiled = \<lparr>sql = ''SELECT `a``b` FROM `t` WHERE `a``b` IN (?, ?) LIMIT ?'',
     binds = [QString ''` OR 1=1'', QU64 3, QU64 11]\<rparr>"

lemma demo_compile: "compile_to_sql_for demo_query demo_schema Mysql = Inr demo_compiled"
  by code_simp

theorem compiled_sql_is_skeleton_witness:
  "\<exists>tks. sql_lex (quote_char Mysql) (sql demo_compiled) = Some tks \<and> idents tks = [''a`b'', ''t'', ''a`b'']"
proof -
  have "selected_columns demo_query demo_schema @ [ts_table demo_schema] @ map wc_col (where_list demo_query) @ map ob_col (order_list demo_query)
      = [''a`b'', ''t'', ''a`b'']" by code_simp
  with compiled_sql_is_skeleton [OF demo_compile] show ?thesis by metis
qed

text \<open>
  C29: a query compiles exactly when it names the schema's table, selects, filters and sorts only by
  columns the schema policy allows, gives each operator the operand it needs and asks for no more
  rows than the cap; the verdict does not depend on the dialect.
\<close>

theorem compile_accepts_exactly: "(\<exists>c. compile_to_sql_for q ts d = Inr c) \<longleftrightarrow> accepts_query q ts"
  using compile_ok compile_total by blast

section \<open>Placeholders\<close>

definition marker :: "Dialect \<Rightarrow> char" where
  "marker d = (if d = Postgres then CHR ''$'' else CHR ''?'')"

lemma count_join:
  "m \<notin> set sep \<Longrightarrow> count_list (join sep xs) m = sum_list (map (\<lambda>x. count_list x m) xs)"
  by (induction sep xs rule: join.induct) (auto simp: count_list_0_iff)

lemma count_placeholder [simp]: "count_list (placeholder d j) (marker d) = 1"
proof -
  have "count_list s (CHR ''$'') = 0" if "all_digits s" for s using that by (induction s) (auto simp: is_ascii_digit_def)
  moreover have "all_digits (nat_to_string j)" using nat_to_string_canonical by (simp add: canonical_digits_def)
  ultimately show ?thesis by (cases d) (simp_all add: placeholder_def marker_def)
qed

lemma marker_literals [simp]:
  "marker d \<noteq> CHR '' ''" "marker d \<noteq> CHR '',''" "marker d \<noteq> CHR ''(''" "marker d \<noteq> CHR '')''"
  "is_ascii_alphabetic c \<Longrightarrow> marker d \<noteq> c" "is_ascii_alphabetic c \<Longrightarrow> c \<noteq> marker d"
  "CHR '' '' \<noteq> marker d" "CHR '','' \<noteq> marker d" "CHR ''('' \<noteq> marker d" "CHR '')'' \<noteq> marker d" "CHR ''1'' \<noteq> marker d"
  by (auto simp: marker_def is_ascii_alphabetic_def)

definition unmarked :: "bytes \<Rightarrow> bool" where
  "unmarked s \<longleftrightarrow> CHR ''$'' \<notin> set s \<and> CHR ''?'' \<notin> set s"

lemma count_unmarked [simp]: "unmarked s \<Longrightarrow> count_list s (marker d) = 0"
  by (auto simp: unmarked_def marker_def count_list_0_iff)

lemma unmarked_marker: "unmarked s \<Longrightarrow> marker d \<notin> set s"
  by (auto simp: unmarked_def marker_def)

lemma unmarked_sql_operator: "unmarked (sql_operator op)"
  by (cases op) (simp_all add: sql_operator_def unmarked_def)

lemma count_slots: "count_list (join '', '' (map (placeholder d) ns)) (marker d) = length ns"
proof -
  have "marker d \<notin> set '', ''" by simp
  from count_join [OF this] show ?thesis by (simp add: comp_def sum_list_triv)
qed

lemma count_clause_tail:
  assumes "clause_ok i w"
  shows "count_list (clause_tail d n (wc_op w) (length (clause_values w))) (marker d) = length (clause_values w)"
proof -
  have lits: "unmarked '' IS NULL''" "unmarked '' IS NOT NULL''" "unmarked '' IN (''" "unmarked '')''" "unmarked '' ''"
    by (simp_all add: unmarked_def)
  consider (null) "clause_values w = []" "wc_op w = OpIsNull \<or> wc_op w = OpIsNotNull" | (list) "wc_op w = OpIn"
    | (scalar) v where "clause_values w = [v]" "wc_op w \<notin> {OpIsNull, OpIsNotNull, OpIn}"
    using assms by (cases "wc_op w") (auto simp: clause_ok_def clause_values_def)
  then show ?thesis
  proof cases
    case null
    then show ?thesis using lits(1,2) by (auto simp only: clause_tail_def WhereOp.case list.size count_unmarked)
  next
    case list
    then show ?thesis
      by (simp only: clause_tail_def WhereOp.case count_list_append count_slots count_unmarked lits length_upt)
  next
    case scalar
    then have "clause_tail d n (wc_op w) (length (clause_values w)) = '' '' @ sql_operator (wc_op w) @ '' '' @ placeholder d (Suc n)"
      by (cases "wc_op w") (simp_all add: clause_tail_def)
    then show ?thesis
      using scalar(1) by (simp only: count_list_append count_unmarked lits unmarked_sql_operator count_placeholder) simp
  qed
qed

lemma count_where_tails:
  "\<forall>w\<in>set ws. where_ok ts w \<Longrightarrow>
     sum_list (map (\<lambda>x. count_list x (marker d)) (where_tails d n (map clause_shape ws))) = length (all_values ws)"
  by (induction ws arbitrary: n) (auto simp: clause_shape_def all_values_def where_ok_def count_clause_tail)

lemma count_skeleton:
  assumes "\<forall>w\<in>set ws. where_ok ts w"
  shows "count_list (skeleton d n comb (map clause_shape ws) dirs) (marker d) = Suc (length (all_values ws))"
proof -
  have lits: "unmarked ''SELECT ''" "unmarked '' FROM ''" "unmarked '' WHERE ''" "unmarked '' ORDER BY ''" "unmarked '' LIMIT ''"
      "unmarked '', ''" "unmarked ''1''" "unmarked []"
    by (simp_all add: unmarked_def)
  have comb: "unmarked (combinator_text comb)"
    by (auto simp: combinator_text_def unmarked_def split: option.splits WhereCombinator.splits)
  have cols: "count_list (if n = 0 then ''1'' else join '', '' (replicate n [])) (marker d) = 0"
    using count_unmarked [OF lits(7)] by (simp add: count_join [OF unmarked_marker [OF lits(6)]] map_replicate_const sum_list_replicate)
  have "unmarked ('' '' @ dir_text dir)" for dir by (cases dir) (auto simp: dir_text_def unmarked_def)
  then have "count_list ('' '' @ dir_text dir) (marker d) = 0" for dir by (rule count_unmarked)
  then have dirs: "count_list (join '', '' (map (\<lambda>dir. '' '' @ dir_text dir) dirs)) (marker d) = 0"
    by (simp only: count_join [OF unmarked_marker [OF lits(6)]] map_map comp_def) simp
  have tails: "count_list (join (combinator_text comb) (where_tails d 0 (map clause_shape ws))) (marker d) = length (all_values ws)"
    by (simp only: count_join [OF unmarked_marker [OF comb]] count_where_tails [OF assms])
  have w: "count_list (if map clause_shape ws = [] then [] else '' WHERE '' @ join (combinator_text comb) (where_tails d 0 (map clause_shape ws))) (marker d)
      = length (all_values ws)"
    using count_unmarked [OF lits(3)] tails by (simp only: count_list_append split: if_split) (simp add: all_values_def)
  have o: "count_list (if dirs = [] then [] else '' ORDER BY '' @ join '', '' (map (\<lambda>dir. '' '' @ dir_text dir) dirs)) (marker d) = 0"
    using count_unmarked [OF lits(4)] dirs by (simp only: count_list_append split: if_split) simp
  show ?thesis
    unfolding skeleton_def count_list_append cols w o count_unmarked [OF lits(1)] count_unmarked [OF lits(2)]
      count_unmarked [OF lits(5)] count_placeholder by simp
qed

text \<open>
  The binds of a compiled query are the values of its conditions in order, followed by the row
  limit; outside the quotes there is one placeholder for each of them. The limit never exceeds the
  cap by more than the one probe row, and a caller limit below the cap is bound as it is.
\<close>

theorem binds_match_placeholders:
  assumes "compile_to_sql_for q ts d = Inr c"
  shows "map Some (butlast (binds c)) = map value_bind (all_values (where_list q)) \<and>
    (\<exists>l. last (binds c) = QU64 l \<and> l \<le> hard_cap ts + 1 \<and> (\<forall>r. cq_limit q = Some r \<and> r < hard_cap ts \<longrightarrow> l = r)) \<and>
    (\<exists>tks. sql_lex (quote_char d) (sql c) = Some tks \<and>
       count_list (raw_text tks) (if d = Postgres then CHR ''$'' else CHR ''?'') = length (binds c))"
proof -
  from compile_ok [OF assms] obtain qs where a: "accepts_query q ts" "sql c = render d (query_pieces d q ts)"
      "binds c = qs @ [QU64 (bound_limit q ts)]" "map value_bind (all_values (where_list q)) = map Some qs" by blast
  let ?tks = "tokens (query_pieces d q ts)"
  have "length qs = length (all_values (where_list q))" using a(4) by (metis length_map)
  then have "count_list (raw_text ?tks) (marker d) = length (binds c)"
    using a(1,3) unfolding accepts_query_def raw_query_pieces by (simp add: count_skeleton [where ts = ts])
  moreover have "sql_lex (quote_char d) (sql c) = Some ?tks" using a(2) wf_query_pieces by (simp add: lex_render)
  moreover have "bound_limit q ts \<le> hard_cap ts + 1" "cq_limit q = Some r \<and> r < hard_cap ts \<longrightarrow> bound_limit q ts = r" for r
    using a(1) by (auto simp: bound_limit_def accepts_query_def le_SucI split: option.splits)
  ultimately show ?thesis using a(3,4) unfolding marker_def by (intro conjI) (simp, force, blast)
qed

theorem binds_match_placeholders_witness:
  "map Some (butlast (binds demo_compiled)) = map value_bind (all_values (where_list demo_query)) \<and>
   (\<exists>tks. sql_lex (quote_char Mysql) (sql demo_compiled) = Some tks \<and> count_list (raw_text tks) (CHR ''?'') = 3)"
proof -
  have "length (binds demo_compiled) = 3" by code_simp
  with binds_match_placeholders [OF demo_compile] show ?thesis by simp
qed

end
