(* ===== verification/Schema_Tokenizer.thy ===== *)
theory Schema_Tokenizer
  imports Sql_Compile
begin

text \<open>
  Presentation tokens for table and column names, \<^verbatim>\<open>src/source/db/schema.rs\<close>. The tokenizer's mutex
  holds two association lists (name to token); every request is one step on that state.
\<close>

section \<open>State and operations\<close>

record SchemaTokenizerInner =
  table_tokens :: "(bytes \<times> bytes) list"
  column_tokens :: "(bytes \<times> bytes) list"

definition tokenizer_new :: SchemaTokenizerInner where
  "tokenizer_new = \<lparr>table_tokens = [], column_tokens = []\<rparr>"

definition default_schema_allowlist :: "bytes list" where
  "default_schema_allowlist = [''id'', ''created_at'', ''updated_at'', ''deleted_at'', ''status'', ''type'']"

definition is_default_allowed_name :: "bytes \<Rightarrow> bool" where
  "is_default_allowed_name v \<longleftrightarrow> ends_with v ''_at'' \<or> v \<in> set default_schema_allowlist"

definition schema_allowlist :: "bytes list option \<Rightarrow> bytes list" where
  "schema_allowlist profile = default_schema_allowlist @ (case profile of None \<Rightarrow> [] | Some xs \<Rightarrow> xs)"

text \<open>\<^verbatim>\<open>{:03}\<close>.\<close>

definition pad3 :: "nat \<Rightarrow> bytes" where
  "pad3 n = (let s = nat_to_string n in replicate (3 - length s) (CHR ''0'') @ s)"

definition format_token :: "bytes \<Rightarrow> nat \<Rightarrow> bytes" where
  "format_token pre n = ''<'' @ pre @ ''_'' @ pad3 n @ ''>''"

definition token_for :: "SchemaTokenizerInner \<Rightarrow> bytes \<Rightarrow> bytes \<Rightarrow> bytes list \<Rightarrow> bytes \<times> SchemaTokenizerInner" where
  "token_for st pre v allow =
     (if v \<in> set allow \<or> is_default_allowed_name v then (v, st)
      else
        (let m = (if pre = ''TABLE'' then table_tokens st else column_tokens st)
         in case map_of m v of
              Some t \<Rightarrow> (t, st)
            | None \<Rightarrow>
                (let t = format_token pre (length m + 1); m1 = m @ [(v, t)]
                 in (t, if pre = ''TABLE'' then st\<lparr>table_tokens := m1\<rparr> else st\<lparr>column_tokens := m1\<rparr>))))"

fun tokens_for :: "SchemaTokenizerInner \<Rightarrow> bytes \<Rightarrow> bytes list \<Rightarrow> bytes list \<Rightarrow> bytes list \<times> SchemaTokenizerInner" where
  "tokens_for st pre [] allow = ([], st)"
| "tokens_for st pre (v # vs) allow =
     (let (t, st1) = token_for st pre v allow; (ts, st2) = tokens_for st1 pre vs allow in (t # ts, st2))"

definition column_allowed :: "bytes list option \<Rightarrow> ColumnInfo \<Rightarrow> bool" where
  "column_allowed profile c =
     (let allow = schema_allowlist profile in
      if profile \<noteq> None then ci_name c \<in> set allow \<or> is_default_allowed_name (ci_name c)
      else ci_allowed c \<or> ci_name c \<in> set allow)"

definition tokenize_table_schema ::
  "SchemaTokenizerInner \<Rightarrow> TableSchema \<Rightarrow> bytes list option \<Rightarrow> TableSchema \<times> SchemaTokenizerInner" where
  "tokenize_table_schema st ts profile =
     (let allow = schema_allowlist profile;
          (table_token, st1) = token_for st ''TABLE'' (ts_table ts) allow;
          (cts, st2) = tokens_for st1 ''COL'' (map ci_name (ts_columns ts)) allow
      in (ts\<lparr>ts_table_token := table_token,
             ts_columns := map2 (\<lambda>c t. c\<lparr>ci_name_token := t, ci_allowed := column_allowed profile c\<rparr>) (ts_columns ts) cts\<rparr>, st2))"

definition tokenize_table_names ::
  "SchemaTokenizerInner \<Rightarrow> bytes list \<Rightarrow> bytes list option \<Rightarrow> bytes list \<times> SchemaTokenizerInner" where
  "tokenize_table_names st tables profile = tokens_for st ''TABLE'' tables (schema_allowlist profile)"

section \<open>Tokens are numbers\<close>

lemma pad3_digits: "all_digits (pad3 n)" "digits_value (pad3 n) = n"
proof -
  have z: "digits_value (replicate k (CHR ''0'') @ s) = digits_value s" for k s
    by (induction k) (simp_all add: digits_value_Cons digit_value_def)
  show "all_digits (pad3 n)"
    using nat_to_string_canonical [of n] by (simp add: pad3_def Let_def canonical_digits_def)
  show "digits_value (pad3 n) = n" by (simp add: pad3_def Let_def z)
qed

lemma format_token_inj: "format_token pre m = format_token pre n \<longleftrightarrow> m = n"
  unfolding format_token_def by (metis append_same_eq pad3_digits(2) same_append_eq)

section \<open>Any sequence of requests\<close>

record Request =
  rq_table :: bool
  rq_name :: bytes
  rq_allow :: "bytes list"

definition rq_prefix :: "Request \<Rightarrow> bytes" where
  "rq_prefix r = (if rq_table r then ''TABLE'' else ''COL'')"

definition rq_hidden :: "Request \<Rightarrow> bool" where
  "rq_hidden r \<longleftrightarrow> rq_name r \<notin> set (rq_allow r) \<and> \<not> is_default_allowed_name (rq_name r)"

fun tok_run :: "SchemaTokenizerInner \<Rightarrow> Request list \<Rightarrow> bytes list" where
  "tok_run st [] = []"
| "tok_run st (r # rs) = (let (t, st1) = token_for st (rq_prefix r) (rq_name r) (rq_allow r) in t # tok_run st1 rs)"

text \<open>
  Specification: the hidden names of one kind in the order of their first request; a token is the
  position of its name in that list.
\<close>

definition note_name :: "bool \<Rightarrow> Request \<Rightarrow> bytes list \<Rightarrow> bytes list" where
  "note_name k r acc = (if rq_table r = k \<and> rq_hidden r \<and> rq_name r \<notin> set acc then acc @ [rq_name r] else acc)"

fun seen :: "bool \<Rightarrow> bytes list \<Rightarrow> Request list \<Rightarrow> bytes list" where
  "seen k acc [] = acc"
| "seen k acc (r # rs) = seen k (note_name k r acc) rs"

fun rank :: "'a list \<Rightarrow> 'a \<Rightarrow> nat" where
  "rank [] v = 0"
| "rank (x # xs) v = (if x = v then 1 else Suc (rank xs v))"

lemma rank_append: "v \<in> set xs \<Longrightarrow> rank (xs @ ys) v = rank xs v"
  by (induction xs) auto

lemma rank_snoc: "v \<notin> set xs \<Longrightarrow> rank (xs @ [v]) v = Suc (length xs)"
  by (induction xs) auto

lemma rank_inj: "v \<in> set xs \<Longrightarrow> w \<in> set xs \<Longrightarrow> rank xs v = rank xs w \<longleftrightarrow> v = w"
proof (induction xs)
  case (Cons x xs)
  have "rank xs y \<noteq> 0" if "y \<in> set xs" for y using that by (cases xs) auto
  with Cons show ?case by auto
qed simp

lemma rank_bounds: "v \<in> set xs \<Longrightarrow> 1 \<le> rank xs v \<and> rank xs v \<le> length xs"
  by (induction xs) auto

definition numbered :: "bytes \<Rightarrow> bytes list \<Rightarrow> (bytes \<times> bytes) list" where
  "numbered pre vs = zip vs (map (\<lambda>i. format_token pre (Suc i)) [0..<length vs])"

definition tok_state :: "bytes list \<Rightarrow> bytes list \<Rightarrow> SchemaTokenizerInner" where
  "tok_state ts cs = \<lparr>table_tokens = numbered ''TABLE'' ts, column_tokens = numbered ''COL'' cs\<rparr>"

lemma numbered_snoc: "numbered pre (vs @ [v]) = numbered pre vs @ [(v, format_token pre (Suc (length vs)))]"
  by (simp add: numbered_def)

lemma length_numbered [simp]: "length (numbered pre vs) = length vs"
  by (simp add: numbered_def)

lemma numbered_Nil [simp]: "numbered pre [] = []"
  by (simp add: numbered_def)

lemma map_of_numbered: "map_of (numbered pre vs) v = (if v \<in> set vs then Some (format_token pre (rank vs v)) else None)"
proof (induction vs rule: rev_induct)
  case (snoc x vs)
  then show ?case
    by (auto simp: numbered_snoc map_add_def rank_append rank_snoc simp flip: One_nat_def split: option.splits)
qed simp

lemma token_for_step:
  "token_for (tok_state ts cs) (rq_prefix r) (rq_name r) (rq_allow r) =
    (if rq_hidden r then format_token (rq_prefix r) (rank (note_name (rq_table r) r (if rq_table r then ts else cs)) (rq_name r)) else rq_name r,
     tok_state (note_name True r ts) (note_name False r cs))"
proof (cases "rq_hidden r")
  case False
  then show ?thesis by (auto simp: token_for_def rq_hidden_def note_name_def)
next
  case True
  then have "\<not> (rq_name r \<in> set (rq_allow r) \<or> is_default_allowed_name (rq_name r))" by (simp add: rq_hidden_def)
  then show ?thesis
    using True by (cases "rq_table r")
      (auto simp: token_for_def note_name_def rq_prefix_def tok_state_def map_of_numbered numbered_snoc rank_snoc Let_def)
qed

lemma note_name_grows: "\<exists>ext. note_name k r acc = acc @ ext"
  by (simp add: note_name_def)

lemma seen_grows: "\<exists>ext. seen k acc rs = acc @ ext"
proof (induction k acc rs rule: seen.induct)
  case (2 k acc r rs)
  then show ?case using note_name_grows [of k r acc] by auto
qed simp

lemma noted: "rq_hidden r \<Longrightarrow> rq_name r \<in> set (note_name (rq_table r) r acc)"
  by (simp add: note_name_def)

lemma seen_contains:
  "i < length rs \<Longrightarrow> rq_hidden (rs ! i) \<Longrightarrow> rq_name (rs ! i) \<in> set (seen (rq_table (rs ! i)) acc rs)"
proof (induction rs arbitrary: i acc)
  case (Cons r rs)
  show ?case
  proof (cases i)
    case 0
    then show ?thesis
      using seen_grows [of "rq_table r" "note_name (rq_table r) r acc" rs] noted [of r acc] Cons.prems by auto
  next
    case (Suc j)
    with Cons show ?thesis by simp
  qed
qed simp

lemma length_seen: "length (seen k acc rs) \<le> length acc + length rs"
proof (induction k acc rs rule: seen.induct)
  case (2 k acc r rs)
  have "length (note_name k r acc) \<le> Suc (length acc)" by (simp add: note_name_def)
  with 2 show ?case by simp
qed simp

lemma tok_run_seen:
  "i < length rs \<Longrightarrow> tok_run (tok_state ts cs) rs ! i =
     (if rq_hidden (rs ! i) then format_token (rq_prefix (rs ! i))
        (rank (seen (rq_table (rs ! i)) (if rq_table (rs ! i) then ts else cs) rs) (rq_name (rs ! i)))
      else rq_name (rs ! i))"
proof (induction rs arbitrary: i ts cs)
  case (Cons r rs)
  show ?case
  proof (cases i)
    case 0
    let ?acc = "note_name (rq_table r) r (if rq_table r then ts else cs)"
    obtain ext where e: "seen (rq_table r) (if rq_table r then ts else cs) (r # rs) = ?acc @ ext"
      using seen_grows [of "rq_table r" ?acc rs] by auto
    have "rank (?acc @ ext) (rq_name r) = rank ?acc (rq_name r)" if "rq_hidden r"
      using noted [OF that] by (rule rank_append)
    with 0 e token_for_step [of ts cs r] show ?thesis
      by (cases "rq_hidden r") (simp_all only: tok_run.simps Let_def split_def fst_conv snd_conv nth_Cons_0 if_True if_False)
  next
    case (Suc j)
    with Cons.IH [of j] Cons.prems token_for_step [of ts cs r] show ?thesis
      by (simp add: split_def Let_def)
  qed
qed simp

lemma tokenizer_new_state: "tokenizer_new = tok_state [] []"
  by (simp add: tokenizer_new_def tok_state_def)

text \<open>
  C30: over any sequence of requests the tokenizer shows a name only when an allow-list or the default
  rule permits it; every other name is shown as a number of its kind between 1 and the number of
  requests, and two such requests of the same kind get the same token exactly when they name the same
  thing, no matter what was asked in between.
\<close>

theorem tokens_are_stable_pseudonyms:
  fixes rs :: "Request list"
  defines "outs \<equiv> tok_run tokenizer_new rs"
  assumes "i < length rs" "j < length rs"
  shows "(\<not> rq_hidden (rs ! i) \<longrightarrow> outs ! i = rq_name (rs ! i)) \<and>
    (rq_hidden (rs ! i) \<longrightarrow> (\<exists>n. 1 \<le> n \<and> n \<le> length rs \<and> outs ! i = format_token (rq_prefix (rs ! i)) n)) \<and>
    (rq_hidden (rs ! i) \<and> rq_hidden (rs ! j) \<and> rq_table (rs ! i) = rq_table (rs ! j) \<longrightarrow>
       (outs ! i = outs ! j \<longleftrightarrow> rq_name (rs ! i) = rq_name (rs ! j)))"
proof -
  let ?seen = "\<lambda>k. seen k [] rs"
  have out: "outs ! k = (if rq_hidden (rs ! k) then format_token (rq_prefix (rs ! k)) (rank (?seen (rq_table (rs ! k))) (rq_name (rs ! k)))
      else rq_name (rs ! k))" if "k < length rs" for k
    using tok_run_seen [OF that, of "[]" "[]"] by (simp add: outs_def tokenizer_new_state)
  have mem: "rq_hidden (rs ! k) \<Longrightarrow> rq_name (rs ! k) \<in> set (?seen (rq_table (rs ! k)))" if "k < length rs" for k
    using seen_contains [OF that] by blast
  have "rq_hidden (rs ! i) \<Longrightarrow> 1 \<le> rank (?seen (rq_table (rs ! i))) (rq_name (rs ! i)) \<and>
      rank (?seen (rq_table (rs ! i))) (rq_name (rs ! i)) \<le> length rs"
    using rank_bounds [OF mem [OF assms(2)]] length_seen [of "rq_table (rs ! i)" "[]" rs] by fastforce
  moreover have "rq_hidden (rs ! i) \<and> rq_hidden (rs ! j) \<and> rq_table (rs ! i) = rq_table (rs ! j) \<Longrightarrow>
      outs ! i = outs ! j \<longleftrightarrow> rq_name (rs ! i) = rq_name (rs ! j)"
    using out [OF assms(2)] out [OF assms(3)] mem [OF assms(2)] mem [OF assms(3)]
    by (simp add: format_token_inj rank_inj rq_prefix_def)
  ultimately show ?thesis using out [OF assms(2)] by auto
qed

definition demo_requests :: "Request list" where
  "demo_requests = [\<lparr>rq_table = True, rq_name = ''users'', rq_allow = []\<rparr>, \<lparr>rq_table = False, rq_name = ''email'', rq_allow = []\<rparr>,
     \<lparr>rq_table = False, rq_name = ''seen_at'', rq_allow = []\<rparr>, \<lparr>rq_table = False, rq_name = ''email'', rq_allow = [''x'']\<rparr>]"

theorem tokens_are_stable_pseudonyms_witness:
  "tok_run tokenizer_new demo_requests ! 1 = tok_run tokenizer_new demo_requests ! 3 \<and>
   tok_run tokenizer_new demo_requests ! 1 = ''<COL_001>'' \<and> tok_run tokenizer_new demo_requests ! 2 = ''seen_at''"
proof -
  have l: "1 < length demo_requests" "2 < length demo_requests" "3 < length demo_requests" by (simp_all add: demo_requests_def)
  have h: "rq_hidden (demo_requests ! 1) \<and> rq_hidden (demo_requests ! 3) \<and> \<not> rq_hidden (demo_requests ! 2)" by code_simp
  have "tok_run tokenizer_new demo_requests ! 1 = ''<COL_001>''" by code_simp
  moreover have "rq_table (demo_requests ! 1) = rq_table (demo_requests ! 3)" "rq_name (demo_requests ! 1) = rq_name (demo_requests ! 3)"
      "rq_name (demo_requests ! 2) = ''seen_at''" by (simp_all add: demo_requests_def)
  ultimately show ?thesis
    using tokens_are_stable_pseudonyms [OF l(1) l(3)] tokens_are_stable_pseudonyms [OF l(2) l(2)] h by metis
qed

end
