(* ===== verification/Lens_Errors.thy ===== *)
theory Lens_Errors
  imports Rust_Text
begin

text \<open>
  The client's error type and the texts shown for it, \<^verbatim>\<open>src/errors.rs\<close>, with \<^verbatim>\<open>LowerError\<close> of
  \<^verbatim>\<open>src/value.rs\<close> and \<^verbatim>\<open>TruncatedAt\<close> of \<^verbatim>\<open>src/session/mod.rs\<close>. Scrubbing of a URL is written out; the
  three credential patterns of \<^verbatim>\<open>scrub_credentials\<close> and the search for URLs are the regex library's, given
  as an argument.
\<close>

section \<open>Data\<close>

datatype TruncatedAt = RowsCut | BytesCut | CellBytesCut | LineBytesCut | TimeoutCut

datatype LowerError = Decode bytes bytes | Unsupported bytes

datatype LensError =
    ManifestBeginFailed bytes bytes "bytes option"
  | ManifestFinishFailed bytes bytes "bytes option"
  | FrontendError bytes bytes
  | SourceError bytes bytes "bytes option" "bytes option"
  | RedactionFailed bytes
  | ReplayUnavailable bytes bytes
  | SnapshotPurged bytes int bytes nat
  | ScopeRejected bytes
  | ConvertError LowerError
  | ProfileEnvMissing bytes
  | SecretKeyringMissing bytes bytes
  | SecretKeyringDenied bytes bytes
  | SecretBackendUnavailable bytes bytes
  | ProfileNotFound bytes bytes
  | ProfileError bytes
  | ProfileUnknown bytes "bytes list"
  | ProfileMismatch bytes bytes bytes bytes
  | BatchPartial "bytes list" "bytes list" bytes LensError
  | FeatureDeferred bytes
  | OperationTimeout bytes bytes nat "bytes option"
  | Truncated TruncatedAt
  | InternalError bytes

definition is_invalid_params :: "LensError \<Rightarrow> bool" where
  "is_invalid_params e =
     (case e of ProfileError _ \<Rightarrow> True | ProfileEnvMissing _ \<Rightarrow> True | ProfileNotFound _ _ \<Rightarrow> True
      | ProfileUnknown _ _ \<Rightarrow> True | ProfileMismatch _ _ _ _ \<Rightarrow> True | _ \<Rightarrow> False)"

section \<open>Sanitised texts\<close>

fun truncated_name :: "TruncatedAt \<Rightarrow> bytes" where
  "truncated_name RowsCut = ''Rows''"
| "truncated_name BytesCut = ''Bytes''"
| "truncated_name CellBytesCut = ''CellBytes''"
| "truncated_name LineBytesCut = ''LineBytes''"
| "truncated_name TimeoutCut = ''Timeout''"

text \<open>\<open>dbg\<close> is the debug format of a list of strings.\<close>

fun sanitize_error :: "(bytes list \<Rightarrow> bytes) \<Rightarrow> LensError \<Rightarrow> bytes" where
  "sanitize_error dbg (ManifestBeginFailed _ _ _) = ''ManifestBeginFailed: manifest begin failed''"
| "sanitize_error dbg (ManifestFinishFailed _ _ _) = ''ManifestFinishFailed: manifest finish failed''"
| "sanitize_error dbg (FrontendError _ _) = ''FrontendError: frontend failed''"
| "sanitize_error dbg (SourceError _ _ _ _) = ''SourceError: source failed''"
| "sanitize_error dbg (RedactionFailed _) = ''RedactionFailed: redaction failed''"
| "sanitize_error dbg (ReplayUnavailable _ _) = ''ReplayUnavailable: replay unavailable''"
| "sanitize_error dbg (SnapshotPurged _ _ _ _) = ''SnapshotPurged: snapshot purged by retention policy''"
| "sanitize_error dbg (ScopeRejected _) = ''ScopeRejected: unsupported session scope''"
| "sanitize_error dbg (ConvertError (Decode kind _)) = ''ConvertError: decode failure for '' @ kind"
| "sanitize_error dbg (ConvertError (Unsupported _)) = ''ConvertError: unsupported source type''"
| "sanitize_error dbg (ProfileEnvMissing env) = ''ProfileEnvMissing: missing environment variable '' @ env"
| "sanitize_error dbg (SecretKeyringMissing service account) =
     ''SecretKeyringMissing: missing keyring entry service='' @ service @ '' account='' @ account"
| "sanitize_error dbg (SecretKeyringDenied service account) =
     ''SecretKeyringDenied: keyring access denied service='' @ service @ '' account='' @ account"
| "sanitize_error dbg (SecretBackendUnavailable backend _) =
     ''SecretBackendUnavailable: '' @ backend @ '' backend unavailable''"
| "sanitize_error dbg (ProfileNotFound label path) = ''ProfileNotFound: '' @ label @ '' not found: '' @ path"
| "sanitize_error dbg (ProfileError detail) = ''Profile: '' @ detail"
| "sanitize_error dbg (ProfileUnknown profile loaded) =
     ''ProfileUnknown: profile `'' @ profile @ ''` not found; loaded: '' @ dbg loaded"
| "sanitize_error dbg (ProfileMismatch profile tool required actual) =
     ''ProfileMismatch: profile `'' @ profile @ ''` is a '' @ actual @ '' source; tool `'' @ tool @ ''` requires a '' @ required @ '' profile''"
| "sanitize_error dbg (BatchPartial applied pending _ _) =
     ''BatchPartial: batch write failed (applied '' @ nat_to_string (length applied) @ '', pending '' @ nat_to_string (length pending) @ '')''"
| "sanitize_error dbg (FeatureDeferred feature) = ''FeatureDeferred: '' @ feature"
| "sanitize_error dbg (OperationTimeout phase operation secs context) =
     ''Timeout: phase='' @ phase @ '' operation='' @ operation @ '' timeout_secs='' @ nat_to_string secs @
     (case context of None \<Rightarrow> [] | Some c \<Rightarrow> '' context='' @ c)"
| "sanitize_error dbg (Truncated reason) = ''Truncated: '' @ truncated_name reason"
| "sanitize_error dbg (InternalError _) = ''Internal: internal error''"

definition scrubber_failure :: "(bytes list \<Rightarrow> bytes) \<Rightarrow> bytes" where
  "scrubber_failure dbg = sanitize_error dbg (InternalError ''invalid credential scrubber pattern'')"

section \<open>Scrubbing\<close>

text \<open>The loop over \<^verbatim>\<open>split_inclusive\<close>: \<open>cur\<close> is the parameter read so far.\<close>

definition scrub_parameter :: "bytes \<Rightarrow> bytes" where
  "scrub_parameter p = (case split_once (CHR ''='') p of Some (k, _) \<Rightarrow> k @ ''=[REDACTED]'' | None \<Rightarrow> ''[REDACTED]'')"

fun scrub_query :: "bytes \<Rightarrow> bytes \<Rightarrow> bytes" where
  "scrub_query cur [] = (if cur = [] then [] else scrub_parameter cur)"
| "scrub_query cur (c # s) =
     (if c = CHR ''&'' \<or> c = CHR '';'' then scrub_parameter cur @ [c] @ scrub_query [] s else scrub_query (cur @ [c]) s)"

definition scrub_url :: "bytes \<Rightarrow> bytes" where
  "scrub_url url =
     (case find_text url ''://'' of
        None \<Rightarrow> ''[REDACTED]''
      | Some scheme_end \<Rightarrow>
          (let fragment_start = find_text url ''#'';
               query_start = find_text (take (unwrap_or fragment_start (length url)) url) ''?'';
               base_end = (case query_start of Some q \<Rightarrow> q | None \<Rightarrow> unwrap_or fragment_start (length url));
               base = take base_end url;
               authority_start = scheme_end + 3;
               authority_end = (case find_text (drop authority_start base) ''/'' of None \<Rightarrow> length base | Some k \<Rightarrow> authority_start + k);
               authority = take (authority_end - authority_start) (drop authority_start base);
               shown =
                 (case rfind_char (CHR ''@'') authority of
                    Some at \<Rightarrow> take authority_start base @ ''[REDACTED]'' @ drop (authority_start + at) base
                  | None \<Rightarrow> base);
               query =
                 (case query_start of
                    None \<Rightarrow> []
                  | Some q \<Rightarrow> ''?'' @ scrub_query [] (take (unwrap_or fragment_start (length url) - (q + 1)) (drop (q + 1) url)))
           in shown @ query @ (if fragment_start = None then [] else ''#[REDACTED]'')))"

text \<open>
  \<open>scrub\<close> finds the URLs of a text, applies \<^const>\<open>scrub_url\<close> to each and then the three credential patterns;
  \<^const>\<open>None\<close> when a pattern does not compile.
\<close>

definition scrub_credentials :: "(bytes list \<Rightarrow> bytes) \<Rightarrow> ((bytes \<Rightarrow> bytes) \<Rightarrow> bytes \<Rightarrow> bytes option) \<Rightarrow> bytes \<Rightarrow> bytes" where
  "scrub_credentials dbg scrub input = unwrap_or (scrub scrub_url input) (scrubber_failure dbg)"

definition format_cli_error :: "(bytes list \<Rightarrow> bytes) \<Rightarrow> ((bytes \<Rightarrow> bytes) \<Rightarrow> bytes \<Rightarrow> bytes option) \<Rightarrow> LensError \<Rightarrow> bool \<Rightarrow> bytes" where
  "format_cli_error dbg scrub err verbose =
     (if \<not> verbose then sanitize_error dbg err
      else
        (case err of
           SourceError name detail _ _ \<Rightarrow>
             ''SourceError: source error from '' @ scrub_credentials dbg scrub name @ '': '' @ scrub_credentials dbg scrub detail
         | _ \<Rightarrow> sanitize_error dbg err))"

end
