(* ===== verification/Profiles.thy ===== *)
theory Profiles
  imports Lens_Errors Json_Scanner
begin

text \<open>
  Profiles, \<^verbatim>\<open>src/profile.rs\<close>, with the retention mode of \<^verbatim>\<open>src/session/maintenance.rs\<close> and the remote
  configuration of \<^verbatim>\<open>src/source/remote/mod.rs\<close>. Reading the two configuration files and TOML are
  outside the model: the merge starts from the two lists of profiles they hold. The environment and
  the keyring are arguments of password resolution.
\<close>

section \<open>Data\<close>

datatype AutoPurge = Off | Warn | Purge

fun purge_rank :: "AutoPurge \<Rightarrow> nat" where
  "purge_rank Off = 0" | "purge_rank Warn = 1" | "purge_rank Purge = 2"

definition cap_with :: "AutoPurge \<Rightarrow> AutoPurge \<Rightarrow> AutoPurge" where
  "cap_with a b = (if purge_rank a \<le> purge_rank b then a else b)"

definition purge_as_str :: "AutoPurge \<Rightarrow> bytes" where
  "purge_as_str a = (case a of Off \<Rightarrow> ''off'' | Warn \<Rightarrow> ''warn'' | Purge \<Rightarrow> ''purge'')"

datatype SecretSpec = EnvSecret bytes | KeyringSecret bytes bytes

record RemoteConfig =
  rc_endpoint :: bytes
  rc_server_name :: bytes
  rc_trust_root :: bytes
  rc_resource :: bytes
  rc_secret :: SecretSpec

text \<open>The fields the two database servers share.\<close>

record DbSpec =
  db_host :: bytes
  db_port :: nat
  db_database :: bytes
  db_username :: bytes
  db_password_env :: "bytes option"
  db_secret :: "SecretSpec option"
  db_ssh_host :: "bytes option"
  db_local_port :: "nat option"
  db_readonly_required :: bool

datatype SourceSpec = RemoteMcpLog RemoteConfig | MysqlSource DbSpec | PostgresSource DbSpec
  | SqliteSource bytes bool "bytes list" | SshLog bytes bytes | LocalLog bytes

record Profile =
  p_name :: bytes
  p_source :: SourceSpec
  p_discovered_from_ssh_host :: "bytes option"
  p_discovered_from_path :: "bytes option"
  p_discovered_at :: "bytes option"
  p_discovered_fingerprint :: "bytes option"
  p_credential_class :: "bytes option"
  p_policy :: "bytes option"
  p_schema_tokenize :: "bool option"
  p_schema_allowlist :: "bytes list option"
  p_production :: bool
  p_snapshot_retention_days :: "nat option"
  p_auto_purge :: AutoPurge

record MergeWarning =
  mw_profile :: bytes
  mw_requested :: AutoPurge

section \<open>Merging\<close>

definition or_else :: "'a option \<Rightarrow> 'a option \<Rightarrow> 'a option" where
  "or_else a b = (case a of Some x \<Rightarrow> Some x | None \<Rightarrow> b)"

definition nonempty_or :: "'a list \<Rightarrow> 'a list \<Rightarrow> 'a list" where
  "nonempty_or a b = (if a = [] then b else a)"

definition merge_db :: "DbSpec \<Rightarrow> DbSpec \<Rightarrow> DbSpec" where
  "merge_db user project = \<lparr>
     db_host = nonempty_or (db_host user) (db_host project),
     db_port = (if db_port user = 0 then db_port project else db_port user),
     db_database = db_database project, db_username = db_username project,
     db_password_env = db_password_env project, db_secret = db_secret project,
     db_ssh_host = or_else (db_ssh_host user) (db_ssh_host project),
     db_local_port = or_else (db_local_port user) (db_local_port project),
     db_readonly_required = db_readonly_required project\<rparr>"

fun merge_source :: "SourceSpec \<Rightarrow> SourceSpec \<Rightarrow> SourceSpec" where
  "merge_source (MysqlSource u) (MysqlSource p) = MysqlSource (merge_db u p)"
| "merge_source (PostgresSource u) (PostgresSource p) = PostgresSource (merge_db u p)"
| "merge_source (SqliteSource upath _ ucols) (SqliteSource ppath ro pcols) =
     SqliteSource (nonempty_or upath ppath) ro (nonempty_or pcols ucols)"
| "merge_source (SshLog uhost upath) (SshLog phost ppath) = SshLog (nonempty_or uhost phost) (nonempty_or upath ppath)"
| "merge_source (LocalLog upath) (LocalLog ppath) = LocalLog (nonempty_or upath ppath)"
| "merge_source (RemoteMcpLog u) (RemoteMcpLog p) = RemoteMcpLog (u\<lparr>rc_resource := rc_resource p\<rparr>)"
| "merge_source _ project = project"

definition merge_one :: "Profile \<Rightarrow> Profile \<Rightarrow> Profile" where
  "merge_one user project = \<lparr>
     p_name = p_name project,
     p_source = merge_source (p_source user) (p_source project),
     p_discovered_from_ssh_host = or_else (p_discovered_from_ssh_host project) (p_discovered_from_ssh_host user),
     p_discovered_from_path = or_else (p_discovered_from_path project) (p_discovered_from_path user),
     p_discovered_at = or_else (p_discovered_at project) (p_discovered_at user),
     p_discovered_fingerprint = or_else (p_discovered_fingerprint project) (p_discovered_fingerprint user),
     p_credential_class = or_else (p_credential_class project) (p_credential_class user),
     p_policy = or_else (p_policy project) (p_policy user),
     p_schema_tokenize = or_else (p_schema_tokenize project) (p_schema_tokenize user),
     p_schema_allowlist = or_else (p_schema_allowlist project) (p_schema_allowlist user),
     p_production = (p_production project \<or> p_production user),
     p_snapshot_retention_days = or_else (p_snapshot_retention_days project) (p_snapshot_retention_days user),
     p_auto_purge = cap_with (p_auto_purge project) (p_auto_purge user)\<rparr>"

definition downgrade_user_only_profile :: "Profile \<Rightarrow> Profile \<times> MergeWarning option" where
  "downgrade_user_only_profile user =
     (user\<lparr>p_auto_purge := Off\<rparr>,
      if p_auto_purge user \<noteq> Off then Some \<lparr>mw_profile = p_name user, mw_requested = p_auto_purge user\<rparr> else None)"

text \<open>Collecting into a map keeps the last profile of a name.\<close>

definition by_name :: "Profile list \<Rightarrow> bytes \<Rightarrow> Profile option" where
  "by_name ps n = List.find (\<lambda>p. p_name p = n) (rev ps)"

definition merge_name :: "Profile list \<Rightarrow> Profile list \<Rightarrow> bytes \<Rightarrow> (Profile \<times> MergeWarning option) option" where
  "merge_name users projects n =
     (case (by_name users n, by_name projects n) of
        (Some u, Some p) \<Rightarrow> Some (merge_one u p, None)
      | (Some u, None) \<Rightarrow> Some (downgrade_user_only_profile u)
      | (None, Some p) \<Rightarrow> Some (p, None)
      | (None, None) \<Rightarrow> None)"

definition merge_profiles :: "Profile list \<Rightarrow> Profile list \<Rightarrow> Profile list \<times> MergeWarning list" where
  "merge_profiles users projects =
     (let names = sort (remdups (map p_name (users @ projects)));
          merged = List.map_filter (merge_name users projects) names
      in (map fst merged, List.map_filter snd merged))"

section \<open>Credentials\<close>

definition credentials :: "SourceSpec \<Rightarrow> (bytes option \<times> SecretSpec option) option" where
  "credentials s = (case s of MysqlSource d \<Rightarrow> Some (db_password_env d, db_secret d)
     | PostgresSource d \<Rightarrow> Some (db_password_env d, db_secret d) | _ \<Rightarrow> None)"

definition both_text :: "bytes \<Rightarrow> bytes" where
  "both_text n = ''profile `'' @ n @ ''` sets both `password_env` and `secret`; specify exactly one''"

definition neither_text :: "bytes \<Rightarrow> bytes" where
  "neither_text n = ''profile `'' @ n @ ''` has neither `password_env` nor `secret`; one is required for mysql/postgres profiles''"

fun validate_post_merge :: "Profile list \<Rightarrow> LensError + unit" where
  "validate_post_merge [] = Inr ()"
| "validate_post_merge (p # ps) =
     (case credentials (p_source p) of
        None \<Rightarrow> validate_post_merge ps
      | Some (e, s) \<Rightarrow>
          if e \<noteq> None \<and> s \<noteq> None then Inl (ProfileError (both_text (p_name p)))
          else if e = None \<and> s = None then Inl (ProfileError (neither_text (p_name p)))
          else validate_post_merge ps)"

definition load_profiles_with_warnings :: "Profile list \<Rightarrow> Profile list \<Rightarrow> LensError + Profile list \<times> MergeWarning list" where
  "load_profiles_with_warnings users projects =
     (let (merged, warnings) = merge_profiles users projects
      in and_then (validate_post_merge merged) (\<lambda>_. Inr (merged, warnings)))"

definition load_profile :: "bytes \<Rightarrow> Profile list \<Rightarrow> Profile list \<Rightarrow> LensError + Profile" where
  "load_profile n users projects =
     and_then (load_profiles_with_warnings users projects) (\<lambda>(merged, _).
     ok_or (ProfileError (''profile `'' @ n @ ''` not found'')) (List.find (\<lambda>p. p_name p = n) merged))"

definition no_password_text :: "SourceSpec \<Rightarrow> bytes" where
  "no_password_text s = (case s of SqliteSource _ _ _ \<Rightarrow> ''sqlite profiles do not have database passwords''
     | SshLog _ _ \<Rightarrow> ''ssh_log profiles do not have database passwords''
     | LocalLog _ \<Rightarrow> ''local_log profiles do not have database passwords''
     | _ \<Rightarrow> ''remote log profiles do not have database passwords'')"

text \<open>\<open>env\<close> is the process environment, \<open>keyring\<close> the outcome of the lookup on the blocking worker.\<close>

definition resolve_password ::
  "(bytes \<Rightarrow> bytes option) \<Rightarrow> (bytes \<Rightarrow> bytes \<Rightarrow> LensError + bytes) \<Rightarrow> Profile \<Rightarrow> LensError + bytes" where
  "resolve_password env keyring p =
     (case credentials (p_source p) of
        None \<Rightarrow> Inl (ProfileError (no_password_text (p_source p)))
      | Some (Some _, Some _) \<Rightarrow> Inl (ProfileError (both_text (p_name p)))
      | Some (Some v, None) \<Rightarrow> ok_or (ProfileEnvMissing v) (env v)
      | Some (None, Some (EnvSecret v)) \<Rightarrow> ok_or (ProfileEnvMissing v) (env v)
      | Some (None, Some (KeyringSecret service account)) \<Rightarrow> keyring service account
      | Some (None, None) \<Rightarrow> Inl (ProfileError (neither_text (p_name p))))"

section \<open>What the merge guarantees\<close>

lemma by_name_Some: "by_name ps n = Some p \<Longrightarrow> p \<in> set ps \<and> p_name p = n"
  unfolding by_name_def by (auto simp: find_Some_iff in_set_conv_nth rev_nth) (metis diff_less length_greater_0_conv list.size(3) not_less_zero zero_less_Suc)+

lemma by_name_None: "by_name ps n = None \<longleftrightarrow> n \<notin> p_name ` set ps"
  by (auto simp: by_name_def find_None_iff)

lemma cap_with_rank: "purge_rank (cap_with a b) = min (purge_rank a) (purge_rank b)"
  by (simp add: cap_with_def min_def)

lemma merge_name_name: "merge_name us ps n = Some (m, w) \<Longrightarrow> p_name m = n"
  by (auto simp: merge_name_def merge_one_def downgrade_user_only_profile_def split: option.splits dest: by_name_Some)

lemma merge_name_None: "merge_name us ps n = None \<longleftrightarrow> n \<notin> p_name ` set (us @ ps)"
  unfolding set_append image_Un Un_iff de_Morgan_disj by_name_None [symmetric]
  by (auto simp: merge_name_def split: option.splits)

lemma merged_names: "map p_name (fst (merge_profiles us ps)) = sort (remdups (map p_name (us @ ps)))"
proof -
  have "map p_name (map fst (List.map_filter (merge_name us ps) ns)) = ns" if "set ns \<subseteq> p_name ` set (us @ ps)" for ns
    using that
  proof (induction ns)
    case (Cons n ns)
    then have "merge_name us ps n \<noteq> None" by (simp add: merge_name_None)
    then obtain m w where "merge_name us ps n = Some (m, w)" by auto
    with Cons merge_name_name show ?case by (simp add: map_filter_simps)
  qed (simp add: map_filter_simps)
  moreover have "set (sort (remdups (map p_name (us @ ps)))) \<subseteq> p_name ` set (us @ ps)" by auto
  ultimately show ?thesis unfolding merge_profiles_def Let_def fst_conv by blast
qed

lemma in_merged: "m \<in> set (fst (merge_profiles us ps)) \<longleftrightarrow> (\<exists>n w. n \<in> p_name ` set (us @ ps) \<and> merge_name us ps n = Some (m, w))"
  by (force simp: merge_profiles_def Let_def map_filter_def)

lemma merge_source_credentials: "credentials (merge_source u p) = credentials p"
  by (cases "(u, p)" rule: merge_source.cases) (simp_all add: credentials_def merge_db_def)

lemma validate_post_merge_iff:
  "validate_post_merge ps = Inr u \<longleftrightarrow>
     (\<forall>p\<in>set ps. \<forall>e s. credentials (p_source p) = Some (e, s) \<longrightarrow> (e = None) \<noteq> (s = None))"
  by (induction ps rule: validate_post_merge.induct) (auto split: option.splits)

lemma loaded_from_names:
  assumes "load_profile n us ps = Inr m"
  shows "(\<exists>w. merge_name us ps n = Some (m, w)) \<and>
    (\<forall>e s. credentials (p_source m) = Some (e, s) \<longrightarrow> (e = None) \<noteq> (s = None))"
proof -
  from assms have v: "validate_post_merge (fst (merge_profiles us ps)) = Inr ()"
    and f: "List.find (\<lambda>p. p_name p = n) (fst (merge_profiles us ps)) = Some m"
    by (auto simp: load_profile_def load_profiles_with_warnings_def and_then_Inr_iff ok_or_Inr_iff Let_def split: prod.splits)
  from f have m: "m \<in> set (fst (merge_profiles us ps))" "p_name m = n" by (auto simp: find_Some_iff)
  from m(1) obtain k w where "merge_name us ps k = Some (m, w)" by (auto simp: in_merged)
  with merge_name_name [OF this] m(2) have "merge_name us ps n = Some (m, w)" by simp
  with v m(1) show ?thesis unfolding validate_post_merge_iff by blast
qed

text \<open>What the project file decides about a source that the user file may extend: \<open>p\<close> is its entry, \<open>s\<close> the loaded source.\<close>

definition same_account :: "DbSpec \<Rightarrow> DbSpec \<Rightarrow> bool" where
  "same_account p d \<longleftrightarrow> db_database d = db_database p \<and> db_username d = db_username p \<and> db_password_env d = db_password_env p \<and>
     db_secret d = db_secret p \<and> db_readonly_required d = db_readonly_required p"

fun project_decides :: "SourceSpec \<Rightarrow> SourceSpec \<Rightarrow> bool" where
  "project_decides (MysqlSource p) s \<longleftrightarrow> (\<exists>d. s = MysqlSource d \<and> same_account p d)"
| "project_decides (PostgresSource p) s \<longleftrightarrow> (\<exists>d. s = PostgresSource d \<and> same_account p d)"
| "project_decides (SqliteSource path ro cols) s \<longleftrightarrow> (\<exists>path1 cols1. s = SqliteSource path1 ro cols1 \<and> (cols \<noteq> [] \<longrightarrow> cols1 = cols))"
| "project_decides (RemoteMcpLog c) s \<longleftrightarrow> (\<exists>d. s = RemoteMcpLog d \<and> rc_resource d = rc_resource c)"
| "project_decides (SshLog host path) s \<longleftrightarrow> (\<exists>host1 path1. s = SshLog host1 path1)"
| "project_decides (LocalLog path) s \<longleftrightarrow> (\<exists>path1. s = LocalLog path1)"

lemma project_decides_refl: "project_decides p p"
  by (cases p) (simp_all add: same_account_def)

lemma merge_source_decides: "project_decides p (merge_source u p)"
  by (cases "(u, p)" rule: merge_source.cases) (simp_all add: same_account_def merge_db_def nonempty_or_def)

text \<open>
  C31: a loaded profile never purges more than the project file authorises (a profile without a
  project entry never purges at all) nor more than the user file asks for, and it is production as soon as
  one of the two files says so. When the project defines it, the project decides its kind of source: for MySQL and PostgreSQL
  also the database, the account, the credential settings and the read-only demand, for SQLite the read-only demand, for
  a remote log the resource. The endpoint, trust root and secret of a remote log are the user's when the user file has the remote log
  too. A loaded MySQL or PostgreSQL profile has exactly one of the two credential settings.
\<close>

theorem loaded_profile_never_escalates:
  assumes "load_profile n us ps = Inr m"
  shows "p_name m = n \<and>
    purge_rank (p_auto_purge m) \<le> (case by_name ps n of None \<Rightarrow> 0 | Some p \<Rightarrow> purge_rank (p_auto_purge p)) \<and>
    (\<forall>u. by_name us n = Some u \<longrightarrow> purge_rank (p_auto_purge m) \<le> purge_rank (p_auto_purge u)) \<and>
    (p_production m \<longleftrightarrow> (\<exists>q. (by_name us n = Some q \<or> by_name ps n = Some q) \<and> p_production q)) \<and>
    (\<forall>p. by_name ps n = Some p \<longrightarrow> project_decides (p_source p) (p_source m)) \<and>
    (\<forall>p a u b. by_name ps n = Some p \<and> p_source p = RemoteMcpLog a \<and> by_name us n = Some u \<and> p_source u = RemoteMcpLog b \<longrightarrow>
       p_source m = RemoteMcpLog (b\<lparr>rc_resource := rc_resource a\<rparr>)) \<and>
    (\<forall>d. p_source m = MysqlSource d \<or> p_source m = PostgresSource d \<longrightarrow> (db_password_env d = None) \<noteq> (db_secret d = None))"
proof -
  from loaded_from_names [OF assms] obtain w where w: "merge_name us ps n = Some (m, w)"
    and c: "\<forall>e s. credentials (p_source m) = Some (e, s) \<longrightarrow> (e = None) \<noteq> (s = None)" by blast
  have "purge_rank (p_auto_purge m) \<le> (case by_name ps n of None \<Rightarrow> 0 | Some p \<Rightarrow> purge_rank (p_auto_purge p)) \<and>
    (\<forall>u. by_name us n = Some u \<longrightarrow> purge_rank (p_auto_purge m) \<le> purge_rank (p_auto_purge u)) \<and>
    (p_production m \<longleftrightarrow> (\<exists>q. (by_name us n = Some q \<or> by_name ps n = Some q) \<and> p_production q))"
    using w by (auto simp: merge_name_def merge_one_def downgrade_user_only_profile_def cap_with_rank split: option.splits)
  moreover have "\<forall>p. by_name ps n = Some p \<longrightarrow> project_decides (p_source p) (p_source m)"
    using w by (auto simp: merge_name_def merge_one_def merge_source_decides project_decides_refl split: option.splits)
  moreover have "\<forall>p a u b. by_name ps n = Some p \<and> p_source p = RemoteMcpLog a \<and> by_name us n = Some u \<and> p_source u = RemoteMcpLog b \<longrightarrow>
       p_source m = RemoteMcpLog (b\<lparr>rc_resource := rc_resource a\<rparr>)"
    using w by (auto simp: merge_name_def merge_one_def)
  moreover have "\<forall>d. p_source m = MysqlSource d \<or> p_source m = PostgresSource d \<longrightarrow> (db_password_env d = None) \<noteq> (db_secret d = None)"
    using c by (auto simp: credentials_def)
  ultimately show ?thesis using merge_name_name [OF w] by (intro conjI) simp_all
qed

definition demo_profile :: "AutoPurge \<Rightarrow> bool \<Rightarrow> Profile" where
  "demo_profile a live = \<lparr>p_name = ''db'', p_source = MysqlSource \<lparr>db_host = ''h'', db_port = 3306, db_database = ''d'',
     db_username = ''u'', db_password_env = Some ''PW'', db_secret = None, db_ssh_host = None, db_local_port = None,
     db_readonly_required = True\<rparr>, p_discovered_from_ssh_host = None, p_discovered_from_path = None, p_discovered_at = None,
     p_discovered_fingerprint = None, p_credential_class = None, p_policy = None, p_schema_tokenize = None,
     p_schema_allowlist = None, p_production = live, p_snapshot_retention_days = None, p_auto_purge = a\<rparr>"

definition demo_shared_log :: "bytes \<Rightarrow> bytes \<Rightarrow> Profile" where
  "demo_shared_log resource secret = (demo_profile Off False)\<lparr>p_name := ''logs'', p_source := RemoteMcpLog
     \<lparr>rc_endpoint = ''10.0.0.1:7443'', rc_server_name = ''s'', rc_trust_root = ''t'', rc_resource = resource, rc_secret = EnvSecret secret\<rparr>\<rparr>"

theorem loaded_profile_never_escalates_witness:
  "(\<exists>m d. load_profile ''db'' [demo_profile Purge False] [demo_profile Warn True] = Inr m \<and>
     p_production m \<and> purge_rank (p_auto_purge m) \<le> 1 \<and> p_source m = MysqlSource d \<and> db_password_env d = Some ''PW'' \<and> db_secret d = None) \<and>
   (\<exists>m c. load_profile ''logs'' [demo_shared_log ''mine'' ''U''] [demo_shared_log ''theirs'' ''P''] = Inr m \<and>
     p_source m = RemoteMcpLog c \<and> rc_resource c = ''theirs'' \<and> rc_secret c = EnvSecret ''U'')"
proof
  have l: "load_profile ''db'' [demo_profile Purge False] [demo_profile Warn True] = Inr (demo_profile Warn True)" by code_simp
  have p: "by_name [demo_profile Warn True] ''db'' = Some (demo_profile Warn True)" by code_simp
  have s: "p_production (demo_profile Warn True)" "p_auto_purge (demo_profile Warn True) = Warn"
    "\<exists>d. p_source (demo_profile Warn True) = MysqlSource d \<and> db_password_env d = Some ''PW'' \<and> db_secret d = None"
    by (simp_all add: demo_profile_def)
  then have "p_production (demo_profile Warn True) \<and> purge_rank (p_auto_purge (demo_profile Warn True)) \<le> 1"
    using loaded_profile_never_escalates [OF l] p by auto
  with l s(3) show "\<exists>m d. load_profile ''db'' [demo_profile Purge False] [demo_profile Warn True] = Inr m \<and>
     p_production m \<and> purge_rank (p_auto_purge m) \<le> 1 \<and> p_source m = MysqlSource d \<and> db_password_env d = Some ''PW'' \<and> db_secret d = None"
    by blast
next
  have "\<not> isl (load_profile ''logs'' [demo_shared_log ''mine'' ''U''] [demo_shared_log ''theirs'' ''P''])" by code_simp
  then obtain m where l: "load_profile ''logs'' [demo_shared_log ''mine'' ''U''] [demo_shared_log ''theirs'' ''P''] = Inr m"
    by (metis sum.collapse(2))
  have "by_name [demo_shared_log ''theirs'' ''P''] ''logs'' = Some (demo_shared_log ''theirs'' ''P'')"
    "by_name [demo_shared_log ''mine'' ''U''] ''logs'' = Some (demo_shared_log ''mine'' ''U'')" by code_simp+
  with loaded_profile_never_escalates [OF l] l
  show "\<exists>m c. load_profile ''logs'' [demo_shared_log ''mine'' ''U''] [demo_shared_log ''theirs'' ''P''] = Inr m \<and>
     p_source m = RemoteMcpLog c \<and> rc_resource c = ''theirs'' \<and> rc_secret c = EnvSecret ''U''"
    by (auto simp: demo_shared_log_def)
qed

section \<open>Names and literal passwords\<close>

text \<open>\<^verbatim>\<open>^[a-z0-9][a-z0-9_-]{0,63}$\<close>.\<close>

definition name_start :: "char \<Rightarrow> bool" where
  "name_start c \<longleftrightarrow> (97 \<le> byte c \<and> byte c \<le> 122) \<or> is_ascii_digit c"

definition is_safe_profile_name :: "bytes \<Rightarrow> bool" where
  "is_safe_profile_name s =
     (case s of [] \<Rightarrow> False
      | c # cs \<Rightarrow> name_start c \<and> length cs \<le> 63 \<and> list_all (\<lambda>d. name_start d \<or> d = CHR ''_'' \<or> d = CHR ''-'') cs)"

definition validate_profile_name :: "bytes \<Rightarrow> LensError + unit" where
  "validate_profile_name n =
     (if is_safe_profile_name n then Inr ()
      else Inl (ProfileError (''invalid profile name `'' @ n @ ''`; expected ^[a-z0-9][a-z0-9_-]{0,63}$'')))"

definition word_byte :: "char \<Rightarrow> bool" where
  "word_byte c \<longleftrightarrow> is_ascii_alphanumeric c \<or> c = CHR ''_''"

text \<open>One position of the scan for a literal password; \<open>prev\<close> is the byte before it.\<close>

definition password_at :: "char option \<Rightarrow> bytes \<Rightarrow> bool" where
  "password_at prev s =
     (starts_with s ''password'' \<and>
      (case prev of None \<Rightarrow> True | Some c \<Rightarrow> \<not> word_byte c) \<and>
      (let after = drop 8 s in
       \<not> starts_with after ''_env'' \<and>
       (case dropWhile (\<lambda>c. c = CHR '' '' \<or> c = CHR 0x09) after of [] \<Rightarrow> False | c # _ \<Rightarrow> c = CHR ''='')))"

fun password_scan :: "char option \<Rightarrow> bytes \<Rightarrow> bool" where
  "password_scan prev [] = False"
| "password_scan prev (c # s) = (password_at prev (c # s) \<or> password_scan (Some c) s)"

text \<open>
  \<open>parse\<close> is the TOML reader of the profile file, with its error; \<open>utf8_error\<close> describes a decoding
  error.
\<close>

definition validate_profile_bytes :: "(bytes \<Rightarrow> LensError option) \<Rightarrow> (bytes \<Rightarrow> bytes) \<Rightarrow> bytes \<Rightarrow> bytes \<Rightarrow> LensError + unit" where
  "validate_profile_bytes parse utf8_error dest b =
     (if \<not> utf8_valid b then Inl (ProfileError (''generated profile bytes for '' @ dest @ '' are not utf-8: '' @ utf8_error b))
      else if password_scan None b then
        Inl (ProfileError (''rendered profile '' @ dest @ '' contains a literal `password = ...` assignment; use `password_env` or `secret = { type = '' @
          [CHR 0x22] @ ''keyring'' @ [CHR 0x22] @ '', ... }` instead''))
      else (case parse b of Some e \<Rightarrow> Inl e | None \<Rightarrow> Inr ()))"

definition blank :: "char \<Rightarrow> bool" where
  "blank c \<longleftrightarrow> c = CHR '' '' \<or> c = CHR 0x09"

lemma assignment_tail:
  "(\<not> starts_with a ''_env'' \<and> (case dropWhile blank a of [] \<Rightarrow> False | c # _ \<Rightarrow> c = CHR ''='')) \<longleftrightarrow>
     (\<exists>ws r. a = ws @ CHR ''='' # r \<and> (\<forall>c\<in>set ws. blank c))" (is "?L \<longleftrightarrow> ?R")
proof
  assume ?L
  then obtain r where "dropWhile blank a = CHR ''='' # r" by (auto split: list.splits)
  then have "a = takeWhile blank a @ CHR ''='' # r" by (metis takeWhile_dropWhile_id)
  moreover have "\<forall>c\<in>set (takeWhile blank a). blank c" by (auto dest: set_takeWhileD)
  ultimately have "a = takeWhile blank a @ CHR ''='' # r \<and> (\<forall>c\<in>set (takeWhile blank a). blank c)" by (rule conjI)
  then show ?R by (rule exI [THEN exI [of _ "takeWhile blank a"]])
next
  assume ?R
  then obtain ws r where a: "a = ws @ CHR ''='' # r" "\<forall>c\<in>set ws. blank c" by blast
  moreover have "\<not> blank (CHR ''='')" by (simp add: blank_def)
  ultimately have "dropWhile blank a = CHR ''='' # r" by (simp add: dropWhile_append2)
  moreover have "\<not> starts_with a ''_env''" using a by (cases ws) (auto simp: blank_def)
  ultimately show ?L by simp
qed

lemma password_at_iff:
  "password_at prev s \<longleftrightarrow>
     (case prev of None \<Rightarrow> True | Some c \<Rightarrow> \<not> word_byte c) \<and>
     (\<exists>ws r. s = ''password'' @ ws @ CHR ''='' # r \<and> (\<forall>c\<in>set ws. blank c))"
proof -
  have split8: "starts_with s ''password'' \<and> T (drop 8 s) \<longleftrightarrow> (\<exists>a. s = ''password'' @ a \<and> T a)" for T
    unfolding starts_with_iff by auto
  have "password_at prev s \<longleftrightarrow> (case prev of None \<Rightarrow> True | Some c \<Rightarrow> \<not> word_byte c) \<and>
      (starts_with s ''password'' \<and> (\<exists>ws r. drop 8 s = ws @ CHR ''='' # r \<and> (\<forall>c\<in>set ws. blank c)))"
    unfolding password_at_def Let_def blank_def [abs_def, symmetric] assignment_tail by blast
  also have "\<dots> \<longleftrightarrow> (case prev of None \<Rightarrow> True | Some c \<Rightarrow> \<not> word_byte c) \<and>
      (\<exists>a. s = ''password'' @ a \<and> (\<exists>ws r. a = ws @ CHR ''='' # r \<and> (\<forall>c\<in>set ws. blank c)))"
    using split8 [of "\<lambda>a. \<exists>ws r. a = ws @ CHR ''='' # r \<and> (\<forall>c\<in>set ws. blank c)"] by (rule arg_cong)
  finally show ?thesis by metis
qed

text \<open>The scan finds exactly the assignments to a bare key \<^verbatim>\<open>password\<close>.\<close>

lemma password_scan_iff:
  "password_scan prev s \<longleftrightarrow>
     (\<exists>a b. s = a @ b \<and> b \<noteq> [] \<and> password_at (if a = [] then prev else Some (last a)) b)"
proof (induction prev s rule: password_scan.induct)
  case (2 prev c s)
  have "(\<exists>a b. c # s = a @ b \<and> b \<noteq> [] \<and> password_at (if a = [] then prev else Some (last a)) b) \<longleftrightarrow>
      password_at prev (c # s) \<or> (\<exists>a b. s = a @ b \<and> b \<noteq> [] \<and> password_at (if a = [] then Some c else Some (last a)) b)"
      (is "(\<exists>a b. ?P a b) \<longleftrightarrow> _ \<or> (\<exists>a b. ?Q a b)")
  proof
    assume "\<exists>a b. ?P a b"
    then obtain a b where ab: "?P a b" by blast
    show "password_at prev (c # s) \<or> (\<exists>a b. ?Q a b)"
    proof (cases a)
      case (Cons d a1)
      with ab have "?Q a1 b" by (auto split: if_splits)
      then show ?thesis by blast
    qed (use ab in simp)
  next
    assume "password_at prev (c # s) \<or> (\<exists>a b. ?Q a b)"
    then show "\<exists>a b. ?P a b"
    proof (elim disjE exE)
      assume "password_at prev (c # s)"
      then have "?P [] (c # s)" by simp
      then show ?thesis by blast
    next
      fix a b
      assume "?Q a b"
      then have "?P (c # a) b" by (simp split: if_splits)
      then show ?thesis by blast
    qed
  qed
  with 2 show ?case by simp
qed simp

end
