(* ===== verification/Policy.thy ===== *)
theory Policy
  imports Profiles
begin

text \<open>
  Redaction policies, \<^verbatim>\<open>src/policy.rs\<close>: parsing of actions and classes, the validator, the checks on
  remote and production profiles, and the construction of the pipeline. The gaze library is outside
  the repository: its detectors and the final build are the record \<open>GazeLib\<close> of their outcomes, and a
  pipeline is the list of detectors and rules handed to the builder, in order.
\<close>

section \<open>Data\<close>

datatype Action = Tokenize | Redact | FormatPreserve | Generalize | Preserve

text \<open>\<open>CustomClass s\<close> is \<^verbatim>\<open>PiiClass::custom(s)\<close>.\<close>

datatype PiiClass = EmailClass | NameClass | LocationClass | OrganizationClass | CustomClass bytes

record ColumnRule =
  cr_column :: bytes
  cr_class :: bytes
  cr_action :: "bytes option"

record LogsPolicy =
  lp_strip_patterns :: "bytes list"
  lp_action :: "bytes option"

record PolicyFile =
  pf_scope :: bytes
  pf_ttl_secs :: "nat option"
  pf_ner_model_dir :: "bytes option"
  pf_ner_locale :: "bytes option"
  pf_default_action :: "bytes option"
  pf_column_rules :: "ColumnRule list"
  pf_logs :: "LogsPolicy option"

datatype PolicyError = InvalidAction bytes bytes | UnknownPiiClass bytes bytes | UnsupportedSessionScope bytes
  | PipelineError bytes | RecognizerError bytes | ProductionNerRequired bytes

text \<open>Outcomes of the gaze library: \<^const>\<open>None\<close> is success, \<open>Some e\<close> the error text.\<close>

record GazeLib =
  gl_emails :: "bytes option"
  gl_ner :: "bytes \<Rightarrow> bytes option \<Rightarrow> bytes option"
  gl_regex :: "bytes \<Rightarrow> bytes option"
  gl_build :: "bytes option"

datatype Detector = EmailDetector | NerDetector bytes "bytes option" | StripDetector bytes nat
datatype Rule = ColumnRuleOf bytes Action | ClassRuleOf PiiClass Action | DefaultRuleOf Action

record Pipeline =
  pl_detectors :: "Detector list"
  pl_rules :: "Rule list"

section \<open>Parsing\<close>

definition parse_action :: "bytes \<Rightarrow> bytes \<Rightarrow> PolicyError + Action" where
  "parse_action raw column =
     (if raw = ''tokenize'' then Inr Tokenize
      else if raw = ''redact'' then Inr Redact
      else if raw = ''format_preserve'' then Inr FormatPreserve
      else if raw = ''generalize'' then Inr Generalize
      else if raw = ''preserve'' then Inr Preserve
      else Inl (InvalidAction column raw))"

definition parse_log_strip_action :: "bytes option \<Rightarrow> PolicyError + Action" where
  "parse_log_strip_action raw =
     (let r = unwrap_or raw ''redact'' in
      and_then (parse_action r ''policy.logs.action'') (\<lambda>a.
      if a = Redact \<or> a = Tokenize then Inr a else Inl (InvalidAction ''policy.logs.action'' r)))"

definition parse_class :: "bytes \<Rightarrow> bytes \<Rightarrow> PolicyError + PiiClass" where
  "parse_class raw column =
     (if raw = ''email'' then Inr EmailClass
      else if raw = ''name'' then Inr NameClass
      else if raw = ''location'' then Inr LocationClass
      else if raw = ''organization'' then Inr OrganizationClass
      else if \<not> is_blank raw then Inr (CustomClass raw)
      else Inl (UnknownPiiClass column raw))"

text \<open>\<^verbatim>\<open>to_gaze_policy\<close>: only its verdict on the scope matters here.\<close>

definition to_gaze_policy :: "PolicyFile \<Rightarrow> PolicyError + unit" where
  "to_gaze_policy pf =
     (if to_ascii_lowercase (pf_scope pf) = ''conversation'' then Inr () else Inl (UnsupportedSessionScope (pf_scope pf)))"

definition rule_action :: "ColumnRule \<Rightarrow> PolicyError + Action" where
  "rule_action r = parse_action (unwrap_or (cr_action r) ''tokenize'') (cr_column r)"

text \<open>\<^verbatim>\<open>ColumnActionPolicy::from_policy_file\<close>: a later rule for a column replaces an earlier one.\<close>

fun column_actions :: "(bytes \<Rightarrow> (Action \<times> PiiClass) option) \<Rightarrow> ColumnRule list \<Rightarrow> PolicyError + (bytes \<Rightarrow> (Action \<times> PiiClass) option)" where
  "column_actions m [] = Inr m"
| "column_actions m (r # rs) =
     and_then (rule_action r) (\<lambda>a.
     and_then (parse_class (cr_class r) (cr_column r)) (\<lambda>c. column_actions (m(cr_column r \<mapsto> (a, c))) rs))"

definition default_action :: "PolicyFile \<Rightarrow> PolicyError + Action" where
  "default_action pf = parse_action (unwrap_or (pf_default_action pf) ''preserve'') ''policy.default_action''"

fun strip_detectors :: "GazeLib \<Rightarrow> nat \<Rightarrow> bytes list \<Rightarrow> PolicyError + Detector list" where
  "strip_detectors lib i [] = Inr []"
| "strip_detectors lib i (p # ps) =
     (case gl_regex lib p of
        Some e \<Rightarrow> Inl (RecognizerError e)
      | None \<Rightarrow> and_then (strip_detectors lib (i + 1) ps) (\<lambda>ds. Inr (StripDetector p i # ds)))"

definition validate_policy_file :: "GazeLib \<Rightarrow> PolicyFile \<Rightarrow> PolicyError + unit" where
  "validate_policy_file lib pf =
     and_then (to_gaze_policy pf) (\<lambda>_.
     and_then (column_actions Map.empty (pf_column_rules pf)) (\<lambda>_.
     and_then (default_action pf) (\<lambda>_.
     case pf_logs pf of
       None \<Rightarrow> Inr ()
     | Some lp \<Rightarrow>
         and_then (strip_detectors lib 0 (lp_strip_patterns lp)) (\<lambda>_.
         if lp_strip_patterns lp \<noteq> [] then and_then (parse_log_strip_action (lp_action lp)) (\<lambda>_. Inr ()) else Inr ()))))"

section \<open>Mandates\<close>

definition safe_action :: "bytes option \<Rightarrow> bool" where
  "safe_action a \<longleftrightarrow> a = Some ''tokenize'' \<or> a = Some ''redact''"

definition remote_policy_text :: bytes where
  "remote_policy_text = ''remote profiles require an explicit policy with default_action tokenize or redact and only tokenize/redact column overrides''"

definition enforce_remote_output_policy :: "Profile \<Rightarrow> PolicyFile \<Rightarrow> LensError + unit" where
  "enforce_remote_output_policy p pf =
     (case p_source p of
        RemoteMcpLog _ \<Rightarrow>
          if p_policy p = None \<or> \<not> safe_action (pf_default_action pf) \<or>
             list_ex (\<lambda>r. \<not> safe_action (Some (unwrap_or (cr_action r) ''tokenize''))) (pf_column_rules pf)
          then Inl (ProfileError remote_policy_text) else Inr ()
      | _ \<Rightarrow> Inr ())"

definition enforce_production_ner :: "bytes \<Rightarrow> bool \<Rightarrow> PolicyFile \<Rightarrow> PolicyError + unit" where
  "enforce_production_ner profile_name production pf =
     (if production \<and> pf_ner_model_dir pf = None then Inl (ProductionNerRequired profile_name) else Inr ())"

section \<open>The pipeline\<close>

fun column_rules :: "ColumnRule list \<Rightarrow> PolicyError + Rule list" where
  "column_rules [] = Inr []"
| "column_rules (r # rs) =
     and_then (rule_action r) (\<lambda>a.
     and_then (parse_class (cr_class r) (cr_column r)) (\<lambda>c.
     and_then (column_rules rs) (\<lambda>rules. Inr (ColumnRuleOf (cr_column r) a # ClassRuleOf c a # rules))))"

definition ner_detector :: "GazeLib \<Rightarrow> PolicyFile \<Rightarrow> PolicyError + Detector list" where
  "ner_detector lib pf =
     (case pf_ner_model_dir pf of
        None \<Rightarrow> Inr []
      | Some dir \<Rightarrow>
          (case gl_ner lib dir (pf_ner_locale pf) of
             Some e \<Rightarrow> Inl (PipelineError e)
           | None \<Rightarrow> Inr [NerDetector dir (pf_ner_locale pf)]))"

definition logs_part :: "GazeLib \<Rightarrow> PolicyFile \<Rightarrow> PolicyError + Detector list \<times> Rule list" where
  "logs_part lib pf =
     (case pf_logs pf of
        None \<Rightarrow> Inr ([], [])
      | Some lp \<Rightarrow>
          and_then (strip_detectors lib 0 (lp_strip_patterns lp)) (\<lambda>ds.
          if lp_strip_patterns lp \<noteq> []
          then and_then (parse_log_strip_action (lp_action lp)) (\<lambda>a. Inr (ds, [ClassRuleOf (CustomClass ''log_strip'') a]))
          else Inr (ds, [])))"

definition build_pipeline :: "GazeLib \<Rightarrow> PolicyFile \<Rightarrow> PolicyError + Pipeline" where
  "build_pipeline lib pf =
     and_then (case gl_emails lib of Some e \<Rightarrow> Inl (RecognizerError e) | None \<Rightarrow> Inr [EmailDetector]) (\<lambda>emails.
     and_then (ner_detector lib pf) (\<lambda>ner.
     and_then (column_rules (pf_column_rules pf)) (\<lambda>rules.
     and_then (logs_part lib pf) (\<lambda>(strips, strip_rules).
     and_then (default_action pf) (\<lambda>a.
     case gl_build lib of
       Some e \<Rightarrow> Inl (PipelineError e)
     | None \<Rightarrow> Inr \<lparr>pl_detectors = emails @ ner @ strips, pl_rules = rules @ strip_rules @ [DefaultRuleOf a]\<rparr>)))))"

fun rule_act :: "Rule \<Rightarrow> Action" where
  "rule_act (ColumnRuleOf _ a) = a" | "rule_act (ClassRuleOf _ a) = a" | "rule_act (DefaultRuleOf a) = a"

section \<open>Guarantees\<close>

lemma parse_action_safe: "safe_action (Some raw) \<Longrightarrow> parse_action raw c = Inr a \<Longrightarrow> a = Tokenize \<or> a = Redact"
  by (auto simp: safe_action_def parse_action_def)

lemma column_rules_safe:
  "column_rules rs = Inr rules \<Longrightarrow> \<not> list_ex (\<lambda>r. \<not> safe_action (Some (unwrap_or (cr_action r) ''tokenize''))) rs \<Longrightarrow>
     \<forall>r\<in>set rules. rule_act r = Tokenize \<or> rule_act r = Redact"
proof (induction rs arbitrary: rules)
  case (Cons r rs)
  then obtain a c rules1 where "rule_action r = Inr a" "column_rules rs = Inr rules1"
      "rules = ColumnRuleOf (cr_column r) a # ClassRuleOf c a # rules1"
    by (auto simp: and_then_Inr_iff)
  with Cons parse_action_safe [of "unwrap_or (cr_action r) ''tokenize''" "cr_column r" a] show ?case
    by (auto simp: rule_action_def)
qed simp

lemma parse_log_strip_safe: "parse_log_strip_action raw = Inr a \<Longrightarrow> a = Tokenize \<or> a = Redact"
  by (auto simp: parse_log_strip_action_def Let_def and_then_Inr_iff split: if_splits)

lemma logs_part_safe:
  "logs_part lib pf = Inr (ds, rules) \<Longrightarrow> \<forall>r\<in>set rules. rule_act r = Tokenize \<or> rule_act r = Redact"
  by (auto simp: logs_part_def and_then_Inr_iff split: option.splits if_splits dest: parse_log_strip_safe)

lemma build_pipeline_ok:
  "build_pipeline lib pf = Inr pl \<longleftrightarrow>
     gl_emails lib = None \<and> gl_build lib = None \<and>
     (\<exists>ner rules strips strip_rules a. ner_detector lib pf = Inr ner \<and> column_rules (pf_column_rules pf) = Inr rules \<and>
        logs_part lib pf = Inr (strips, strip_rules) \<and> default_action pf = Inr a \<and>
        pl = \<lparr>pl_detectors = EmailDetector # ner @ strips, pl_rules = rules @ strip_rules @ [DefaultRuleOf a]\<rparr>)"
  by (auto simp: build_pipeline_def and_then_Inr_iff split: option.splits)

lemma column_actions_rules: "(\<exists>m1. column_actions m rs = Inr m1) \<longleftrightarrow> (\<exists>rules. column_rules rs = Inr rules)"
proof (induction rs arbitrary: m)
  case (Cons r rs)
  show ?case
    by (cases "rule_action r"; cases "parse_class (cr_class r) (cr_column r)") (auto simp: Cons.IH and_then_Inr_iff)
qed simp

text \<open>What the mandates give of a pipeline.\<close>

lemma policy_mandates:
  "(enforce_remote_output_policy p pf = Inr () \<and> p_source p = RemoteMcpLog cfg \<and> build_pipeline lib pf = Inr pl \<longrightarrow>
      (\<forall>r\<in>set (pl_rules pl). rule_act r = Tokenize \<or> rule_act r = Redact) \<and> DefaultRuleOf (rule_act (last (pl_rules pl))) = last (pl_rules pl)) \<and>
   (enforce_production_ner n True pf = Inr () \<and> build_pipeline lib pf = Inr pl \<longrightarrow>
      (\<exists>dir. pf_ner_model_dir pf = Some dir \<and> NerDetector dir (pf_ner_locale pf) \<in> set (pl_detectors pl))) \<and>
   (validate_policy_file lib pf = Inr () \<and> gl_emails lib = None \<and> gl_build lib = None \<and>
      (\<forall>dir. pf_ner_model_dir pf = Some dir \<longrightarrow> gl_ner lib dir (pf_ner_locale pf) = None) \<longrightarrow>
      (\<exists>q. build_pipeline lib pf = Inr q))"
proof (intro conjI impI)
  assume a: "enforce_remote_output_policy p pf = Inr () \<and> p_source p = RemoteMcpLog cfg \<and> build_pipeline lib pf = Inr pl"
  then have e: "safe_action (pf_default_action pf)"
      "\<not> list_ex (\<lambda>r. \<not> safe_action (Some (unwrap_or (cr_action r) ''tokenize''))) (pf_column_rules pf)"
    by (auto simp: enforce_remote_output_policy_def split: if_splits)
  from a obtain rules strips strip_rules ac where b: "column_rules (pf_column_rules pf) = Inr rules"
      "logs_part lib pf = Inr (strips, strip_rules)" "default_action pf = Inr ac" "pl_rules pl = rules @ strip_rules @ [DefaultRuleOf ac]"
    by (auto simp: build_pipeline_ok)
  obtain raw where raw: "pf_default_action pf = Some raw" using e(1) by (auto simp: safe_action_def)
  then have "ac = Tokenize \<or> ac = Redact"
    using parse_action_safe [of raw "''policy.default_action''" ac] e(1) b(3) by (simp add: default_action_def unwrap_or_def)
  then show "\<forall>r\<in>set (pl_rules pl). rule_act r = Tokenize \<or> rule_act r = Redact"
    using column_rules_safe [OF b(1) e(2)] logs_part_safe [OF b(2)] b(4) by auto
  show "DefaultRuleOf (rule_act (last (pl_rules pl))) = last (pl_rules pl)" using b(4) by simp
next
  assume a: "enforce_production_ner n True pf = Inr () \<and> build_pipeline lib pf = Inr pl"
  then obtain dir where "pf_ner_model_dir pf = Some dir" by (auto simp: enforce_production_ner_def split: if_splits)
  with a show "\<exists>dir. pf_ner_model_dir pf = Some dir \<and> NerDetector dir (pf_ner_locale pf) \<in> set (pl_detectors pl)"
    by (auto simp: build_pipeline_ok ner_detector_def split: option.splits)
next
  assume a: "validate_policy_file lib pf = Inr () \<and> gl_emails lib = None \<and> gl_build lib = None \<and>
      (\<forall>dir. pf_ner_model_dir pf = Some dir \<longrightarrow> gl_ner lib dir (pf_ner_locale pf) = None)"
  then have "\<exists>rules. column_rules (pf_column_rules pf) = Inr rules"
    using column_actions_rules [of Map.empty] by (auto simp: validate_policy_file_def and_then_Inr_iff)
  moreover have "\<exists>ac. default_action pf = Inr ac" using a by (auto simp: validate_policy_file_def and_then_Inr_iff)
  moreover have "\<exists>lr. logs_part lib pf = Inr lr"
    using a by (auto simp: validate_policy_file_def and_then_Inr_iff logs_part_def split: option.splits if_splits)
  moreover have "\<exists>ner. ner_detector lib pf = Inr ner" using a by (auto simp: ner_detector_def split: option.splits)
  ultimately show "\<exists>q. build_pipeline lib pf = Inr q" using a by (auto simp: build_pipeline_ok)
qed

text \<open>
  C32: for a remote log profile that passes the output mandate, no rule of the pipeline that is built
  from its policy lets a detected span through: every column, class, log and default rule tokenizes or
  redacts. A production profile that passes its mandate runs the configured NER detector. And a policy
  the validator accepts does build, as soon as the library's own parts load.
\<close>

theorem policy_mandates_hold:
  "(enforce_remote_output_policy p pf = Inr () \<and> p_source p = RemoteMcpLog cfg \<and> build_pipeline lib pf = Inr pl \<longrightarrow>
      (\<forall>r\<in>set (pl_rules pl). rule_act r = Tokenize \<or> rule_act r = Redact) \<and> DefaultRuleOf (rule_act (last (pl_rules pl))) = last (pl_rules pl)) \<and>
   (enforce_production_ner n True pf = Inr () \<and> build_pipeline lib pf = Inr pl \<longrightarrow>
      (\<exists>dir. pf_ner_model_dir pf = Some dir \<and> NerDetector dir (pf_ner_locale pf) \<in> set (pl_detectors pl))) \<and>
   (validate_policy_file lib pf = Inr () \<and> gl_emails lib = None \<and> gl_build lib = None \<and>
      (\<forall>dir. pf_ner_model_dir pf = Some dir \<longrightarrow> gl_ner lib dir (pf_ner_locale pf) = None) \<longrightarrow>
      (\<exists>q. build_pipeline lib pf = Inr q))"
  by (rule policy_mandates)

definition demo_policy :: PolicyFile where
  "demo_policy = \<lparr>pf_scope = ''Conversation'', pf_ttl_secs = None, pf_ner_model_dir = Some ''m'', pf_ner_locale = None,
     pf_default_action = Some ''redact'', pf_column_rules = [\<lparr>cr_column = ''mail'', cr_class = ''email'', cr_action = None\<rparr>],
     pf_logs = Some \<lparr>lp_strip_patterns = [''x+''], lp_action = None\<rparr>\<rparr>"

definition demo_lib :: GazeLib where
  "demo_lib = \<lparr>gl_emails = None, gl_ner = (\<lambda>_ _. None), gl_regex = (\<lambda>_. None), gl_build = None\<rparr>"

definition demo_pipeline :: Pipeline where
  "demo_pipeline = \<lparr>pl_detectors = [EmailDetector, NerDetector ''m'' None, StripDetector ''x+'' 0],
     pl_rules = [ColumnRuleOf ''mail'' Tokenize, ClassRuleOf EmailClass Tokenize, ClassRuleOf (CustomClass ''log_strip'') Redact, DefaultRuleOf Redact]\<rparr>"

definition demo_remote :: Profile where
  "demo_remote = (demo_profile Off True)\<lparr>p_policy := Some ''policy.toml'', p_source := RemoteMcpLog
     \<lparr>rc_endpoint = ''127.0.0.1:1'', rc_server_name = ''h'', rc_trust_root = ''r'', rc_resource = ''log'', rc_secret = EnvSecret ''T''\<rparr>\<rparr>"

theorem policy_mandates_hold_witness:
  "list_all (\<lambda>r. rule_act r = Tokenize \<or> rule_act r = Redact) (pl_rules demo_pipeline) \<and>
   (\<exists>dir. NerDetector dir None \<in> set (pl_detectors demo_pipeline)) \<and> (\<exists>q. build_pipeline demo_lib demo_policy = Inr q)"
proof -
  obtain cfg where c: "p_source demo_remote = RemoteMcpLog cfg" by (simp add: demo_remote_def)
  have e: "enforce_remote_output_policy demo_remote demo_policy = Inr ()" by code_simp
  have b: "build_pipeline demo_lib demo_policy = Inr demo_pipeline" by code_simp
  have n: "enforce_production_ner ''p'' True demo_policy = Inr ()" by code_simp
  have v: "validate_policy_file demo_lib demo_policy = Inr ()" by code_simp
  have l: "gl_emails demo_lib = None" "gl_build demo_lib = None" "gl_ner demo_lib d x = None" "pf_ner_locale demo_policy = None" for d x
    by (simp_all add: demo_lib_def demo_policy_def)
  note h = policy_mandates_hold [of demo_remote demo_policy cfg demo_lib demo_pipeline "''p''"]
  from h e c b have "list_all (\<lambda>r. rule_act r = Tokenize \<or> rule_act r = Redact) (pl_rules demo_pipeline)"
    unfolding list_all_iff by blast
  moreover from h n b l(4) have "\<exists>dir. NerDetector dir None \<in> set (pl_detectors demo_pipeline)" by force
  moreover from h v l(1-3) have "\<exists>q. build_pipeline demo_lib demo_policy = Inr q" by blast
  ultimately show ?thesis by blast
qed

end
