(* ===== verification/Json_Value.thy ===== *)
theory Json_Value
  imports Lens_Errors
begin

text \<open>
  The public enum \<^verbatim>\<open>serde_json::Value\<close> over the type of its strings, and the parts of its interface the
  client uses. A \<^verbatim>\<open>serde_json::Map\<close> is a \<^verbatim>\<open>BTreeMap\<close>: the list of its entries in the order of their keys,
  so that equal maps are equal lists. Parsing and printing are not part of this theory.
\<close>

datatype JsonNumber = PosInt nat | NegInt int | FloatNumber bytes

datatype 's Json =
    JNull
  | JBool bool
  | JNumber JsonNumber
  | JString 's
  | JArray "'s Json list"
  | JObject "('s \<times> 's Json) list"

text \<open>What a tool releases, \<^verbatim>\<open>CleanOutput\<close> and \<^verbatim>\<open>ResultSummary\<close> of \<^verbatim>\<open>src/session/mod.rs\<close>.\<close>

datatype 's CleanOutput =
    CleanRows "('s \<times> 's Json) list list" "TruncatedAt list"
  | CleanText 's "TruncatedAt list"

record ResultSummary =
  rs_rows :: nat
  rs_bytes :: nat
  rs_truncated_at :: "TruncatedAt list"

text \<open>\<^verbatim>\<open>BTreeMap::insert\<close>, and a map built from entries in any order.\<close>

fun map_insert :: "'k::linorder \<Rightarrow> 'v \<Rightarrow> ('k \<times> 'v) list \<Rightarrow> ('k \<times> 'v) list" where
  "map_insert k v [] = [(k, v)]"
| "map_insert k v ((l, w) # m) =
     (if k < l then (k, v) # (l, w) # m else if k = l then (k, v) # m else (l, w) # map_insert k v m)"

definition map_inserts :: "('k::linorder \<times> 'v) list \<Rightarrow> ('k \<times> 'v) list \<Rightarrow> ('k \<times> 'v) list" where
  "map_inserts kvs m = fold (\<lambda>(k, v) acc. map_insert k v acc) kvs m"

definition json_field :: "'s \<Rightarrow> 's Json \<Rightarrow> 's Json option" where
  "json_field k v = (case v of JObject m \<Rightarrow> map_of m k | _ \<Rightarrow> None)"

definition as_str :: "'s Json \<Rightarrow> 's option" where
  "as_str v = (case v of JString s \<Rightarrow> Some s | _ \<Rightarrow> None)"

definition as_u64 :: "'s Json \<Rightarrow> nat option" where
  "as_u64 v = (case v of JNumber (PosInt n) \<Rightarrow> Some n | _ \<Rightarrow> None)"

definition sorted_map :: "('k::linorder \<times> 'v) list \<Rightarrow> bool" where
  "sorted_map m \<longleftrightarrow> sorted_wrt (<) (map fst m)"

lemma set_map_insert: "fst ` set (map_insert k v m) = insert k (fst ` set m)"
  by (induction k v m rule: map_insert.induct) auto

lemma set_map_inserts: "fst ` set (map_inserts kvs m) = fst ` set kvs \<union> fst ` set m"
proof (induction kvs arbitrary: m)
  case (Cons e kvs)
  have "map_inserts (e # kvs) m = map_inserts kvs (map_insert (fst e) (snd e) m)" by (simp add: map_inserts_def case_prod_beta)
  then have "fst ` set (map_inserts (e # kvs) m) = fst ` set kvs \<union> insert (fst e) (fst ` set m)" by (simp only: Cons.IH set_map_insert)
  then show ?case by (simp add: Un_insert_right)
qed (simp add: map_inserts_def)

lemma map_insert_last: "\<forall>l\<in>set (map fst m). l < k \<Longrightarrow> map_insert k v m = m @ [(k, v)]"
  by (induction k v m rule: map_insert.induct) auto

lemma sorted_map_insert: "sorted_map m \<Longrightarrow> sorted_map (map_insert k v m)"
proof (induction k v m rule: map_insert.induct)
  case (2 k v l w m)
  consider "k < l" | "k = l" | "l < k" by fastforce
  then show ?case
  proof cases
    case 3
    then have "\<not> k < l" "k \<noteq> l" by auto
    have "\<forall>x\<in>fst ` set (map_insert k v m). l < x" using 3 "2.prems" by (auto simp: set_map_insert sorted_map_def)
    with 2 \<open>\<not> k < l\<close> \<open>k \<noteq> l\<close> show ?thesis by (simp add: sorted_map_def)
  qed (use "2.prems" in \<open>auto simp: sorted_map_def intro: less_trans\<close>)
qed (simp add: sorted_map_def)

lemma map_of_map_insert: "sorted_map m \<Longrightarrow> map_of (map_insert k v m) = (map_of m)(k \<mapsto> v)"
proof (induction k v m rule: map_insert.induct)
  case (2 k v l w m)
  then have s: "sorted_map m" by (simp add: sorted_map_def)
  consider "k < l" | "k = l" | "l < k" by fastforce
  then show ?case
  proof cases
    case 3
    then have "\<not> k < l" "k \<noteq> l" by auto
    with 2 s show ?thesis by (auto simp: fun_eq_iff)
  qed auto
qed simp

lemma map_of_map_inserts:
  "sorted_map m \<Longrightarrow> sorted_map (map_inserts kvs m) \<and> map_of (map_inserts kvs m) = map_of m ++ map_of (rev kvs)"
proof (induction kvs arbitrary: m)
  case (Cons kv kvs)
  obtain k v where kv: "kv = (k, v)" by fastforce
  have "map_inserts (kv # kvs) m = map_inserts kvs (map_insert k v m)" by (simp add: map_inserts_def kv)
  with Cons.IH [OF sorted_map_insert [OF Cons.prems]] map_of_map_insert [OF Cons.prems, of k v] show ?case
    by (auto simp: kv map_add_def fun_eq_iff split: option.split)
qed (simp add: map_inserts_def)

end
