(* ===== verification/Lens_Value.thy ===== *)
theory Lens_Value
  imports Json_Value Policy "HOL-Library.Word"
begin

text \<open>
  The values of a row and their redaction, \<^verbatim>\<open>src/value.rs\<close>. The gaze library and the JSON printer are
  outside the repository: the record \<open>Gaze\<close> holds their operations. A gaze session has interior state,
  the tokens it has handed out; \<open>'g\<close> is that state, and an operation is a function from the state to its
  result and the next state, also when it fails.
\<close>

section \<open>Operations on the gaze session\<close>

type_synonym ('g, 'a) run = "'g \<Rightarrow> (LensError + 'a) \<times> 'g"

definition r_ok :: "'a \<Rightarrow> ('g, 'a) run" where
  "r_ok x g = (Inr x, g)"

definition r_err :: "LensError \<Rightarrow> ('g, 'a) run" where
  "r_err e g = (Inl e, g)"

definition r_of :: "LensError + 'a \<Rightarrow> ('g, 'a) run" where
  "r_of r g = (r, g)"

definition r_bind :: "('g, 'a) run \<Rightarrow> ('a \<Rightarrow> ('g, 'b) run) \<Rightarrow> ('g, 'b) run" where
  "r_bind m f g = (case m g of (Inl e, g1) \<Rightarrow> (Inl e, g1) | (Inr x, g1) \<Rightarrow> f x g1)"

text \<open>\<^verbatim>\<open>map_err(|err| LensError::RedactionFailed { detail: err.to_string() })\<close>.\<close>

definition redaction :: "('g \<Rightarrow> (bytes + 'a) \<times> 'g) \<Rightarrow> ('g, 'a) run" where
  "redaction m g = (case m g of (Inl d, g1) \<Rightarrow> (Inl (RedactionFailed d), g1) | (Inr x, g1) \<Rightarrow> (Inr x, g1))"

fun r_map :: "('a \<Rightarrow> ('g, 'b) run) \<Rightarrow> 'a list \<Rightarrow> ('g, 'b list) run" where
  "r_map f [] = r_ok []"
| "r_map f (x # xs) = r_bind (f x) (\<lambda>y. r_bind (r_map f xs) (\<lambda>ys. r_ok (y # ys)))"

section \<open>Data\<close>

text \<open>A \<^verbatim>\<open>f64\<close> is its bit pattern.\<close>

datatype LensValue =
    VNull
  | VBool bool
  | VI64 int
  | VU64 nat
  | VF64 "64 word"
  | VDecimal bytes nat nat
  | VString bytes
  | VBytes bytes nat
  | VDateTime bytes
  | VUuid bytes
  | VJson "bytes Json"

text \<open>A \<^verbatim>\<open>BTreeMap\<close>: the entries in the order of their keys.\<close>

type_synonym LensRow = "(bytes \<times> LensValue) list"

text \<open>Of the library: its values (\<open>GOther\<close> for a variant added later), documents and operations.\<close>

datatype GazeValue = GNull | GBool bool | GI64 int | GString bytes | GArray "GazeValue list" | GObject "(bytes \<times> GazeValue) list" | GOther

datatype RawDocument = RawText bytes | RawStructured "(bytes \<times> GazeValue) list"
datatype CleanDocument = CleanDocText bytes | CleanDocStructured "(bytes \<times> GazeValue) list" | CleanDocOther

record 'g Gaze =
  gz_redact :: "Pipeline \<Rightarrow> RawDocument \<Rightarrow> 'g \<Rightarrow> (bytes + CleanDocument) \<times> 'g"
  gz_tokenize :: "PiiClass \<Rightarrow> bytes \<Rightarrow> 'g \<Rightarrow> (bytes + bytes) \<times> 'g"
  gz_fake :: "PiiClass \<Rightarrow> bytes \<Rightarrow> 'g \<Rightarrow> (bytes + bytes) \<times> 'g"
  gz_restore :: "Pipeline \<Rightarrow> bytes \<Rightarrow> 'g \<Rightarrow> (bytes + bytes) \<times> 'g"
  gz_to_vec :: "bytes Json \<Rightarrow> bytes + bytes"
  gz_f64 :: "64 word \<Rightarrow> bytes Json"

section \<open>Lowering\<close>

fun mantissa_loop :: "bool \<Rightarrow> bool \<Rightarrow> bytes \<Rightarrow> LowerError + bool" where
  "mantissa_loop seen_digit seen_dot [] = Inr seen_digit"
| "mantissa_loop seen_digit seen_dot (c # s) =
     (if is_ascii_digit c then mantissa_loop True seen_dot s
      else if c = CHR ''.'' \<and> \<not> seen_dot then mantissa_loop seen_digit True s
      else Inl (Decode ''decimal'' (''invalid character '' @ [CHR 0x27] @ first_char (c # s) @ [CHR 0x27])))"

definition strip_sign :: "bytes \<Rightarrow> bytes" where
  "strip_sign s = (case s of c # r \<Rightarrow> if c = CHR ''+'' \<or> c = CHR ''-'' then r else s | [] \<Rightarrow> [])"

definition validate_decimal_mantissa :: "bytes \<Rightarrow> LowerError + unit" where
  "validate_decimal_mantissa s =
     and_then (mantissa_loop False False (strip_sign s)) (\<lambda>seen.
     if seen then Inr () else Inl (Decode ''decimal'' ''missing digits''))"

definition validate_decimal_exponent :: "bytes \<Rightarrow> LowerError + unit" where
  "validate_decimal_exponent s =
     (let digits = strip_sign s in
      if digits \<noteq> [] \<and> list_all is_ascii_digit digits then Inr () else Inl (Decode ''decimal'' ''invalid exponent''))"

definition exponent_mark :: "char \<Rightarrow> bool" where
  "exponent_mark c \<longleftrightarrow> c = CHR ''e'' \<or> c = CHR ''E''"

definition validate_decimal :: "bytes \<Rightarrow> LowerError + unit" where
  "validate_decimal raw =
     (let s = trim raw in
      if s = [] then Inl (Decode ''decimal'' ''empty decimal string'')
      else
        and_then (validate_decimal_mantissa (takeWhile (\<lambda>c. \<not> exponent_mark c) s)) (\<lambda>_.
        case dropWhile (\<lambda>c. \<not> exponent_mark c) s of [] \<Rightarrow> Inr () | _ # e \<Rightarrow> validate_decimal_exponent e))"

fun lower_for_redaction :: "LensValue \<Rightarrow> LowerError + GazeValue option" where
  "lower_for_redaction (VI64 n) = Inr (Some (GI64 n))"
| "lower_for_redaction (VDecimal s _ _) = and_then (validate_decimal s) (\<lambda>_. Inr None)"
| "lower_for_redaction (VString s) = Inr (Some (GString s))"
| "lower_for_redaction (VJson (JString s)) = Inr (Some (GString s))"
| "lower_for_redaction _ = Inr None"

text \<open>The operator \<^verbatim>\<open>?\<close> turns a \<^verbatim>\<open>LowerError\<close> into a \<^verbatim>\<open>LensError\<close>.\<close>

definition lowered :: "LensValue \<Rightarrow> LensError + GazeValue option" where
  "lowered v = (case lower_for_redaction v of Inl e \<Rightarrow> Inl (ConvertError e) | Inr x \<Rightarrow> Inr x)"

section \<open>Redaction\<close>

definition redact_text :: "'g Gaze \<Rightarrow> Pipeline \<Rightarrow> bytes \<Rightarrow> ('g, bytes) run" where
  "redact_text gz p s =
     r_bind (redaction (gz_redact gz p (RawText s))) (\<lambda>d.
     case d of
       CleanDocText t \<Rightarrow> r_ok t
     | CleanDocStructured _ \<Rightarrow> r_err (RedactionFailed ''text value produced structured output'')
     | CleanDocOther \<Rightarrow> r_err (RedactionFailed ''text value produced unsupported output''))"

text \<open>The walk over the strings of a JSON value that the three JSON rewrites of the client share.\<close>

fun walk_json :: "(bytes \<Rightarrow> ('g, bytes) run) \<Rightarrow> bytes Json \<Rightarrow> ('g, bytes Json) run"
  and walk_values :: "(bytes \<Rightarrow> ('g, bytes) run) \<Rightarrow> bytes Json list \<Rightarrow> ('g, bytes Json list) run"
  and walk_entries :: "(bytes \<Rightarrow> ('g, bytes) run) \<Rightarrow> (bytes \<times> bytes Json) list \<Rightarrow> ('g, (bytes \<times> bytes Json) list) run" where
  "walk_json f (JString s) = r_bind (f s) (\<lambda>t. r_ok (JString t))"
| "walk_json f (JArray xs) = r_bind (walk_values f xs) (\<lambda>ys. r_ok (JArray ys))"
| "walk_json f (JObject m) = r_bind (walk_entries f m) (\<lambda>n. r_ok (JObject n))"
| "walk_json f v = r_ok v"
| "walk_values f [] = r_ok []"
| "walk_values f (x # xs) = r_bind (walk_json f x) (\<lambda>y. r_bind (walk_values f xs) (\<lambda>ys. r_ok (y # ys)))"
| "walk_entries f [] = r_ok []"
| "walk_entries f ((k, x) # m) = r_bind (walk_json f x) (\<lambda>y. r_bind (walk_entries f m) (\<lambda>n. r_ok ((k, y) # n)))"

definition redact_json_value :: "'g Gaze \<Rightarrow> Pipeline \<Rightarrow> bytes Json \<Rightarrow> ('g, bytes Json) run" where
  "redact_json_value gz p = walk_json (redact_text gz p)"

fun redact_with :: "'g Gaze \<Rightarrow> Pipeline \<Rightarrow> LensValue \<Rightarrow> ('g, LensValue) run" where
  "redact_with gz p (VString s) = r_bind (redact_text gz p s) (\<lambda>t. r_ok (VString t))"
| "redact_with gz p (VJson v) = r_bind (redact_json_value gz p v) (\<lambda>w. r_ok (VJson w))"
| "redact_with gz p v = r_bind (r_of (lowered v)) (\<lambda>_. r_ok v)"

definition number_of_int :: "int \<Rightarrow> bytes Json" where
  "number_of_int n = JNumber (if 0 \<le> n then PosInt (nat n) else NegInt n)"

fun gaze_value_to_json :: "GazeValue \<Rightarrow> LensError + bytes Json" where
  "gaze_value_to_json GNull = Inr JNull"
| "gaze_value_to_json (GBool b) = Inr (JBool b)"
| "gaze_value_to_json (GI64 n) = Inr (number_of_int n)"
| "gaze_value_to_json (GString s) = Inr (JString s)"
| "gaze_value_to_json (GArray _) = Inl (RedactionFailed ''gaze::Value composite shape (Array/Object) not supported in manifest'')"
| "gaze_value_to_json (GObject _) = Inl (RedactionFailed ''gaze::Value composite shape (Array/Object) not supported in manifest'')"
| "gaze_value_to_json GOther = Inl (RedactionFailed ''gaze::Value unsupported shape not supported in manifest'')"

section \<open>Runs that succeed\<close>

lemma r_bind_Inr: "fst (r_bind m f g) = Inr y \<longleftrightarrow> (\<exists>x. fst (m g) = Inr x \<and> fst (f x (snd (m g))) = Inr y)"
  by (auto simp: r_bind_def split: prod.splits sum.splits)

lemma r_ok_Inr [simp]: "fst (r_ok x g) = Inr y \<longleftrightarrow> y = x"
  by (auto simp: r_ok_def)

lemma r_err_Inr [simp]: "fst (r_err e g) \<noteq> Inr y"
  by (simp add: r_err_def)

lemma r_of_Inr [simp]: "fst (r_of r g) = r"
  by (simp add: r_of_def)

lemma redaction_Inr: "fst (redaction m g) = Inr y \<longleftrightarrow> fst (m g) = Inr y"
  by (auto simp: redaction_def split: prod.splits sum.splits)

lemma lowered_Inr: "lowered v = Inr x \<longleftrightarrow> lower_for_redaction v = Inr x"
  by (simp add: lowered_def split: sum.split)

lemmas run_simps = r_bind_Inr redaction_Inr

text \<open>A text is redacted exactly when the pipeline answers with a text.\<close>

lemma redact_text_Inr: "fst (redact_text gz p s g) = Inr t \<longleftrightarrow> fst (gz_redact gz p (RawText s) g) = Inr (CleanDocText t)"
proof (cases "fst (gz_redact gz p (RawText s) g)")
  case (Inr d)
  then show ?thesis by (cases d) (auto simp: redact_text_def run_simps)
qed (auto simp: redact_text_def run_simps)

text \<open>Every string of a JSON value, keys aside, satisfies \<open>P\<close>.\<close>

fun all_strings :: "(bytes \<Rightarrow> bool) \<Rightarrow> bytes Json \<Rightarrow> bool" where
  "all_strings P (JString s) \<longleftrightarrow> P s"
| "all_strings P (JArray xs) \<longleftrightarrow> (\<forall>x\<in>set xs. all_strings P x)"
| "all_strings P (JObject m) \<longleftrightarrow> (\<forall>(k, v)\<in>set m. all_strings P v)"
| "all_strings P _ \<longleftrightarrow> True"

text \<open>A successful walk has rewritten every string, and nothing but strings.\<close>

definition yields :: "(bytes \<Rightarrow> ('g, bytes) run) \<Rightarrow> (bytes \<Rightarrow> bool) \<Rightarrow> bool" where
  "yields f P \<longleftrightarrow> (\<forall>s g t. fst (f s g) = Inr t \<longrightarrow> P t)"

lemma walk_json_strings:
  fixes f :: "bytes \<Rightarrow> ('g, bytes) run"
  shows "yields f P \<Longrightarrow> fst (walk_json f v g) = Inr w \<Longrightarrow> all_strings P w"
    and "yields f P \<Longrightarrow> fst (walk_values f vs g) = Inr ws \<Longrightarrow> \<forall>w\<in>set ws. all_strings P w"
    and "yields f P \<Longrightarrow> fst (walk_entries f m g) = Inr n \<Longrightarrow> map fst n = map fst m \<and> (\<forall>e\<in>set n. all_strings P (snd e))"
proof (induction f v and f vs and f m arbitrary: g w and g ws and g n rule: walk_json_walk_values_walk_entries.induct)
  case (3 f m)
  then obtain n where n: "fst (walk_entries f m g) = Inr n" "w = JObject n" by (auto simp: run_simps)
  from 3(1) [OF 3(2) n(1)] n(2) show ?case by (simp add: case_prod_beta)
next
  case (8 f k x m)
  then obtain y n1 where y: "fst (walk_json f x g) = Inr y" "fst (walk_entries f m (snd (walk_json f x g))) = Inr n1" "n = (k, y) # n1"
    by (auto simp: run_simps)
  from 8(1) [OF 8(3) y(1)] 8(2) [OF 8(3) y(2)] y(3) show ?case by simp
qed (auto simp: run_simps yields_def)

text \<open>A rewrite of strings keeps the shape: a value that is a string stays one, no other value becomes one.\<close>

lemma walk_json_shape:
  "fst (walk_json f v g) = Inr w \<Longrightarrow> (\<exists>s. w = JString s) \<longleftrightarrow> (\<exists>s. v = JString s)"
  by (cases v) (auto simp: run_simps)

end
