(* ===== verification/Ssh_Command.thy ===== *)
theory Ssh_Command
  imports Rust_Text
begin

text \<open>
  Command lines for ssh: the host and path validators and the argument builders of
  \<^verbatim>\<open>src/source/ssh_tunnel.rs\<close>, and \<^verbatim>\<open>tail_argv\<close> of \<^verbatim>\<open>src/source/log/ssh_log.rs\<close>. ssh joins the words behind
  the host with blanks and hands the line to the remote shell; the property below is about what that
  shell can see. Spawning and the control socket's place in the file system are outside the model.
\<close>

section \<open>Validators\<close>

datatype SshError = InvalidHost bytes bytes | InvalidPath bytes bytes | Spawn bytes | NonZero bytes | LocalPortInUse nat nat

definition quoted :: "char \<Rightarrow> bytes" where
  "quoted c = [CHR 0x27, c, CHR 0x27]"

definition host_byte :: "char \<Rightarrow> bool" where
  "host_byte c \<longleftrightarrow> is_ascii_alphanumeric c \<or> c = CHR ''.'' \<or> c = CHR ''_'' \<or> c = CHR ''-''"

text \<open>\<^verbatim>\<open>s.split(c)\<close>: always at least one part.\<close>

fun split_on :: "char \<Rightarrow> bytes \<Rightarrow> bytes list" where
  "split_on c [] = [[]]"
| "split_on c (x # xs) =
     (case split_on c xs of
        p # ps \<Rightarrow> if x = c then [] # p # ps else (x # p) # ps
      | [] \<Rightarrow> [])"

definition validate_ssh_host :: "bytes \<Rightarrow> SshError + bytes" where
  "validate_ssh_host host =
     (if host = [] then Inl (InvalidHost host ''empty host'')
      else if length host > 253 then Inl (InvalidHost host ''host exceeds DNS length limit'')
      else if starts_with_char (CHR ''-'') host then Inl (InvalidHost host (''host cannot start with '' @ quoted (CHR ''-'')))
      else if list_ex (\<lambda>c. \<not> host_byte c) host
      then Inl (InvalidHost host (''host may only contain ASCII letters, digits, '' @ join '', '' (map quoted [CHR ''.'', CHR ''_'', CHR ''-''])))
      else Inr host)"

fun host_parts :: "bytes \<Rightarrow> bytes list \<Rightarrow> SshError + unit" where
  "host_parts host [] = Inr ()"
| "host_parts host (p # ps) =
     (if p = [] then Inl (InvalidHost host ''user and host parts cannot be empty'')
      else if starts_with_char (CHR ''-'') p then Inl (InvalidHost host (''user and host parts cannot start with '' @ quoted (CHR ''-'')))
      else if list_ex (\<lambda>c. \<not> host_byte c) p
      then Inl (InvalidHost host (''host may only contain ASCII letters, digits, '' @ join '', '' (map quoted [CHR ''.'', CHR ''_'', CHR ''-'']) @ '', and one '' @ quoted (CHR ''@'')))
      else host_parts host ps)"

definition validate_ssh_login_host :: "bytes \<Rightarrow> SshError + bytes" where
  "validate_ssh_login_host host =
     (if host = [] then Inl (InvalidHost host ''empty host'')
      else if length host > 253 then Inl (InvalidHost host ''host exceeds DNS length limit'')
      else if starts_with_char (CHR ''-'') host then Inl (InvalidHost host (''host cannot start with '' @ quoted (CHR ''-'')))
      else if count_list host (CHR ''@'') > 1 then Inl (InvalidHost host (''host may contain at most one '' @ quoted (CHR ''@'')))
      else and_then (host_parts host (split_on (CHR ''@'') host)) (\<lambda>_. Inr host))"

definition shell_meta :: "char \<Rightarrow> bool" where
  "shell_meta c \<longleftrightarrow> c \<in> {CHR '';'', CHR ''|'', CHR ''&'', CHR 0x60, CHR ''$'', CHR 0x0A, CHR 0x0D, CHR 0x00}"

definition glob_byte :: "char \<Rightarrow> bool" where
  "glob_byte c \<longleftrightarrow> c \<in> {CHR ''*'', CHR ''?'', CHR ''['', CHR '']''}"

definition path_byte :: "char \<Rightarrow> bool" where
  "path_byte c \<longleftrightarrow> host_byte c \<or> c = CHR ''/''"

definition validate_ssh_path :: "bytes \<Rightarrow> SshError + bytes" where
  "validate_ssh_path path =
     (if path = [] then Inl (InvalidPath path ''empty path'')
      else if length path > 4096 then Inl (InvalidPath path ''path exceeds PATH_MAX'')
      else if list_ex shell_meta path then Inl (InvalidPath path ''path contains shell metacharacters'')
      else if list_ex glob_byte path then Inl (InvalidPath path ''path contains glob characters'')
      else if ''..'' \<in> set (split_on (CHR ''/'') path) then Inl (InvalidPath path ''path contains traversal segment'')
      else if list_ex (\<lambda>c. \<not> path_byte c) path
      then Inl (InvalidPath path (''path may only contain ASCII letters, digits, '' @ join '', '' (map quoted [CHR ''/'', CHR ''.'', CHR ''_'', CHR ''-''])))
      else Inr path)"

section \<open>Argument builders\<close>

definition HARD_CAP_LINES :: nat where "HARD_CAP_LINES = 10000"

text \<open>The two \<^verbatim>\<open>expect\<close> calls panic on an unvalidated host or path: \<^const>\<open>None\<close>.\<close>

definition tail_argv :: "bytes \<Rightarrow> bytes \<Rightarrow> nat \<Rightarrow> bytes list option" where
  "tail_argv host path lines =
     (case (validate_ssh_login_host host, validate_ssh_path path) of
        (Inr h, Inr p) \<Rightarrow>
          Some [''ssh'', ''-o'', ''BatchMode=yes'', ''-o'', ''ConnectTimeout=10'', ''--'', h,
                ''tail'', ''-n'', nat_to_string (min lines HARD_CAP_LINES), ''--'', p]
      | _ \<Rightarrow> None)"

definition remote_argv :: "bytes \<Rightarrow> bytes list \<Rightarrow> bytes \<Rightarrow> SshError + bytes list" where
  "remote_argv host command_argv path =
     and_then (validate_ssh_login_host host) (\<lambda>h.
     and_then (validate_ssh_path path) (\<lambda>p.
     Inr ([''ssh'', ''--'', h] @ command_argv @ [''--'', p])))"

record TunnelSpec =
  tn_ssh_host :: bytes
  tn_local_port :: nat
  tn_remote_host :: bytes
  tn_remote_port :: nat

definition open_argv :: "TunnelSpec \<Rightarrow> bytes \<Rightarrow> SshError + bytes list" where
  "open_argv spec control_path =
     and_then (validate_ssh_login_host (tn_ssh_host spec)) (\<lambda>h.
     Inr [''-f'', ''-N'', ''-M'', ''-S'', control_path, ''-o'', ''ExitOnForwardFailure=yes'', ''-L'',
          nat_to_string (tn_local_port spec) @ '':'' @ tn_remote_host spec @ '':'' @ nat_to_string (tn_remote_port spec), ''--'', h])"

definition close_argv :: "bytes \<Rightarrow> bytes \<Rightarrow> SshError + bytes list" where
  "close_argv host control_path =
     and_then (validate_ssh_login_host host) (\<lambda>h. Inr [''-S'', control_path, ''-O'', ''exit'', ''--'', h])"

text \<open>The host and path checks of \<^verbatim>\<open>SshLogSource::new\<close>.\<close>

definition ssh_log_source_new :: "bytes \<Rightarrow> bytes \<Rightarrow> SshError + bytes \<times> bytes" where
  "ssh_log_source_new host path =
     and_then (validate_ssh_login_host host) (\<lambda>h. and_then (validate_ssh_path path) (\<lambda>p. Inr (h, p)))"

section \<open>What is accepted\<close>

definition login_part :: "bytes \<Rightarrow> bool" where
  "login_part p \<longleftrightarrow> p \<noteq> [] \<and> hd p \<noteq> CHR ''-'' \<and> list_all host_byte p"

lemma starts_with_char_hd: "starts_with_char c s \<longleftrightarrow> s \<noteq> [] \<and> hd s = c"
  by (cases s) (auto simp: starts_with_char_def)

lemma host_parts_ok_iff: "host_parts host ps = Inr u \<longleftrightarrow> list_all login_part ps"
  by (induction ps) (auto simp: login_part_def starts_with_char_hd list_ex_iff list_all_iff)

lemma split_on_not_Nil [simp]: "split_on c s \<noteq> []"
  by (induction s) (auto split: list.splits)

lemma split_on_no_sep: "c \<notin> set s \<Longrightarrow> split_on c s = [s]"
  by (induction s) auto

lemma split_on_append: "c \<notin> set s \<Longrightarrow> split_on c (s @ c # r) = s # split_on c r"
proof (induction s)
  case Nil
  then show ?case by (cases "split_on c r") simp_all
next
  case (Cons x s)
  then show ?case by auto
qed

lemma split_on_join: "xs \<noteq> [] \<Longrightarrow> \<forall>x\<in>set xs. c \<notin> set x \<Longrightarrow> split_on c (join [c] xs) = xs"
  by (induction "[c]" xs rule: join.induct) (auto simp: split_on_no_sep split_on_append)

lemma login_host_iff:
  "validate_ssh_login_host host = Inr h \<longleftrightarrow>
     h = host \<and> length host \<le> 253 \<and> (login_part host \<or> (\<exists>user name. host = user @ CHR ''@'' # name \<and> login_part user \<and> login_part name))"
proof -
  have at: "\<not> host_byte (CHR ''@'')" by (simp add: host_byte_def byte_class_defs)
  then have no_at: "login_part p \<Longrightarrow> CHR ''@'' \<notin> set p" for p by (auto simp: login_part_def list_all_iff)
  show ?thesis
  proof (cases "split_once (CHR ''@'') host")
    case None
    then have n: "CHR ''@'' \<notin> set host" by (simp add: split_once_None)
    then have "split_on (CHR ''@'') host = [host]" "count_list host (CHR ''@'') = 0" by (simp_all add: split_on_no_sep count_list_0_iff)
    with n show ?thesis
      by (auto simp: validate_ssh_login_host_def and_then_Inr_iff host_parts_ok_iff starts_with_char_hd login_part_def list_ex_iff list_all_iff split: if_splits)
  next
    case (Some ab)
    obtain a b where ab: "ab = (a, b)" by (cases ab)
    from split_once_Some [OF Some [unfolded ab]] have h: "host = a @ CHR ''@'' # b" "CHR ''@'' \<notin> set a" by blast+
    have c: "count_list host (CHR ''@'') = Suc (count_list b (CHR ''@''))" using h by (simp add: count_list_0_iff)
    have sp: "split_on (CHR ''@'') host = a # split_on (CHR ''@'') b" using h by (simp add: split_on_append)
    have nl: "\<not> login_part host" using no_at [of host] h by auto
    have uniq: "(\<exists>user name. host = user @ CHR ''@'' # name \<and> login_part user \<and> login_part name) \<longleftrightarrow> login_part a \<and> login_part b"
    proof
      assume "\<exists>user name. host = user @ CHR ''@'' # name \<and> login_part user \<and> login_part name"
      then obtain u n where un: "host = u @ CHR ''@'' # n" "login_part u" "login_part n" by blast
      have "split_once (CHR ''@'') host = Some (u, n)" using un(1) no_at [OF un(2)] by (simp add: split_once_append)
      with Some ab un show "login_part a \<and> login_part b" by simp
    qed (use h in blast)
    show ?thesis
    proof (cases "CHR ''@'' \<in> set b")
      case True
      then have "count_list b (CHR ''@'') \<noteq> 0" by (simp add: count_list_0_iff)
      with c have "\<nexists>h. validate_ssh_login_host host = Inr h" by (simp add: validate_ssh_login_host_def)
      moreover have "\<not> login_part b" using no_at [of b] True by blast
      ultimately show ?thesis using nl uniq by blast
    next
      case False
      then have "count_list b (CHR ''@'') = 0" "split_on (CHR ''@'') b = [b]" by (simp_all add: count_list_0_iff split_on_no_sep)
      moreover have "hd host = CHR ''-'' \<longleftrightarrow> a \<noteq> [] \<and> hd a = CHR ''-''" using h by (cases a) auto
      ultimately show ?thesis
        using c sp nl h(1) unfolding uniq
        by (auto simp: validate_ssh_login_host_def and_then_Inr_iff host_parts_ok_iff starts_with_char_hd login_part_def list_ex_iff list_all_iff split: if_splits)
    qed
  qed
qed

lemma path_iff:
  "validate_ssh_path path = Inr p \<longleftrightarrow>
     p = path \<and> path \<noteq> [] \<and> length path \<le> 4096 \<and> list_all path_byte path \<and> ''..'' \<notin> set (split_on (CHR ''/'') path)"
proof -
  have "path_byte c \<Longrightarrow> \<not> shell_meta c \<and> \<not> glob_byte c" for c
    by (auto simp: path_byte_def host_byte_def shell_meta_def glob_byte_def byte_class_defs)
  then have "list_all path_byte path \<Longrightarrow> \<not> list_ex shell_meta path \<and> \<not> list_ex glob_byte path"
    by (auto simp: list_all_iff list_ex_iff)
  then show ?thesis by (auto simp: validate_ssh_path_def list_ex_iff list_all_iff)
qed

text \<open>Bytes that no shell gives a meaning: neither blanks, quotes, expansions nor separators.\<close>

definition inert :: "char \<Rightarrow> bool" where
  "inert c \<longleftrightarrow> path_byte c \<or> c = CHR ''@''"

text \<open>
  C34: for a log source that was accepted, the ssh command line names the host behind the end-of-options
  marker, where it cannot be an option; the words of the remote command contain only bytes without
  meaning to a shell, so the line ssh sends splits back into exactly \<^verbatim>\<open>tail -n N -- path\<close> with at most
  10000 lines and a path without a parent segment.
\<close>

theorem tail_command_is_inert:
  assumes "ssh_log_source_new host path = Inr (h, p)" "tail_argv h p lines = Some argv"
  shows "take 7 argv = [''ssh'', ''-o'', ''BatchMode=yes'', ''-o'', ''ConnectTimeout=10'', ''--'', host] \<and>
    hd host \<noteq> CHR ''-'' \<and> list_all inert host \<and>
    (\<exists>n. drop 7 argv = [''tail'', ''-n'', n, ''--'', path] \<and> all_digits n \<and> digits_value n \<le> 10000) \<and>
    (\<forall>w\<in>set (drop 7 argv). list_all inert w) \<and>
    split_on (CHR '' '') (join '' '' (drop 7 argv)) = drop 7 argv \<and> ''..'' \<notin> set (split_on (CHR ''/'') path)"
proof -
  from assms(1) have v: "validate_ssh_login_host host = Inr h" "validate_ssh_path path = Inr p"
    by (auto simp: ssh_log_source_new_def and_then_Inr_iff)
  note hh = v(1) [unfolded login_host_iff] and pp = v(2) [unfolded path_iff]
  let ?n = "nat_to_string (min lines HARD_CAP_LINES)"
  have hp: "h = host" "p = path" using hh pp by blast+
  have argv: "argv = [''ssh'', ''-o'', ''BatchMode=yes'', ''-o'', ''ConnectTimeout=10'', ''--'', host, ''tail'', ''-n'', ?n, ''--'', path]"
    using assms(2) v hp by (simp add: tail_argv_def)
  have dg: "all_digits ?n" using nat_to_string_canonical [of "min lines HARD_CAP_LINES"] by (simp add: canonical_digits_def)
  have hosts: "hd host \<noteq> CHR ''-'' \<and> list_all inert host"
    using hh by (auto simp: login_part_def list_all_iff inert_def path_byte_def)
  have words: "list_all inert ''tail''" "list_all inert ''-n''" "list_all inert ''--''"
    by (simp_all add: inert_def path_byte_def host_byte_def byte_class_defs)
  have "list_all inert ?n"
    using dg by (auto simp: all_digits_def list_all_iff inert_def path_byte_def host_byte_def is_ascii_alphanumeric_def)
  moreover have "list_all inert path" using pp by (auto simp: list_all_iff inert_def)
  ultimately have all: "\<forall>w\<in>set (drop 7 argv). list_all inert w" using argv words by simp
  have "\<not> inert (CHR '' '')" by (simp add: inert_def path_byte_def host_byte_def byte_class_defs)
  then have "\<forall>w\<in>set (drop 7 argv). CHR '' '' \<notin> set w" using all by (auto simp: list_all_iff)
  moreover have "drop 7 argv \<noteq> []" using argv by simp
  ultimately have sp: "split_on (CHR '' '') (join '' '' (drop 7 argv)) = drop 7 argv" by (intro split_on_join)
  have n: "drop 7 argv = [''tail'', ''-n'', ?n, ''--'', path]" "take 7 argv = [''ssh'', ''-o'', ''BatchMode=yes'', ''-o'', ''ConnectTimeout=10'', ''--'', host]"
    using argv by simp_all
  have "digits_value ?n \<le> 10000" by (simp add: HARD_CAP_LINES_def)
  with n dg have "\<exists>n. drop 7 argv = [''tail'', ''-n'', n, ''--'', path] \<and> all_digits n \<and> digits_value n \<le> 10000" by blast
  with n(2) hosts all sp pp show ?thesis by blast
qed

theorem tail_command_is_inert_witness:
  "\<exists>argv. tail_argv ''ops@db-1'' ''/var/log/app.log'' 50000 = Some argv \<and>
     split_on (CHR '' '') (join '' '' (drop 7 argv)) = [''tail'', ''-n'', ''10000'', ''--'', ''/var/log/app.log'']"
proof -
  let ?argv = "[''ssh'', ''-o'', ''BatchMode=yes'', ''-o'', ''ConnectTimeout=10'', ''--'', ''ops@db-1'', ''tail'', ''-n'', ''10000'', ''--'', ''/var/log/app.log'']"
  have s: "ssh_log_source_new ''ops@db-1'' ''/var/log/app.log'' = Inr (''ops@db-1'', ''/var/log/app.log'')" by code_simp
  have t: "tail_argv ''ops@db-1'' ''/var/log/app.log'' 50000 = Some ?argv" by code_simp
  have "split_on (CHR '' '') (join '' '' (drop 7 ?argv)) = drop 7 ?argv" using tail_command_is_inert [OF s t] by blast
  with t show ?thesis by (intro exI [of _ ?argv] conjI) simp_all
qed

end
