(* ===== verification/Log_Sources.thy ===== *)
theory Log_Sources
  imports Lens_Errors Json_Scanner Lens_Interfaces Ssh_Command
begin

text \<open>
  The log sources, \<^verbatim>\<open>src/source/log/ssh_log.rs\<close> and \<^verbatim>\<open>local_log.rs\<close>: cutting raw bytes into capped
  lines, finding the start of the last lines of a file by reading it backwards in chunks, filtering a
  window by a regular expression, and the short-lived window caches. The regex engine, the lossy UTF-8
  decoder's treatment of invalid bytes, the clock and the fetched bytes are arguments.
\<close>

section \<open>Lines\<close>

text \<open>\<^verbatim>\<open>validate_utf8\<close>: the detail, the library's own text, is left out.\<close>

definition decode_error :: LensError where
  "decode_error = ConvertError (Decode ''local_log'' [])"

definition split_and_cap_lines_with_truncation :: "(bytes \<Rightarrow> bytes) \<Rightarrow> bytes \<Rightarrow> nat \<Rightarrow> bytes list \<times> bool" where
  "split_and_cap_lines_with_truncation lossy raw max_line =
     (let ls = filter (\<lambda>l. l \<noteq> []) (split_on newline raw)
      in (map (\<lambda>l. lossy (take (min (length l) max_line) l)) ls, list_ex (\<lambda>l. length l > max_line) ls))"

definition split_and_cap_lines :: "(bytes \<Rightarrow> bytes) \<Rightarrow> bytes \<Rightarrow> nat \<Rightarrow> bytes list" where
  "split_and_cap_lines lossy raw max_line = fst (split_and_cap_lines_with_truncation lossy raw max_line)"

definition read_capped :: "bytes \<Rightarrow> nat \<Rightarrow> bytes" where
  "read_capped s n = take n s"

record LogMetadata =
  lm_operation :: bytes
  lm_status :: bytes
  lm_profile :: bytes
  lm_source_kind :: bytes
  lm_host :: "bytes option"
  lm_path :: bytes
  lm_pattern :: bytes
  lm_level :: "bytes option"
  lm_requested_limit :: nat
  lm_tail_window_lines :: nat
  lm_searched_lines :: nat
  lm_matched_lines :: nat
  lm_returned_lines :: nat
  lm_searched_bytes :: nat
  lm_truncated_at :: "TruncatedAt list"

record LogOutput =
  lo_lines :: "bytes list"
  lo_truncated_at :: "TruncatedAt list"
  lo_bytes :: nat
  lo_metadata :: "LogMetadata option"

definition push_truncation :: "TruncatedAt list \<Rightarrow> TruncatedAt \<Rightarrow> TruncatedAt list" where
  "push_truncation ts r = (if r \<in> set ts then ts else ts @ [r])"

text \<open>The end of both \<^verbatim>\<open>tail\<close> paths: cap the bytes, cut the lines and note what was cut.\<close>

definition cap_output :: "(bytes \<Rightarrow> bytes) \<Rightarrow> bytes \<Rightarrow> bool \<Rightarrow> nat \<Rightarrow> LogOutput" where
  "cap_output lossy raw bytes_cut max_line =
     (let (ls, cut) = split_and_cap_lines_with_truncation lossy raw max_line
      in \<lparr>lo_lines = ls, lo_truncated_at = (if bytes_cut then [BytesCut] else []) @ (if cut then [LineBytesCut] else []),
          lo_bytes = length raw, lo_metadata = None\<rparr>)"

section \<open>Reading a file from its end\<close>

definition READ_CHUNK_BYTES :: nat where "READ_CHUNK_BYTES = 65536"

text \<open>One chunk, from its last byte down: the offset behind the wanted newline, or the newlines seen.\<close>

fun scan_chunk :: "bytes \<Rightarrow> nat \<Rightarrow> nat \<Rightarrow> nat \<Rightarrow> nat + nat" where
  "scan_chunk chunk 0 seen target = Inr seen"
| "scan_chunk chunk (Suc i) seen target =
     (if chunk ! i = newline then
        (if seen + 1 = target then Inl (i + 1) else scan_chunk chunk i (seen + 1) target)
      else scan_chunk chunk i seen target)"

function tail_scan :: "nat \<Rightarrow> bytes \<Rightarrow> nat \<Rightarrow> nat \<Rightarrow> nat \<Rightarrow> nat" where
  "tail_scan chunk_size raw pos seen target =
     (if pos = 0 \<or> chunk_size = 0 then 0
      else
        (let read_len = min pos chunk_size; start = pos - read_len;
             chunk = read_capped (drop start raw) read_len
         in case scan_chunk chunk (length chunk) seen target of
              Inl i \<Rightarrow> start + i
            | Inr seen1 \<Rightarrow> tail_scan chunk_size raw start seen1 target))"
  by pat_completeness auto
termination
  by (relation "measure (\<lambda>(_, _, pos, _, _). pos)") auto

declare tail_scan.simps [simp del]

definition tail_start_offset :: "bytes \<Rightarrow> nat \<Rightarrow> nat" where
  "tail_start_offset raw lines =
     (let last_byte = read_capped (drop (length raw - 1) raw) 1;
          target = lines + (if last_byte = [newline] then 1 else 0)
      in tail_scan READ_CHUNK_BYTES raw (length raw) 0 target)"

text \<open>\<open>file\<close> is the content, or the I/O error met on the way.\<close>

definition read_tail_bytes :: "LensError + bytes \<Rightarrow> nat \<Rightarrow> nat \<Rightarrow> LensError + bytes" where
  "read_tail_bytes file max_total lines =
     (if lines = 0 then Inr []
      else and_then file (\<lambda>content.
        if content = [] then Inr []
        else Inr (read_capped (drop (tail_start_offset content lines) content) (max_total + 1))))"

definition tail_inner :: "(bytes \<Rightarrow> bytes) \<Rightarrow> LensError + bytes \<Rightarrow> nat \<Rightarrow> nat \<Rightarrow> nat \<Rightarrow> LensError + LogOutput" where
  "tail_inner lossy file max_line max_total lines =
     and_then (read_tail_bytes file max_total (min lines HARD_CAP_LINES)) (\<lambda>raw0.
     let bytes_cut = length raw0 > max_total; raw = (if bytes_cut then take max_total raw0 else raw0) in
     and_then (if utf8_valid raw then Inr () else Inl decode_error) (\<lambda>_.
     Inr (cap_output lossy raw bytes_cut max_line)))"

section \<open>What the backward scan finds\<close>

definition newlines :: "bytes \<Rightarrow> nat" where
  "newlines s = count_list s newline"

definition num_lines :: "bytes \<Rightarrow> nat" where
  "num_lines s = newlines s + (if s = [] \<or> last s = newline then 0 else 1)"

lemma newlines_simps [simp]:
  "newlines [] = 0" "newlines (c # s) = (if c = newline then 1 else 0) + newlines s" "newlines (s @ t) = newlines s + newlines t"
  by (auto simp: newlines_def)

lemma scan_chunk_spec:
  assumes "i \<le> length chunk" "seen < target"
  shows "case scan_chunk chunk i seen target of
      Inl k \<Rightarrow> 0 < k \<and> k \<le> i \<and> chunk ! (k - 1) = newline \<and> seen + newlines (drop k (take i chunk)) + 1 = target
    | Inr s \<Rightarrow> s = seen + newlines (take i chunk) \<and> s < target"
  using assms
proof (induction chunk i seen target rule: scan_chunk.induct)
  case (2 chunk i seen target)
  have t: "take (Suc i) chunk = take i chunk @ [chunk ! i]" using "2.prems"(1) by (simp add: take_Suc_conv_app_nth)
  consider (hit) "chunk ! i = newline" "seen + 1 = target" | (more) "chunk ! i = newline" "seen + 1 < target" | (other) "chunk ! i \<noteq> newline"
    using "2.prems"(2) by linarith
  then show ?case
  proof cases
    case hit
    then show ?thesis by simp
  next
    case more
    have "case scan_chunk chunk i (seen + 1) target of
        Inl k \<Rightarrow> 0 < k \<and> k \<le> i \<and> chunk ! (k - 1) = newline \<and> seen + 1 + newlines (drop k (take i chunk)) + 1 = target
      | Inr s \<Rightarrow> s = seen + 1 + newlines (take i chunk) \<and> s < target"
      using "2.IH"(1) more "2.prems"(1) by simp
    with more "2.prems"(1) show ?thesis by (auto simp: t split: sum.splits)
  next
    case other
    have "case scan_chunk chunk i seen target of
        Inl k \<Rightarrow> 0 < k \<and> k \<le> i \<and> chunk ! (k - 1) = newline \<and> seen + newlines (drop k (take i chunk)) + 1 = target
      | Inr s \<Rightarrow> s = seen + newlines (take i chunk) \<and> s < target"
      using "2.IH"(2) other "2.prems" by simp
    with other "2.prems"(1) show ?thesis by (auto simp: t split: sum.splits)
  qed
qed simp

lemma scan_chunk_whole:
  assumes "seen < target"
  shows "case scan_chunk c (length c) seen target of
      Inl k \<Rightarrow> 0 < k \<and> k \<le> length c \<and> c ! (k - 1) = newline \<and> seen + newlines (drop k c) + 1 = target
    | Inr s \<Rightarrow> s = seen + newlines c \<and> s < target"
  using scan_chunk_spec [OF order_refl [of "length c"] assms] by (auto split: sum.splits)

text \<open>The offset behind the \<open>target\<close>-th newline from the end, or 0.\<close>

definition found_at :: "bytes \<Rightarrow> nat \<Rightarrow> nat \<Rightarrow> bool" where
  "found_at raw target r \<longleftrightarrow>
     (if newlines raw < target then r = 0
      else 0 < r \<and> r \<le> length raw \<and> raw ! (r - 1) = newline \<and> newlines (drop r raw) + 1 = target)"

lemma tail_scan_spec:
  "0 < chunk_size \<Longrightarrow> pos \<le> length raw \<Longrightarrow> seen = newlines (drop pos raw) \<Longrightarrow> seen < target \<Longrightarrow>
     found_at raw target (tail_scan chunk_size raw pos seen target)"
proof (induction chunk_size raw pos seen target rule: tail_scan.induct)
  case (1 chunk_size raw pos seen target)
  show ?case
  proof (cases "pos = 0")
    case True
    with 1 show ?thesis by (simp add: tail_scan.simps found_at_def)
  next
    case False
    define n where "n = min pos chunk_size"
    define start where "start = pos - n"
    define chunk where "chunk = take n (drop start raw)"
    have pos: "n + start = pos" and npos: "0 < n" using False "1.prems"(1) by (simp_all add: start_def n_def)
    have len: "length chunk = n" using "1.prems"(2) pos by (simp add: chunk_def)
    have "drop start raw = chunk @ drop n (drop start raw)" unfolding chunk_def by (rule append_take_drop_id [symmetric])
    then have parts: "drop start raw = chunk @ drop pos raw" by (simp only: drop_drop pos)
    have unfold: "tail_scan chunk_size raw pos seen target =
        (case scan_chunk chunk (length chunk) seen target of Inl i \<Rightarrow> start + i | Inr seen1 \<Rightarrow> tail_scan chunk_size raw start seen1 target)"
      unfolding chunk_def start_def n_def using False "1.prems"(1)
      by (subst tail_scan.simps) (simp add: read_capped_def Let_def del: length_take)
    note sc = scan_chunk_whole [OF "1.prems"(4), of chunk]
    show ?thesis
    proof (cases "scan_chunk chunk (length chunk) seen target")
      case (Inl k)
      with sc have k: "0 < k" "k \<le> length chunk" "chunk ! (k - 1) = newline" "seen + newlines (drop k chunk) + 1 = target" by simp_all
      have bound: "start + (k - 1) < length raw" "Suc (start + (k - 1)) = start + k" "start + k \<le> length raw" "k - 1 < n"
        using k(1,2) len pos "1.prems"(2) by linarith+
      have "chunk ! (k - 1) = raw ! (start + (k - 1))" using bound by (simp add: chunk_def)
      then have at: "raw ! (start + (k - 1)) = newline" using k(3) by simp
      have "drop (start + k) raw = drop k (drop start raw)" by (simp add: add.commute)
      also have "\<dots> = drop k chunk @ drop pos raw" unfolding parts using k(2) by simp
      finally have nl: "newlines (drop (start + k) raw) + 1 = target" using k(4) "1.prems"(3) by simp
      have "newlines raw = newlines (take (start + (k - 1)) raw) + newlines (drop (start + (k - 1)) raw)"
        by (metis append_take_drop_id newlines_simps(3))
      moreover have "drop (start + (k - 1)) raw = newline # drop (start + k) raw"
        using Cons_nth_drop_Suc [OF bound(1)] at bound(2) by simp
      ultimately have "target \<le> newlines raw" using nl by simp
      moreover have "start + k - 1 = start + (k - 1)" using k(1) by simp
      ultimately show ?thesis using k(1) at nl bound(3) unfold Inl by (simp add: found_at_def)
    next
      case (Inr s)
      with sc have s: "s = seen + newlines chunk" "s < target" by simp_all
      have eq: "s = newlines (drop start raw)" using "1.prems"(3) s(1) by (simp only: parts newlines_simps)
      have "found_at raw target (tail_scan chunk_size raw start s target)"
        by (rule "1.IH" [OF _ n_def start_def])
          (use False "1.prems"(1,2) Inr s eq pos in \<open>simp_all add: read_capped_def chunk_def del: length_take\<close>)
      with unfold Inr show ?thesis by simp
    qed
  qed
qed

text \<open>
  For a non-empty file and a positive number of lines, the backward chunked scan returns the start
  of a line, and what follows it are exactly the last so many lines of the file, or the whole file when
  it has fewer.
\<close>

theorem tail_starts_at_last_lines:
  assumes "raw \<noteq> []" "0 < lines"
  shows "let r = tail_start_offset raw lines in
    r \<le> length raw \<and> (r = 0 \<or> raw ! (r - 1) = newline) \<and> num_lines (drop r raw) = min lines (num_lines raw)"
proof -
  define e where "e = (if last raw = newline then 1 else (0 :: nat))"
  have "drop (length raw - 1) raw = [last raw]"
    using assms(1) by (metis append_butlast_last_id append_eq_conv_conj length_butlast)
  then have "tail_start_offset raw lines = tail_scan READ_CHUNK_BYTES raw (length raw) 0 (lines + e)"
    by (simp add: tail_start_offset_def read_capped_def e_def)
  with tail_scan_spec [of READ_CHUNK_BYTES "length raw" raw 0 "lines + e"] assms(2)
  have f: "found_at raw (lines + e) (tail_start_offset raw lines)" by (simp add: READ_CHUNK_BYTES_def)
  let ?r = "tail_start_offset raw lines"
  have all: "num_lines raw = newlines raw + (1 - e)" using assms(1) by (simp add: num_lines_def e_def)
  show ?thesis
  proof (cases "newlines raw < lines + e")
    case True
    with f have "?r = 0" by (simp add: found_at_def)
    moreover have "num_lines raw \<le> lines" using True all by (cases "e = 0") (auto simp: e_def)
    ultimately show ?thesis by (simp add: Let_def)
  next
    case False
    with f have r: "0 < ?r" "?r \<le> length raw" "raw ! (?r - 1) = newline" "newlines (drop ?r raw) + 1 = lines + e"
      by (simp_all add: found_at_def)
    have "drop ?r raw \<noteq> []"
    proof
      assume "drop ?r raw = []"
      then have "?r = length raw" "e = 1" using r(2-4) assms by (auto simp: last_conv_nth e_def)
      with r(4) \<open>drop ?r raw = []\<close> assms(2) show False by simp
    qed
    then have "num_lines (drop ?r raw) = newlines (drop ?r raw) + (1 - e)" by (simp add: num_lines_def last_drop e_def)
    then have "num_lines (drop ?r raw) = lines" using r(4) by (simp add: e_def split: if_splits)
    moreover have "lines \<le> num_lines raw" using False all by (simp add: e_def split: if_splits)
    ultimately show ?thesis using r by (simp add: Let_def)
  qed
qed

theorem tail_starts_at_last_lines_witness:
  "let r = tail_start_offset (''a'' @ newline # ''b'' @ newline # ''c'') 2 in
   drop r (''a'' @ newline # ''b'' @ newline # ''c'') = ''b'' @ newline # ''c'' \<and>
   num_lines (drop r (''a'' @ newline # ''b'' @ newline # ''c'')) = 2"
proof -
  let ?raw = "''a'' @ newline # ''b'' @ newline # ''c''"
  have v: "tail_start_offset ?raw 2 = 2" by code_simp
  have "num_lines (drop (tail_start_offset ?raw 2) ?raw) = min 2 (num_lines ?raw)"
    using tail_starts_at_last_lines [of ?raw 2] by (simp add: Let_def)
  moreover have "num_lines ?raw = 3" by code_simp
  ultimately show ?thesis unfolding Let_def v by simp
qed

text \<open>
  The byte cap is applied before the UTF-8 check: a cap inside a multi-byte character turns a valid log
  into a decoding error instead of a truncated window.
\<close>

lemma byte_cap_splits_utf8:
  "utf8_valid [CHR 0xC3, CHR 0xA9] \<and> tail_inner id (Inr [CHR 0xC3, CHR 0xA9]) 100 1 10 = Inl decode_error"
  by code_simp

end
