(* ===== verification/Session_Redact.thy ===== *)
theory Session_Redact
  imports Lens_Value Log_Sources
begin

text \<open>
  Redaction of what a source returns, the middle of \<^verbatim>\<open>src/session/mod.rs\<close>: the caps on rows, bytes and
  cells, the actions of a column, the pipeline over each row and over text, and the summary for the
  manifest.
\<close>

section \<open>Data\<close>

datatype SourceOutput = RowsOutput "LensRow list" | TextOutput bytes | SchemaText bytes | TextWithTruncation bytes "TruncatedAt list"

record OutputCaps =
  oc_rows :: nat
  oc_bytes :: nat
  oc_cell_bytes :: nat
  oc_line_bytes :: nat
  oc_timeout :: nat

definition default_caps :: OutputCaps where
  "default_caps = \<lparr>oc_rows = 1000, oc_bytes = 1024 * 1024, oc_cell_bytes = 32 * 1024, oc_line_bytes = 8 * 1024, oc_timeout = 30\<rparr>"

type_synonym ColumnAction = "Action \<times> PiiClass"
type_synonym ColumnActionPolicy = "bytes \<Rightarrow> ColumnAction option"

section \<open>Column actions\<close>

definition generalize_column_value :: "PiiClass \<Rightarrow> bytes" where
  "generalize_column_value c =
     (case c of
        EmailClass \<Rightarrow> ''[EMAIL]''
      | NameClass \<Rightarrow> ''[NAME]''
      | LocationClass \<Rightarrow> ''[LOCATION]''
      | OrganizationClass \<Rightarrow> ''[ORGANIZATION]''
      | CustomClass n \<Rightarrow> ''['' @ to_ascii_uppercase n @ '']'')"

definition apply_action_to_text :: "'g Gaze \<Rightarrow> ColumnAction \<Rightarrow> bytes \<Rightarrow> ('g, bytes) run" where
  "apply_action_to_text gz ca s =
     (case ca of (a, c) \<Rightarrow>
       case a of
         Tokenize \<Rightarrow> redaction (gz_tokenize gz c s)
       | Redact \<Rightarrow> r_ok ''[REDACTED]''
       | FormatPreserve \<Rightarrow> redaction (gz_fake gz c s)
       | Generalize \<Rightarrow> r_ok (generalize_column_value c)
       | Preserve \<Rightarrow> r_ok s)"

definition apply_column_action_to_json :: "'g Gaze \<Rightarrow> ColumnAction \<Rightarrow> bytes Json \<Rightarrow> ('g, bytes Json) run" where
  "apply_column_action_to_json gz ca = walk_json (apply_action_to_text gz ca)"

fun apply_column_action :: "'g Gaze \<Rightarrow> ColumnAction \<Rightarrow> LensValue \<Rightarrow> ('g, LensValue) run" where
  "apply_column_action gz ca (VString s) = r_bind (apply_action_to_text gz ca s) (\<lambda>t. r_ok (VString t))"
| "apply_column_action gz ca (VJson j) = r_bind (apply_column_action_to_json gz ca j) (\<lambda>k. r_ok (VJson k))"
| "apply_column_action gz ca v = r_bind (r_of (lowered v)) (\<lambda>_. r_ok v)"

section \<open>Cells\<close>

text \<open>\<^verbatim>\<open>serde_json::to_vec(..).map_err(..)?.len()\<close>.\<close>

definition json_bytes :: "'g Gaze \<Rightarrow> bytes Json \<Rightarrow> LensError + nat" where
  "json_bytes gz v =
     (case gz_to_vec gz v of Inl e \<Rightarrow> Inl (ConvertError (Decode ''json'' e)) | Inr b \<Rightarrow> Inr (length b))"

definition cell_marker :: "bytes Json" where
  "cell_marker = JString ''<TRUNCATED:cell_bytes>''"

definition insert_capped_cell ::
  "'g Gaze \<Rightarrow> nat \<Rightarrow> bytes \<Rightarrow> bytes Json \<Rightarrow> (bytes \<times> bytes Json) list \<Rightarrow> TruncatedAt list \<Rightarrow> LensError + (bytes \<times> bytes Json) list \<times> TruncatedAt list" where
  "insert_capped_cell gz mx k cell row ts =
     and_then (json_bytes gz cell) (\<lambda>n.
     if n > mx then Inr (map_insert k cell_marker row, push_truncation ts CellBytesCut)
     else Inr (map_insert k cell row, ts))"

text \<open>
  The derived serializer tags a value with its variant, and has no failing case on this type;
  \<^verbatim>\<open>Bytes\<close> has a form of its own.
\<close>

definition json_nat :: "nat \<Rightarrow> bytes Json" where
  "json_nat n = JNumber (PosInt n)"

fun lens_value_to_json :: "'g Gaze \<Rightarrow> LensValue \<Rightarrow> bytes Json" where
  "lens_value_to_json gz (VBytes b n) = JObject [(''base64'', JString b), (''len'', json_nat n), (''type'', JString ''bytes'')]"
| "lens_value_to_json gz VNull = JString ''Null''"
| "lens_value_to_json gz (VBool b) = JObject [(''Bool'', JBool b)]"
| "lens_value_to_json gz (VI64 n) = JObject [(''I64'', number_of_int n)]"
| "lens_value_to_json gz (VU64 n) = JObject [(''U64'', json_nat n)]"
| "lens_value_to_json gz (VF64 x) = JObject [(''F64'', gz_f64 gz x)]"
| "lens_value_to_json gz (VDecimal s p c) =
     JObject [(''Decimal'', JObject [(''precision'', json_nat p), (''scale'', json_nat c), (''value'', JString s)])]"
| "lens_value_to_json gz (VString s) = JObject [(''String'', JString s)]"
| "lens_value_to_json gz (VDateTime s) = JObject [(''DateTime'', JString s)]"
| "lens_value_to_json gz (VUuid s) = JObject [(''Uuid'', JString s)]"
| "lens_value_to_json gz (VJson j) = JObject [(''Json'', j)]"

section \<open>Rows\<close>

definition is_text_value :: "LensValue \<Rightarrow> bool" where
  "is_text_value v = (case v of VString _ \<Rightarrow> True | VJson (JString _) \<Rightarrow> True | _ \<Rightarrow> False)"

text \<open>The first loop over a row: the value after its column action and redaction, and its lowering.\<close>

definition redact_field :: "'g Gaze \<Rightarrow> Pipeline \<Rightarrow> ColumnActionPolicy \<Rightarrow> bytes \<times> LensValue \<Rightarrow> ('g, bytes \<times> LensValue \<times> GazeValue option) run" where
  "redact_field gz p acts e =
     (case e of (k, v) \<Rightarrow>
       r_bind (case acts k of None \<Rightarrow> r_ok v | Some ca \<Rightarrow> apply_column_action gz ca v) (\<lambda>v1.
       r_bind (if is_text_value v1 then r_ok v1 else redact_with gz p v1) (\<lambda>v2.
       r_bind (r_of (lowered v2)) (\<lambda>l. r_ok (k, v2, l)))))"

definition raw_fields :: "(bytes \<times> LensValue \<times> GazeValue option) list \<Rightarrow> (bytes \<times> GazeValue) list" where
  "raw_fields fs = map_inserts (List.map_filter (\<lambda>(k, v, l). map_option (Pair k) l) fs) []"

text \<open>The second loop: what the pipeline returned for a key, else the value itself.\<close>

definition cell_of :: "'g Gaze \<Rightarrow> (bytes \<times> GazeValue) list \<Rightarrow> bytes \<Rightarrow> LensValue \<Rightarrow> LensError + bytes Json" where
  "cell_of gz m k v = (case map_of m k of Some r \<Rightarrow> gaze_value_to_json r | None \<Rightarrow> Inr (lens_value_to_json gz v))"

fun build_row :: "'g Gaze \<Rightarrow> nat \<Rightarrow> (bytes \<times> GazeValue) list \<Rightarrow> (bytes \<times> LensValue) list \<Rightarrow> (bytes \<times> bytes Json) list \<Rightarrow> TruncatedAt list \<Rightarrow>
    LensError + (bytes \<times> bytes Json) list \<times> TruncatedAt list" where
  "build_row gz mx m [] out ts = Inr (out, ts)"
| "build_row gz mx m ((k, v) # es) out ts =
     and_then (cell_of gz m k v) (\<lambda>cell.
     and_then (insert_capped_cell gz mx k cell out ts) (\<lambda>(out1, ts1). build_row gz mx m es out1 ts1))"

definition structured_fields :: "CleanDocument \<Rightarrow> LensError + (bytes \<times> GazeValue) list" where
  "structured_fields d =
     (case d of
        CleanDocStructured m \<Rightarrow> Inr m
      | CleanDocText _ \<Rightarrow> Inl (RedactionFailed ''structured rows produced text output'')
      | CleanDocOther \<Rightarrow> Inl (RedactionFailed ''structured rows produced unsupported output''))"

definition redact_row :: "'g Gaze \<Rightarrow> OutputCaps \<Rightarrow> Pipeline \<Rightarrow> ColumnActionPolicy \<Rightarrow> LensRow \<Rightarrow> TruncatedAt list \<Rightarrow>
    ('g, (bytes \<times> bytes Json) list \<times> TruncatedAt list) run" where
  "redact_row gz caps p acts row ts =
     r_bind (r_map (redact_field gz p acts) row) (\<lambda>fs.
     r_bind (redaction (gz_redact gz p (RawStructured (raw_fields fs)))) (\<lambda>d.
     r_bind (r_of (structured_fields d)) (\<lambda>m.
     r_of (build_row gz (oc_cell_bytes caps) m (map (\<lambda>(k, v, _). (k, v)) fs) [] ts))))"

text \<open>The loop over the rows; the sum is \<^verbatim>\<open>saturating_add\<close>.\<close>

fun rows_loop :: "'g Gaze \<Rightarrow> OutputCaps \<Rightarrow> Pipeline \<Rightarrow> ColumnActionPolicy \<Rightarrow> LensRow list \<Rightarrow> nat \<Rightarrow> TruncatedAt list \<Rightarrow>
    ('g, (bytes \<times> bytes Json) list list \<times> TruncatedAt list) run" where
  "rows_loop gz caps p acts [] used ts = r_ok ([], ts)"
| "rows_loop gz caps p acts (row # rows) used ts =
     r_bind (redact_row gz caps p acts row ts) (\<lambda>(out, ts1).
     r_bind (r_of (json_bytes gz (JObject out))) (\<lambda>n.
     if min (used + n) (USIZE_LIMIT - 1) > oc_bytes caps then r_ok ([], push_truncation ts1 BytesCut)
     else r_bind (rows_loop gz caps p acts rows (used + n) ts1) (\<lambda>(outs, ts2). r_ok (out # outs, ts2))))"

definition redact_rows :: "'g Gaze \<Rightarrow> OutputCaps \<Rightarrow> Pipeline \<Rightarrow> ColumnActionPolicy \<Rightarrow> LensRow list \<Rightarrow> ('g, bytes CleanOutput) run" where
  "redact_rows gz caps p acts rows =
     (let ts = (if length rows > oc_rows caps then [RowsCut] else []) in
      r_bind (rows_loop gz caps p acts (take (oc_rows caps) rows) 0 ts) (\<lambda>(outs, ts1). r_ok (CleanRows outs ts1)))"

section \<open>Text\<close>

text \<open>\<open>while !value.is_char_boundary(end) { end -= 1 }\<close>; index 0 is a boundary.\<close>

fun boundary_below :: "bytes \<Rightarrow> nat \<Rightarrow> nat" where
  "boundary_below s 0 = 0"
| "boundary_below s (Suc n) = (if is_char_boundary s (Suc n) then Suc n else boundary_below s n)"

definition cap_string :: "bytes \<Rightarrow> nat \<Rightarrow> bytes \<times> bool" where
  "cap_string s mx = (if length s \<le> mx then (s, False) else (take (boundary_below s mx) s, True))"

definition redact_text_output :: "'g Gaze \<Rightarrow> OutputCaps \<Rightarrow> Pipeline \<Rightarrow> bytes \<Rightarrow> TruncatedAt list \<Rightarrow> ('g, bytes CleanOutput) run" where
  "redact_text_output gz caps p s ts =
     (case cap_string s (oc_bytes caps) of (capped, cut_off) \<Rightarrow>
      let ts1 = (if cut_off then push_truncation ts BytesCut else ts) in
      r_bind (redaction (gz_redact gz p (RawText capped))) (\<lambda>d.
      case d of
        CleanDocText t \<Rightarrow> r_ok (CleanText t ts1)
      | CleanDocStructured _ \<Rightarrow> r_err (RedactionFailed ''text output produced structured output'')
      | CleanDocOther \<Rightarrow> r_err (RedactionFailed ''text output produced unsupported output'')))"

definition schema_text_output :: "OutputCaps \<Rightarrow> bytes \<Rightarrow> TruncatedAt list \<Rightarrow> bytes CleanOutput" where
  "schema_text_output caps s ts =
     (case cap_string s (oc_bytes caps) of (t, cut_off) \<Rightarrow> CleanText t (if cut_off then push_truncation ts BytesCut else ts))"

fun redact_result :: "'g Gaze \<Rightarrow> OutputCaps \<Rightarrow> Pipeline \<Rightarrow> ColumnActionPolicy \<Rightarrow> SourceOutput \<Rightarrow> ('g, bytes CleanOutput) run" where
  "redact_result gz caps p acts (RowsOutput rows) = redact_rows gz caps p acts rows"
| "redact_result gz caps p acts (TextOutput s) = redact_text_output gz caps p s []"
| "redact_result gz caps p acts (SchemaText s) = r_ok (schema_text_output caps s [])"
| "redact_result gz caps p acts (TextWithTruncation s ts) = redact_text_output gz caps p s ts"

section \<open>Summary and restoring\<close>

definition summary :: "'g Gaze \<Rightarrow> bytes CleanOutput \<Rightarrow> ResultSummary" where
  "summary gz out =
     (case out of
        CleanRows rows ts \<Rightarrow>
          \<lparr>rs_rows = min (length rows) (2 ^ 32 - 1),
           rs_bytes = (case gz_to_vec gz (JArray (map JObject rows)) of Inl _ \<Rightarrow> 0 | Inr b \<Rightarrow> min (length b) (2 ^ 64 - 1)),
           rs_truncated_at = ts\<rparr>
      | CleanText s ts \<Rightarrow> \<lparr>rs_rows = 0, rs_bytes = length s, rs_truncated_at = ts\<rparr>)"

definition restore_gaze_tokens_in_string :: "'g Gaze \<Rightarrow> Pipeline \<Rightarrow> bytes \<Rightarrow> ('g, bytes) run" where
  "restore_gaze_tokens_in_string gz p s = redaction (gz_restore gz p s)"

definition restore_gaze_tokens_in_value :: "'g Gaze \<Rightarrow> Pipeline \<Rightarrow> bytes Json \<Rightarrow> ('g, bytes Json) run" where
  "restore_gaze_tokens_in_value gz p = walk_json (restore_gaze_tokens_in_string gz p)"

definition restore_gaze_tokens :: "'g Gaze \<Rightarrow> Pipeline \<Rightarrow> bytes CleanOutput \<Rightarrow> ('g, bytes CleanOutput) run" where
  "restore_gaze_tokens gz p out =
     (case out of
        CleanRows rows ts \<Rightarrow>
          r_bind (r_map (r_map (\<lambda>(k, v). r_bind (restore_gaze_tokens_in_value gz p v) (\<lambda>w. r_ok (k, w)))) rows) (\<lambda>rows1. r_ok (CleanRows rows1 ts))
      | CleanText s ts \<Rightarrow> r_bind (restore_gaze_tokens_in_string gz p s) (\<lambda>t. r_ok (CleanText t ts)))"

section \<open>What a row releases\<close>

lemma list_all2_left_in: "list_all2 P xs ys \<Longrightarrow> x \<in> set xs \<Longrightarrow> \<exists>y\<in>set ys. P x y"
  by (induction rule: list_all2_induct) auto

lemma list_all2_mono_in: "list_all2 P xs ys \<Longrightarrow> (\<And>x y. y \<in> set ys \<Longrightarrow> P x y \<Longrightarrow> Q x y) \<Longrightarrow> list_all2 Q xs ys"
  by (induction rule: list_all2_induct) auto

lemma list_all2_map_eq: "list_all2 P xs ys \<Longrightarrow> (\<And>x y. y \<in> set ys \<Longrightarrow> P x y \<Longrightarrow> f x = h y) \<Longrightarrow> map f xs = map h ys"
  by (induction rule: list_all2_induct) auto

lemma set_push_truncation [simp]: "set (push_truncation ts t) = insert t (set ts)"
  by (auto simp: push_truncation_def)

text \<open>A released cell is the computed one within the cap, or the marker, which is then reported.\<close>

definition capped_cell :: "'g Gaze \<Rightarrow> nat \<Rightarrow> TruncatedAt set \<Rightarrow> bytes Json \<Rightarrow> bytes Json \<Rightarrow> bool" where
  "capped_cell gz mx T cell c \<longleftrightarrow>
     (c = cell \<and> (\<exists>n. json_bytes gz cell = Inr n \<and> n \<le> mx)) \<or> (c = cell_marker \<and> CellBytesCut \<in> T)"

lemma capped_cell_mono: "capped_cell gz mx T cell c \<Longrightarrow> T \<subseteq> U \<Longrightarrow> capped_cell gz mx U cell c"
  by (auto simp: capped_cell_def)

lemma insert_capped_cell_Inr:
  assumes "insert_capped_cell gz mx k cell row ts = Inr (out, ts1)"
  shows "\<exists>c. out = map_insert k c row \<and> capped_cell gz mx (set ts1) cell c \<and> set ts \<subseteq> set ts1"
proof -
  from assms obtain n where n: "json_bytes gz cell = Inr n"
    "(if n > mx then (map_insert k cell_marker row, push_truncation ts CellBytesCut) else (map_insert k cell row, ts)) = (out, ts1)"
    by (auto simp: insert_capped_cell_def and_then_Inr_iff split: if_splits)
  show ?thesis
  proof (cases "n > mx")
    case True
    with n(2) show ?thesis by (intro exI [of _ cell_marker]) (auto simp: capped_cell_def)
  next
    case False
    with n show ?thesis by (intro exI [of _ cell]) (auto simp: capped_cell_def)
  qed
qed

definition row_cell :: "'g Gaze \<Rightarrow> nat \<Rightarrow> TruncatedAt set \<Rightarrow> (bytes \<times> GazeValue) list \<Rightarrow> bytes \<times> bytes Json \<Rightarrow> bytes \<times> LensValue \<Rightarrow> bool" where
  "row_cell gz mx T m x e \<longleftrightarrow>
     fst x = fst e \<and> (\<exists>cell. cell_of gz m (fst e) (snd e) = Inr cell \<and> capped_cell gz mx T cell (snd x))"

lemma build_row_cells:
  assumes "build_row gz mx m es out ts = Inr (row, ts1)" "sorted_wrt (<) (map fst out @ map fst es)"
  shows "set ts \<subseteq> set ts1 \<and> (\<exists>xs. row = out @ xs \<and> list_all2 (row_cell gz mx (set ts1) m) xs es)"
  using assms
proof (induction gz mx m es out ts rule: build_row.induct)
  case (2 gz mx m k v es out ts)
  from "2.prems"(1) obtain cell out1 ts0 where
    s: "cell_of gz m k v = Inr cell" "insert_capped_cell gz mx k cell out ts = Inr (out1, ts0)" "build_row gz mx m es out1 ts0 = Inr (row, ts1)"
    by (auto simp: and_then_Inr_iff)
  from insert_capped_cell_Inr [OF s(2)] obtain c where
    c: "out1 = map_insert k c out" "capped_cell gz mx (set ts0) cell c" "set ts \<subseteq> set ts0" by blast
  have "\<forall>l\<in>set (map fst out). l < k" using "2.prems"(2) by (auto simp: sorted_wrt_append)
  then have o1: "out1 = out @ [(k, c)]" unfolding c(1) by (rule map_insert_last)
  then have "sorted_wrt (<) (map fst out1 @ map fst es)" using "2.prems"(2) by simp
  from "2.IH" [OF s(3) this] obtain xs where
    x: "set ts0 \<subseteq> set ts1" "row = out1 @ xs" "list_all2 (row_cell gz mx (set ts1) m) xs es" by blast
  have "row_cell gz mx (set ts1) m (k, c) (k, v)"
    unfolding row_cell_def using s(1) capped_cell_mono [OF c(2) x(1)] by auto
  then have "list_all2 (row_cell gz mx (set ts1) m) ((k, c) # xs) ((k, v) # es)" using x(3) by simp
  moreover have "row = out @ (k, c) # xs" using x(2) o1 by simp
  ultimately show ?case using x(1) c(3) by blast
qed simp

lemma r_map_Inr: "fst (r_map f xs g) = Inr ys \<Longrightarrow> list_all2 (\<lambda>x y. \<exists>g. fst (f x g) = Inr y) xs ys"
  by (induction xs arbitrary: g ys) (auto simp: run_simps)

lemma redact_field_key: "fst (redact_field gz p acts e g) = Inr f \<Longrightarrow> fst f = fst e"
  by (cases e) (auto simp: redact_field_def run_simps)

lemma r_map_field_keys: "fst (r_map (redact_field gz p acts) row g) = Inr fs \<Longrightarrow> map fst fs = map fst row"
proof (induction row arbitrary: g fs)
  case (Cons e row)
  then obtain f gs where "fst (redact_field gz p acts e g) = Inr f" "fs = f # gs" "map fst gs = map fst row" by (auto simp: run_simps)
  with redact_field_key show ?case by fastforce
qed simp

text \<open>One row: the fields, the pipeline's answer for them, and the cells.\<close>

lemma redact_row_Inr:
  assumes "fst (redact_row gz caps p acts row ts g) = Inr (out, ts1)" "sorted_map row"
  obtains fs m h where
    "list_all2 (\<lambda>e f. \<exists>g. fst (redact_field gz p acts e g) = Inr f) row fs"
    "fst (gz_redact gz p (RawStructured (raw_fields fs)) h) = Inr (CleanDocStructured m)"
    "list_all2 (row_cell gz (oc_cell_bytes caps) (set ts1) m) out (map (\<lambda>(k, v, _). (k, v)) fs)"
    "map fst fs = map fst row" "set ts \<subseteq> set ts1"
proof -
  from assms(1) obtain fs d m where
    f: "fst (r_map (redact_field gz p acts) row g) = Inr fs"
    and d: "fst (gz_redact gz p (RawStructured (raw_fields fs)) (snd (r_map (redact_field gz p acts) row g))) = Inr d"
      "structured_fields d = Inr m"
    and b: "build_row gz (oc_cell_bytes caps) m (map (\<lambda>(k, v, _). (k, v)) fs) [] ts = Inr (out, ts1)"
    unfolding redact_row_def run_simps by auto
  from d(2) have m: "d = CleanDocStructured m" by (simp add: structured_fields_def split: CleanDocument.splits)
  have k: "map fst fs = map fst row" by (rule r_map_field_keys [OF f])
  have "map fst (map (\<lambda>(k, v, _). (k, v)) fs) = map fst fs" by auto
  with assms(2) k have "sorted_wrt (<) (map fst ([] :: (bytes \<times> bytes Json) list) @ map fst (map (\<lambda>(k, v, _). (k, v)) fs))"
    by (simp add: sorted_map_def)
  from build_row_cells [OF b this]
  have "set ts \<subseteq> set ts1" "list_all2 (row_cell gz (oc_cell_bytes caps) (set ts1) m) out (map (\<lambda>(k, v, _). (k, v)) fs)" by simp_all
  from that [OF r_map_Inr [OF f] d(1) [unfolded m] this(2) k this(1)] show ?thesis .
qed

lemma row_cell_keys: "list_all2 (row_cell gz mx T m) xs es \<Longrightarrow> map fst xs = map fst es"
  by (induction rule: list_all2_induct) (auto simp: row_cell_def)

lemma redact_row_keys:
  assumes "fst (redact_row gz caps p acts row ts g) = Inr (out, ts1)" "sorted_map row"
  shows "map fst out = map fst row"
proof (rule redact_row_Inr [OF assms])
  fix fs m h
  assume "list_all2 (row_cell gz (oc_cell_bytes caps) (set ts1) m) out (map (\<lambda>(k, v, _). (k, v)) fs)" "map fst fs = map fst row"
  from row_cell_keys [OF this(1)] this(2) show ?thesis by (simp add: case_prod_beta comp_def)
qed

text \<open>The loop over the rows: each released row is the result of one row of the source, in order.\<close>

definition row_released :: "'g Gaze \<Rightarrow> OutputCaps \<Rightarrow> Pipeline \<Rightarrow> ColumnActionPolicy \<Rightarrow> TruncatedAt set \<Rightarrow> (bytes \<times> bytes Json) list \<Rightarrow> LensRow \<Rightarrow> bool" where
  "row_released gz caps p acts T out row \<longleftrightarrow> (\<exists>ts g ts1. fst (redact_row gz caps p acts row ts g) = Inr (out, ts1) \<and> set ts1 \<subseteq> T)"

definition row_sizes :: "'g Gaze \<Rightarrow> (bytes \<times> bytes Json) list list \<Rightarrow> nat list \<Rightarrow> bool" where
  "row_sizes gz outs ns \<longleftrightarrow> list_all2 (\<lambda>out n. json_bytes gz (JObject out) = Inr n) outs ns"

lemma redact_row_reports:
  "fst (redact_row gz caps p acts row ts g) = Inr (out, ts1) \<Longrightarrow> sorted_map row \<Longrightarrow> set ts \<subseteq> set ts1"
  by (rule redact_row_Inr)

lemma rows_loop_Cons:
  assumes "fst (rows_loop gz caps p acts (row # rows) used ts g) = Inr (outs, ts2)"
  obtains (stop) out ts1 where "fst (redact_row gz caps p acts row ts g) = Inr (out, ts1)" "outs = []" "ts2 = push_truncation ts1 BytesCut"
  | (step) out ts1 n outs1 h where "fst (redact_row gz caps p acts row ts g) = Inr (out, ts1)" "json_bytes gz (JObject out) = Inr n"
      "min (used + n) (USIZE_LIMIT - 1) \<le> oc_bytes caps" "fst (rows_loop gz caps p acts rows (used + n) ts1 h) = Inr (outs1, ts2)"
      "outs = out # outs1"
proof -
  from assms obtain x h where x: "fst (redact_row gz caps p acts row ts g) = Inr x"
    "fst ((case x of (out, ts1) \<Rightarrow> r_bind (r_of (json_bytes gz (JObject out))) (\<lambda>n.
       if min (used + n) (USIZE_LIMIT - 1) > oc_bytes caps then r_ok ([], push_truncation ts1 BytesCut)
       else r_bind (rows_loop gz caps p acts rows (used + n) ts1) (\<lambda>(outs, ts2). r_ok (out # outs, ts2)))) h) = Inr (outs, ts2)"
    unfolding rows_loop.simps(2) r_bind_Inr [of "redact_row gz caps p acts row ts"] by blast
  obtain out ts1 where xe: "x = (out, ts1)" by fastforce
  from x(2) [unfolded xe prod.case r_bind_Inr [of "r_of _"] r_of_Inr] obtain n h where
    r: "fst (redact_row gz caps p acts row ts g) = Inr (out, ts1)" "json_bytes gz (JObject out) = Inr n"
      "fst ((if min (used + n) (USIZE_LIMIT - 1) > oc_bytes caps then r_ok ([], push_truncation ts1 BytesCut)
        else r_bind (rows_loop gz caps p acts rows (used + n) ts1) (\<lambda>(outs, ts2). r_ok (out # outs, ts2))) h) = Inr (outs, ts2)"
    using x(1) xe by blast
  show ?thesis
  proof (cases "min (used + n) (USIZE_LIMIT - 1) > oc_bytes caps")
    case True
    with r(3) have "outs = []" "ts2 = push_truncation ts1 BytesCut" by (simp_all only: if_True r_ok_Inr prod.inject)
    with r(1) stop show ?thesis by blast
  next
    case False
    with r(3) obtain outs1 where o: "fst (rows_loop gz caps p acts rows (used + n) ts1 h) = Inr (outs1, ts2)" "outs = out # outs1"
      by (auto simp: run_simps simp del: rows_loop.simps)
    from False have "min (used + n) (USIZE_LIMIT - 1) \<le> oc_bytes caps" by (rule leI)
    from step [OF r(1,2) this o] show ?thesis .
  qed
qed

lemma rows_loop_released:
  assumes "fst (rows_loop gz caps p acts rows used ts g) = Inr (outs, ts2)" "oc_bytes caps < USIZE_LIMIT - 1" "used \<le> oc_bytes caps"
    "\<forall>row\<in>set rows. sorted_map row"
  shows "set ts \<subseteq> set ts2 \<and> length outs \<le> length rows \<and> (length outs < length rows \<longrightarrow> BytesCut \<in> set ts2) \<and>
    (\<exists>ns. row_sizes gz outs ns \<and> used + sum_list ns \<le> oc_bytes caps) \<and>
    list_all2 (row_released gz caps p acts (set ts2)) outs (take (length outs) rows)"
  using assms
proof (induction rows arbitrary: used ts g outs)
  case Nil
  then show ?case by (simp add: row_sizes_def)
next
  case (Cons row rows)
  from Cons.prems(1) show ?case
  proof (cases rule: rows_loop_Cons)
    case (stop out ts1)
    with redact_row_reports [OF stop(1)] Cons.prems(3,4) show ?thesis by (auto simp: row_sizes_def)
  next
    case (step out ts1 n outs1 h)
    have fits: "used + n \<le> oc_bytes caps" using step(3) Cons.prems(2) by (simp add: min_def split: if_splits)
    from Cons.prems(4) have "sorted_map row" "\<forall>row\<in>set rows. sorted_map row" by simp_all
    with Cons.IH [OF step(4) Cons.prems(2) fits] obtain ns where
      ih: "set ts1 \<subseteq> set ts2" "length outs1 \<le> length rows" "length outs1 < length rows \<longrightarrow> BytesCut \<in> set ts2"
        "row_sizes gz outs1 ns" "used + n + sum_list ns \<le> oc_bytes caps"
        "list_all2 (row_released gz caps p acts (set ts2)) outs1 (take (length outs1) rows)" by blast
    have "row_released gz caps p acts (set ts2) out row" unfolding row_released_def using step(1) ih(1) by blast
    moreover have "row_sizes gz outs (n # ns)" using ih(4) step(2,5) by (simp add: row_sizes_def)
    moreover have "used + sum_list (n # ns) \<le> oc_bytes caps" using ih(5) by simp
    ultimately show ?thesis
      using ih(1-3,6) step(5) redact_row_reports [OF step(1) \<open>sorted_map row\<close>] by (auto intro!: exI [of _ "n # ns"])
  qed
qed

lemma row_released_capped:
  assumes "row_released gz caps p acts T out row" "sorted_map row"
  shows "map fst out = map fst row \<and>
    (\<forall>e\<in>set out. (snd e = cell_marker \<and> CellBytesCut \<in> T) \<or> (\<exists>n. json_bytes gz (snd e) = Inr n \<and> n \<le> oc_cell_bytes caps))"
proof -
  from assms(1) obtain ts g ts1 where r: "fst (redact_row gz caps p acts row ts g) = Inr (out, ts1)" "set ts1 \<subseteq> T"
    by (auto simp: row_released_def)
  show ?thesis
  proof (rule redact_row_Inr [OF r(1) assms(2)])
    fix fs m h
    assume a: "list_all2 (row_cell gz (oc_cell_bytes caps) (set ts1) m) out (map (\<lambda>(k, v, _). (k, v)) fs)"
    have "(snd e = cell_marker \<and> CellBytesCut \<in> T) \<or> (\<exists>n. json_bytes gz (snd e) = Inr n \<and> n \<le> oc_cell_bytes caps)" if "e \<in> set out" for e
      using list_all2_left_in [OF a that] r(2) by (auto simp: row_cell_def capped_cell_def)
    with redact_row_keys [OF r(1) assms(2)] show ?thesis by blast
  qed
qed

lemma redact_rows_Inr:
  assumes "fst (redact_rows gz caps p acts rows g) = Inr out" "oc_bytes caps < USIZE_LIMIT - 1" "\<forall>row\<in>set rows. sorted_map row"
  obtains outs ts ns where "out = CleanRows outs ts" "length outs \<le> oc_rows caps" "row_sizes gz outs ns" "sum_list ns \<le> oc_bytes caps"
    "list_all2 (row_released gz caps p acts (set ts)) outs (take (length outs) rows)"
    "length outs < length rows \<longrightarrow> RowsCut \<in> set ts \<or> BytesCut \<in> set ts"
proof -
  from assms(1) obtain outs ts where o: "out = CleanRows outs ts"
    and l: "fst (rows_loop gz caps p acts (take (oc_rows caps) rows) 0 (if length rows > oc_rows caps then [RowsCut] else []) g) = Inr (outs, ts)"
    by (auto simp: redact_rows_def Let_def run_simps)
  have sorted: "\<forall>row\<in>set (take (oc_rows caps) rows). sorted_map row" using assms(3) by (meson in_set_takeD)
  from rows_loop_released [OF l assms(2) _ sorted] obtain ns where
    s: "set (if length rows > oc_rows caps then [RowsCut] else []) \<subseteq> set ts" "length outs \<le> length (take (oc_rows caps) rows)"
      "length outs < length (take (oc_rows caps) rows) \<longrightarrow> BytesCut \<in> set ts" "row_sizes gz outs ns" "sum_list ns \<le> oc_bytes caps"
      "list_all2 (row_released gz caps p acts (set ts)) outs (take (length outs) (take (oc_rows caps) rows))"
    by (simp only: add_0 le0) blast
  have n: "length outs \<le> oc_rows caps" "take (length outs) (take (oc_rows caps) rows) = take (length outs) rows" using s(2) by (simp_all add: min_absorb1)
  have "length outs < length rows \<longrightarrow> RowsCut \<in> set ts \<or> BytesCut \<in> set ts"
    using s(1,3) by (cases "length rows > oc_rows caps") auto
  from that [OF o n(1) s(4,5) s(6) [unfolded n(2)] this] show ?thesis .
qed

text \<open>
  C8: whatever the source and the pipeline return, released rows keep every cap: at most the row cap,
  within the byte cap in total, each cell within the cell cap or replaced by the marker. They are the
  first rows of the source, in order, with the columns of the source; rows left out and cells replaced are reported.
\<close>

theorem released_rows_within_caps:
  assumes "fst (redact_rows gz caps p acts rows g) = Inr out" "oc_bytes caps < USIZE_LIMIT - 1" "\<forall>row\<in>set rows. sorted_map row"
  shows "\<exists>outs ts ns. out = CleanRows outs ts \<and> length outs \<le> oc_rows caps \<and>
    row_sizes gz outs ns \<and> sum_list ns \<le> oc_bytes caps \<and>
    map (map fst) outs = map (map fst) (take (length outs) rows) \<and>
    (\<forall>row\<in>set outs. \<forall>e\<in>set row. (snd e = cell_marker \<and> CellBytesCut \<in> set ts) \<or> (\<exists>n. json_bytes gz (snd e) = Inr n \<and> n \<le> oc_cell_bytes caps)) \<and>
    (length outs < length rows \<longrightarrow> RowsCut \<in> set ts \<or> BytesCut \<in> set ts)"
proof (rule redact_rows_Inr [OF assms])
  fix outs ts ns
  assume o: "out = CleanRows outs ts" and n: "length outs \<le> oc_rows caps" and sz: "row_sizes gz outs ns" "sum_list ns \<le> oc_bytes caps"
    and rel: "list_all2 (row_released gz caps p acts (set ts)) outs (take (length outs) rows)"
    and cuts: "length outs < length rows \<longrightarrow> RowsCut \<in> set ts \<or> BytesCut \<in> set ts"
  have sm: "sorted_map row" if "row \<in> set (take (length outs) rows)" for row using assms(3) that by (meson in_set_takeD)
  have "map (map fst) outs = map (map fst) (take (length outs) rows)"
    using list_all2_map_eq [OF rel, of "map fst" "map fst"] row_released_capped sm by blast
  moreover have "(snd e = cell_marker \<and> CellBytesCut \<in> set ts) \<or> (\<exists>n. json_bytes gz (snd e) = Inr n \<and> n \<le> oc_cell_bytes caps)"
    if "row \<in> set outs" "e \<in> set row" for row e
    using list_all2_left_in [OF rel that(1)] row_released_capped sm that(2) by blast
  ultimately show ?thesis using o n sz cuts by blast
qed

text \<open>A concrete library: texts lose every \<open>@\<close>, a structured document keeps its keys, printing is a stand-in.\<close>

definition scrub_at :: "bytes \<Rightarrow> bytes" where
  "scrub_at s = filter (\<lambda>c. c \<noteq> CHR ''@'') s"

definition demo_clean :: "RawDocument \<Rightarrow> CleanDocument" where
  "demo_clean d =
     (case d of
        RawText s \<Rightarrow> CleanDocText (scrub_at s)
      | RawStructured m \<Rightarrow> CleanDocStructured (map (\<lambda>(k, v). (k, case v of GString s \<Rightarrow> GString (scrub_at s) | _ \<Rightarrow> v)) m))"

fun demo_print :: "bytes Json \<Rightarrow> bytes" where
  "demo_print (JString s) = ''q'' @ s @ ''q''"
| "demo_print (JArray xs) = ''['' @ concat (map demo_print xs) @ '']''"
| "demo_print (JObject m) = concat (map (\<lambda>e. fst e @ '':'' @ demo_print (snd e)) m)"
| "demo_print _ = ''n''"

definition demo_gaze :: "nat Gaze" where
  "demo_gaze =
     \<lparr>gz_redact = (\<lambda>_ d g. (Inr (demo_clean d), Suc g)), gz_tokenize = (\<lambda>_ _ g. (Inr ''<T>'', Suc g)),
      gz_fake = (\<lambda>_ _ g. (Inr ''<F>'', Suc g)), gz_restore = (\<lambda>_ s g. (Inr s, g)),
      gz_to_vec = (\<lambda>v. Inr (demo_print v)), gz_f64 = (\<lambda>_. JNull)\<rparr>"

definition demo_caps :: OutputCaps where
  "demo_caps = \<lparr>oc_rows = 2, oc_bytes = 35, oc_cell_bytes = 8, oc_line_bytes = 8, oc_timeout = 30\<rparr>"

definition demo_gaze_pipeline :: Pipeline where
  "demo_gaze_pipeline = \<lparr>pl_detectors = [], pl_rules = []\<rparr>"

definition demo_rows :: "LensRow list" where
  "demo_rows = [[(''a'', VString ''x@y''), (''b'', VString ''0123456789'')], [(''a'', VU64 5)], [(''a'', VNull)]]"

definition demo_out :: "bytes CleanOutput" where
  "demo_out = CleanRows [[(''a'', JString ''xy''), (''b'', cell_marker)]] [RowsCut, CellBytesCut, BytesCut]"

lemma demo_rows_released: "fst (redact_rows demo_gaze demo_caps demo_gaze_pipeline (\<lambda>_. None) demo_rows 0) = Inr demo_out"
  by code_simp

theorem released_rows_within_caps_witness:
  "\<exists>outs ts ns. demo_out = CleanRows outs ts \<and> length outs \<le> 2 \<and> row_sizes demo_gaze outs ns \<and> sum_list ns \<le> 35 \<and>
    (length outs < 3 \<longrightarrow> RowsCut \<in> set ts \<or> BytesCut \<in> set ts)"
proof -
  have "oc_bytes demo_caps < USIZE_LIMIT - 1" "\<forall>row\<in>set demo_rows. sorted_map row" by code_simp+
  from released_rows_within_caps [OF demo_rows_released this] show ?thesis
    by (force simp: demo_caps_def demo_rows_def)
qed

section \<open>Every text goes through the pipeline\<close>

text \<open>
  What is asked of a pipeline: \<open>P\<close> holds of each text it returns; and a structured document comes back with the keys that
  were sent. The code relies on the second: for a key that is missing it would release the value itself.
\<close>

definition pipeline_texts :: "'g Gaze \<Rightarrow> Pipeline \<Rightarrow> (bytes \<Rightarrow> bool) \<Rightarrow> bool" where
  "pipeline_texts gz p P \<longleftrightarrow>
     (\<forall>s g t. fst (gz_redact gz p (RawText s) g) = Inr (CleanDocText t) \<longrightarrow> P t) \<and>
     (\<forall>fs g m k s. fst (gz_redact gz p (RawStructured fs) g) = Inr (CleanDocStructured m) \<and> (k, GString s) \<in> set m \<longrightarrow> P s)"

definition pipeline_keeps_keys :: "'g Gaze \<Rightarrow> Pipeline \<Rightarrow> bool" where
  "pipeline_keeps_keys gz p \<longleftrightarrow>
     (\<forall>fs g m. fst (gz_redact gz p (RawStructured fs) g) = Inr (CleanDocStructured m) \<longrightarrow> map fst m = map fst fs)"

definition pipeline_yields :: "'g Gaze \<Rightarrow> Pipeline \<Rightarrow> (bytes \<Rightarrow> bool) \<Rightarrow> bool" where
  "pipeline_yields gz p P \<longleftrightarrow> pipeline_texts gz p P \<and> pipeline_keeps_keys gz p"

text \<open>A JSON value with its strings blanked: structure, keys and every other leaf.\<close>

fun json_shape :: "bytes Json \<Rightarrow> bytes Json" where
  "json_shape (JString _) = JString []"
| "json_shape (JArray xs) = JArray (map json_shape xs)"
| "json_shape (JObject m) = JObject (map (\<lambda>(k, v). (k, json_shape v)) m)"
| "json_shape v = v"

lemma walk_json_keeps_shape:
  fixes f :: "bytes \<Rightarrow> ('g, bytes) run"
  shows "fst (walk_json f v g) = Inr w \<Longrightarrow> json_shape w = json_shape v"
    and "fst (walk_values f vs g) = Inr ws \<Longrightarrow> map json_shape ws = map json_shape vs"
    and "fst (walk_entries f m g) = Inr n \<Longrightarrow> map (\<lambda>(k, v). (k, json_shape v)) n = map (\<lambda>(k, v). (k, json_shape v)) m"
  by (induction f v and f vs and f m arbitrary: g w and g ws and g n rule: walk_json_walk_values_walk_entries.induct)
    (auto simp: run_simps)

text \<open>
  A cell for a source value: text, also in JSON, and integers come from the pipeline, and JSON keeps its shape; every other
  type is released as it is.
\<close>

definition cell_clean :: "'g Gaze \<Rightarrow> (bytes \<Rightarrow> bool) \<Rightarrow> LensValue \<Rightarrow> bytes Json \<Rightarrow> bool" where
  "cell_clean gz P v c \<longleftrightarrow>
     c = cell_marker \<or>
     (case v of
        VString _ \<Rightarrow> all_strings P c
      | VI64 _ \<Rightarrow> all_strings P c
      | VJson j \<Rightarrow> (case j of JString _ \<Rightarrow> all_strings P c
          | _ \<Rightarrow> \<exists>k. c = JObject [(''Json'', k)] \<and> all_strings P k \<and> json_shape k = json_shape j)
      | _ \<Rightarrow> c = lens_value_to_json gz v)"

definition rows_clean :: "'g Gaze \<Rightarrow> (bytes \<Rightarrow> bool) \<Rightarrow> LensRow list \<Rightarrow> bytes CleanOutput \<Rightarrow> bool" where
  "rows_clean gz P rows out \<longleftrightarrow>
     (\<exists>outs ts. out = CleanRows outs ts \<and>
        list_all2 (list_all2 (\<lambda>x e. fst x = fst e \<and> cell_clean gz P (snd e) (snd x))) outs (take (length outs) rows))"

text \<open>A text that does not pass the pipeline: the source's own, cut at the byte cap.\<close>

definition text_cut :: "nat \<Rightarrow> bytes \<Rightarrow> bytes CleanOutput \<Rightarrow> bool" where
  "text_cut mx s out \<longleftrightarrow> (\<exists>t r ts. out = CleanText t ts \<and> s = t @ r \<and> length t \<le> mx \<and> (length s \<le> mx \<longrightarrow> t = s))"

text \<open>A text that does: what the pipeline made of the source's text, cut at the byte cap.\<close>

definition text_clean :: "'g Gaze \<Rightarrow> Pipeline \<Rightarrow> (bytes \<Rightarrow> bool) \<Rightarrow> nat \<Rightarrow> bytes \<Rightarrow> bytes CleanOutput \<Rightarrow> bool" where
  "text_clean gz p P mx s out \<longleftrightarrow>
     (\<exists>t ts u r g. out = CleanText t ts \<and> P t \<and> s = u @ r \<and> length u \<le> mx \<and> (length s \<le> mx \<longrightarrow> u = s) \<and>
        fst (gz_redact gz p (RawText u) g) = Inr (CleanDocText t))"

definition output_clean :: "'g Gaze \<Rightarrow> Pipeline \<Rightarrow> (bytes \<Rightarrow> bool) \<Rightarrow> nat \<Rightarrow> SourceOutput \<Rightarrow> bytes CleanOutput \<Rightarrow> bool" where
  "output_clean gz p P mx src out \<longleftrightarrow>
     (case src of
        RowsOutput rows \<Rightarrow> rows_clean gz P rows out
      | TextOutput s \<Rightarrow> text_clean gz p P mx s out
      | TextWithTruncation s _ \<Rightarrow> text_clean gz p P mx s out
      | SchemaText s \<Rightarrow> text_cut mx s out)"

lemma redact_text_yields: "pipeline_yields gz p P \<Longrightarrow> yields (redact_text gz p) P"
  by (auto simp: yields_def pipeline_yields_def pipeline_texts_def redact_text_Inr)

text \<open>What the first loop makes of a field, before and after lowering.\<close>

definition field_step :: "(bytes \<Rightarrow> bool) \<Rightarrow> LensValue \<Rightarrow> LensValue \<times> GazeValue option \<Rightarrow> bool" where
  "field_step P v r \<longleftrightarrow>
     (case v of
        VString _ \<Rightarrow> \<exists>s. r = (VString s, Some (GString s))
      | VI64 n \<Rightarrow> r = (VI64 n, Some (GI64 n))
      | VJson (JString _) \<Rightarrow> \<exists>s. r = (VJson (JString s), Some (GString s))
      | VJson j \<Rightarrow> \<exists>k. r = (VJson k, None) \<and> all_strings P k \<and> json_shape k = json_shape j
      | _ \<Rightarrow> r = (v, None))"

lemma json_not_string: "\<nexists>s. k = JString s \<Longrightarrow> lowered (VJson k) = Inr None \<and> \<not> is_text_value (VJson k)"
  by (cases k) (simp_all add: lowered_def is_text_value_def)

lemma field_step_json:
  "\<nexists>s. j = JString s \<Longrightarrow> field_step P (VJson j) r \<longleftrightarrow> (\<exists>k. r = (VJson k, None) \<and> all_strings P k \<and> json_shape k = json_shape j)"
  by (cases j) (simp_all add: field_step_def)

lemma redact_field_json:
  assumes "pipeline_yields gz p P" "\<nexists>s. j = JString s" "fst (redact_field gz p acts (k, VJson j) g) = Inr f"
  shows "fst f = k \<and> field_step P (VJson j) (snd f)"
proof -
  from assms(3) obtain v1 h where v1: "fst ((case acts k of None \<Rightarrow> r_ok (VJson j) | Some ca \<Rightarrow> apply_column_action gz ca (VJson j)) g) = Inr v1"
    and rest: "fst (r_bind (if is_text_value v1 then r_ok v1 else redact_with gz p v1) (\<lambda>v2. r_bind (r_of (lowered v2)) (\<lambda>l. r_ok (k, v2, l))) h) = Inr f"
    unfolding redact_field_def prod.case r_bind_Inr [of "case acts k of None \<Rightarrow> _ | Some ca \<Rightarrow> _ ca"] by blast
  from v1 assms(2) obtain j1 where j1: "v1 = VJson j1" "\<nexists>s. j1 = JString s" and shape1: "json_shape j1 = json_shape j"
  proof (cases "acts k")
    case (Some ca)
    with v1 obtain j1 h1 where "fst (walk_json (apply_action_to_text gz ca) j h1) = Inr j1" "v1 = VJson j1"
      by (auto simp: run_simps apply_column_action_to_json_def)
    with that [of j1] walk_json_shape [of _ j h1 j1] walk_json_keeps_shape(1) [of _ j h1 j1] assms(2) show thesis by blast
  qed (auto simp: run_simps)
  have nt: "\<not> is_text_value v1" using json_not_string [OF j1(2)] j1(1) by simp
  from rest nt obtain j2 h2 where j2: "fst (walk_json (redact_text gz p) j1 h) = Inr j2"
    "fst (r_bind (r_of (lowered (VJson j2))) (\<lambda>l. r_ok (k, VJson j2, l)) h2) = Inr f"
    by (auto simp: j1(1) run_simps redact_json_value_def)
  have "\<nexists>s. j2 = JString s" using walk_json_shape [OF j2(1)] j1(2) by blast
  with json_not_string j2(2) have "f = (k, VJson j2, None)" by (auto simp: run_simps)
  moreover have "all_strings P j2" by (rule walk_json_strings(1) [OF redact_text_yields [OF assms(1)] j2(1)])
  moreover have "json_shape j2 = json_shape j" using walk_json_keeps_shape(1) [OF j2(1)] shape1 by simp
  ultimately show ?thesis using field_step_json [OF assms(2)] by simp
qed

lemma redact_field_step:
  assumes "pipeline_yields gz p P" "fst (redact_field gz p acts (k, v) g) = Inr f"
  shows "fst f = k \<and> field_step P v (snd f)"
proof (cases "\<exists>j. v = VJson j \<and> (\<nexists>s. j = JString s)")
  case True
  with redact_field_json [OF assms(1)] assms(2) show ?thesis by blast
next
  case False
  then consider s where "v = VJson (JString s)" | "\<And>j. v \<noteq> VJson j" by blast
  then show ?thesis
  proof cases
    case 1
    with assms(2) show ?thesis
      by (cases "acts k") (auto simp: redact_field_def run_simps apply_column_action_to_json_def lowered_Inr is_text_value_def field_step_def)
  next
    case 2
    with assms(2) show ?thesis
      by (cases "acts k"; cases v)
        (auto simp: redact_field_def run_simps lowered_Inr is_text_value_def field_step_def and_then_Inr_iff)
  qed
qed

lemma raw_fields_keys: "fst ` set (raw_fields fs) = {k. \<exists>v l. (k, v, Some l) \<in> set fs}"
proof -
  have "fst ` set (List.map_filter (\<lambda>(k, v, l). map_option (Pair k) l) fs) = {k. \<exists>v l. (k, v, Some l) \<in> set fs}"
    by (induction fs) (auto simp: List.map_filter_simps split: option.splits)
  then show ?thesis by (simp add: raw_fields_def set_map_inserts)
qed

lemma gaze_cell_clean: "gaze_value_to_json r = Inr cell \<Longrightarrow> (\<And>s. r = GString s \<Longrightarrow> P s) \<Longrightarrow> all_strings P cell"
  by (cases r) (auto simp: number_of_int_def)

lemma field_cell_clean:
  assumes "field_step P v (v2, l)" "(k, v2, l) \<in> set fs" "distinct (map fst fs)" "map fst m = map fst (raw_fields fs)"
    "\<forall>k s. (k, GString s) \<in> set m \<longrightarrow> P s" "cell_of gz m k v2 = Inr cell"
  shows "cell_clean gz P v cell"
proof -
  have keys: "fst ` set m = {k. \<exists>v l. (k, v, Some l) \<in> set fs}"
    using arg_cong [OF assms(4), of set] by (simp add: raw_fields_keys)
  show ?thesis
  proof (cases l)
    case None
    have "(k, w, Some x) \<notin> set fs" for w x
      using assms(2,3) None by (auto dest: eq_key_imp_eq_value)
    with keys have "map_of m k = None" by (auto simp: map_of_eq_None_iff)
    with assms(6) have "cell = lens_value_to_json gz v2" by (simp add: cell_of_def)
    with assms(1) None show ?thesis
      by (auto simp: field_step_def cell_clean_def split: LensValue.splits Json.splits)
  next
    case (Some x)
    with keys assms(2) have "k \<in> fst ` set m" by auto
    then obtain r where r: "map_of m k = Some r" by (metis map_of_eq_None_iff not_None_eq)
    with assms(6) have "gaze_value_to_json r = Inr cell" by (simp add: cell_of_def)
    then have "all_strings P cell" using assms(5) map_of_SomeD [OF r] by (auto intro: gaze_cell_clean)
    with assms(1) Some show ?thesis
      by (auto simp: field_step_def cell_clean_def split: LensValue.splits Json.splits)
  qed
qed

lemma row_released_clean:
  assumes "row_released gz caps p acts T out row" "sorted_map row" "pipeline_yields gz p P"
  shows "list_all2 (\<lambda>x e. fst x = fst e \<and> cell_clean gz P (snd e) (snd x)) out row"
proof -
  from assms(1) obtain ts g ts1 where r: "fst (redact_row gz caps p acts row ts g) = Inr (out, ts1)" by (auto simp: row_released_def)
  show ?thesis
  proof (rule redact_row_Inr [OF r assms(2)])
    fix fs m h
    assume f: "list_all2 (\<lambda>e f. \<exists>g. fst (redact_field gz p acts e g) = Inr f) row fs"
      and m: "fst (gz_redact gz p (RawStructured (raw_fields fs)) h) = Inr (CleanDocStructured m)"
      and c: "list_all2 (row_cell gz (oc_cell_bytes caps) (set ts1) m) out (map (\<lambda>(k, v, _). (k, v)) fs)"
      and k: "map fst fs = map fst row"
    have keys: "map fst m = map fst (raw_fields fs)" "\<forall>k s. (k, GString s) \<in> set m \<longrightarrow> P s"
      using assms(3) m unfolding pipeline_yields_def pipeline_texts_def pipeline_keeps_keys_def by blast+
    have d: "distinct (map fst fs)" using assms(2) unfolding k sorted_map_def by (simp add: strict_sorted_iff)
    have len: "length out = length fs" "length fs = length row" using c f by (auto dest: list_all2_lengthD)
    have "fst (out ! i) = fst (row ! i) \<and> cell_clean gz P (snd (row ! i)) (snd (out ! i))" if i: "i < length row" for i
    proof -
      obtain kk v2 l where fi: "fs ! i = (kk, v2, l)" by (cases "fs ! i") auto
      obtain g where "fst (redact_field gz p acts (fst (row ! i), snd (row ! i)) g) = Inr (fs ! i)"
        using list_all2_nthD [OF f i] by auto
      from redact_field_step [OF assms(3) this] have step: "kk = fst (row ! i)" "field_step P (snd (row ! i)) (v2, l)" by (simp_all add: fi)
      have "row_cell gz (oc_cell_bytes caps) (set ts1) m (out ! i) (kk, v2)"
        using list_all2_nthD [OF c, of i] i len fi by simp
      then obtain cell where cell: "fst (out ! i) = kk" "cell_of gz m kk v2 = Inr cell" "capped_cell gz (oc_cell_bytes caps) (set ts1) cell (snd (out ! i))"
        by (auto simp: row_cell_def)
      have "(kk, v2, l) \<in> set fs" using fi i len nth_mem by metis
      from field_cell_clean [OF step(2) this d keys cell(2)] cell(1,3) step(1) show ?thesis
        by (auto simp: capped_cell_def cell_clean_def)
    qed
    with len show ?thesis by (simp add: list_all2_conv_all_nth)
  qed
qed

lemma redact_text_output_Inr:
  assumes "fst (redact_text_output gz caps p s ts g) = Inr out"
  obtains t u where "out = CleanText t u" "fst (gz_redact gz p (RawText (fst (cap_string s (oc_bytes caps)))) g) = Inr (CleanDocText t)"
proof -
  obtain d where d: "fst (gz_redact gz p (RawText (fst (cap_string s (oc_bytes caps)))) g) = Inr d"
    using assms by (auto simp: redact_text_output_def run_simps Let_def case_prod_beta)
  with assms that show thesis by (cases d) (auto simp: redact_text_output_def run_simps Let_def case_prod_beta)
qed

lemma boundary_below_le: "boundary_below s n \<le> n"
  by (induction n) simp_all

lemma cap_string_cut:
  "\<exists>r. s = fst (cap_string s mx) @ r \<and> length (fst (cap_string s mx)) \<le> mx \<and> (length s \<le> mx \<longrightarrow> fst (cap_string s mx) = s)"
proof (cases "length s \<le> mx")
  case False
  have "length (take (boundary_below s mx) s) \<le> mx" using boundary_below_le [of s mx] by simp
  with False show ?thesis by (intro exI [of _ "drop (boundary_below s mx) s"]) (simp add: cap_string_def)
qed (simp add: cap_string_def)

lemma text_output_clean:
  assumes "fst (redact_text_output gz caps p s ts g) = Inr out" "pipeline_texts gz p P"
  shows "text_clean gz p P (oc_bytes caps) s out"
proof -
  from redact_text_output_Inr [OF assms(1)] obtain t u where
    o: "out = CleanText t u" "fst (gz_redact gz p (RawText (fst (cap_string s (oc_bytes caps)))) g) = Inr (CleanDocText t)" by blast
  with assms(2) have "P t" unfolding pipeline_texts_def by blast
  with o cap_string_cut [of s "oc_bytes caps"] show ?thesis unfolding text_clean_def by blast
qed

lemma schema_text_cut: "schema_text_output caps s ts = out \<Longrightarrow> text_cut (oc_bytes caps) s out"
  using cap_string_cut [of s "oc_bytes caps"] by (auto simp: schema_text_output_def text_cut_def case_prod_beta)

lemma rows_output_clean:
  assumes "fst (redact_rows gz caps p acts rows g) = Inr out" "pipeline_yields gz p P" "oc_bytes caps < USIZE_LIMIT - 1"
    "\<forall>row\<in>set rows. sorted_map row"
  shows "rows_clean gz P rows out"
proof -
  obtain outs ts where o: "out = CleanRows outs ts" and rel: "list_all2 (row_released gz caps p acts (set ts)) outs (take (length outs) rows)"
    by (rule redact_rows_Inr [OF assms(1,3,4)])
  have "list_all2 (list_all2 (\<lambda>x e. fst x = fst e \<and> cell_clean gz P (snd e) (snd x))) outs (take (length outs) rows)"
    using rel
  proof (rule list_all2_mono_in)
    fix out row assume "row \<in> set (take (length outs) rows)" "row_released gz caps p acts (set ts) out row"
    with row_released_clean [OF _ _ assms(2)] assms(4) show "list_all2 (\<lambda>x e. fst x = fst e \<and> cell_clean gz P (snd e) (snd x)) out row"
      by (meson in_set_takeD)
  qed
  with o show ?thesis unfolding rows_clean_def by blast
qed

lemma redact_result_clean:
  assumes "fst (redact_result gz caps p acts src g) = Inr out" "pipeline_texts gz p P" "pipeline_keeps_keys gz p"
    "oc_bytes caps < USIZE_LIMIT - 1" "\<And>rows. src = RowsOutput rows \<Longrightarrow> \<forall>row\<in>set rows. sorted_map row"
  shows "output_clean gz p P (oc_bytes caps) src out"
proof (cases src)
  case (RowsOutput rows)
  have "pipeline_yields gz p P" using assms(2,3) by (simp add: pipeline_yields_def)
  with rows_output_clean assms(1,4) assms(5) [OF RowsOutput] RowsOutput show ?thesis by (auto simp: output_clean_def)
qed (use assms(1,2) in \<open>auto simp: output_clean_def intro: text_output_clean schema_text_cut\<close>)

text \<open>
  C2: released texts come from the pipeline. Let \<open>P\<close> hold of every text that the pipeline returns (so it allows what the
  pipeline's preserving rules let through), and let the pipeline keep the keys of a structured row. Then the text of a log tool is the pipeline's answer for the source's text, cut at the byte cap,
  and \<open>P\<close> holds of it; in rows, \<open>P\<close> holds of every string in the cell of a text or an integer and
  of every string value inside a JSON cell, whatever column action (a preserving one included) ran before, or the cell is the fixed marker. The rest is
  released as it is: a JSON cell keeps its keys and its other leaves, a cell of any other type is the source's
  value in the derived form (under a redacting column action too), and a schema text is the source's text cut at the byte cap.
\<close>

theorem released_texts_come_from_pipeline:
  assumes "fst (redact_result gz caps p acts src g) = Inr out" "pipeline_texts gz p P" "pipeline_keeps_keys gz p"
    "oc_bytes caps < USIZE_LIMIT - 1" "\<And>rows. src = RowsOutput rows \<Longrightarrow> \<forall>row\<in>set rows. sorted_map row"
  shows "output_clean gz p P (oc_bytes caps) src out"
  using assms by (rule redact_result_clean)

lemma demo_gaze_texts: "pipeline_texts demo_gaze q (\<lambda>s. CHR ''@'' \<notin> set s)"
  by (auto simp: pipeline_texts_def demo_gaze_def demo_clean_def scrub_at_def case_prod_beta split: GazeValue.splits)

lemma demo_gaze_keys: "pipeline_keeps_keys demo_gaze q"
  by (auto simp: pipeline_keeps_keys_def demo_gaze_def demo_clean_def case_prod_beta)

definition demo_json :: "bytes Json" where
  "demo_json = JObject [(''k@'', JString ''x@y''), (''n'', JNull)]"

definition demo_json_out :: "bytes Json" where
  "demo_json_out = JObject [(''Json'', JObject [(''k@'', JString ''xy''), (''n'', JNull)])]"

text \<open>
  Rows with a text, and a row with a JSON value whose key keeps what its string loses; a text of a log that is cut; a schema text
  that is not redacted.
\<close>

theorem released_texts_come_from_pipeline_witness:
  "output_clean demo_gaze demo_gaze_pipeline (\<lambda>s. CHR ''@'' \<notin> set s) 35 (RowsOutput demo_rows) demo_out \<and>
   output_clean demo_gaze demo_gaze_pipeline (\<lambda>s. CHR ''@'' \<notin> set s) (1024 * 1024) (RowsOutput [[(''j'', VJson demo_json)]]) (CleanRows [[(''j'', demo_json_out)]] []) \<and>
   output_clean demo_gaze demo_gaze_pipeline (\<lambda>s. CHR ''@'' \<notin> set s) 35 (TextOutput (replicate 20 (CHR ''@'') @ replicate 20 (CHR ''x''))) (CleanText (replicate 15 (CHR ''x'')) [BytesCut]) \<and>
   output_clean demo_gaze demo_gaze_pipeline (\<lambda>s. CHR ''@'' \<notin> set s) 35 (SchemaText ''a@b'') (CleanText ''a@b'' [])"
proof -
  note main = released_texts_come_from_pipeline [OF _ demo_gaze_texts demo_gaze_keys]
  have caps: "oc_bytes demo_caps < USIZE_LIMIT - 1" "oc_bytes default_caps < USIZE_LIMIT - 1" "oc_bytes demo_caps = 35"
    "oc_bytes default_caps = 1024 * 1024" by code_simp+
  have sorted: "\<forall>row\<in>set demo_rows. sorted_map row" "sorted_map [(''j'', VJson demo_json)]" by code_simp+
  have r1: "fst (redact_result demo_gaze demo_caps demo_gaze_pipeline (\<lambda>_. None) (RowsOutput demo_rows) 0) = Inr demo_out"
    using demo_rows_released by simp
  have r2: "fst (redact_result demo_gaze default_caps demo_gaze_pipeline (\<lambda>_. Some (Preserve, EmailClass)) (RowsOutput [[(''j'', VJson demo_json)]]) 0) =
      Inr (CleanRows [[(''j'', demo_json_out)]] [])" by code_simp
  have r3: "fst (redact_result demo_gaze demo_caps demo_gaze_pipeline (\<lambda>_. None) (TextOutput (replicate 20 (CHR ''@'') @ replicate 20 (CHR ''x''))) 0) =
      Inr (CleanText (replicate 15 (CHR ''x'')) [BytesCut])" by code_simp
  have r4: "fst (redact_result demo_gaze demo_caps demo_gaze_pipeline (\<lambda>_. None) (SchemaText ''a@b'') 0) = Inr (CleanText ''a@b'' [])" by code_simp
  show ?thesis
    using main [OF r1 caps(1)] main [OF r2 caps(2)] main [OF r3 caps(1)] main [OF r4 caps(1)] sorted unfolding caps(3,4) by simp
qed

end
