(* ===== verification/Session_Dispatch.thy ===== *)
theory Session_Dispatch
  imports Session_Redact "HOL-Library.AList"
begin

text \<open>
  The session's registries and the call path of a tool, the first half of the implementation of
  \<^verbatim>\<open>src/session/mod.rs\<close>: pipelines, column actions and sources per profile, the profile of a call, lazy
  sources and \<^verbatim>\<open>invoke_core_tool\<close>. Sources act on a world \<open>'w\<close>; a source that is not ready within the
  timeout answers \<^const>\<open>None\<close>. A session lives with the gaze state \<open>'g\<close> of \<^verbatim>\<open>Lens_Value\<close>.
\<close>

section \<open>State\<close>

datatype SourceClass = DatabaseClass | LogClass

definition class_name :: "SourceClass \<Rightarrow> bytes" where
  "class_name c = (case c of DatabaseClass \<Rightarrow> ''database'' | LogClass \<Rightarrow> ''log'')"

definition tool_kind :: "bytes \<Rightarrow> SourceClass option" where
  "tool_kind tool =
     (if tool \<in> {''query'', ''schema'', ''list_tables''} then Some DatabaseClass
      else if tool \<in> {''log_tail'', ''log_grep''} then Some LogClass else None)"

record ToolCall =
  tc_call_id :: bytes
  tc_tool_name :: bytes
  tc_args :: "bytes Json"

text \<open>Hash maps with string keys are lists sorted by the key; the code sorts their keys where order shows.\<close>

datatype PipelineMode = SinglePipeline bytes Pipeline | MultiPipeline "(bytes \<times> Pipeline) list"
datatype ColumnActionMode = SingleColumns bytes ColumnActionPolicy | MultiColumns "(bytes \<times> ColumnActionPolicy) list"

type_synonym ('w, 'a) effect = "'w \<Rightarrow> (LensError + 'a) option \<times> 'w"

text \<open>\<^verbatim>\<open>LazySource\<close>: the once cell and the builder.\<close>

record ('s, 'w) LazySource =
  lz_cell :: "'s option"
  lz_builder :: "('w, 's) effect"

record ('s, 'w) SessionState =
  ss_pipelines :: PipelineMode
  ss_columns :: ColumnActionMode
  ss_sources :: "((SourceClass \<times> bytes) \<times> ('s, 'w) LazySource) list"
  ss_legacy :: "(bytes \<times> 's) list"
  ss_production :: "bytes list"
  ss_summaries :: "(bytes \<times> ResultSummary) list"
  ss_caps :: OutputCaps

text \<open>The pipeline of a session without a policy, also of replays; the library may refuse its detector or the build.\<close>

definition default_pipeline :: "GazeLib \<Rightarrow> LensError + Pipeline" where
  "default_pipeline lib =
     (case gl_emails lib of
        Some e \<Rightarrow> Inl (RedactionFailed e)
      | None \<Rightarrow>
          (case gl_build lib of
             Some e \<Rightarrow> Inl (RedactionFailed e)
           | None \<Rightarrow> Inr \<lparr>pl_detectors = [EmailDetector], pl_rules = [ClassRuleOf EmailClass Tokenize, DefaultRuleOf Preserve]\<rparr>))"

definition session_for_profile :: "bytes \<Rightarrow> Pipeline \<Rightarrow> ('s, 'w) SessionState" where
  "session_for_profile name p =
     \<lparr>ss_pipelines = SinglePipeline name p, ss_columns = SingleColumns name Map.empty, ss_sources = [], ss_legacy = [],
      ss_production = [], ss_summaries = [], ss_caps = default_caps\<rparr>"

definition session_for_multi_profile :: "('s, 'w) SessionState" where
  "session_for_multi_profile =
     \<lparr>ss_pipelines = MultiPipeline [], ss_columns = MultiColumns [], ss_sources = [], ss_legacy = [],
      ss_production = [], ss_summaries = [], ss_caps = default_caps\<rparr>"

section \<open>Registration\<close>

definition register_source :: "bytes \<Rightarrow> 's \<Rightarrow> ('s, 'w) SessionState \<Rightarrow> ('s, 'w) SessionState" where
  "register_source name src s = s\<lparr>ss_legacy := map_insert name src (ss_legacy s)\<rparr>"

text \<open>\<^verbatim>\<open>LazySource::ready\<close>, \<^verbatim>\<open>LazySource::new\<close>.\<close>

definition lazy_ready :: "'s \<Rightarrow> ('s, 'w) LazySource" where
  "lazy_ready src = \<lparr>lz_cell = Some src, lz_builder = (\<lambda>w. (Some (Inr src), w))\<rparr>"

definition lazy_new :: "('w, 's) effect \<Rightarrow> ('s, 'w) LazySource" where
  "lazy_new b = \<lparr>lz_cell = None, lz_builder = b\<rparr>"

definition put_source :: "SourceClass \<Rightarrow> bytes \<Rightarrow> ('s, 'w) LazySource \<Rightarrow> ('s, 'w) SessionState \<Rightarrow> ('s, 'w) SessionState" where
  "put_source c name lz s = s\<lparr>ss_sources := AList.update (c, name) lz (ss_sources s)\<rparr>"

definition register_source_for_profile :: "SourceClass \<Rightarrow> bytes \<Rightarrow> 's \<Rightarrow> ('s, 'w) SessionState \<Rightarrow> ('s, 'w) SessionState" where
  "register_source_for_profile c name src s = put_source c name (lazy_ready src) s"

definition register_source_lazy :: "SourceClass \<Rightarrow> bytes \<Rightarrow> ('w, 's) effect \<Rightarrow> ('s, 'w) SessionState \<Rightarrow> ('s, 'w) SessionState" where
  "register_source_lazy c name b s = put_source c name (lazy_new b) s"

definition register_pipeline :: "bytes \<Rightarrow> Pipeline \<Rightarrow> ('s, 'w) SessionState \<Rightarrow> LensError + ('s, 'w) SessionState" where
  "register_pipeline name p s =
     (case ss_pipelines s of
        SinglePipeline _ _ \<Rightarrow> Inl (InternalError ''cannot register profile pipeline on single-profile session'')
      | MultiPipeline m \<Rightarrow> Inr (s\<lparr>ss_pipelines := MultiPipeline (map_insert name p m)\<rparr>))"

definition register_column_action_policy :: "bytes \<Rightarrow> ColumnActionPolicy \<Rightarrow> ('s, 'w) SessionState \<Rightarrow> LensError + ('s, 'w) SessionState" where
  "register_column_action_policy name pol s =
     (case ss_columns s of
        SingleColumns own _ \<Rightarrow>
          if own \<noteq> name
          then Inl (InternalError ''cannot register different profile column policy on single-profile session'')
          else Inr (s\<lparr>ss_columns := SingleColumns own pol\<rparr>)
      | MultiColumns m \<Rightarrow> Inr (s\<lparr>ss_columns := MultiColumns (map_insert name pol m)\<rparr>))"

definition ensure_profile_registered :: "bytes \<Rightarrow> ('s, 'w) SessionState \<Rightarrow> LensError + unit" where
  "ensure_profile_registered profile s =
     (case ss_pipelines s of
        SinglePipeline name _ \<Rightarrow>
          if name = profile then Inr () else Inl (ProfileMismatch profile ''profile metadata'' name ''different'')
      | MultiPipeline m \<Rightarrow>
          if map_of m profile \<noteq> None then Inr () else Inl (ProfileUnknown profile (map fst m)))"

definition register_profile_production :: "bytes \<Rightarrow> bool \<Rightarrow> ('s, 'w) SessionState \<Rightarrow> LensError + ('s, 'w) SessionState" where
  "register_profile_production profile production s =
     and_then (ensure_profile_registered profile s) (\<lambda>_.
     Inr (s\<lparr>ss_production := (if production then List.insert profile (ss_production s) else removeAll profile (ss_production s))\<rparr>))"

definition profile_is_production :: "bytes \<Rightarrow> ('s, 'w) SessionState \<Rightarrow> bool" where
  "profile_is_production profile s \<longleftrightarrow> profile \<in> set (ss_production s)"

section \<open>The profile of a call\<close>

definition profile_arg :: "ToolCall \<Rightarrow> bytes option" where
  "profile_arg call = Option.bind (json_field ''profile'' (tc_args call)) as_str"

text \<open>A single-profile session adds its own name to arguments that lack one.\<close>

definition extract_profile :: "('s, 'w) SessionState \<Rightarrow> ToolCall \<Rightarrow> LensError + bytes \<times> ToolCall" where
  "extract_profile s call =
     (case tc_args call of
        JObject m \<Rightarrow>
          (case ss_pipelines s of
             SinglePipeline name _ \<Rightarrow>
               (case profile_arg call of
                  Some p \<Rightarrow> if p = name then Inr (name, call) else Inl (ProfileMismatch p (tc_tool_name call) name ''different'')
                | None \<Rightarrow> Inr (name, call\<lparr>tc_args := JObject (map_insert ''profile'' (JString name) m)\<rparr>))
           | MultiPipeline ps \<Rightarrow>
               (case profile_arg call of
                  None \<Rightarrow> Inl (ProfileError ''profile required'')
                | Some p \<Rightarrow>
                    if p = [] then Inl (ProfileError ''profile required'')
                    else if map_of ps p \<noteq> None then Inr (p, call) else Inl (ProfileUnknown p (map fst ps))))
      | _ \<Rightarrow> Inl (ProfileError ''args must be a JSON object''))"

definition pipeline_for :: "('s, 'w) SessionState \<Rightarrow> bytes \<Rightarrow> LensError + Pipeline" where
  "pipeline_for s profile =
     (case ss_pipelines s of
        SinglePipeline name p \<Rightarrow> if name = profile then Inr p else Inl (ProfileMismatch profile ''unknown'' name ''different'')
      | MultiPipeline m \<Rightarrow> ok_or (ProfileUnknown profile (map fst m)) (map_of m profile))"

definition column_actions_for :: "('s, 'w) SessionState \<Rightarrow> bytes \<Rightarrow> LensError + ColumnActionPolicy" where
  "column_actions_for s profile =
     (case ss_columns s of
        SingleColumns name pol \<Rightarrow> if name = profile then Inr pol else Inl (ProfileMismatch profile ''unknown'' name ''different'')
      | MultiColumns m \<Rightarrow> Inr (unwrap_or (map_of m profile) Map.empty))"

section \<open>Sources\<close>

definition other_class :: "SourceClass \<Rightarrow> SourceClass" where
  "other_class c = (case c of DatabaseClass \<Rightarrow> LogClass | LogClass \<Rightarrow> DatabaseClass)"

text \<open>A profile without a source of the class can only have one of the other class.\<close>

definition lookup_source :: "('s, 'w) SessionState \<Rightarrow> SourceClass \<Rightarrow> bytes \<Rightarrow> bytes \<Rightarrow> LensError + ('s, 'w) LazySource" where
  "lookup_source s c profile tool =
     (case map_of (ss_sources s) (c, profile) of
        Some lz \<Rightarrow> Inr lz
      | None \<Rightarrow>
          if map_of (ss_sources s) (other_class c, profile) \<noteq> None
          then Inl (ProfileMismatch profile tool (class_name c) (class_name (other_class c)))
          else Inl (ProfileUnknown profile (remdups_adj (sort (map (snd \<circ> fst) (ss_sources s))))))"

text \<open>\<^verbatim>\<open>OnceCell::get_or_try_init\<close>: a build that fails or does not finish leaves the cell empty.\<close>

definition lazy_get :: "('s, 'w) LazySource \<Rightarrow> 'w \<Rightarrow> (LensError + 's) option \<times> ('s, 'w) LazySource \<times> 'w" where
  "lazy_get lz w =
     (case lz_cell lz of
        Some src \<Rightarrow> (Some (Inr src), lz, w)
      | None \<Rightarrow>
          (case lz_builder lz w of
             (Some (Inr src), w1) \<Rightarrow> (Some (Inr src), lz\<lparr>lz_cell := Some src\<rparr>, w1)
           | (r, w1) \<Rightarrow> (r, lz, w1)))"

text \<open>\<open>dispatch\<close> is \<^verbatim>\<open>Source::dispatch\<close> of the registered sources.\<close>

definition invoke_source ::
  "('s \<Rightarrow> ToolCall \<Rightarrow> ('w, SourceOutput) effect) \<Rightarrow> ToolCall \<Rightarrow> bytes \<Rightarrow> ('s, 'w) SessionState \<Rightarrow> 'w \<Rightarrow>
     (LensError + SourceOutput) option \<times> ('s, 'w) SessionState \<times> 'w" where
  "invoke_source dispatch call profile s w =
     (case map_of (ss_legacy s) (tc_tool_name call) of
        Some src \<Rightarrow> (case dispatch src call w of (r, w1) \<Rightarrow> (r, s, w1))
      | None \<Rightarrow>
          (case tool_kind (tc_tool_name call) of
             None \<Rightarrow> (Some (Inl (SourceError (tc_tool_name call) ''unknown source'' None None)), s, w)
           | Some c \<Rightarrow>
               (case lookup_source s c profile (tc_tool_name call) of
                  Inl e \<Rightarrow> (Some (Inl e), s, w)
                | Inr lz \<Rightarrow>
                    (case lazy_get lz w of
                       (r, lz1, w1) \<Rightarrow>
                         let s1 = put_source c profile lz1 s in
                         (case r of
                            Some (Inr src) \<Rightarrow> (case dispatch src call w1 of (r2, w2) \<Rightarrow> (r2, s1, w2))
                          | Some (Inl e) \<Rightarrow> (Some (Inl e), s1, w1)
                          | None \<Rightarrow> (None, s1, w1))))))"

definition operation_timeout :: "bytes \<Rightarrow> bytes \<Rightarrow> nat \<Rightarrow> LensError" where
  "operation_timeout phase operation secs = OperationTimeout phase operation secs None"

definition record_core_summary :: "bytes \<Rightarrow> ResultSummary \<Rightarrow> ('s, 'w) SessionState \<Rightarrow> ('s, 'w) SessionState" where
  "record_core_summary call_id sm s = s\<lparr>ss_summaries := map_insert call_id sm (ss_summaries s)\<rparr>"

text \<open>What a call needs before its source is asked: its profile, the call with the profile, the pipeline, the column actions.\<close>

definition call_plan :: "('s, 'w) SessionState \<Rightarrow> ToolCall \<Rightarrow> LensError + bytes \<times> ToolCall \<times> Pipeline \<times> ColumnActionPolicy" where
  "call_plan s call0 =
     and_then (extract_profile s call0) (\<lambda>(profile, call).
     and_then (pipeline_for s profile) (\<lambda>p.
     and_then (column_actions_for s profile) (\<lambda>acts. Inr (profile, call, p, acts))))"

text \<open>
  \<^verbatim>\<open>invoke_core_tool\<close>. The redaction does not wait for anything, so its own timeout never fires.
\<close>

definition invoke_core_tool ::
  "'g Gaze \<Rightarrow> ('s \<Rightarrow> ToolCall \<Rightarrow> ('w, SourceOutput) effect) \<Rightarrow> ToolCall \<Rightarrow> ('s, 'w) SessionState \<Rightarrow> 'g \<Rightarrow> 'w \<Rightarrow>
     (LensError + bytes CleanOutput) \<times> ('s, 'w) SessionState \<times> 'g \<times> 'w" where
  "invoke_core_tool gz dispatch call0 s g w =
     (case call_plan s call0 of
        Inl e \<Rightarrow> (Inl e, s, g, w)
      | Inr (profile, call, p, acts) \<Rightarrow>
          (case invoke_source dispatch call profile s w of
             (None, s1, w1) \<Rightarrow> (Inl (operation_timeout ''source dispatch'' (tc_tool_name call) (oc_timeout (ss_caps s))), s1, g, w1)
           | (Some (Inl e), s1, w1) \<Rightarrow> (Inl e, s1, g, w1)
           | (Some (Inr raw), s1, w1) \<Rightarrow>
               (case redact_result gz (ss_caps s) p acts raw g of
                  (Inl e, g1) \<Rightarrow> (Inl e, s1, g1, w1)
                | (Inr clean, g1) \<Rightarrow> (Inr clean, record_core_summary (tc_call_id call) (summary gz clean) s1, g1, w1))))"

section \<open>Profiles do not interfere\<close>

text \<open>Two multi-profile sessions that agree on everything registered for \<open>p\<close>; other profiles are free.\<close>

definition same_profile :: "bytes \<Rightarrow> ('s, 'w) SessionState \<Rightarrow> ('s, 'w) SessionState \<Rightarrow> bool" where
  "same_profile p s t \<longleftrightarrow>
     (\<exists>ps qs. ss_pipelines s = MultiPipeline ps \<and> ss_pipelines t = MultiPipeline qs \<and> map_of ps p = map_of qs p) \<and>
     (\<exists>cs ds. ss_columns s = MultiColumns cs \<and> ss_columns t = MultiColumns ds \<and> map_of cs p = map_of ds p) \<and>
     (\<forall>c. map_of (ss_sources s) (c, p) = map_of (ss_sources t) (c, p)) \<and>
     ss_legacy s = ss_legacy t \<and> ss_caps s = ss_caps t"

definition multi_session :: "('s, 'w) SessionState \<Rightarrow> bool" where
  "multi_session s \<longleftrightarrow> (\<exists>ps cs. ss_pipelines s = MultiPipeline ps \<and> ss_columns s = MultiColumns cs)"

text \<open>Equal answers, up to the list of loaded profiles in the error for an unknown one.\<close>

definition same_error :: "bytes \<Rightarrow> LensError \<Rightarrow> LensError \<Rightarrow> bool" where
  "same_error p d e \<longleftrightarrow> d = e \<or> (\<exists>k l. d = ProfileUnknown p k \<and> e = ProfileUnknown p l)"

abbreviation same_answer :: "bytes \<Rightarrow> LensError + 'a \<Rightarrow> LensError + 'a \<Rightarrow> bool" where
  "same_answer p \<equiv> rel_sum (same_error p) (=)"

lemma same_error_refl [simp]: "same_error p e e"
  by (simp add: same_error_def)

lemma same_answer_refl [simp]: "same_answer p x x"
  by (cases x) simp_all

lemma same_answer_bind:
  assumes "same_answer p x y" "\<And>a. x = Inr a \<Longrightarrow> same_answer p (f a) (h a)"
  shows "same_answer p (and_then x f) (and_then y h)"
  using assms(1) by cases (use assms(2) in auto)

lemma same_profile_refl: "multi_session s \<Longrightarrow> same_profile p s s"
  by (auto simp: same_profile_def multi_session_def)

lemma same_profile_put: "same_profile p s t \<Longrightarrow> same_profile p (put_source c p lz s) (put_source c p lz t)"
  by (auto simp: same_profile_def put_source_def update_conv)

lemma same_profile_put_other: "multi_session s \<Longrightarrow> q \<noteq> p \<Longrightarrow> same_profile q s (put_source c p lz s)"
  by (auto simp: same_profile_def multi_session_def put_source_def update_conv)

lemma same_profile_summary [simp]:
  "same_profile p (record_core_summary i x s) t = same_profile p s t"
  "same_profile p s (record_core_summary j y t) = same_profile p s t"
  by (simp_all add: same_profile_def record_core_summary_def)

lemma same_lookup: "same_profile p s t \<Longrightarrow> same_answer p (lookup_source s c p tool) (lookup_source t c p tool)"
  by (auto simp: same_profile_def same_error_def lookup_source_def split: option.splits)

lemma same_extract:
  assumes "same_profile p s t" "profile_arg call = Some p"
  shows "same_answer p (extract_profile s call) (extract_profile t call)" "extract_profile s call = Inr r \<Longrightarrow> fst r = p"
  using assms by (auto simp: same_profile_def same_error_def extract_profile_def split: Json.splits if_splits)

lemma same_pipeline: "same_profile p s t \<Longrightarrow> same_answer p (pipeline_for s p) (pipeline_for t p)"
  by (auto simp: same_profile_def same_error_def pipeline_for_def ok_or_def split: option.splits)

lemma same_columns: "same_profile p s t \<Longrightarrow> column_actions_for s p = column_actions_for t p"
  by (auto simp: same_profile_def column_actions_for_def)

lemma same_invoke_source:
  assumes "same_profile p s t"
  shows "(\<exists>r u v x y. invoke_source dispatch call p s w = (Some x, u, v) \<and> invoke_source dispatch call p t w = (Some y, r, v) \<and>
      same_answer p x y \<and> same_profile p u r) \<or>
    (\<exists>r u v. invoke_source dispatch call p s w = (None, u, v) \<and> invoke_source dispatch call p t w = (None, r, v) \<and> same_profile p u r)"
proof -
  have leg: "ss_legacy s = ss_legacy t" using assms by (simp add: same_profile_def)
  show ?thesis
  proof (cases "map_of (ss_legacy t) (tc_tool_name call)")
    case (Some src)
    then show ?thesis using assms leg by (cases "dispatch src call w"; cases "fst (dispatch src call w)") (auto simp: invoke_source_def)
  next
    case legacy: None
    show ?thesis
    proof (cases "tool_kind (tc_tool_name call)")
      case None
      with legacy leg assms show ?thesis by (auto simp: invoke_source_def)
    next
      case (Some c)
      from same_lookup [OF assms, of c "tc_tool_name call"]
      consider (same) lz where "lookup_source s c p (tc_tool_name call) = Inr lz" "lookup_source t c p (tc_tool_name call) = Inr lz"
        | (err) x y where "lookup_source s c p (tc_tool_name call) = Inl x" "lookup_source t c p (tc_tool_name call) = Inl y"
            "same_error p x y"
        by cases auto
      then show ?thesis
      proof cases
        case same
        obtain r lz1 w1 where g: "lazy_get lz w = (r, lz1, w1)" by (cases "lazy_get lz w") auto
        note put = same_profile_put [OF assms, of c lz1]
        show ?thesis
        proof (cases r)
          case None
          with same g put legacy leg Some show ?thesis by (simp add: invoke_source_def)
        next
          case r: (Some x)
          show ?thesis
          proof (cases x)
            case (Inl e)
            with r same g put legacy leg Some show ?thesis by (simp add: invoke_source_def)
          next
            case (Inr src)
            then show ?thesis
              using r same g put legacy leg Some by (cases "dispatch src call w1"; cases "fst (dispatch src call w1)") (auto simp: invoke_source_def)
          qed
        qed
      qed (use assms legacy leg Some in \<open>auto simp: invoke_source_def\<close>)
    qed
  qed
qed

lemma same_plan:
  assumes "same_profile p s t" "profile_arg call = Some p"
  shows "same_answer p (call_plan s call) (call_plan t call)"
  unfolding call_plan_def
proof (rule same_answer_bind [OF same_extract(1) [OF assms]])
  fix r assume "extract_profile s call = Inr r"
  with same_extract(2) [OF assms] obtain c where r: "r = (p, c)" by (cases r) auto
  show "same_answer p (case r of (profile, call) \<Rightarrow> and_then (pipeline_for s profile) (\<lambda>p. and_then (column_actions_for s profile) (\<lambda>acts. Inr (profile, call, p, acts))))
     (case r of (profile, call) \<Rightarrow> and_then (pipeline_for t profile) (\<lambda>p. and_then (column_actions_for t profile) (\<lambda>acts. Inr (profile, call, p, acts))))"
    unfolding r prod.case same_columns [OF assms(1)] by (rule same_answer_bind [OF same_pipeline [OF assms(1)]]) simp
qed

lemma plan_profile:
  assumes "same_profile p s t" "profile_arg call = Some p" "call_plan s call = Inr (q, c, pl, acts)"
  shows "q = p"
proof -
  from assms(3) have "\<exists>r. extract_profile s call = Inr r \<and> fst r = q" by (auto simp: call_plan_def and_then_Inr_iff)
  with same_extract(2) [OF assms(1,2)] show ?thesis by blast
qed

lemma invoke_source_others:
  assumes "multi_session s" "q \<noteq> p"
  shows "same_profile q s (fst (snd (invoke_source dispatch call p s w)))"
  using assms same_profile_refl [OF assms(1), of q] same_profile_put_other [OF assms]
  by (auto simp: invoke_source_def Let_def split: option.split sum.split prod.split)

lemma same_profile_caps: "same_profile p s t \<Longrightarrow> ss_caps s = ss_caps t \<and> multi_session s"
  by (auto simp: same_profile_def multi_session_def)

text \<open>
  C3: a call for one profile is independent of every other profile. In two sessions that agree on what is
  registered for it, the call gives the same answer, creates the same tokens and does the same to the
  outside, whatever else is registered; and it leaves every other profile's registrations as they were. Only the
  list of loaded profiles inside an unknown-profile error may differ.
\<close>

theorem profiles_do_not_interfere:
  assumes "same_profile p s t" "profile_arg call = Some p"
  shows "\<exists>x y u v h z. invoke_core_tool gz dispatch call s g w = (x, u, h, z) \<and> invoke_core_tool gz dispatch call t g w = (y, v, h, z) \<and>
    same_answer p x y \<and> same_profile p u v \<and> (\<forall>q. q \<noteq> p \<longrightarrow> same_profile q s u)"
proof -
  note caps = same_profile_caps [OF assms(1)]
  have refl: "\<forall>q. q \<noteq> p \<longrightarrow> same_profile q s s" using caps same_profile_refl by blast
  from same_plan [OF assms] show ?thesis
  proof cases
    case (1 a b)
    with assms(1) refl show ?thesis by (simp add: invoke_core_tool_def)
  next
    case (2 a b)
    obtain q c pl acts where a: "a = (q, c, pl, acts)" by (cases a) auto
    have q: "q = p" using plan_profile [OF assms] 2(1) a by blast
    have plan: "call_plan s call = Inr (p, c, pl, acts)" "call_plan t call = Inr (p, c, pl, acts)" using 2 a q by simp_all
    have others: "\<forall>q. q \<noteq> p \<longrightarrow> same_profile q s (fst (snd (invoke_source dispatch c p s w)))"
      by (intro allI impI) (rule invoke_source_others [OF conjunct2 [OF caps]])
    from same_invoke_source [OF assms(1), of dispatch c w] show ?thesis
    proof (elim disjE exE conjE)
      fix r u v x y
      assume i: "invoke_source dispatch c p s w = (Some x, u, v)" "invoke_source dispatch c p t w = (Some y, r, v)" "same_answer p x y" "same_profile p u r"
      note others = others [unfolded i(1), simplified]
      from i(3) show ?thesis
      proof cases
        case (1 d e)
        with plan i others show ?thesis by (simp add: invoke_core_tool_def)
      next
        case (2 raw raw')
        obtain x1 g1 where rr: "redact_result gz (ss_caps t) pl acts raw' g = (x1, g1)" by fastforce
        define after where "after z = (case x1 of Inl e \<Rightarrow> z | Inr cl \<Rightarrow> record_core_summary (tc_call_id c) (summary gz cl) z)"
          for z :: "('a, 'b) SessionState"
        have "invoke_core_tool gz dispatch call s g w = (x1, after u, g1, v)" "invoke_core_tool gz dispatch call t g w = (x1, after r, g1, v)"
          by (simp_all add: invoke_core_tool_def plan i(1,2) 2 rr caps after_def split: sum.split)
        moreover have "same_profile p (after u) (after r)" "\<forall>q. q \<noteq> p \<longrightarrow> same_profile q s (after u)"
          using i(4) others by (simp_all add: after_def split: sum.split)
        ultimately show ?thesis by (intro exI conjI) (assumption | simp)+
      qed
    next
      fix r u v
      assume i: "invoke_source dispatch c p s w = (None, u, v)" "invoke_source dispatch c p t w = (None, r, v)" "same_profile p u r"
      with plan others caps show ?thesis by (simp add: invoke_core_tool_def)
    qed
  qed
qed

definition demo_effect :: "bytes \<Rightarrow> ToolCall \<Rightarrow> (nat, SourceOutput) effect" where
  "demo_effect src call w = (Some (Inr (TextOutput (src @ ''@''))), Suc w)"

definition demo_session :: "(bytes \<times> Pipeline) list \<Rightarrow> (bytes, nat) SessionState" where
  "demo_session others =
     register_source_lazy DatabaseClass ''p'' (\<lambda>w. (Some (Inr ''db''), w + 10))
       (session_for_multi_profile\<lparr>ss_pipelines := MultiPipeline (map_inserts (others @ [(''p'', demo_gaze_pipeline)]) [])\<rparr>)"

definition demo_query_call :: ToolCall where
  "demo_query_call = \<lparr>tc_call_id = ''1'', tc_tool_name = ''query'', tc_args = JObject [(''profile'', JString ''p'')]\<rparr>"

theorem profiles_do_not_interfere_witness:
  "\<exists>x y u v h z. invoke_core_tool demo_gaze demo_effect demo_query_call (demo_session []) 0 0 = (x, u, h, z) \<and>
    invoke_core_tool demo_gaze demo_effect demo_query_call (demo_session [(''q'', demo_gaze_pipeline)]) 0 0 = (y, v, h, z) \<and>
    same_answer ''p'' x y \<and> same_profile ''p'' u v"
proof -
  have "same_profile ''p'' (demo_session []) (demo_session [(''q'', demo_gaze_pipeline)])" "profile_arg demo_query_call = Some ''p''"
    by (simp_all add: same_profile_def demo_session_def register_source_lazy_def put_source_def session_for_multi_profile_def
        map_inserts_def profile_arg_def demo_query_call_def json_field_def as_str_def)
  from profiles_do_not_interfere [OF this, of demo_gaze demo_effect 0 0] show ?thesis
    by (elim exE conjE) (intro exI conjI; assumption)
qed

lemma demo_query_call_result:
  "invoke_core_tool demo_gaze demo_effect demo_query_call (demo_session []) 0 0 =
     (Inr (CleanText ''db'' []), record_core_summary ''1'' \<lparr>rs_rows = 0, rs_bytes = 2, rs_truncated_at = []\<rparr>
        (put_source DatabaseClass ''p'' \<lparr>lz_cell = Some ''db'', lz_builder = (\<lambda>w. (Some (Inr ''db''), w + 10))\<rparr> (demo_session [])), 1, 11)"
  by (simp add: invoke_core_tool_def call_plan_def extract_profile_def demo_query_call_def profile_arg_def json_field_def as_str_def
      demo_session_def register_source_lazy_def put_source_def session_for_multi_profile_def map_inserts_def pipeline_for_def
      column_actions_for_def invoke_source_def tool_kind_def lookup_source_def lazy_new_def lazy_get_def demo_effect_def
      redact_text_output_def cap_string_def default_caps_def r_bind_def redaction_def demo_gaze_def demo_clean_def scrub_at_def r_ok_def
      record_core_summary_def summary_def unwrap_or_def Let_def)

end
