(* ===== verification/Session_Manifest.thy ===== *)
theory Session_Manifest
  imports Session_Dispatch
begin

text \<open>
  The manifest of calls, \<^verbatim>\<open>src/session/manifest.rs\<close>: the table \<^verbatim>\<open>calls\<close> is the list of its rows, and the
  three statements of the store are list operations, with the primary key on \<^verbatim>\<open>call_id\<close> written out. What
  SQLite, the clock and the JSON printer answer is the record \<open>ManifestEnv\<close>. The adapter of
  \<^verbatim>\<open>src/manifest/gaze_mcp_adapter.rs\<close> calls them for the tool framework.
\<close>

record CallRow =
  cl_call_id :: bytes
  cl_lens_session_id :: bytes
  cl_tool_name :: bytes
  cl_redacted_args_json :: bytes
  cl_status :: bytes
  cl_result_summary :: "bytes option"
  cl_snapshot_ref :: "bytes option"
  cl_started_at_ms :: int
  cl_finished_at_ms :: "int option"
  cl_purged_at_ms :: "int option"

text \<open>
  \<open>mv_args\<close> and \<open>mv_summary\<close> print; \<open>mv_db\<close> is a failure of the statement, \<open>mv_conflict\<close> the text of a
  primary-key violation, \<open>mv_debug\<close> the debug printer of lists that error texts use.
\<close>

record ManifestEnv =
  mv_session :: bytes
  mv_path :: bytes
  mv_now :: int
  mv_args :: "bytes \<Rightarrow> bytes + bytes"
  mv_summary :: "ResultSummary \<Rightarrow> bytes + bytes"
  mv_db :: "bytes option"
  mv_conflict :: bytes
  mv_debug :: "bytes list \<Rightarrow> bytes"

definition begin_row :: "ManifestEnv \<Rightarrow> ToolCall \<Rightarrow> bytes \<Rightarrow> CallRow" where
  "begin_row env call json =
     \<lparr>cl_call_id = tc_call_id call, cl_lens_session_id = mv_session env, cl_tool_name = tc_tool_name call,
      cl_redacted_args_json = json, cl_status = ''in-progress'', cl_result_summary = None, cl_snapshot_ref = None,
      cl_started_at_ms = mv_now env, cl_finished_at_ms = None, cl_purged_at_ms = None\<rparr>"

definition begin_call :: "ManifestEnv \<Rightarrow> ToolCall \<Rightarrow> bytes \<Rightarrow> CallRow list \<Rightarrow> (LensError + unit) \<times> CallRow list" where
  "begin_call env call redacted_args m =
     (case mv_args env redacted_args of
        Inl e \<Rightarrow> (Inl (ManifestBeginFailed (tc_call_id call) e (Some (mv_path env))), m)
      | Inr json \<Rightarrow>
          (case mv_db env of
             Some e \<Rightarrow> (Inl (ManifestBeginFailed (tc_call_id call) e (Some (mv_path env))), m)
           | None \<Rightarrow>
               if tc_call_id call \<in> cl_call_id ` set m
               then (Inl (ManifestBeginFailed (tc_call_id call) (mv_conflict env) (Some (mv_path env))), m)
               else (Inr (), m @ [begin_row env call json])))"

text \<open>\<^verbatim>\<open>UPDATE calls SET .. WHERE call_id = ?1\<close>.\<close>

definition update_call :: "bytes \<Rightarrow> (CallRow \<Rightarrow> CallRow) \<Rightarrow> CallRow list \<Rightarrow> CallRow list" where
  "update_call i f m = map (\<lambda>r. if cl_call_id r = i then f r else r) m"

definition finish_row :: "ManifestEnv \<Rightarrow> bytes \<Rightarrow> bytes \<Rightarrow> CallRow \<Rightarrow> CallRow" where
  "finish_row env json path r =
     r\<lparr>cl_status := ''ok'', cl_result_summary := Some json, cl_snapshot_ref := Some path, cl_finished_at_ms := Some (mv_now env)\<rparr>"

definition finish_call :: "ManifestEnv \<Rightarrow> bytes \<Rightarrow> ResultSummary \<Rightarrow> bytes \<Rightarrow> CallRow list \<Rightarrow> (LensError + unit) \<times> CallRow list" where
  "finish_call env call_id sm path m =
     (case mv_summary env sm of
        Inl e \<Rightarrow> (Inl (ManifestFinishFailed call_id e (Some (mv_path env))), m)
      | Inr json \<Rightarrow>
          (case mv_db env of
             Some e \<Rightarrow> (Inl (ManifestFinishFailed call_id e (Some (mv_path env))), m)
           | None \<Rightarrow>
               (if length (filter (\<lambda>r. cl_call_id r = call_id) m) = 1 then Inr ()
                else Inl (ManifestFinishFailed call_id ''call not found'' (Some (mv_path env))),
                update_call call_id (finish_row env json path) m)))"

definition fail_row :: "ManifestEnv \<Rightarrow> LensError \<Rightarrow> CallRow \<Rightarrow> CallRow" where
  "fail_row env err r =
     r\<lparr>cl_status := ''error'', cl_result_summary := Some (sanitize_error (mv_debug env) err), cl_finished_at_ms := Some (mv_now env)\<rparr>"

definition fail_call :: "ManifestEnv \<Rightarrow> bytes \<Rightarrow> LensError \<Rightarrow> CallRow list \<Rightarrow> (LensError + unit) \<times> CallRow list" where
  "fail_call env call_id err m =
     (case mv_db env of
        Some e \<Rightarrow> (Inl (ManifestFinishFailed call_id e (Some (mv_path env))), m)
      | None \<Rightarrow> (Inr (), update_call call_id (fail_row env err) m))"

section \<open>The adapter\<close>

text \<open>\<^verbatim>\<open>s.split_once(t)\<close>, \<^verbatim>\<open>s.strip_prefix(t)\<close>, \<^verbatim>\<open>s.strip_suffix(c)\<close>.\<close>

definition split_once_text :: "bytes \<Rightarrow> bytes \<Rightarrow> (bytes \<times> bytes) option" where
  "split_once_text s t = map_option (\<lambda>i. (take i s, drop (i + length t) s)) (find_text s t)"

definition strip_prefix_text :: "bytes \<Rightarrow> bytes \<Rightarrow> bytes option" where
  "strip_prefix_text s t = (if starts_with s t then Some (drop (length t) s) else None)"

definition strip_last :: "bytes \<Rightarrow> char \<Rightarrow> bytes option" where
  "strip_last s c = (if s \<noteq> [] \<and> last s = c then Some (butlast s) else None)"

definition timeout_phases :: "bytes list" where
  "timeout_phases = [''source dispatch'', ''redaction'', ''ssh connect'', ''ssh log command/read'', ''local log read'']"

definition timeout_operations :: "bytes list" where
  "timeout_operations = [''query'', ''schema'', ''list_tables'', ''log_tail'', ''log_grep'']"

definition operation_timeout_from_message :: "bytes \<Rightarrow> LensError option" where
  "operation_timeout_from_message message =
     Option.bind (strip_prefix_text message ''tool internal error: timeout during '') (\<lambda>timeout.
     Option.bind (split_once_text timeout '' for '') (\<lambda>(phase, rest).
     if phase \<notin> set timeout_phases then None
     else Option.bind (split_once_text rest '' after '') (\<lambda>(operation, duration).
       if operation \<notin> set timeout_operations then None
       else Option.bind (strip_last duration (CHR ''s'')) (\<lambda>digits.
         if digits = [] \<or> \<not> list_all is_ascii_digit digits then None
         else map_option (\<lambda>n. OperationTimeout phase operation n None) (parse_unsigned (2 ^ 64) digits)))))"

text \<open>The failures the framework reports; \<open>UnknownFailure\<close> for a variant added later.\<close>

datatype FailureReason = ToolFailure bytes bytes | AuthDenied bytes | RedactionFailure bytes | OtherFailure bytes | UnknownFailure

fun lens_error_from_failure :: "FailureReason \<Rightarrow> LensError" where
  "lens_error_from_failure (ToolFailure cls message) =
     (if cls = ''internal'' \<and> message \<in> {''output truncated at Timeout'', ''tool internal error: output truncated at Timeout''}
      then Truncated TimeoutCut
      else case (if cls = ''internal'' then operation_timeout_from_message message else None) of
        Some e \<Rightarrow> e
      | None \<Rightarrow> InternalError ''gaze-mcp-core tool failure'')"
| "lens_error_from_failure (AuthDenied reason) = InternalError (''auth denied: '' @ reason)"
| "lens_error_from_failure (RedactionFailure message) = RedactionFailed message"
| "lens_error_from_failure (OtherFailure message) = InternalError message"
| "lens_error_from_failure UnknownFailure = InternalError ''unknown gaze-mcp-core failure''"

type_synonym summaries = "(bytes \<times> ResultSummary) list"

text \<open>
  \<open>json\<close> is the printed form of the redacted arguments; \<open>persisted\<close> is the outcome of writing the snapshot:
  its path, or an error.
\<close>

definition adapter_begin_call :: "ManifestEnv \<Rightarrow> (bytes Json \<Rightarrow> bytes + bytes) \<Rightarrow> bytes \<Rightarrow> bytes \<Rightarrow> bytes Json \<Rightarrow> CallRow list \<Rightarrow> (LensError + bytes) \<times> CallRow list" where
  "adapter_begin_call env to_string call_id tool args m =
     (case to_string args of
        Inl e \<Rightarrow> (Inl (InternalError e), m)
      | Inr json \<Rightarrow>
          (case begin_call env \<lparr>tc_call_id = call_id, tc_tool_name = tool, tc_args = args\<rparr> json m of
             (r, m1) \<Rightarrow> (and_then r (\<lambda>_. Inr call_id), m1)))"

definition adapter_finish_call ::
  "ManifestEnv \<Rightarrow> LensError + bytes \<Rightarrow> bytes \<Rightarrow> nat \<Rightarrow> summaries \<Rightarrow> CallRow list \<Rightarrow> (LensError + unit) \<times> summaries \<times> CallRow list" where
  "adapter_finish_call env persisted call_id byte_len sms m =
     (case persisted of
        Inl e \<Rightarrow> (Inl e, sms, m)
      | Inr path \<Rightarrow>
          (let sm = unwrap_or (map_of sms call_id) \<lparr>rs_rows = 0, rs_bytes = byte_len, rs_truncated_at = []\<rparr>;
               (r, m1) = finish_call env call_id sm path m
           in (r, AList.delete call_id sms, m1)))"

definition adapter_fail_call :: "ManifestEnv \<Rightarrow> bytes \<Rightarrow> FailureReason \<Rightarrow> summaries \<Rightarrow> CallRow list \<Rightarrow> (LensError + unit) \<times> summaries \<times> CallRow list" where
  "adapter_fail_call env call_id reason sms m =
     (let (r, m1) = fail_call env call_id (lens_error_from_failure reason) m in (r, AList.delete call_id sms, m1))"

text \<open>Only the fixed phases and operations come back as a timeout, and never with context.\<close>

lemma operation_timeout_from_message_Some:
  assumes "operation_timeout_from_message message = Some e"
  shows "\<exists>phase operation n. e = OperationTimeout phase operation n None \<and> phase \<in> set timeout_phases \<and>
    operation \<in> set timeout_operations \<and> n < 2 ^ 64"
  using assms
  by (auto simp: operation_timeout_from_message_def Option.bind_eq_Some_conv dest: parse_unsigned_bound split: if_splits)

section \<open>Well-formed manifests\<close>

text \<open>
  Call ids are unique; a successful call has a snapshot or a purge time and not both, any other call
  has neither.
\<close>

definition row_ok :: "CallRow \<Rightarrow> bool" where
  "row_ok r \<longleftrightarrow> (if cl_status r = ''ok'' then (cl_snapshot_ref r \<noteq> None) = (cl_purged_at_ms r = None)
                 else cl_snapshot_ref r = None \<and> cl_purged_at_ms r = None)"

definition manifest_ok :: "CallRow list \<Rightarrow> bool" where
  "manifest_ok m \<longleftrightarrow> distinct (map cl_call_id m) \<and> list_all row_ok m"

text \<open>A call that has begun and not ended: the only calls the session finishes or fails.\<close>

definition open_call :: "bytes \<Rightarrow> CallRow list \<Rightarrow> bool" where
  "open_call i m \<longleftrightarrow> list_all (\<lambda>r. cl_call_id r = i \<longrightarrow> cl_status r = ''in-progress'') m"

lemma update_call_ids: "(\<And>r. cl_call_id (f r) = cl_call_id r) \<Longrightarrow> map cl_call_id (update_call i f m) = map cl_call_id m"
  by (simp add: update_call_def)

lemma begin_call_ok: "manifest_ok m \<Longrightarrow> manifest_ok (snd (begin_call env call args m))"
  by (auto simp: manifest_ok_def begin_call_def begin_row_def row_ok_def split: sum.split option.split)

lemma finish_call_ok: "manifest_ok m \<Longrightarrow> open_call i m \<Longrightarrow> manifest_ok (snd (finish_call env i sm path m))"
  by (auto simp: manifest_ok_def finish_call_def finish_row_def row_ok_def open_call_def list_all_iff update_call_ids update_call_def
      comp_def if_distrib [of cl_call_id] cong: if_cong split: sum.split option.split)

lemma fail_call_ok: "manifest_ok m \<Longrightarrow> open_call i m \<Longrightarrow> manifest_ok (snd (fail_call env i err m))"
  by (auto simp: manifest_ok_def fail_call_def fail_row_def row_ok_def open_call_def list_all_iff update_call_def
      comp_def if_distrib [of cl_call_id] cong: if_cong split: option.split)

end
