(* ===== verification/Maintenance.thy ===== *)
theory Maintenance
  imports Profiles Session_Manifest
begin

text \<open>
  The snapshot retention sweep, \<^verbatim>\<open>src/session/maintenance.rs\<close>. The manifest is the list of its rows of \<^verbatim>\<open>Session_Manifest\<close>; the
  selection and the tombstone update are the SQL statements of the source read as list operations. The
  clock, the file system, the ULID reader and SQLite failures are the record \<open>SweepEnv\<close>. Times are
  \<^verbatim>\<open>i64\<close> milliseconds with the saturation written out.
\<close>

section \<open>State\<close>

definition MS_PER_DAY :: int where "MS_PER_DAY = 86400000"
definition WARN_SUPPRESSION_MS :: int where "WARN_SUPPRESSION_MS = 24 * 3600000"
definition I64_MAX :: int where "I64_MAX = 9223372036854775807"
definition I64_MIN :: int where "I64_MIN = -9223372036854775808"

definition saturate :: "int \<Rightarrow> int" where
  "saturate x = max I64_MIN (min I64_MAX x)"

datatype Removal = Removed | Missing | RemoveError bytes

record SweepEnv =
  sw_now :: int
  sw_clock :: "nat \<Rightarrow> int"
  sw_ulid :: "bytes \<Rightarrow> nat option"
  sw_remove :: "bytes \<Rightarrow> Removal"
  sw_update :: "bytes \<Rightarrow> bytes option"
  sw_query :: "bytes option"
  sw_last_warn :: "int option"

record ExpiredEntry =
  ex_call_id :: bytes
  ex_session :: bytes
  ex_path :: bytes
  ex_ulid_ms :: int
  ex_age_days :: nat

record PurgedEntry =
  pu_call_id :: bytes
  pu_session :: bytes
  pu_path :: bytes
  pu_at_ms :: int

record FailedEntry =
  fe_call_id :: bytes
  fe_session :: bytes
  fe_path :: bytes
  fe_detail :: bytes

record SweepReport =
  would_purge :: "ExpiredEntry list"
  purged :: "PurgedEntry list"
  failed :: "FailedEntry list"
  warning_emitted :: bool

definition report_default :: SweepReport where
  "report_default = \<lparr>would_purge = [], purged = [], failed = [], warning_emitted = False\<rparr>"

section \<open>Operations\<close>

definition parse_ulid_ms :: "SweepEnv \<Rightarrow> bytes \<Rightarrow> int option" where
  "parse_ulid_ms env s =
     (case sw_ulid env s of None \<Rightarrow> None | Some ms \<Rightarrow> if int ms > I64_MAX then None else Some (int ms))"

text \<open>\<^verbatim>\<open>status = 'ok' AND snapshot_ref IS NOT NULL AND purged_at_ms IS NULL\<close>.\<close>

definition candidate :: "CallRow \<Rightarrow> bool" where
  "candidate r \<longleftrightarrow> cl_status r = ''ok'' \<and> cl_snapshot_ref r \<noteq> None \<and> cl_purged_at_ms r = None"

definition retention_ms :: "nat \<Rightarrow> int" where
  "retention_ms days = saturate (int days * MS_PER_DAY)"

definition expired_entry :: "SweepEnv \<Rightarrow> nat \<Rightarrow> CallRow \<Rightarrow> ExpiredEntry option" where
  "expired_entry env days r =
     (case parse_ulid_ms env (cl_lens_session_id r) of
        None \<Rightarrow> None
      | Some ms \<Rightarrow>
          (let age = saturate (sw_now env - ms) in
           if age \<le> retention_ms days then None
           else Some \<lparr>ex_call_id = cl_call_id r, ex_session = cl_lens_session_id r,
                  ex_path = (case cl_snapshot_ref r of None \<Rightarrow> [] | Some p \<Rightarrow> p), ex_ulid_ms = ms,
                  ex_age_days = nat (max 0 (age div MS_PER_DAY)) mod 2 ^ 32\<rparr>))"

text \<open>\<^verbatim>\<open>UPDATE calls SET purged_at_ms = ?2, snapshot_ref = NULL WHERE call_id = ?1\<close>.\<close>

definition tomb :: "int \<Rightarrow> CallRow \<Rightarrow> CallRow" where
  "tomb t r = r\<lparr>cl_purged_at_ms := Some t, cl_snapshot_ref := None\<rparr>"

definition tombstone :: "bytes \<Rightarrow> int \<Rightarrow> CallRow list \<Rightarrow> CallRow list" where
  "tombstone i t m = map (\<lambda>r. if cl_call_id r = i then tomb t r else r) m"

fun sweep_rows :: "SweepEnv \<Rightarrow> nat \<Rightarrow> AutoPurge \<Rightarrow> CallRow list \<Rightarrow> SweepReport \<Rightarrow> CallRow list
    \<Rightarrow> (LensError + SweepReport) \<times> CallRow list" where
  "sweep_rows env days mode [] rep m = (Inr rep, m)"
| "sweep_rows env days mode (r # rs) rep m =
     (case expired_entry env days r of
        None \<Rightarrow> sweep_rows env days mode rs rep m
      | Some e \<Rightarrow>
          if mode = Warn then sweep_rows env days mode rs (rep\<lparr>would_purge := would_purge rep @ [e]\<rparr>) m
          else
            (case sw_remove env (ex_path e) of
               RemoveError d \<Rightarrow>
                 sweep_rows env days mode rs
                   (rep\<lparr>failed := failed rep @ [\<lparr>fe_call_id = ex_call_id e, fe_session = ex_session e, fe_path = ex_path e, fe_detail = d\<rparr>]\<rparr>) m
             | _ \<Rightarrow>
                 (let t = sw_clock env (length (purged rep)) in
                  case sw_update env (ex_call_id e) of
                    Some err \<Rightarrow> (Inl (InternalError (''manifest tombstone UPDATE failed: '' @ err)), m)
                  | None \<Rightarrow>
                      sweep_rows env days mode rs
                        (rep\<lparr>purged := purged rep @ [\<lparr>pu_call_id = ex_call_id e, pu_session = ex_session e, pu_path = ex_path e, pu_at_ms = t\<rparr>]\<rparr>)
                        (tombstone (ex_call_id e) t m))))"

text \<open>The warning is printed at most once a day; the state file then holds the current time.\<close>

definition maybe_emit_warning :: "SweepEnv \<Rightarrow> bool" where
  "maybe_emit_warning env =
     (case sw_last_warn env of
        Some lw \<Rightarrow> \<not> saturate (sw_now env - lw) < WARN_SUPPRESSION_MS
      | None \<Rightarrow> True)"

text \<open>\<open>m\<close> is \<^const>\<open>None\<close> when there is no manifest file.\<close>

definition sweep_expired_snapshots ::
  "SweepEnv \<Rightarrow> nat \<Rightarrow> AutoPurge \<Rightarrow> CallRow list option \<Rightarrow> (LensError + SweepReport) \<times> CallRow list option" where
  "sweep_expired_snapshots env days mode m =
     (if mode = Off then (Inr report_default, m)
      else case m of
        None \<Rightarrow> (Inr report_default, m)
      | Some rows \<Rightarrow>
          (case sw_query env of
             Some err \<Rightarrow> (Inl (InternalError (''manifest sweep query failed: '' @ err)), m)
           | None \<Rightarrow>
               (case sweep_rows env days mode (filter candidate rows) report_default rows of
                  (Inl e, rows1) \<Rightarrow> (Inl e, Some rows1)
                | (Inr rep, rows1) \<Rightarrow>
                    (Inr (if mode = Warn \<and> would_purge rep \<noteq> [] then rep\<lparr>warning_emitted := maybe_emit_warning env\<rparr> else rep),
                     Some rows1))))"

section \<open>What a sweep does to the manifest\<close>

definition purgeable :: "SweepEnv \<Rightarrow> nat \<Rightarrow> CallRow \<Rightarrow> bool" where
  "purgeable env days r \<longleftrightarrow> (\<exists>e. expired_entry env days r = Some e \<and> (\<forall>d. sw_remove env (ex_path e) \<noteq> RemoveError d))"

text \<open>
  The retention rule in its own words, over the row, the clock, the ULID reader and the file system alone: a successful
  call whose snapshot has not been purged, whose session began more than \<open>days\<close> days ago (in saturating \<^verbatim>\<open>i64\<close>
  milliseconds), and whose snapshot file is removed or already missing.
\<close>

definition due_for_purge :: "SweepEnv \<Rightarrow> nat \<Rightarrow> CallRow \<Rightarrow> bool" where
  "due_for_purge env days r \<longleftrightarrow>
     cl_status r = ''ok'' \<and> cl_purged_at_ms r = None \<and>
     (\<exists>path ms. cl_snapshot_ref r = Some path \<and> sw_ulid env (cl_lens_session_id r) = Some ms \<and>
        int ms \<le> 9223372036854775807 \<and>
        min 9223372036854775807 (int days * 86400000) <
          max (- 9223372036854775808) (min 9223372036854775807 (sw_now env - int ms)) \<and>
        (sw_remove env path = Removed \<or> sw_remove env path = Missing))"

lemma removed_iff: "(\<forall>d. x \<noteq> RemoveError d) \<longleftrightarrow> x = Removed \<or> x = Missing"
  by (cases x) auto

lemma retention_nonneg: "retention_ms days = min I64_MAX (int days * 86400000)"
  by (simp add: retention_ms_def saturate_def MS_PER_DAY_def I64_MIN_def I64_MAX_def)

lemma purgeable_iff:
  "purgeable env days r \<longleftrightarrow>
     (\<exists>ms. sw_ulid env (cl_lens_session_id r) = Some ms \<and> int ms \<le> I64_MAX \<and>
        min I64_MAX (int days * 86400000) < saturate (sw_now env - int ms) \<and>
        (\<forall>d. sw_remove env (case cl_snapshot_ref r of None \<Rightarrow> [] | Some p \<Rightarrow> p) \<noteq> RemoveError d))"
  by (auto simp: purgeable_def expired_entry_def parse_ulid_ms_def Let_def retention_nonneg split: option.splits)

lemma due_iff: "due_for_purge env days r \<longleftrightarrow> candidate r \<and> purgeable env days r"
  unfolding due_for_purge_def purgeable_iff candidate_def removed_iff saturate_def I64_MAX_def I64_MIN_def by auto

definition retire_rows :: "(bytes \<Rightarrow> int option) \<Rightarrow> CallRow list \<Rightarrow> CallRow list" where
  "retire_rows T m = map (\<lambda>r. case T (cl_call_id r) of None \<Rightarrow> r | Some t \<Rightarrow> tomb t r) m"

lemma retire_none: "retire_rows Map.empty m = m"
  by (simp add: retire_rows_def)

lemma retire_tombstone: "T i = None \<Longrightarrow> retire_rows T (tombstone i t m) = retire_rows (T(i \<mapsto> t)) m"
  by (simp add: retire_rows_def tombstone_def tomb_def)

lemma expired_entry_id: "expired_entry env days r = Some e \<Longrightarrow> ex_call_id e = cl_call_id r"
  by (auto simp: expired_entry_def Let_def split: option.splits if_splits)

lemma sweep_rows_warn: "snd (sweep_rows env days Warn rs rep m) = m"
  by (induction rs arbitrary: rep) (auto split: option.splits)

lemma sweep_rows_purge:
  "mode \<noteq> Warn \<Longrightarrow> distinct (map cl_call_id rs) \<Longrightarrow>
     \<exists>T. snd (sweep_rows env days mode rs rep m) = retire_rows T m \<and>
       dom T \<subseteq> cl_call_id ` {r \<in> set rs. purgeable env days r} \<and>
       ran T \<subseteq> range (sw_clock env) \<and>
       ((\<exists>rep1. fst (sweep_rows env days mode rs rep m) = Inr rep1) \<longrightarrow> dom T = cl_call_id ` {r \<in> set rs. purgeable env days r})"
proof (induction rs arbitrary: rep m)
  case Nil
  show ?case by (rule exI [of _ Map.empty]) (simp add: retire_none)
next
  case (Cons r rs)
  have later: "cl_call_id r \<notin> cl_call_id ` {x \<in> set rs. purgeable env days x}" using Cons.prems(2) by auto
  have here: "cl_call_id ` {x \<in> set (r # rs). purgeable env days x} =
      (if purgeable env days r then insert (cl_call_id r) else (\<lambda>x. x)) (cl_call_id ` {x \<in> set rs. purgeable env days x})"
    by auto
  show ?case
  proof (cases "purgeable env days r")
    case False
    then have "\<exists>rep1. sweep_rows env days mode (r # rs) rep m = sweep_rows env days mode rs rep1 m"
      using Cons.prems(1) by (auto simp: purgeable_def split: option.splits Removal.splits)
    then obtain rep1 where "sweep_rows env days mode (r # rs) rep m = sweep_rows env days mode rs rep1 m" by blast
    with Cons.IH [of rep1 m] Cons.prems False here show ?thesis by simp
  next
    case True
    then obtain e where e: "expired_entry env days r = Some e" "\<forall>d. sw_remove env (ex_path e) \<noteq> RemoveError d"
      by (auto simp: purgeable_def)
    note i = expired_entry_id [OF e(1)]
    let ?t = "sw_clock env (length (purged rep))"
    let ?rep = "rep\<lparr>purged := purged rep @ [\<lparr>pu_call_id = ex_call_id e, pu_session = ex_session e, pu_path = ex_path e, pu_at_ms = ?t\<rparr>]\<rparr>"
    have step: "sweep_rows env days mode (r # rs) rep m =
        (case sw_update env (ex_call_id e) of
           Some err \<Rightarrow> (Inl (InternalError (''manifest tombstone UPDATE failed: '' @ err)), m)
         | None \<Rightarrow> sweep_rows env days mode rs ?rep (tombstone (cl_call_id r) ?t m))"
      using Cons.prems(1) e i by (auto simp: Let_def split: Removal.splits option.split)
    show ?thesis
    proof (cases "sw_update env (ex_call_id e)")
      case (Some err)
      with step show ?thesis by (intro exI [of _ Map.empty]) (simp add: retire_none)
    next
      case None
      let ?run = "sweep_rows env days mode rs ?rep (tombstone (cl_call_id r) ?t m)"
      from Cons.IH [of ?rep "tombstone (cl_call_id r) ?t m"] Cons.prems obtain T where
        T: "snd ?run = retire_rows T (tombstone (cl_call_id r) ?t m)" "dom T \<subseteq> cl_call_id ` {x \<in> set rs. purgeable env days x}"
          "ran T \<subseteq> range (sw_clock env)"
          "(\<exists>rep1. fst ?run = Inr rep1) \<longrightarrow> dom T = cl_call_id ` {x \<in> set rs. purgeable env days x}" by auto
      have "T (cl_call_id r) = None" using T(2) later by blast
      then have "snd ?run = retire_rows (T(cl_call_id r \<mapsto> ?t)) m" using T(1) retire_tombstone by simp
      moreover have "sweep_rows env days mode (r # rs) rep m = ?run" using step None by simp
      moreover have "dom (T(cl_call_id r \<mapsto> ?t)) \<subseteq> cl_call_id ` {x \<in> set (r # rs). purgeable env days x}"
        "(\<exists>rep1. fst ?run = Inr rep1) \<longrightarrow> dom (T(cl_call_id r \<mapsto> ?t)) = cl_call_id ` {x \<in> set (r # rs). purgeable env days x}"
        unfolding here using T(2,4) True by auto
      moreover have "ran (T(cl_call_id r \<mapsto> ?t)) \<subseteq> range (sw_clock env)"
        using T(3) by (auto simp: ran_def split: if_splits)
      ultimately show ?thesis by (intro exI [of _ "T(cl_call_id r \<mapsto> ?t)"]) (simp only: simp_thms)
    qed
  qed
qed

lemma sweep_effect:
  assumes "sweep_expired_snapshots env days mode (Some m) = (res, m1)" "distinct (map cl_call_id m)"
  shows "\<exists>t S. m1 = Some (map (\<lambda>r. if r \<in> S then tomb (t r) r else r) m) \<and> (\<forall>r\<in>S. t r \<in> range (sw_clock env)) \<and>
    S \<subseteq> {r \<in> set m. mode = Purge \<and> candidate r \<and> purgeable env days r} \<and>
    ((\<exists>rep. res = Inr rep) \<longrightarrow> S = {r \<in> set m. mode = Purge \<and> candidate r \<and> purgeable env days r})"
proof -
  let ?run = "sweep_rows env days mode (filter candidate m) report_default m"
  have idle: ?thesis if "m1 = Some m" "mode \<noteq> Purge \<or> (\<exists>e. res = Inl e)"
    using that by (intro exI [of _ "\<lambda>_. 0"] exI [of _ "{}"]) auto
  have warn: "snd (sweep_rows env days Warn rs rep m) = m" for rs rep by (rule sweep_rows_warn)
  consider (unchanged) "m1 = Some m" "mode \<noteq> Purge \<or> (\<exists>e. res = Inl e)"
    | (purge) "mode = Purge" "m1 = Some (snd ?run)" "(\<exists>rep. res = Inr rep) \<longleftrightarrow> (\<exists>rep. fst ?run = Inr rep)"
  proof (cases "mode = Off \<or> sw_query env \<noteq> None")
    case True
    with assms(1) have "m1 = Some m \<and> (mode \<noteq> Purge \<or> (\<exists>e. res = Inl e))"
      by (auto simp: sweep_expired_snapshots_def split: if_splits)
    then show thesis using that(1) by blast
  next
    case False
    obtain r1 rows1 where run: "?run = (r1, rows1)" by (cases ?run)
    with assms(1) False have "m1 = Some rows1 \<and> ((\<exists>rep. res = Inr rep) \<longleftrightarrow> (\<exists>rep. r1 = Inr rep))"
      by (cases r1) (auto simp: sweep_expired_snapshots_def)
    moreover have "mode = Warn \<Longrightarrow> rows1 = m" using warn [of "filter candidate m" report_default] run by simp
    ultimately have "m1 = Some m \<and> mode \<noteq> Purge \<or> mode = Purge \<and> m1 = Some (snd ?run) \<and> ((\<exists>rep. res = Inr rep) \<longleftrightarrow> (\<exists>rep. fst ?run = Inr rep))"
      using False run by (cases mode) simp_all
    then show thesis using that by blast
  qed
  then show ?thesis
  proof cases
    case unchanged
    then show ?thesis by (rule idle)
  next
    case purge
    have "distinct (map cl_call_id (filter candidate m))" using assms(2) by (simp add: distinct_map_filter)
    with sweep_rows_purge [of mode "filter candidate m" env days report_default m] purge(1) obtain T where
      T: "snd ?run = retire_rows T m" "dom T \<subseteq> cl_call_id ` {r \<in> set (filter candidate m). purgeable env days r}"
        "ran T \<subseteq> range (sw_clock env)"
        "(\<exists>rep1. fst ?run = Inr rep1) \<longrightarrow> dom T = cl_call_id ` {r \<in> set (filter candidate m). purgeable env days r}" by auto
    let ?S = "{r \<in> set m. cl_call_id r \<in> dom T}"
    have inj: "r = x" if "r \<in> set m" "x \<in> set m" "cl_call_id r = cl_call_id x" for r x
      using assms(2) that by (auto simp: distinct_map inj_on_def)
    have "retire_rows T m = map (\<lambda>r. if r \<in> ?S then tomb (the (T (cl_call_id r))) r else r) m"
      unfolding retire_rows_def by (rule map_cong) (auto split: option.splits)
    moreover have "?S \<subseteq> {r \<in> set m. mode = Purge \<and> candidate r \<and> purgeable env days r}"
    proof
      fix r
      assume r: "r \<in> ?S"
      then obtain x where "x \<in> set m" "candidate x" "purgeable env days x" "cl_call_id r = cl_call_id x"
        using T(2) by auto
      with inj [of r x] r purge(1) show "r \<in> {r \<in> set m. mode = Purge \<and> candidate r \<and> purgeable env days r}" by simp
    qed
    moreover have "(\<exists>rep. res = Inr rep) \<longrightarrow> {r \<in> set m. mode = Purge \<and> candidate r \<and> purgeable env days r} \<subseteq> ?S"
      using T(4) purge(3) by auto
    moreover have "the (T (cl_call_id r)) \<in> range (sw_clock env)" if "r \<in> ?S" for r
      using that T(3) by (auto simp: ran_def)
    ultimately show ?thesis
      using purge(2) T(1) by (intro exI [of _ "\<lambda>r. the (T (cl_call_id r))"] exI [of _ ?S]) auto
  qed
qed

text \<open>
  C13: the audit of record. A purge sweep that completes marks exactly the rows that are due (a successful call, not
  yet purged, its session past the retention, its snapshot file removed or missing): each gets a purge time read off the
  clock and loses its snapshot reference. Every other row stays as it was and in its place, one whose file could not be removed included. A sweep
  that fails on the way has marked only rows that were due, and off and warn sweeps change nothing.
\<close>

theorem sweep_tombstones_exactly_expired:
  assumes "sweep_expired_snapshots env days mode (Some m) = (res, m1)" "distinct (map cl_call_id m)"
  shows "\<exists>t S. m1 = Some (map (\<lambda>r. if r \<in> S then r\<lparr>cl_purged_at_ms := Some (t r), cl_snapshot_ref := None\<rparr> else r) m) \<and>
    (\<forall>r\<in>S. t r \<in> range (sw_clock env)) \<and>
    S \<subseteq> {r \<in> set m. mode = Purge \<and> due_for_purge env days r} \<and>
    ((\<exists>rep. res = Inr rep) \<longrightarrow> S = {r \<in> set m. mode = Purge \<and> due_for_purge env days r})"
  using sweep_effect [OF assms] unfolding due_iff tomb_def .

definition demo_row :: "bytes \<Rightarrow> bytes \<Rightarrow> CallRow" where
  "demo_row i session =
     \<lparr>cl_call_id = i, cl_lens_session_id = session, cl_tool_name = ''query'', cl_redacted_args_json = ''{}'', cl_status = ''ok'',
      cl_result_summary = None, cl_snapshot_ref = Some ''f'', cl_started_at_ms = 1000, cl_finished_at_ms = Some 1001, cl_purged_at_ms = None\<rparr>"

definition demo_sweep :: SweepEnv where
  "demo_sweep = \<lparr>sw_now = 200000000, sw_clock = (\<lambda>k. 200000001 + int k), sw_ulid = (\<lambda>s. if s = ''old'' then Some 1000 else Some 199000000),
     sw_remove = (\<lambda>_. Removed), sw_update = (\<lambda>_. None), sw_query = None, sw_last_warn = None\<rparr>"

definition demo_stuck :: CallRow where
  "demo_stuck = (demo_row ''c'' ''old'')\<lparr>cl_snapshot_ref := Some ''stuck''\<rparr>"

definition demo_sweep_stuck :: SweepEnv where
  "demo_sweep_stuck = demo_sweep\<lparr>sw_remove := (\<lambda>p. if p = ''stuck'' then RemoveError ''denied'' else Missing)\<rparr>"

text \<open>Three rows: one is due, one is too young, and the file of one cannot be removed.\<close>

theorem sweep_tombstones_exactly_expired_witness:
  "\<exists>rep. sweep_expired_snapshots demo_sweep_stuck 1 Purge (Some [demo_row ''a'' ''old'', demo_row ''b'' ''new'', demo_stuck]) =
     (Inr rep, Some [(demo_row ''a'' ''old'')\<lparr>cl_purged_at_ms := Some 200000001, cl_snapshot_ref := None\<rparr>, demo_row ''b'' ''new'', demo_stuck]) \<and>
     due_for_purge demo_sweep_stuck 1 (demo_row ''a'' ''old'') \<and>
     \<not> due_for_purge demo_sweep_stuck 1 (demo_row ''b'' ''new'') \<and> \<not> due_for_purge demo_sweep_stuck 1 demo_stuck"
proof -
  let ?m = "[demo_row ''a'' ''old'', demo_row ''b'' ''new'', demo_stuck]"
  let ?m1 = "[(demo_row ''a'' ''old'')\<lparr>cl_purged_at_ms := Some 200000001, cl_snapshot_ref := None\<rparr>, demo_row ''b'' ''new'', demo_stuck]"
  have "snd (sweep_expired_snapshots demo_sweep_stuck 1 Purge (Some ?m)) = Some ?m1" by code_simp
  moreover have "isl (fst (sweep_expired_snapshots demo_sweep_stuck 1 Purge (Some ?m))) = False" by code_simp
  ultimately obtain rep where e: "sweep_expired_snapshots demo_sweep_stuck 1 Purge (Some ?m) = (Inr rep, Some ?m1)"
    by (metis prod.collapse sum.collapse(2))
  have d: "distinct (map cl_call_id ?m)" by (simp add: demo_row_def demo_stuck_def)
  have ne: "(demo_row ''a'' ''old'')\<lparr>cl_purged_at_ms := Some 200000001, cl_snapshot_ref := None\<rparr> \<noteq> demo_row ''a'' ''old''"
    by (simp add: demo_row_def)
  have ne2: "r\<lparr>cl_purged_at_ms := Some u, cl_snapshot_ref := None\<rparr> \<noteq> r" if "r = demo_row ''b'' ''new'' \<or> r = demo_stuck" for r u
    using that by (auto simp: demo_row_def demo_stuck_def dest: arg_cong [of _ _ cl_purged_at_ms])
  from sweep_tombstones_exactly_expired [OF e d] obtain t S where
    m: "Some ?m1 = Some (map (\<lambda>r. if r \<in> S then r\<lparr>cl_purged_at_ms := Some (t r), cl_snapshot_ref := None\<rparr> else r) ?m)" and
    S: "S = {r \<in> set ?m. Purge = Purge \<and> due_for_purge demo_sweep_stuck 1 r}" by auto
  from m ne have "demo_row ''a'' ''old'' \<in> S" by (auto split: if_splits)
  moreover from m ne2 have "demo_row ''b'' ''new'' \<notin> S" "demo_stuck \<notin> S"
    by (auto split: if_splits) (metis ne2)+
  ultimately show ?thesis using e S by auto
qed

end
