(* ===== verification/Watchdog.thy ===== *)
theory Watchdog
  imports Lens_Prelude
begin

text \<open>
  The process-wide privacy deadline, \<^verbatim>\<open>src/source/remote/watchdog.rs\<close>. The supervisor's mutex-protected
  state, the admissions handed out, the clock and whether the process has exited are one record; the
  worker thread, the admitting and completing callers and the passing of time interleave as a step
  relation. \<^verbatim>\<open>terminate\<close> ends the process, so no step leaves an exited state.
\<close>

section \<open>State and operations\<close>

datatype WdState = Idle | Running nat | Expired

record Supervisor =
  wd_state :: WdState
  wd_now :: nat
  wd_admissions :: "nat list"
  wd_exited :: bool

definition wd_enable :: "nat \<Rightarrow> Supervisor" where
  "wd_enable t = \<lparr>wd_state = Idle, wd_now = t, wd_admissions = [], wd_exited = False\<rparr>"

text \<open>\<^verbatim>\<open>admit_for\<close>: the admission carries its deadline; \<^const>\<open>None\<close> is the refusal.\<close>

definition admit_for :: "nat \<Rightarrow> Supervisor \<Rightarrow> Supervisor option" where
  "admit_for timeout s =
     (if wd_state s \<noteq> Idle then None
      else (let deadline = wd_now s + timeout
            in Some (s\<lparr>wd_state := Running deadline, wd_admissions := deadline # wd_admissions s\<rparr>)))"

definition admit :: "Supervisor \<Rightarrow> Supervisor option" where
  "admit = admit_for 90"

text \<open>\<^verbatim>\<open>Admission::complete\<close> consumes the admission.\<close>

definition complete :: "nat \<Rightarrow> Supervisor \<Rightarrow> Supervisor" where
  "complete deadline s =
     (let s1 = s\<lparr>wd_admissions := remove1 deadline (wd_admissions s)\<rparr> in
      if deadline \<le> wd_now s1 \<or> wd_state s1 \<noteq> Running deadline
      then s1\<lparr>wd_state := Expired, wd_exited := True\<rparr>
      else s1\<lparr>wd_state := Idle\<rparr>)"

text \<open>One round of the worker's loop; \<^verbatim>\<open>Idle\<close> and an unexpired deadline only wait.\<close>

definition worker :: "Supervisor \<Rightarrow> Supervisor" where
  "worker s =
     (case wd_state s of
        Idle \<Rightarrow> s
      | Expired \<Rightarrow> s\<lparr>wd_exited := True\<rparr>
      | Running deadline \<Rightarrow> if deadline \<le> wd_now s then s\<lparr>wd_state := Expired, wd_exited := True\<rparr> else s)"

text \<open>There is no destructor: a cancelled caller loses its admission and nothing else changes.\<close>

definition cancel :: "nat \<Rightarrow> Supervisor \<Rightarrow> Supervisor" where
  "cancel deadline s = s\<lparr>wd_admissions := remove1 deadline (wd_admissions s)\<rparr>"

inductive wd_step :: "Supervisor \<Rightarrow> Supervisor \<Rightarrow> bool" where
  wd_tick: "\<not> wd_exited s \<Longrightarrow> wd_step s (s\<lparr>wd_now := wd_now s + d\<rparr>)"
| wd_admit: "\<not> wd_exited s \<Longrightarrow> admit s = Some s1 \<Longrightarrow> wd_step s s1"
| wd_complete: "\<not> wd_exited s \<Longrightarrow> a \<in> set (wd_admissions s) \<Longrightarrow> wd_step s (complete a s)"
| wd_cancel: "\<not> wd_exited s \<Longrightarrow> a \<in> set (wd_admissions s) \<Longrightarrow> wd_step s (cancel a s)"
| wd_worker: "\<not> wd_exited s \<Longrightarrow> wd_step s (worker s)"

inductive_cases wd_stepE: "wd_step s s1"

inductive wd_steps :: "Supervisor \<Rightarrow> Supervisor \<Rightarrow> bool" where
  wd_refl: "wd_steps s s"
| wd_trans: "wd_steps s s1 \<Longrightarrow> wd_step s1 s2 \<Longrightarrow> wd_steps s s2"

section \<open>One admission at a time\<close>

definition wd_inv :: "Supervisor \<Rightarrow> bool" where
  "wd_inv s \<longleftrightarrow> wd_exited s \<or>
     (case wd_state s of Idle \<Rightarrow> wd_admissions s = [] | Running d \<Rightarrow> wd_admissions s = [] \<or> wd_admissions s = [d] | Expired \<Rightarrow> False)"

lemma wd_step_inv: "wd_step s s1 \<Longrightarrow> wd_inv s \<Longrightarrow> wd_inv s1"
  by (erule wd_stepE)
    (auto simp: wd_inv_def admit_def admit_for_def complete_def worker_def cancel_def Let_def split: WdState.splits if_splits)

lemma wd_steps_inv: "wd_steps s s1 \<Longrightarrow> wd_inv s \<Longrightarrow> wd_inv s1"
  by (induction rule: wd_steps.induct) (auto intro: wd_step_inv)

text \<open>Once its admission is lost, a running deadline can only run out.\<close>

definition doomed :: "nat \<Rightarrow> Supervisor \<Rightarrow> bool" where
  "doomed d s \<longleftrightarrow> wd_exited s \<or> (wd_state s = Running d \<and> wd_admissions s = [])"

lemma wd_steps_doomed: "wd_steps s s1 \<Longrightarrow> doomed d s \<Longrightarrow> doomed d s1"
proof (induction rule: wd_steps.induct)
  case (wd_trans s s1 s2)
  from wd_trans.hyps(2) wd_trans.IH [OF wd_trans.prems] show ?case
    by (cases rule: wd_step.cases) (auto simp: doomed_def admit_def admit_for_def worker_def)
qed

lemma back_to_idle:
  "wd_step s s1 \<Longrightarrow> wd_state s = Running d \<Longrightarrow> wd_state s1 = Idle \<Longrightarrow> d \<in> set (wd_admissions s) \<and> wd_now s < d"
  by (erule wd_stepE) (auto simp: admit_def admit_for_def complete_def worker_def cancel_def Let_def split: WdState.splits if_splits)

text \<open>
  C33: from the moment the watchdog is enabled, at most one admission exists at any time and it is the
  one whose deadline is being watched. A running deadline ends in idle only by completing that very
  admission before the deadline; when the admission is lost instead, whatever else happens, the state
  stays armed or the process has exited; and once the deadline has passed the worker's next round exits.
\<close>

theorem watchdog_cannot_be_disarmed:
  assumes "wd_steps (wd_enable t) s" "\<not> wd_exited s"
  shows "length (wd_admissions s) \<le> 1 \<and> (\<forall>a\<in>set (wd_admissions s). wd_state s = Running a) \<and>
    (\<forall>d. wd_state s = Running d \<longrightarrow>
       (\<forall>s1. wd_step s s1 \<and> wd_state s1 = Idle \<longrightarrow> d \<in> set (wd_admissions s) \<and> wd_now s < d) \<and>
       (wd_admissions s = [] \<longrightarrow> (\<forall>s1. wd_steps s s1 \<longrightarrow> wd_exited s1 \<or> wd_state s1 = Running d)) \<and>
       (d \<le> wd_now s \<longrightarrow> wd_exited (worker s)))"
proof -
  have "wd_inv (wd_enable t)" by (simp add: wd_inv_def wd_enable_def)
  then have "wd_inv s" using assms(1) wd_steps_inv by blast
  then have "length (wd_admissions s) \<le> 1 \<and> (\<forall>a\<in>set (wd_admissions s). wd_state s = Running a)"
    using assms(2) by (auto simp: wd_inv_def split: WdState.splits)
  moreover have "wd_exited s1 \<or> wd_state s1 = Running d"
    if "wd_state s = Running d" "wd_admissions s = []" "wd_steps s s1" for d s1
    using wd_steps_doomed [OF that(3), of d] that(1,2) by (auto simp: doomed_def)
  moreover have "wd_exited (worker s)" if "wd_state s = Running d" "d \<le> wd_now s" for d
    using that by (simp add: worker_def)
  ultimately show ?thesis using back_to_idle by blast
qed

theorem watchdog_cannot_be_disarmed_witness:
  "\<exists>s. wd_steps (wd_enable 10) s \<and> wd_state s = Running 100 \<and> wd_admissions s = [] \<and>
     (\<forall>s1. wd_steps s s1 \<longrightarrow> wd_exited s1 \<or> wd_state s1 = Running 100)"
proof -
  let ?s1 = "\<lparr>wd_state = Running 100, wd_now = 10, wd_admissions = [100], wd_exited = False\<rparr>"
  let ?s2 = "\<lparr>wd_state = Running 100, wd_now = 10, wd_admissions = [], wd_exited = False\<rparr>"
  have "wd_step (wd_enable 10) ?s1"
    by (rule wd_admit) (simp_all add: wd_enable_def admit_def admit_for_def)
  moreover have "wd_step ?s1 ?s2"
    using wd_cancel [of ?s1 100] by (simp add: cancel_def)
  ultimately have s: "wd_steps (wd_enable 10) ?s2" by (blast intro: wd_steps.intros)
  have "\<not> wd_exited ?s2" by simp
  from watchdog_cannot_be_disarmed [OF s this] have "\<forall>s1. wd_steps ?s2 s1 \<longrightarrow> wd_exited s1 \<or> wd_state s1 = Running 100" by simp
  with s show ?thesis by (intro exI [of _ ?s2]) simp
qed

end
