(* ===== verification/Log_Windows.thy ===== *)
theory Log_Windows
  imports Log_Sources
begin

text \<open>
  Filtering and caching of log windows: \<^verbatim>\<open>filter_grep_output\<close>, \<^verbatim>\<open>full_grep_window_output\<close> and the
  \<^verbatim>\<open>WindowCache\<close> of both log sources. A cache is the contract \<open>ttl_cache\<close>: whatever it serves was
  fetched under the same key no longer ago than its time to live. Durations are in milliseconds;
  \<^verbatim>\<open>saturating_duration_since\<close> is subtraction of natural numbers.
\<close>

section \<open>The contract of a window cache\<close>

text \<open>One request: key, refresh flag, time of the lookup, outcome of a fetch and the time after it.\<close>

record ('k, 'e, 'v) Lookup =
  lk_key :: 'k
  lk_refresh :: bool
  lk_now :: nat
  lk_fetch :: "'e + 'v"
  lk_minted :: nat

fun run_lookups :: "('st \<Rightarrow> ('k, 'e, 'v) Lookup \<Rightarrow> ('e + 'v) \<times> 'st) \<Rightarrow> 'st \<Rightarrow> ('k, 'e, 'v) Lookup list \<Rightarrow> ('e + 'v) list" where
  "run_lookups get st [] = []"
| "run_lookups get st (q # qs) = (let (r, st1) = get st q in r # run_lookups get st1 qs)"

lemma length_run_lookups [simp]: "length (run_lookups get st qs) = length qs"
  by (induction qs arbitrary: st) (auto simp: split_def Let_def)

lemma run_lookups_last:
  "run_lookups get st (qs @ [q]) ! length qs = fst (get (fold (\<lambda>p s. snd (get s p)) qs st) q)"
  by (induction qs arbitrary: st) (auto simp: split_def Let_def)

locale ttl_cache =
  fixes get :: "'st \<Rightarrow> ('k, 'e, 'v) Lookup \<Rightarrow> ('e + 'v) \<times> 'st"
    and held :: "'st \<Rightarrow> 'k \<Rightarrow> (nat \<times> 'v) option"
    and ttl :: nat
  assumes served: "get st q = (Inr v, st1) \<Longrightarrow>
      lk_fetch q = Inr v \<or> (\<not> lk_refresh q \<and> (\<exists>m. held st (lk_key q) = Some (m, v) \<and> lk_now q - m \<le> ttl))"
    and kept: "get st q = (r, st1) \<Longrightarrow> held st1 k = Some (m, v) \<Longrightarrow>
      held st k = Some (m, v) \<or> (k = lk_key q \<and> lk_fetch q = Inr v \<and> m = lk_minted q)"
begin

lemma served_from_history:
  assumes "\<And>k m v. held st k = Some (m, v) \<Longrightarrow> \<exists>q\<in>set before. lk_key q = k \<and> lk_fetch q = Inr v \<and> lk_minted q = m"
    and "i < length qs" "run_lookups get st qs ! i = Inr v"
  shows "lk_fetch (qs ! i) = Inr v \<or>
    (\<not> lk_refresh (qs ! i) \<and> (\<exists>q\<in>set (before @ take i qs). lk_key q = lk_key (qs ! i) \<and> lk_fetch q = Inr v \<and> lk_now (qs ! i) - lk_minted q \<le> ttl))"
  using assms
proof (induction qs arbitrary: st before i)
  case (Cons q qs)
  obtain r st1 where g: "get st q = (r, st1)" by (cases "get st q")
  show ?case
  proof (cases i)
    case 0
    with Cons.prems(3) g have "get st q = (Inr v, st1)" by simp
    from served [OF this] show ?thesis
    proof
      assume r: "\<not> lk_refresh q \<and> (\<exists>m. held st (lk_key q) = Some (m, v) \<and> lk_now q - m \<le> ttl)"
      then obtain m where m: "held st (lk_key q) = Some (m, v)" "lk_now q - m \<le> ttl" by blast
      from Cons.prems(1) [OF m(1)] obtain p where
        "p \<in> set before" "lk_key p = lk_key q" "lk_fetch p = Inr v" "lk_minted p = m" by blast
      with r m(2) 0 show ?thesis by (intro disjI2 conjI bexI [of _ p]) simp_all
    qed (simp add: 0)
  next
    case (Suc j)
    have "\<exists>p\<in>set (before @ [q]). lk_key p = k \<and> lk_fetch p = Inr w \<and> lk_minted p = m" if "held st1 k = Some (m, w)" for k m w
      using kept [OF g that] Cons.prems(1) by auto
    from Cons.IH [OF this, where i = j] Cons.prems(2,3) g Suc show ?thesis by auto
  qed
qed simp

end

section \<open>The caches\<close>

definition GREP_WINDOW_CACHE_TTL :: nat where "GREP_WINDOW_CACHE_TTL = 3000"

definition cache_fresh :: "nat \<Rightarrow> ('k \<Rightarrow> (nat \<times> 'v) option) \<Rightarrow> 'k \<Rightarrow> nat \<Rightarrow> 'v option" where
  "cache_fresh ttl entries k now =
     (case entries k of None \<Rightarrow> None | Some (m, v) \<Rightarrow> if now - m \<le> ttl then Some v else None)"

definition cache_store :: "('k \<Rightarrow> (nat \<times> 'v) option) \<Rightarrow> 'k \<Rightarrow> 'v \<Rightarrow> nat \<Rightarrow> ('k \<Rightarrow> (nat \<times> 'v) option)" where
  "cache_store entries k v m = entries(k \<mapsto> (m, v))"

definition get_or_fetch :: "nat \<Rightarrow> ('k \<Rightarrow> (nat \<times> 'v) option) \<Rightarrow> ('k, 'e, 'v) Lookup \<Rightarrow> ('e + 'v) \<times> ('k \<Rightarrow> (nat \<times> 'v) option)" where
  "get_or_fetch ttl entries q =
     (case cache_fresh ttl entries (lk_key q) (lk_now q) of
        Some v \<Rightarrow> (Inr v, entries)
      | None \<Rightarrow>
          (case lk_fetch q of
             Inl e \<Rightarrow> (Inl e, entries)
           | Inr v \<Rightarrow> (Inr v, cache_store entries (lk_key q) v (lk_minted q))))"

definition get_or_fetch_refresh :: "nat \<Rightarrow> ('k \<Rightarrow> (nat \<times> 'v) option) \<Rightarrow> ('k, 'e, 'v) Lookup \<Rightarrow> ('e + 'v) \<times> ('k \<Rightarrow> (nat \<times> 'v) option)" where
  "get_or_fetch_refresh ttl entries q =
     (if \<not> lk_refresh q then get_or_fetch ttl entries q
      else
        (case lk_fetch q of
           Inl e \<Rightarrow> (Inl e, entries)
         | Inr v \<Rightarrow> (Inr v, cache_store entries (lk_key q) v (lk_minted q))))"

interpretation ssh_cache: ttl_cache "get_or_fetch_refresh ttl" "\<lambda>entries k. entries k" ttl for ttl
  by unfold_locales
    (auto simp: get_or_fetch_refresh_def get_or_fetch_def cache_fresh_def cache_store_def split: if_splits option.splits sum.splits)

text \<open>The cache of a local log reports a poisoned lock instead of panicking.\<close>

record LocalCache =
  lc_entries :: "(bytes \<times> nat) \<Rightarrow> (nat \<times> LogOutput) option"
  lc_poisoned :: bool

definition local_cache_get :: "nat \<Rightarrow> LocalCache \<Rightarrow> (bytes \<times> nat, LensError, LogOutput) Lookup \<Rightarrow> (LensError + LogOutput) \<times> LocalCache" where
  "local_cache_get ttl c q =
     (if lc_poisoned c \<and> (\<not> lk_refresh q \<or> \<not> isl (lk_fetch q))
      then (Inl (InternalError ''local log window cache lock poisoned''), c)
      else (let (r, es) = get_or_fetch_refresh ttl (lc_entries c) q in (r, c\<lparr>lc_entries := es\<rparr>)))"

interpretation local_cache: ttl_cache "local_cache_get ttl" lc_entries ttl for ttl
proof
  fix st :: LocalCache and q v st1
  assume "local_cache_get ttl st q = (Inr v, st1)"
  then have "fst (get_or_fetch_refresh ttl (lc_entries st) q) = Inr v"
    by (auto simp: local_cache_get_def split_def Let_def split: if_splits)
  then show "lk_fetch q = Inr v \<or> (\<not> lk_refresh q \<and> (\<exists>m. lc_entries st (lk_key q) = Some (m, v) \<and> lk_now q - m \<le> ttl))"
    using ssh_cache.served [of ttl "lc_entries st" q v] by (metis prod.collapse)
next
  fix st :: LocalCache and q r st1 k m v
  assume g: "local_cache_get ttl st q = (r, st1)" and h: "lc_entries st1 k = Some (m, v)"
  show "lc_entries st k = Some (m, v) \<or> (k = lk_key q \<and> lk_fetch q = Inr v \<and> m = lk_minted q)"
  proof (cases "st1 = st")
    case False
    with g have "lc_entries st1 = snd (get_or_fetch_refresh ttl (lc_entries st) q)"
      by (auto simp: local_cache_get_def split_def Let_def split: if_splits)
    with h ssh_cache.kept [of ttl "lc_entries st" q] show ?thesis by (metis prod.collapse)
  qed (use h in simp)
qed

section \<open>Filtering a window\<close>

definition BOUNDED_TAIL_FOR_GREP :: nat where "BOUNDED_TAIL_FOR_GREP = 10000"

definition non_empty_level :: "bytes option \<Rightarrow> bytes option" where
  "non_empty_level l = (if l = Some [] then None else l)"

definition grep_status :: "nat \<Rightarrow> TruncatedAt list \<Rightarrow> bytes" where
  "grep_status matched ts =
     (if matched = 0 then (if ts = [] then ''no_matches'' else ''no_matches_truncated'')
      else if ts = [] then ''matches'' else ''truncated'')"

text \<open>The loop over the window: matched lines are counted, the first \<open>lim\<close> of them kept.\<close>

fun grep_loop :: "(bytes \<Rightarrow> bool) \<Rightarrow> nat \<Rightarrow> bytes list \<Rightarrow> nat \<times> bytes list \<Rightarrow> nat \<times> bytes list" where
  "grep_loop hit mx [] acc = acc"
| "grep_loop hit mx (l # ls) (matched, kept) =
     grep_loop hit mx ls
       (if hit l then (matched + 1, if length kept < mx then kept @ [l] else kept) else (matched, kept))"

record LogSource =
  ls_profile :: bytes
  ls_kind :: bytes
  ls_host :: "bytes option"
  ls_path :: bytes

definition filter_grep_output :: "LogSource \<Rightarrow> bytes \<Rightarrow> bytes option \<Rightarrow> nat \<Rightarrow> (bytes \<Rightarrow> bool) \<Rightarrow> LogOutput \<Rightarrow> LogOutput" where
  "filter_grep_output src pattern level mx hit w =
     (let (matched, ls) = grep_loop hit mx (lo_lines w) (0, []);
          ts = (if matched > length ls then push_truncation (lo_truncated_at w) RowsCut else lo_truncated_at w)
      in \<lparr>lo_lines = ls, lo_truncated_at = ts, lo_bytes = lo_bytes w,
          lo_metadata = Some \<lparr>lm_operation = ''log_grep'', lm_status = grep_status matched ts, lm_profile = ls_profile src, lm_source_kind = ls_kind src,
            lm_host = ls_host src, lm_path = ls_path src, lm_pattern = pattern, lm_level = non_empty_level level,
            lm_requested_limit = mx, lm_tail_window_lines = BOUNDED_TAIL_FOR_GREP, lm_searched_lines = length (lo_lines w),
            lm_matched_lines = matched, lm_returned_lines = length ls, lm_searched_bytes = lo_bytes w, lm_truncated_at = ts\<rparr>\<rparr>)"

definition full_grep_window_output :: "LogSource \<Rightarrow> bytes \<Rightarrow> bytes option \<Rightarrow> nat \<Rightarrow> LogOutput \<Rightarrow> LogOutput" where
  "full_grep_window_output src pattern level mx w =
     (let n = length (lo_lines w) in
      w\<lparr>lo_metadata := Some \<lparr>lm_operation = ''log_grep'', lm_status = grep_status n (lo_truncated_at w), lm_profile = ls_profile src, lm_source_kind = ls_kind src,
          lm_host = ls_host src, lm_path = ls_path src, lm_pattern = pattern, lm_level = non_empty_level level,
          lm_requested_limit = mx, lm_tail_window_lines = BOUNDED_TAIL_FOR_GREP, lm_searched_lines = n,
          lm_matched_lines = n, lm_returned_lines = n, lm_searched_bytes = lo_bytes w, lm_truncated_at = lo_truncated_at w\<rparr>\<rparr>)"

text \<open>
  \<^verbatim>\<open>grep\<close> of a source over its cached window: \<open>rx\<close> compiles a pattern, \<open>level_rx\<close> the level filter. The
  lookup's key is the source's own.
\<close>

type_synonym regex = "bytes \<Rightarrow> bool"

definition compile_hit :: "(bytes \<Rightarrow> regex option) \<Rightarrow> (bytes \<Rightarrow> regex option) \<Rightarrow> LogSource \<Rightarrow> bytes \<Rightarrow> bytes option \<Rightarrow> LensError + regex" where
  "compile_hit rx level_rx src pattern level =
     and_then (ok_or (SourceError (ls_profile src) ''invalid log grep regex'' None None) (rx pattern)) (\<lambda>re.
     case non_empty_level level of
       None \<Rightarrow> Inr re
     | Some l \<Rightarrow> and_then (ok_or (SourceError (ls_profile src) ''invalid log level filter'' None None) (level_rx l)) (\<lambda>lre. Inr (\<lambda>s. re s \<and> lre s)))"

definition source_key :: "LogSource \<Rightarrow> bytes option \<times> bytes \<times> nat" where
  "source_key src = (ls_host src, ls_path src, BOUNDED_TAIL_FOR_GREP)"

definition ssh_grep ::
  "(bytes \<Rightarrow> regex option) \<Rightarrow> (bytes \<Rightarrow> regex option) \<Rightarrow> LogSource \<Rightarrow>
     ((bytes option \<times> bytes \<times> nat) \<Rightarrow> (nat \<times> LogOutput) option) \<Rightarrow> bytes \<Rightarrow> bytes option \<Rightarrow> nat \<Rightarrow>
     nat \<Rightarrow> LensError + LogOutput \<Rightarrow> nat \<Rightarrow> (LensError + LogOutput) \<times> ((bytes option \<times> bytes \<times> nat) \<Rightarrow> (nat \<times> LogOutput) option)" where
  "ssh_grep rx level_rx src entries pattern level mx now fetched minted =
     (case compile_hit rx level_rx src pattern level of
        Inl e \<Rightarrow> (Inl e, entries)
      | Inr hit \<Rightarrow>
          (case get_or_fetch GREP_WINDOW_CACHE_TTL entries
                  \<lparr>lk_key = source_key src, lk_refresh = False, lk_now = now, lk_fetch = fetched, lk_minted = minted\<rparr> of
             (Inl e, es) \<Rightarrow> (Inl e, es)
           | (Inr w, es) \<Rightarrow> (Inr (filter_grep_output src pattern (non_empty_level level) mx hit w), es)))"

definition ssh_grep_window ::
  "LogSource \<Rightarrow> ((bytes option \<times> bytes \<times> nat) \<Rightarrow> (nat \<times> LogOutput) option) \<Rightarrow> bytes \<Rightarrow> bytes option \<Rightarrow> nat \<Rightarrow> bool \<Rightarrow>
     nat \<Rightarrow> LensError + LogOutput \<Rightarrow> nat \<Rightarrow> (LensError + LogOutput) \<times> ((bytes option \<times> bytes \<times> nat) \<Rightarrow> (nat \<times> LogOutput) option)" where
  "ssh_grep_window src entries pattern level mx refresh now fetched minted =
     (case get_or_fetch_refresh GREP_WINDOW_CACHE_TTL entries
             \<lparr>lk_key = source_key src, lk_refresh = refresh, lk_now = now, lk_fetch = fetched, lk_minted = minted\<rparr> of
        (Inl e, es) \<Rightarrow> (Inl e, es)
      | (Inr w, es) \<Rightarrow> (Inr (full_grep_window_output src pattern (non_empty_level level) mx w), es))"

text \<open>The same two operations of a local log, whose key is the path.\<close>

definition local_grep ::
  "(bytes \<Rightarrow> regex option) \<Rightarrow> (bytes \<Rightarrow> regex option) \<Rightarrow> LogSource \<Rightarrow> LocalCache \<Rightarrow> bytes \<Rightarrow> bytes option \<Rightarrow> nat \<Rightarrow>
     nat \<Rightarrow> LensError + LogOutput \<Rightarrow> nat \<Rightarrow> (LensError + LogOutput) \<times> LocalCache" where
  "local_grep rx level_rx src c pattern level mx now fetched minted =
     (case compile_hit rx level_rx src pattern level of
        Inl e \<Rightarrow> (Inl e, c)
      | Inr hit \<Rightarrow>
          (case local_cache_get GREP_WINDOW_CACHE_TTL c
                  \<lparr>lk_key = (ls_path src, BOUNDED_TAIL_FOR_GREP), lk_refresh = False, lk_now = now, lk_fetch = fetched, lk_minted = minted\<rparr> of
             (Inl e, c1) \<Rightarrow> (Inl e, c1)
           | (Inr w, c1) \<Rightarrow> (Inr (filter_grep_output src pattern (non_empty_level level) mx hit w), c1)))"

definition local_grep_window ::
  "LogSource \<Rightarrow> LocalCache \<Rightarrow> bytes \<Rightarrow> bytes option \<Rightarrow> nat \<Rightarrow> bool \<Rightarrow>
     nat \<Rightarrow> LensError + LogOutput \<Rightarrow> nat \<Rightarrow> (LensError + LogOutput) \<times> LocalCache" where
  "local_grep_window src c pattern level mx refresh now fetched minted =
     (case local_cache_get GREP_WINDOW_CACHE_TTL c
             \<lparr>lk_key = (ls_path src, BOUNDED_TAIL_FOR_GREP), lk_refresh = refresh, lk_now = now, lk_fetch = fetched, lk_minted = minted\<rparr> of
        (Inl e, c1) \<Rightarrow> (Inl e, c1)
      | (Inr w, c1) \<Rightarrow> (Inr (full_grep_window_output src pattern (non_empty_level level) mx w), c1))"

text \<open>A local log whose lock is poisoned answers no search from its cache.\<close>

lemma local_grep_poisoned:
  assumes "lc_poisoned c"
  shows "\<exists>e. local_grep rx level_rx src c pattern level mx now fetched minted = (Inl e, c)"
  using assms by (auto simp: local_grep_def local_cache_get_def split: sum.split)

section \<open>What a search answers\<close>

lemma grep_loop_eq:
  "grep_loop hit mx ls (m, kept) = (m + length (filter hit ls), kept @ take (mx - length kept) (filter hit ls))"
proof (induction hit mx ls "(m, kept)" arbitrary: m kept rule: grep_loop.induct)
  case (2 hit mx l ls m kept)
  show ?case
  proof (cases "hit l")
    case True
    then have "grep_loop hit mx (l # ls) (m, kept) = grep_loop hit mx ls (m + 1, if length kept < mx then kept @ [l] else kept)" by simp
    also have "\<dots> = (m + 1 + length (filter hit ls),
        (if length kept < mx then kept @ [l] else kept) @ take (mx - length (if length kept < mx then kept @ [l] else kept)) (filter hit ls))"
      using "2.hyps" [of "m + 1" "if length kept < mx then kept @ [l] else kept"] True by simp
    finally show ?thesis using True by (auto simp: take_Cons' Suc_diff_Suc)
  next
    case False
    with "2.hyps" [of m kept] show ?thesis by simp
  qed
qed simp

text \<open>The cache after a sequence of searches, from an empty one.\<close>

definition cache_after ::
  "(bytes option \<times> bytes \<times> nat, LensError, LogOutput) Lookup list \<Rightarrow> (bytes option \<times> bytes \<times> nat) \<Rightarrow> (nat \<times> LogOutput) option" where
  "cache_after qs = fold (\<lambda>q es. snd (get_or_fetch_refresh GREP_WINDOW_CACHE_TTL es q)) qs Map.empty"

lemma cache_after_served:
  fixes q :: "(bytes option \<times> bytes \<times> nat, LensError, LogOutput) Lookup"
  assumes "get_or_fetch_refresh GREP_WINDOW_CACHE_TTL (cache_after qs) q = (Inr w, es)"
  shows "lk_fetch q = Inr w \<or>
    (\<not> lk_refresh q \<and> (\<exists>p\<in>set qs. lk_key p = lk_key q \<and> lk_fetch p = Inr w \<and> lk_now q - lk_minted p \<le> 3000))"
proof -
  have "run_lookups (get_or_fetch_refresh GREP_WINDOW_CACHE_TTL) Map.empty (qs @ [q]) ! length qs = Inr w"
    using assms by (simp add: run_lookups_last cache_after_def)
  then show ?thesis
    using ssh_cache.served_from_history [of Map.empty "[]" "length qs" "qs @ [q]" GREP_WINDOW_CACHE_TTL w]
    by (simp add: GREP_WINDOW_CACHE_TTL_def)
qed

lemma filter_grep_output_exact:
  "let out = filter_grep_output src pattern level mx hit w; hits = filter hit (lo_lines w) in
     lo_lines out = take mx hits \<and>
     (\<exists>md. lo_metadata out = Some md \<and> lm_matched_lines md = length hits \<and> lm_returned_lines md = min mx (length hits) \<and>
        (lm_status md = ''no_matches'' \<longleftrightarrow> hits = [] \<and> lo_truncated_at out = [])) \<and>
     (RowsCut \<notin> set (lo_truncated_at w) \<longrightarrow> (RowsCut \<in> set (lo_truncated_at out) \<longleftrightarrow> mx < length hits))"
  by (auto simp: filter_grep_output_def grep_loop_eq Let_def grep_status_def push_truncation_def min_def)

text \<open>
  Whatever searches came before on the shared cache, the window a successful \<^verbatim>\<open>grep\<close> works on was
  fetched for the same host, path and size, either by this very call or at most three seconds before it.
  The answer drawn from it has exactly the first lines that match the pattern and the level, up to the
  limit; the metadata counts all matches, the status says \<^verbatim>\<open>no_matches\<close> only when nothing matched in a
  complete window, and the row cut is noted exactly when matches were left out.
\<close>

theorem search_answers_fresh_window:
  assumes "ssh_grep rx level_rx src (cache_after qs) pattern level mx now fetched minted = (Inr out, es)"
  shows "\<exists>w hit. compile_hit rx level_rx src pattern level = Inr hit \<and>
    (fetched = Inr w \<or> (\<exists>q\<in>set qs. lk_key q = source_key src \<and> lk_fetch q = Inr w \<and> now - lk_minted q \<le> 3000)) \<and>
    (let hits = filter hit (lo_lines w) in
     lo_lines out = take mx hits \<and>
     (\<exists>md. lo_metadata out = Some md \<and> lm_matched_lines md = length hits \<and> lm_returned_lines md = min mx (length hits) \<and>
        (lm_status md = ''no_matches'' \<longleftrightarrow> hits = [] \<and> lo_truncated_at out = [])) \<and>
     (RowsCut \<notin> set (lo_truncated_at w) \<longrightarrow> (RowsCut \<in> set (lo_truncated_at out) \<longleftrightarrow> mx < length hits)))"
proof -
  define q where "q = \<lparr>lk_key = source_key src, lk_refresh = False, lk_now = now, lk_fetch = fetched, lk_minted = minted\<rparr>"
  obtain hit where hit: "compile_hit rx level_rx src pattern level = Inr hit"
    using assms by (cases "compile_hit rx level_rx src pattern level") (simp_all add: ssh_grep_def)
  obtain r es' where g: "get_or_fetch GREP_WINDOW_CACHE_TTL (cache_after qs) q = (r, es')" by fastforce
  obtain w where w: "r = Inr w" "out = filter_grep_output src pattern (non_empty_level level) mx hit w"
    using assms hit g by (cases r) (simp_all add: ssh_grep_def flip: q_def)
  have "get_or_fetch_refresh GREP_WINDOW_CACHE_TTL (cache_after qs) q = (Inr w, es')"
    using g w by (simp add: get_or_fetch_refresh_def q_def)
  from cache_after_served [OF this]
  have "fetched = Inr w \<or> (\<exists>q\<in>set qs. lk_key q = source_key src \<and> lk_fetch q = Inr w \<and> now - lk_minted q \<le> 3000)"
    by (simp add: q_def)
  moreover note filter_grep_output_exact [of src pattern "non_empty_level level" mx hit w, folded w(2)]
  ultimately show ?thesis using hit by (intro exI [of _ w] exI [of _ hit]) (simp add: Let_def)
qed

definition demo_window :: LogOutput where
  "demo_window = \<lparr>lo_lines = [''a1'', ''b'', ''a2''], lo_truncated_at = [], lo_bytes = 8, lo_metadata = None\<rparr>"

definition demo_source :: LogSource where
  "demo_source = \<lparr>ls_profile = ''app'', ls_kind = ''ssh_log'', ls_host = None, ls_path = ''p''\<rparr>"

definition demo_lookup :: "(bytes option \<times> bytes \<times> nat, LensError, LogOutput) Lookup" where
  "demo_lookup = \<lparr>lk_key = source_key demo_source, lk_refresh = False, lk_now = 0, lk_fetch = Inr demo_window, lk_minted = 1\<rparr>"

text \<open>A search two seconds later is served from the window of the first, although its own fetch would fail.\<close>

theorem search_answers_fresh_window_witness:
  "\<exists>w. (\<exists>q\<in>set [demo_lookup]. lk_fetch q = Inr w) \<and> take 1 (filter (\<lambda>s. starts_with s ''a'') (lo_lines w)) = [''a1'']"
proof -
  let ?rx = "\<lambda>p. Some (\<lambda>s. starts_with s p)"
  have hit: "compile_hit ?rx ?rx demo_source ''a'' None = Inr (\<lambda>s. starts_with s ''a'')"
    by (simp add: compile_hit_def non_empty_level_def)
  have c: "cache_after [demo_lookup] = [source_key demo_source \<mapsto> (1, demo_window)]"
    by (simp add: cache_after_def demo_lookup_def get_or_fetch_refresh_def get_or_fetch_def cache_fresh_def cache_store_def)
  let ?out = "filter_grep_output demo_source ''a'' None 1 (\<lambda>s. starts_with s ''a'') demo_window"
  have o: "lo_lines ?out = [''a1'']" by code_simp
  have "ssh_grep ?rx ?rx demo_source (cache_after [demo_lookup]) ''a'' None 1 2001 (Inl decode_error) 2002
      = (Inr ?out, cache_after [demo_lookup])"
    using hit by (simp add: ssh_grep_def c get_or_fetch_def cache_fresh_def GREP_WINDOW_CACHE_TTL_def non_empty_level_def)
  from search_answers_fresh_window [OF this] hit o show ?thesis
    by (auto simp: Let_def)
qed

end
