(* ===== verification/Keyword_Terms.thy ===== *)
theory Keyword_Terms
  imports Log_Windows
begin

text \<open>
  The terms of keyword search, \<^verbatim>\<open>src/mcp/tools/log_grep.rs\<close>: how a query and a redacted log line are
  cut into terms, the inverted index over a window and the intersection of its posting lists. A text is
  here the list of its Unicode scalar values. White space and the ASCII classes are written out; the two
  large tables behind \<^verbatim>\<open>char::is_alphanumeric\<close> and \<^verbatim>\<open>str::to_lowercase\<close> are the argument \<open>u\<close>. A
  \<^verbatim>\<open>BTreeSet\<close> of terms is its sorted list.
\<close>

type_synonym utext = "nat list"

record UnicodeTables =
  uc_alphanumeric :: "nat \<Rightarrow> bool"
  uc_to_lowercase :: "utext \<Rightarrow> utext"

section \<open>Characters and texts\<close>

definition is_whitespace :: "nat \<Rightarrow> bool" where
  "is_whitespace n \<longleftrightarrow> (9 \<le> n \<and> n \<le> 13) \<or> n \<in> {32, 0x85, 0xA0, 0x1680} \<or> (0x2000 \<le> n \<and> n \<le> 0x200A) \<or>
     n \<in> {0x2028, 0x2029, 0x202F, 0x205F, 0x3000}"

definition is_ascii_punct :: "nat \<Rightarrow> bool" where
  "is_ascii_punct n \<longleftrightarrow> (33 \<le> n \<and> n \<le> 47) \<or> (58 \<le> n \<and> n \<le> 64) \<or> (91 \<le> n \<and> n \<le> 96) \<or> (123 \<le> n \<and> n \<le> 126)"

definition is_ascii_alpha :: "nat \<Rightarrow> bool" where
  "is_ascii_alpha n \<longleftrightarrow> (65 \<le> n \<and> n \<le> 90) \<or> (97 \<le> n \<and> n \<le> 122)"

definition is_ascii_alnum :: "nat \<Rightarrow> bool" where
  "is_ascii_alnum n \<longleftrightarrow> is_ascii_alpha n \<or> (48 \<le> n \<and> n \<le> 57)"

text \<open>The characters of a literal, and membership in a \<^verbatim>\<open>matches!\<close> pattern.\<close>

definition chars :: "bytes \<Rightarrow> utext" where
  "chars s = map byte s"

definition one_of :: "nat \<Rightarrow> bytes \<Rightarrow> bool" where
  "one_of n s \<longleftrightarrow> n \<in> set (chars s)"

abbreviation quote_mark :: nat where "quote_mark \<equiv> 34"
abbreviation less_sign :: nat where "less_sign \<equiv> 60"
abbreviation greater_sign :: nat where "greater_sign \<equiv> 62"

definition trim_right :: "(nat \<Rightarrow> bool) \<Rightarrow> utext \<Rightarrow> utext" where
  "trim_right p s = rev (dropWhile p (rev s))"

definition trim_matches :: "(nat \<Rightarrow> bool) \<Rightarrow> utext \<Rightarrow> utext" where
  "trim_matches p s = trim_right p (dropWhile p s)"

fun split_white :: "utext \<Rightarrow> utext \<Rightarrow> utext list" where
  "split_white cur [] = (if cur = [] then [] else [cur])"
| "split_white cur (c # s) =
     (if is_whitespace c then (if cur = [] then split_white [] s else cur # split_white [] s)
      else split_white (cur @ [c]) s)"

definition split_whitespace :: "utext \<Rightarrow> utext list" where
  "split_whitespace s = split_white [] s"

section \<open>Terms\<close>

definition normalize_keyword_term :: "UnicodeTables \<Rightarrow> utext \<Rightarrow> utext option" where
  "normalize_keyword_term u t =
     (let s = trim_matches (\<lambda>c. is_ascii_punct c \<and> \<not> one_of c ''<>_-=:@.'') t
      in if s = [] then None else Some (uc_to_lowercase u s))"

definition insert_term :: "utext option \<Rightarrow> utext list \<Rightarrow> utext list" where
  "insert_term t terms = (case t of None \<Rightarrow> terms | Some x \<Rightarrow> insort_insert x terms)"

definition keyword_query_terms :: "UnicodeTables \<Rightarrow> utext \<Rightarrow> utext list" where
  "keyword_query_terms u p = List.map_filter (normalize_keyword_term u) (split_whitespace p)"

definition is_structured_key_start :: "nat \<Rightarrow> bool" where
  "is_structured_key_start c \<longleftrightarrow> is_ascii_alpha c \<or> one_of c ''_''"

definition is_structured_key_char :: "nat \<Rightarrow> bool" where
  "is_structured_key_char c \<longleftrightarrow> is_ascii_alnum c \<or> one_of c ''_-.''"

definition is_structured_value_start :: "UnicodeTables \<Rightarrow> nat \<Rightarrow> bool" where
  "is_structured_value_start u c \<longleftrightarrow> uc_alphanumeric u c \<or> one_of c ''<_-.''"

definition is_unquoted_value_terminator :: "nat \<Rightarrow> bool" where
  "is_unquoted_value_terminator c \<longleftrightarrow> is_whitespace c \<or> c = quote_mark \<or> one_of c ''&,;)}]''"

definition KEY_VALUE_TERM_MAX_VALUE_CHARS :: nat where "KEY_VALUE_TERM_MAX_VALUE_CHARS = 64"

definition validate_structured_key :: "utext \<Rightarrow> utext option" where
  "validate_structured_key k =
     (case k of [] \<Rightarrow> None
      | c # r \<Rightarrow> if is_structured_key_start c \<and> list_all is_structured_key_char r then Some k else None)"

definition validate_structured_value :: "utext \<Rightarrow> utext option" where
  "validate_structured_value v =
     (if v \<noteq> [] \<and> length v \<le> KEY_VALUE_TERM_MAX_VALUE_CHARS \<and> \<not> list_ex is_whitespace v then Some v else None)"

definition key_before_separator :: "utext \<Rightarrow> nat \<Rightarrow> utext option" where
  "key_before_separator line i =
     (let before = trim_right is_whitespace (take i line) in
      if before \<noteq> [] \<and> last before = quote_mark then
        (let quoted = butlast before in
         if quote_mark \<in> set quoted then validate_structured_key (rev (takeWhile (\<lambda>c. c \<noteq> quote_mark) (rev quoted)))
         else None)
      else
        (let key = rev (takeWhile is_structured_key_char (rev before)) in
         if key = [] then None else validate_structured_key key))"

fun closing_json_quote_index :: "utext \<Rightarrow> nat \<Rightarrow> bool \<Rightarrow> nat option" where
  "closing_json_quote_index [] i escaped = None"
| "closing_json_quote_index (c # s) i escaped =
     (if c = quote_mark \<and> \<not> escaped then Some i
      else closing_json_quote_index s (i + 1) (c = 92 \<and> \<not> escaped))"

definition value_after_separator :: "UnicodeTables \<Rightarrow> utext \<Rightarrow> nat \<Rightarrow> utext option" where
  "value_after_separator u line start =
     (case dropWhile is_whitespace (drop start line) of
        [] \<Rightarrow> None
      | c # s \<Rightarrow>
          if c = quote_mark then
            (case closing_json_quote_index s 0 False of
               None \<Rightarrow> None
             | Some e \<Rightarrow> validate_structured_value (take e s))
          else if \<not> is_structured_value_start u c then None
          else validate_structured_value (takeWhile (\<lambda>x. \<not> is_unquoted_value_terminator x) (c # s)))"

definition canonical_key_value_term :: "UnicodeTables \<Rightarrow> utext \<Rightarrow> nat \<Rightarrow> utext option" where
  "canonical_key_value_term u line i =
     (case key_before_separator line i of
        None \<Rightarrow> None
      | Some k \<Rightarrow>
          (case value_after_separator u line (i + 1) of
             None \<Rightarrow> None
           | Some v \<Rightarrow> normalize_keyword_term u (k @ chars '':'' @ v)))"

fun key_value_scan :: "UnicodeTables \<Rightarrow> utext \<Rightarrow> nat \<Rightarrow> bool \<Rightarrow> utext \<Rightarrow> utext list \<Rightarrow> utext list" where
  "key_value_scan u line i in_token [] terms = terms"
| "key_value_scan u line i in_token (c # s) terms =
     (if c = less_sign then key_value_scan u line (i + 1) True s terms
      else if c = greater_sign \<and> in_token then key_value_scan u line (i + 1) False s terms
      else if one_of c '':='' \<and> \<not> in_token then
        key_value_scan u line (i + 1) in_token s (insert_term (canonical_key_value_term u line i) terms)
      else key_value_scan u line (i + 1) in_token s terms)"

definition collect_key_value_terms :: "UnicodeTables \<Rightarrow> utext \<Rightarrow> utext list \<Rightarrow> utext list" where
  "collect_key_value_terms u line terms = key_value_scan u line 0 False line terms"

function collect_gaze_tokens :: "UnicodeTables \<Rightarrow> utext \<Rightarrow> utext list \<Rightarrow> utext list" where
  "collect_gaze_tokens u rest terms =
     (let after_start = dropWhile (\<lambda>c. c \<noteq> less_sign) rest in
      if greater_sign \<notin> set after_start then terms
      else
        (let token = takeWhile (\<lambda>c. c \<noteq> greater_sign) after_start @ [greater_sign];
             more = tl (dropWhile (\<lambda>c. c \<noteq> greater_sign) after_start)
         in collect_gaze_tokens u more
              (if \<not> list_ex is_whitespace token then insert_term (normalize_keyword_term u token) terms else terms)))"
  by pat_completeness auto
termination
proof (relation "measure (\<lambda>(_, rest, _). length rest)", simp, goal_cases)
  case (1 u rest terms a t m)
  let ?d = "dropWhile (\<lambda>c. c \<noteq> greater_sign) a"
  have "?d \<noteq> []" using 1 by (auto simp: dropWhile_eq_Nil_conv)
  then have "length (tl ?d) < length ?d" by simp
  moreover have "length ?d \<le> length a" "length a \<le> length rest" using 1 by (simp_all add: length_dropWhile_le)
  ultimately show ?case using 1(4) by simp
qed

declare collect_gaze_tokens.simps [simp del]

fun segment_loop :: "UnicodeTables \<Rightarrow> utext \<Rightarrow> bool \<Rightarrow> utext \<Rightarrow> utext list \<Rightarrow> utext list" where
  "segment_loop u segment in_token [] terms = insert_term (normalize_keyword_term u segment) terms"
| "segment_loop u segment in_token (c # s) terms =
     (if c = less_sign then segment_loop u [] True s (insert_term (normalize_keyword_term u segment) terms)
      else if c = greater_sign \<and> in_token then segment_loop u segment False s terms
      else if in_token then segment_loop u segment in_token s terms
      else if uc_alphanumeric u c \<or> one_of c ''_'' then segment_loop u (segment @ [c]) in_token s terms
      else segment_loop u [] in_token s (insert_term (normalize_keyword_term u segment) terms))"

definition collect_keyword_segments :: "UnicodeTables \<Rightarrow> utext \<Rightarrow> utext list \<Rightarrow> utext list" where
  "collect_keyword_segments u chunk terms = segment_loop u [] False chunk terms"

definition chunk_terms :: "UnicodeTables \<Rightarrow> utext \<Rightarrow> utext list \<Rightarrow> utext list" where
  "chunk_terms u chunk terms =
     collect_keyword_segments u chunk
       (collect_gaze_tokens u chunk (insert_term (normalize_keyword_term u chunk) terms))"

definition indexed_line_terms :: "UnicodeTables \<Rightarrow> utext \<Rightarrow> utext list" where
  "indexed_line_terms u line = fold (chunk_terms u) (split_whitespace line) (collect_key_value_terms u line [])"

section \<open>The inverted index\<close>

record KeywordIndex =
  ki_postings :: "utext \<Rightarrow> nat list option"

fun push_postings :: "nat \<Rightarrow> utext list \<Rightarrow> (utext \<Rightarrow> nat list option) \<Rightarrow> (utext \<Rightarrow> nat list option)" where
  "push_postings i [] p = p"
| "push_postings i (t # ts) p =
     push_postings i ts (p(t \<mapsto> (case p t of None \<Rightarrow> [] | Some is \<Rightarrow> is) @ [i]))"

fun build_from :: "UnicodeTables \<Rightarrow> nat \<Rightarrow> utext list \<Rightarrow> (utext \<Rightarrow> nat list option) \<Rightarrow> (utext \<Rightarrow> nat list option)" where
  "build_from u i [] p = p"
| "build_from u i (l # ls) p = build_from u (i + 1) ls (push_postings i (indexed_line_terms u l) p)"

definition KeywordIndex_build :: "UnicodeTables \<Rightarrow> utext list \<Rightarrow> KeywordIndex" where
  "KeywordIndex_build u ls = \<lparr>ki_postings = build_from u 0 ls Map.empty\<rparr>"

fun intersect_sorted :: "nat list \<Rightarrow> nat list \<Rightarrow> nat list" where
  "intersect_sorted [] ys = []"
| "intersect_sorted (x # xs) [] = []"
| "intersect_sorted (x # xs) (y # ys) =
     (if x < y then intersect_sorted xs (y # ys)
      else if y < x then intersect_sorted (x # xs) ys
      else x # intersect_sorted xs ys)"

definition postings_of :: "KeywordIndex \<Rightarrow> utext \<Rightarrow> nat list" where
  "postings_of ix t = (case ki_postings ix t of None \<Rightarrow> [] | Some is \<Rightarrow> is)"

fun intersect_rest :: "KeywordIndex \<Rightarrow> nat list \<Rightarrow> utext list \<Rightarrow> nat list" where
  "intersect_rest ix matches [] = matches"
| "intersect_rest ix matches (t # ts) =
     (let m = intersect_sorted matches (postings_of ix t) in if m = [] then m else intersect_rest ix m ts)"

definition matching_lines :: "KeywordIndex \<Rightarrow> utext list \<Rightarrow> nat list" where
  "matching_lines ix terms = (case terms of [] \<Rightarrow> [] | t # ts \<Rightarrow> intersect_rest ix (postings_of ix t) ts)"

section \<open>The index is exact\<close>

lemma set_insert_term [simp]: "set (insert_term t terms) = set_option t \<union> set terms"
  by (cases t) (simp_all add: insert_term_def set_insort_insert)

lemma distinct_insert_term: "distinct terms \<Longrightarrow> distinct (insert_term t terms)"
  by (cases t) (auto simp: insert_term_def insort_insert_key_def distinct_insort)

lemma distinct_key_value_scan: "distinct terms \<Longrightarrow> distinct (key_value_scan u line i b s terms)"
  by (induction u line i b s terms rule: key_value_scan.induct) (auto simp: distinct_insert_term)

lemma distinct_collect_gaze_tokens: "distinct terms \<Longrightarrow> distinct (collect_gaze_tokens u rest terms)"
  by (induction u rest terms rule: collect_gaze_tokens.induct)
    (subst collect_gaze_tokens.simps, auto simp: Let_def distinct_insert_term)

lemma distinct_segment_loop: "distinct terms \<Longrightarrow> distinct (segment_loop u segment b s terms)"
  by (induction u segment b s terms rule: segment_loop.induct) (auto simp: distinct_insert_term)

lemma distinct_indexed_line_terms: "distinct (indexed_line_terms u line)"
proof -
  have "distinct (fold (chunk_terms u) cs terms)" if "distinct terms" for cs terms
    using that
    by (induction cs arbitrary: terms)
      (simp_all add: chunk_terms_def collect_keyword_segments_def distinct_segment_loop distinct_collect_gaze_tokens distinct_insert_term)
  then show ?thesis by (simp add: indexed_line_terms_def collect_key_value_terms_def distinct_key_value_scan)
qed

lemma push_postings_eq:
  assumes "distinct ts"
  shows "push_postings i ts p t = (if t \<in> set ts then Some ((case p t of None \<Rightarrow> [] | Some is \<Rightarrow> is) @ [i]) else p t)"
  using assms by (induction i ts p rule: push_postings.induct) auto

lemma build_from_eq:
  "(case build_from u i ls p t of None \<Rightarrow> [] | Some is \<Rightarrow> is) =
     (case p t of None \<Rightarrow> [] | Some is \<Rightarrow> is) @
     filter (\<lambda>k. t \<in> set (indexed_line_terms u (ls ! (k - i)))) [i..<i + length ls]"
proof (induction u i ls p rule: build_from.induct)
  case (2 u i l ls p)
  have shift: "filter (\<lambda>k. t \<in> set (indexed_line_terms u ((l # ls) ! (k - i)))) [Suc i..<i + length (l # ls)]
      = filter (\<lambda>k. t \<in> set (indexed_line_terms u (ls ! (k - Suc i)))) [i + 1..<i + 1 + length ls]"
    by (rule filter_cong) (auto simp: Suc_diff_le nth_Cons')
  have "[i..<i + length (l # ls)] = i # [Suc i..<i + length (l # ls)]" by (rule upt_conv_Cons) simp
  moreover have "(case push_postings i (indexed_line_terms u l) p t of None \<Rightarrow> [] | Some is \<Rightarrow> is) =
      (case p t of None \<Rightarrow> [] | Some is \<Rightarrow> is) @ (if t \<in> set (indexed_line_terms u l) then [i] else [])"
    by (simp add: push_postings_eq distinct_indexed_line_terms)
  ultimately show ?case using "2.IH" shift by (simp del: upt_Suc)
qed simp

lemma postings_of_build:
  "postings_of (KeywordIndex_build u ls) t = filter (\<lambda>k. t \<in> set (indexed_line_terms u (ls ! k))) [0..<length ls]"
  using build_from_eq [of u 0 ls Map.empty t] by (simp add: postings_of_def KeywordIndex_build_def)

lemma intersect_sorted_eq:
  assumes "sorted_wrt (<) xs" "sorted_wrt (<) ys"
  shows "intersect_sorted xs ys = filter (\<lambda>x. x \<in> set ys) xs"
  using assms
proof (induction xs ys rule: intersect_sorted.induct)
  case (3 x xs y ys)
  consider "x < y" | "y < x" | "x = y" by linarith
  then show ?case
  proof cases
    case 1
    with "3.prems" have "x \<notin> set (y # ys)" by auto
    with 1 3 show ?thesis by simp
  next
    case 2
    with "3.prems" have "y \<notin> set (x # xs)" by auto
    with 2 3 show ?thesis by (auto intro: filter_cong)
  next
    case eq: 3
    with "3.prems" have "y \<notin> set xs" by auto
    with eq 3 show ?thesis by (auto intro: filter_cong)
  qed
qed simp_all

lemma sorted_filter_upt: "sorted_wrt (<) (filter P [m..<n])"
  by (simp add: sorted_wrt_filter)

lemma intersect_rest_eq:
  assumes "\<And>t. sorted_wrt (<) (postings_of ix t)" "sorted_wrt (<) m"
  shows "intersect_rest ix m ts = filter (\<lambda>k. \<forall>t\<in>set ts. k \<in> set (postings_of ix t)) m"
  using assms(2)
proof (induction ts arbitrary: m)
  case (Cons t ts)
  define r where "r = intersect_sorted m (postings_of ix t)"
  have r: "r = filter (\<lambda>k. k \<in> set (postings_of ix t)) m" unfolding r_def by (rule intersect_sorted_eq [OF Cons.prems assms(1)])
  with Cons.prems have "sorted_wrt (<) r" by (simp add: sorted_wrt_filter)
  from Cons.IH [OF this] have "intersect_rest ix r ts = filter (\<lambda>k. \<forall>t\<in>set ts. k \<in> set (postings_of ix t)) r" .
  moreover have "intersect_rest ix m (t # ts) = intersect_rest ix r ts"
    using calculation by (simp add: r_def [symmetric])
  ultimately show ?case by (simp add: r conj_commute)
qed simp

text \<open>The lines an index finds are, in order, the lines that have every term of the query.\<close>

lemma matching_lines_build:
  assumes "terms \<noteq> []"
  shows "matching_lines (KeywordIndex_build u ls) terms =
    filter (\<lambda>k. set terms \<subseteq> set (indexed_line_terms u (ls ! k))) [0..<length ls]"
proof -
  obtain t ts where terms: "terms = t # ts" using assms by (cases terms) auto
  have "matching_lines (KeywordIndex_build u ls) terms =
      filter (\<lambda>k. \<forall>t\<in>set ts. k \<in> set (postings_of (KeywordIndex_build u ls) t)) (postings_of (KeywordIndex_build u ls) t)"
    unfolding matching_lines_def terms
    by (simp add: intersect_rest_eq postings_of_build sorted_filter_upt)
  also have "\<dots> = filter (\<lambda>k. set terms \<subseteq> set (indexed_line_terms u (ls ! k))) [0..<length ls]"
    unfolding postings_of_build filter_filter by (rule filter_cong) (auto simp: terms)
  finally show ?thesis .
qed

section \<open>What a line is found by\<close>

lemma segment_loop_mono: "set terms \<subseteq> set (segment_loop u segment b s terms)"
  by (induction u segment b s terms rule: segment_loop.induct) auto

lemma collect_gaze_tokens_mono: "set terms \<subseteq> set (collect_gaze_tokens u rest terms)"
proof (induction u rest terms rule: collect_gaze_tokens.induct)
  case (1 u rest terms)
  show ?case
  proof (cases "greater_sign \<in> set (dropWhile (\<lambda>c. c \<noteq> less_sign) rest)")
    case True
    from "1.IH" [OF refl _ refl refl] True show ?thesis
      by (subst collect_gaze_tokens.simps) (fastforce simp: Let_def split: if_splits)
  qed (subst collect_gaze_tokens.simps, simp add: Let_def)
qed

lemma chunk_terms_mono: "set terms \<union> set_option (normalize_keyword_term u chunk) \<subseteq> set (chunk_terms u chunk terms)"
  unfolding chunk_terms_def collect_keyword_segments_def
  using segment_loop_mono collect_gaze_tokens_mono by (fastforce simp del: set_insert_term simp add: set_insert_term)

lemma chunk_term_indexed:
  assumes "chunk \<in> set (split_whitespace line)" "normalize_keyword_term u chunk = Some t"
  shows "t \<in> set (indexed_line_terms u line)"
proof -
  have "set terms \<subseteq> set (fold (chunk_terms u) cs terms) \<and> (chunk \<in> set cs \<longrightarrow> t \<in> set (fold (chunk_terms u) cs terms))" for cs terms
  proof (induction cs arbitrary: terms)
    case (Cons c cs)
    from Cons [of "chunk_terms u c terms"] chunk_terms_mono [of terms u c] assms(2) show ?case by auto
  qed simp
  with assms(1) show ?thesis by (simp add: indexed_line_terms_def)
qed

text \<open>A line is found by its own text: every term of the line as a query is among its indexed terms.\<close>

lemma line_found_by_own_text: "set (keyword_query_terms u line) \<subseteq> set (indexed_line_terms u line)"
  by (auto simp: keyword_query_terms_def List.map_filter_def chunk_term_indexed)

text \<open>Segments do not depend on what stands inside a token, so no fragment of one becomes a segment.\<close>

lemma normalize_empty [simp]: "normalize_keyword_term u [] = None"
  by (simp add: normalize_keyword_term_def trim_matches_def trim_right_def)

lemma segment_loop_token:
  "greater_sign \<notin> set body \<Longrightarrow> segment_loop u [] True (body @ greater_sign # rest) terms = segment_loop u [] False rest terms"
  by (induction body) (auto simp: insert_term_def)

lemma segments_ignore_token_body:
  assumes "greater_sign \<notin> set body" "greater_sign \<notin> set body'"
  shows "collect_keyword_segments u (before @ less_sign # body @ greater_sign # rest) terms =
    collect_keyword_segments u (before @ less_sign # body' @ greater_sign # rest) terms"
proof -
  have "segment_loop u seg b (before @ less_sign # body @ greater_sign # rest) ts =
      segment_loop u seg b (before @ less_sign # body' @ greater_sign # rest) ts" for seg b ts
    by (induction before arbitrary: seg b ts) (auto simp: segment_loop_token assms)
  then show ?thesis by (simp add: collect_keyword_segments_def)
qed

end
