(* ===== verification/Keyword_Search.thy ===== *)
theory Keyword_Search
  imports Keyword_Terms Json_Value
begin

text \<open>
  The keyword mode of the tool \<^verbatim>\<open>log_grep\<close>, \<^verbatim>\<open>src/mcp/tools/log_grep.rs\<close>: its arguments, the cache of
  indexed windows, the search itself and the text it renders. The parser and printer, the regex of the level filter and the session's answer to the
  fetch are arguments. Results carry a \<^verbatim>\<open>ToolError\<close> on the left.
\<close>

section \<open>Data\<close>

datatype ToolError = InvalidArgs utext | ToolInternal bytes

datatype LogGrepMode = RegexMode | KeywordMode

record KeywordRequest =
  kr_pattern :: utext
  kr_match_pattern :: utext
  kr_level :: "utext option"
  kr_limit :: nat
  kr_refresh :: bool
  kr_profile_key :: utext

record RedactedKeywordWindow =
  rw_lines :: "utext list"
  rw_metadata :: "utext Json option"
  rw_truncated_at :: "TruncatedAt list"

record KeywordCacheKey =
  kk_session_id :: utext
  kk_profile_key :: utext

record IndexedKeywordWindow =
  ik_window :: RedactedKeywordWindow
  ik_index :: KeywordIndex

record KeywordIndexLookup =
  kl_indexed :: IndexedKeywordWindow
  kl_cache_hit :: bool

text \<open>The code that is not part of the repository: the JSON parser and printer and the level regex.\<close>

record KeywordEnv =
  ke_unicode :: UnicodeTables
  ke_from_str :: "utext \<Rightarrow> utext Json option"
  ke_to_string :: "utext Json \<Rightarrow> bytes + utext"
  ke_level_regex :: "utext \<Rightarrow> bytes + (utext \<Rightarrow> bool)"

section \<open>Arguments\<close>

definition json_get :: "bytes \<Rightarrow> utext Json \<Rightarrow> utext Json option" where
  "json_get k v = json_field (chars k) v"

definition must_be :: "bytes \<Rightarrow> bytes \<Rightarrow> ToolError" where
  "must_be k what = InvalidArgs (chars (''log_grep `'' @ k @ ''` must be a '' @ what))"

definition log_grep_mode :: "utext Json \<Rightarrow> ToolError + LogGrepMode" where
  "log_grep_mode args =
     (case json_get ''mode'' args of
        None \<Rightarrow> Inr RegexMode
      | Some JNull \<Rightarrow> Inr RegexMode
      | Some (JString m) \<Rightarrow>
          if m = chars ''regex'' then Inr RegexMode
          else if m = chars ''keyword'' then Inr KeywordMode
          else Inl (InvalidArgs (chars ''invalid log_grep mode `'' @ m @ chars ''`; expected `regex` or `keyword`''))
      | Some _ \<Rightarrow> Inl (InvalidArgs (chars ''invalid log_grep mode; expected `regex` or `keyword`'')))"

definition profile_key_from_args :: "utext Json \<Rightarrow> utext" where
  "profile_key_from_args args = (case Option.bind (json_get ''profile'' args) as_str of None \<Rightarrow> [] | Some s \<Rightarrow> s)"

definition string_arg :: "utext Json \<Rightarrow> bytes \<Rightarrow> ToolError + utext" where
  "string_arg args k = ok_or (must_be k ''string'') (Option.bind (json_get k args) as_str)"

definition optional_string_arg :: "utext Json \<Rightarrow> bytes \<Rightarrow> ToolError + utext option" where
  "optional_string_arg args k =
     (case json_get k args of
        None \<Rightarrow> Inr None
      | Some JNull \<Rightarrow> Inr None
      | Some (JString s) \<Rightarrow> Inr (Some s)
      | Some _ \<Rightarrow> Inl (must_be k ''string''))"

definition optional_usize_arg :: "utext Json \<Rightarrow> bytes \<Rightarrow> ToolError + nat option" where
  "optional_usize_arg args k =
     (case json_get k args of
        None \<Rightarrow> Inr None
      | Some JNull \<Rightarrow> Inr None
      | Some (JNumber n) \<Rightarrow> ok_or (must_be k ''usize'') (map_option Some (as_u64 (JNumber n :: utext Json)))
      | Some _ \<Rightarrow> Inl (must_be k ''usize''))"

definition optional_bool_arg :: "utext Json \<Rightarrow> bytes \<Rightarrow> ToolError + bool option" where
  "optional_bool_arg args k =
     (case json_get k args of
        None \<Rightarrow> Inr None
      | Some JNull \<Rightarrow> Inr None
      | Some (JBool b) \<Rightarrow> Inr (Some b)
      | Some _ \<Rightarrow> Inl (must_be k ''bool''))"

definition keyword_request_from_args :: "UnicodeTables \<Rightarrow> utext Json \<Rightarrow> utext \<Rightarrow> ToolError + KeywordRequest" where
  "keyword_request_from_args u args match_pattern =
     and_then (string_arg args ''pattern'') (\<lambda>pattern.
     if keyword_query_terms u match_pattern = []
     then Inl (InvalidArgs (chars ''keyword log_grep pattern must contain at least one term''))
     else
       and_then (optional_string_arg args ''level'') (\<lambda>level.
       and_then (optional_usize_arg args ''limit'') (\<lambda>mx.
       and_then (optional_bool_arg args ''refresh'') (\<lambda>refresh.
       Inr \<lparr>kr_pattern = pattern, kr_match_pattern = match_pattern,
            kr_level = (if level = Some [] then None else level), kr_limit = unwrap_or mx 100,
            kr_refresh = unwrap_or refresh False, kr_profile_key = profile_key_from_args args\<rparr>))))"

section \<open>The redacted window\<close>

text \<open>\<^verbatim>\<open>str::lines\<close>: a final line terminator ends no further line, and a carriage return before one is cut.\<close>

fun split_newlines :: "utext \<Rightarrow> utext \<Rightarrow> utext list" where
  "split_newlines cur [] = (if cur = [] then [] else [cur])"
| "split_newlines cur (c # s) =
     (if c = 10 then (if cur \<noteq> [] \<and> last cur = 13 then butlast cur else cur) # split_newlines [] s
      else split_newlines (cur @ [c]) s)"

definition text_lines :: "utext \<Rightarrow> utext list" where
  "text_lines s = split_newlines [] s"

definition is_log_source_kind :: "utext \<Rightarrow> bool" where
  "is_log_source_kind k \<longleftrightarrow> k = chars ''ssh_log'' \<or> k = chars ''local_log''"

definition has_string :: "utext Json \<Rightarrow> bytes \<Rightarrow> bool" where
  "has_string m k \<longleftrightarrow> Option.bind (json_get k m) as_str \<noteq> None"

definition has_u64 :: "utext Json \<Rightarrow> bytes \<Rightarrow> bool" where
  "has_u64 m k \<longleftrightarrow> Option.bind (json_get k m) as_u64 \<noteq> None"

definition is_log_grep_metadata_header :: "utext Json \<Rightarrow> bool" where
  "is_log_grep_metadata_header m =
     (case Option.bind (json_get ''source_kind'' m) as_str of
        None \<Rightarrow> False
      | Some kind \<Rightarrow>
          Option.bind (json_get ''operation'' m) as_str = Some (chars ''log_grep'') \<and>
          is_log_source_kind kind \<and>
          (kind \<noteq> chars ''ssh_log'' \<or> has_string m ''host'') \<and>
          (case json_get ''truncated_at'' m of Some (JArray _) \<Rightarrow> True | _ \<Rightarrow> False) \<and>
          list_all (has_string m) [''status'', ''profile'', ''path'', ''pattern''] \<and>
          list_all (has_u64 m) [''requested_limit'', ''tail_window_lines'', ''searched_lines'', ''matched_lines'',
            ''returned_lines'', ''searched_bytes''])"

definition split_redacted_window_text :: "KeywordEnv \<Rightarrow> utext \<Rightarrow> utext Json option \<times> utext list" where
  "split_redacted_window_text env txt0 =
     (case text_lines txt0 of
        [] \<Rightarrow> (None, [])
      | first # following \<Rightarrow>
          (case ke_from_str env first of
             Some m \<Rightarrow> if is_log_grep_metadata_header m then (Some m, following) else (None, first # following)
           | None \<Rightarrow> (None, first # following)))"

definition redacted_keyword_window_from_clean :: "KeywordEnv \<Rightarrow> utext CleanOutput \<Rightarrow> ToolError + RedactedKeywordWindow" where
  "redacted_keyword_window_from_clean env clean =
     (case clean of
        CleanRows _ _ \<Rightarrow> Inl (ToolInternal ''keyword log_grep expected text output'')
      | CleanText t ts \<Rightarrow>
          (let (m, ls) = split_redacted_window_text env t
           in Inr \<lparr>rw_lines = ls, rw_metadata = m, rw_truncated_at = ts\<rparr>))"

section \<open>The cache of indexed windows\<close>

definition KEYWORD_INDEX_CACHE_TTL :: nat where "KEYWORD_INDEX_CACHE_TTL = 3000"

type_synonym keyword_cache = "KeywordCacheKey \<Rightarrow> (nat \<times> IndexedKeywordWindow) option"
type_synonym keyword_lookup = "(KeywordCacheKey, ToolError, RedactedKeywordWindow) Lookup"

definition IndexedKeywordWindow_new :: "UnicodeTables \<Rightarrow> RedactedKeywordWindow \<Rightarrow> IndexedKeywordWindow" where
  "IndexedKeywordWindow_new u w = \<lparr>ik_window = w, ik_index = KeywordIndex_build u (rw_lines w)\<rparr>"

definition keyword_get_or_fetch :: "UnicodeTables \<Rightarrow> nat \<Rightarrow> keyword_cache \<Rightarrow> keyword_lookup \<Rightarrow> (ToolError + KeywordIndexLookup) \<times> keyword_cache" where
  "keyword_get_or_fetch u ttl entries q =
     (case (if lk_refresh q then None else cache_fresh ttl entries (lk_key q) (lk_now q)) of
        Some ix \<Rightarrow> (Inr \<lparr>kl_indexed = ix, kl_cache_hit = True\<rparr>, entries)
      | None \<Rightarrow>
          (case lk_fetch q of
             Inl e \<Rightarrow> (Inl e, entries)
           | Inr w \<Rightarrow>
               (let ix = IndexedKeywordWindow_new u w
                in (Inr \<lparr>kl_indexed = ix, kl_cache_hit = False\<rparr>, cache_store entries (lk_key q) ix (lk_minted q)))))"

section \<open>Rendering\<close>

definition keyword_status :: "nat \<Rightarrow> TruncatedAt list \<Rightarrow> bytes" where
  "keyword_status matched ts =
     (if matched = 0 then (if ts = [] then ''no_matches'' else ''no_matches_truncated'')
      else if ts = [] then ''matches'' else ''truncated'')"

definition json_text :: "bytes \<Rightarrow> utext Json" where
  "json_text s = JString (chars s)"

definition json_level :: "utext option \<Rightarrow> utext Json" where
  "json_level l = (case l of None \<Rightarrow> JNull | Some s \<Rightarrow> JString s)"

definition json_truncated :: "TruncatedAt list \<Rightarrow> utext Json" where
  "json_truncated ts = JArray (map (\<lambda>t. json_text (truncated_name t)) ts)"

definition insert_all :: "(bytes \<times> utext Json) list \<Rightarrow> (utext \<times> utext Json) list \<Rightarrow> (utext \<times> utext Json) list" where
  "insert_all kvs m = map_inserts (map (\<lambda>(k, v). (chars k, v)) kvs) m"

definition keyword_metadata :: "KeywordEnv \<Rightarrow> utext Json option \<Rightarrow> KeywordRequest \<Rightarrow> utext list \<Rightarrow> nat \<Rightarrow> TruncatedAt list \<Rightarrow> ToolError + utext option" where
  "keyword_metadata env metadata req ls matched ts =
     (let updates =
            [(''status'', json_text (keyword_status matched ts)), (''pattern'', JString (kr_pattern req)),
             (''level'', json_level (kr_level req)), (''requested_limit'', JNumber (PosInt (kr_limit req))),
             (''matched_lines'', JNumber (PosInt matched)), (''returned_lines'', JNumber (PosInt (length ls))),
             (''truncated_at'', json_truncated ts)];
          v = (case metadata of
                 Some (JObject existing) \<Rightarrow> JObject (insert_all updates existing)
               | _ \<Rightarrow> JObject (insert_all ((''operation'', json_text ''log_grep'') # updates) []))
      in case ke_to_string env v of Inl e \<Rightarrow> Inl (ToolInternal e) | Inr s \<Rightarrow> Inr (Some s))"

fun join_text :: "utext \<Rightarrow> utext list \<Rightarrow> utext" where
  "join_text sep [] = []"
| "join_text sep [l] = l"
| "join_text sep (l # m # ls) = l @ sep @ join_text sep (m # ls)"

definition with_header :: "utext option \<Rightarrow> utext \<Rightarrow> utext" where
  "with_header header ls =
     (case header of None \<Rightarrow> ls | Some h \<Rightarrow> if ls = [] then h else h @ [10] @ ls)"

definition render_keyword_output :: "KeywordEnv \<Rightarrow> utext Json option \<Rightarrow> KeywordRequest \<Rightarrow> utext list \<Rightarrow> nat \<Rightarrow> TruncatedAt list \<Rightarrow> ToolError + utext" where
  "render_keyword_output env metadata req ls matched ts =
     and_then (keyword_metadata env metadata req ls matched ts) (\<lambda>header. Inr (with_header header (join_text [10] ls)))"

definition keyword_core_metadata :: "utext Json \<Rightarrow> KeywordRequest \<Rightarrow> utext Json" where
  "keyword_core_metadata metadata req =
     (case metadata of
        JObject existing \<Rightarrow>
          JObject (insert_all [(''pattern'', JString (kr_pattern req)), (''level'', json_level (kr_level req)),
            (''requested_limit'', JNumber (PosInt (kr_limit req)))] existing)
      | _ \<Rightarrow> metadata)"

text \<open>\<open>print_json\<close> is \<^verbatim>\<open>Value::to_string\<close>; the length of a text is that of its UTF-8 form.\<close>

definition render_keyword_core_window :: "(utext Json \<Rightarrow> utext) \<Rightarrow> RedactedKeywordWindow \<Rightarrow> KeywordRequest \<Rightarrow> utext" where
  "render_keyword_core_window print_json w req =
     with_header (map_option (\<lambda>m. print_json (keyword_core_metadata m req)) (rw_metadata w)) (join_text [10] (rw_lines w))"

definition utf8_len :: "utext \<Rightarrow> nat" where
  "utf8_len s = sum_list (map (\<lambda>n. if n < 0x80 then 1 else if n < 0x800 then 2 else if n < 0x10000 then 3 else 4) s)"

definition keyword_core_summary :: "(utext Json \<Rightarrow> utext) \<Rightarrow> RedactedKeywordWindow \<Rightarrow> KeywordRequest \<Rightarrow> ResultSummary" where
  "keyword_core_summary print_json w req =
     \<lparr>rs_rows = 0, rs_bytes = utf8_len (render_keyword_core_window print_json w req), rs_truncated_at = rw_truncated_at w\<rparr>"

section \<open>The search\<close>

definition level_filter :: "KeywordEnv \<Rightarrow> utext option \<Rightarrow> ToolError + (utext \<Rightarrow> bool)" where
  "level_filter env level =
     (case level of
        None \<Rightarrow> Inr (\<lambda>_. True)
      | Some l \<Rightarrow> (case ke_level_regex env l of Inl e \<Rightarrow> Inl (ToolInternal e) | Inr re \<Rightarrow> Inr re))"

definition filter_keyword_indexed_window :: "KeywordEnv \<Rightarrow> RedactedKeywordWindow \<Rightarrow> KeywordIndex \<Rightarrow> KeywordRequest \<Rightarrow> ToolError + utext CleanOutput" where
  "filter_keyword_indexed_window env w ix req =
     (let terms = keyword_query_terms (ke_unicode env) (kr_match_pattern req) in
      and_then (level_filter env (kr_level req)) (\<lambda>level_ok.
      let matched_indices = filter (\<lambda>i. level_ok (rw_lines w ! i)) (matching_lines ix terms);
          matched = length matched_indices;
          returned_indices = take (kr_limit req) matched_indices;
          ts = (if matched > length returned_indices then push_truncation (rw_truncated_at w) RowsCut else rw_truncated_at w);
          ls = map (\<lambda>i. rw_lines w ! i) returned_indices
      in and_then (render_keyword_output env (rw_metadata w) req ls matched ts) (\<lambda>t. Inr (CleanText t ts))))"

text \<open>
  \<^verbatim>\<open>invoke_keyword\<close>: \<open>raw\<close> is the task-local raw pattern (\<^const>\<open>None\<close> when it is not scoped), \<open>fetched\<close> what
  the session would answer to a fetch. The result carries the cache and the summary recorded for a hit.
\<close>

definition keyword_call :: "KeywordRequest \<Rightarrow> KeywordEnv \<Rightarrow> utext \<Rightarrow> nat \<Rightarrow> ToolError + utext CleanOutput \<Rightarrow> nat \<Rightarrow> keyword_lookup" where
  "keyword_call req env session now fetched minted =
     \<lparr>lk_key = \<lparr>kk_session_id = session, kk_profile_key = kr_profile_key req\<rparr>, lk_refresh = kr_refresh req, lk_now = now,
      lk_fetch = and_then fetched (redacted_keyword_window_from_clean env), lk_minted = minted\<rparr>"

definition invoke_keyword ::
  "KeywordEnv \<Rightarrow> (utext Json \<Rightarrow> utext) \<Rightarrow> utext \<Rightarrow> utext option option \<Rightarrow> utext Json \<Rightarrow> keyword_cache \<Rightarrow> nat \<Rightarrow> ToolError + utext CleanOutput \<Rightarrow> nat \<Rightarrow>
     (ToolError + utext CleanOutput) \<times> keyword_cache \<times> ResultSummary option" where
  "invoke_keyword env print_json session raw args entries now fetched minted =
     (case and_then (ok_or (ToolInternal ''keyword log_grep raw pattern task-local was not scoped'') raw) (\<lambda>scoped.
           and_then (ok_or (InvalidArgs (chars ''log_grep `pattern` is required'')) scoped) (\<lambda>pattern.
           keyword_request_from_args (ke_unicode env) args pattern)) of
        Inl e \<Rightarrow> (Inl e, entries, None)
      | Inr req \<Rightarrow>
          (case keyword_get_or_fetch (ke_unicode env) KEYWORD_INDEX_CACHE_TTL entries (keyword_call req env session now fetched minted) of
             (Inl e, es) \<Rightarrow> (Inl e, es, None)
           | (Inr found, es) \<Rightarrow>
               (let w = ik_window (kl_indexed found) in
                case filter_keyword_indexed_window env w (ik_index (kl_indexed found)) req of
                  Inl e \<Rightarrow> (Inl e, es, None)
                | Inr clean \<Rightarrow>
                    (Inr clean, es, if kl_cache_hit found then Some (keyword_core_summary print_json w req) else None))))"

section \<open>The cache of indexed windows meets the contract\<close>

definition keyword_window :: "(ToolError + KeywordIndexLookup) \<times> keyword_cache \<Rightarrow> (ToolError + RedactedKeywordWindow) \<times> keyword_cache" where
  "keyword_window r = (map_sum id (\<lambda>l. ik_window (kl_indexed l)) (fst r), snd r)"

definition held_window :: "keyword_cache \<Rightarrow> KeywordCacheKey \<Rightarrow> (nat \<times> RedactedKeywordWindow) option" where
  "held_window es k = map_option (\<lambda>(m, ix). (m, ik_window ix)) (es k)"

interpretation keyword_cache: ttl_cache "\<lambda>es q. keyword_window (keyword_get_or_fetch u ttl es q)" held_window ttl for u ttl
  by unfold_locales
    (auto simp: keyword_window_def held_window_def keyword_get_or_fetch_def cache_fresh_def cache_store_def Let_def
       IndexedKeywordWindow_new_def map_sum_def split: if_splits option.splits sum.splits)

definition kcache_after :: "UnicodeTables \<Rightarrow> keyword_lookup list \<Rightarrow> keyword_cache" where
  "kcache_after u qs = fold (\<lambda>q es. snd (keyword_get_or_fetch u KEYWORD_INDEX_CACHE_TTL es q)) qs Map.empty"

text \<open>Every entry carries the index of its own window.\<close>

definition own_index :: "UnicodeTables \<Rightarrow> IndexedKeywordWindow \<Rightarrow> bool" where
  "own_index u ix \<longleftrightarrow> ik_index ix = KeywordIndex_build u (rw_lines (ik_window ix))"

definition entries_indexed :: "UnicodeTables \<Rightarrow> keyword_cache \<Rightarrow> bool" where
  "entries_indexed u es \<longleftrightarrow> (\<forall>k m ix. es k = Some (m, ix) \<longrightarrow> own_index u ix)"

lemma own_index_new [simp]: "own_index u (IndexedKeywordWindow_new u w)"
  by (simp add: own_index_def IndexedKeywordWindow_new_def)

lemma keyword_get_or_fetch_cases:
  assumes "keyword_get_or_fetch u ttl es q = (r, es1)"
  obtains (hit) m ix where "es (lk_key q) = Some (m, ix)" "r = Inr \<lparr>kl_indexed = ix, kl_cache_hit = True\<rparr>" "es1 = es"
  | (failed) e where "r = Inl e" "es1 = es"
  | (fetched) w where "r = Inr \<lparr>kl_indexed = IndexedKeywordWindow_new u w, kl_cache_hit = False\<rparr>"
      "es1 = es(lk_key q \<mapsto> (lk_minted q, IndexedKeywordWindow_new u w))"
proof (cases "if lk_refresh q then None else cache_fresh ttl es (lk_key q) (lk_now q)")
  case None
  show ?thesis
  proof (cases "lk_fetch q")
    case (Inl e)
    with None assms show ?thesis by (intro failed [of e]) (simp_all add: keyword_get_or_fetch_def)
  next
    case (Inr w)
    with None assms show ?thesis by (intro fetched [of w]) (simp_all add: keyword_get_or_fetch_def cache_store_def Let_def)
  qed
next
  case (Some ix)
  then have "\<exists>m. es (lk_key q) = Some (m, ix)" by (auto simp: cache_fresh_def split: if_splits option.splits)
  then obtain m where "es (lk_key q) = Some (m, ix)" by blast
  with assms Some show ?thesis by (intro hit [of m ix]) (simp_all add: keyword_get_or_fetch_def)
qed

lemma entries_indexed_step:
  assumes "entries_indexed u es"
  shows "entries_indexed u (snd (keyword_get_or_fetch u ttl es q))"
proof -
  obtain r es1 where g: "keyword_get_or_fetch u ttl es q = (r, es1)" by fastforce
  have "entries_indexed u es1"
    using g
  proof (cases rule: keyword_get_or_fetch_cases)
    case (fetched w)
    then show ?thesis using assms by (simp add: entries_indexed_def)
  qed (use assms in simp_all)
  then show ?thesis by (simp add: g)
qed

lemma entries_indexed_after: "entries_indexed u (kcache_after u qs)"
proof -
  have "entries_indexed u (fold (\<lambda>q es. snd (keyword_get_or_fetch u ttl es q)) qs es)" if "entries_indexed u es" for es ttl
    using that by (induction qs arbitrary: es) (simp_all add: entries_indexed_step)
  moreover have "entries_indexed u Map.empty" by (simp add: entries_indexed_def)
  ultimately show ?thesis by (simp add: kcache_after_def)
qed

lemma lookup_indexed:
  assumes "entries_indexed u es" "keyword_get_or_fetch u ttl es q = (Inr found, es1)"
  shows "own_index u (kl_indexed found)"
  using assms(2)
proof (cases rule: keyword_get_or_fetch_cases)
  case (hit m ix)
  with assms(1) show ?thesis by (simp add: entries_indexed_def)
qed simp_all

lemma kcache_served:
  assumes "keyword_get_or_fetch u KEYWORD_INDEX_CACHE_TTL (kcache_after u qs) q = (Inr found, es)"
    and "w = ik_window (kl_indexed found)"
  shows "lk_fetch q = Inr w \<or>
    (\<not> lk_refresh q \<and> (\<exists>p\<in>set qs. lk_key p = lk_key q \<and> lk_fetch p = Inr w \<and> lk_now q - lk_minted p \<le> 3000))"
proof -
  let ?get = "\<lambda>es q. keyword_window (keyword_get_or_fetch u KEYWORD_INDEX_CACHE_TTL es q)"
  have "fold (\<lambda>p s. snd (?get s p)) qs Map.empty = kcache_after u qs" by (simp add: kcache_after_def keyword_window_def)
  then have "run_lookups ?get Map.empty (qs @ [q]) ! length qs = Inr w"
    using assms by (simp add: run_lookups_last keyword_window_def)
  then show ?thesis
    using keyword_cache.served_from_history [of Map.empty "[]" "length qs" "qs @ [q]" u KEYWORD_INDEX_CACHE_TTL w]
    by (simp add: KEYWORD_INDEX_CACHE_TTL_def held_window_def)
qed

section \<open>The search is a scan\<close>

text \<open>The reference: go through the lines one by one and keep those with every term and the level.\<close>

definition scan_keyword_window :: "KeywordEnv \<Rightarrow> RedactedKeywordWindow \<Rightarrow> KeywordRequest \<Rightarrow> ToolError + utext CleanOutput" where
  "scan_keyword_window env w req =
     and_then (level_filter env (kr_level req)) (\<lambda>level_ok.
     let hits = filter (\<lambda>l. set (keyword_query_terms (ke_unicode env) (kr_match_pattern req)) \<subseteq> set (indexed_line_terms (ke_unicode env) l) \<and>
                  level_ok l) (rw_lines w);
         ts = (if length hits > kr_limit req then push_truncation (rw_truncated_at w) RowsCut else rw_truncated_at w)
     in and_then (render_keyword_output env (rw_metadata w) req (take (kr_limit req) hits) (length hits) ts) (\<lambda>t. Inr (CleanText t ts)))"

lemma filter_by_index: "map ((!) ls) (filter (\<lambda>i. P (ls ! i)) [0..<length ls]) = filter P ls"
proof -
  have "filter P (map ((!) ls) [0..<length ls]) = map ((!) ls) (filter (\<lambda>i. P (ls ! i)) [0..<length ls])"
    by (simp only: filter_map comp_def)
  then show ?thesis by (simp only: map_nth)
qed

lemma filter_keyword_is_scan:
  assumes "keyword_query_terms (ke_unicode env) (kr_match_pattern req) \<noteq> []"
  shows "filter_keyword_indexed_window env w (KeywordIndex_build (ke_unicode env) (rw_lines w)) req = scan_keyword_window env w req"
proof (cases "level_filter env (kr_level req)")
  case (Inr level_ok)
  let ?P = "\<lambda>l. set (keyword_query_terms (ke_unicode env) (kr_match_pattern req)) \<subseteq> set (indexed_line_terms (ke_unicode env) l) \<and> level_ok l"
  define at_lines where "at_lines = filter (\<lambda>i. level_ok (rw_lines w ! i))
    (matching_lines (KeywordIndex_build (ke_unicode env) (rw_lines w)) (keyword_query_terms (ke_unicode env) (kr_match_pattern req)))"
  have "at_lines = filter (\<lambda>i. ?P (rw_lines w ! i)) [0..<length (rw_lines w)]"
    unfolding at_lines_def matching_lines_build [OF assms] by (simp add: conj_commute)
  then have m: "map ((!) (rw_lines w)) at_lines = filter ?P (rw_lines w)"
    using filter_by_index [of "rw_lines w" ?P] by simp
  then have "length at_lines = length (filter ?P (rw_lines w))" by (metis length_map)
  moreover have "map (\<lambda>i. rw_lines w ! i) (take (kr_limit req) at_lines) = take (kr_limit req) (filter ?P (rw_lines w))"
    using m by (simp add: take_map [symmetric])
  ultimately show ?thesis
    by (simp add: filter_keyword_indexed_window_def scan_keyword_window_def Inr at_lines_def [symmetric] Let_def min_def)
qed (simp add: filter_keyword_indexed_window_def scan_keyword_window_def)

lemma request_has_terms:
  "keyword_request_from_args u args p = Inr req \<Longrightarrow> kr_match_pattern req = p \<and> keyword_query_terms u p \<noteq> []"
  by (auto simp: keyword_request_from_args_def and_then_Inr_iff split: if_splits)

text \<open>
  C35: whatever searches came before on the shared index cache, an answered keyword search is what a
  line-by-line scan of a redacted window gives: the lines that carry every term of the raw pattern and
  the level, in order, up to the limit, with the row cut noted when more matched. That window was fetched
  by this call or, unless the call asked to refresh, at most three seconds before it for the same audit
  session and profile: no window of another session is ever searched.
\<close>

theorem keyword_search_is_scan:
  assumes "invoke_keyword env print_json session raw args (kcache_after (ke_unicode env) qs) now fetched minted = (Inr clean, es, summary)"
  shows "\<exists>pattern req w. raw = Some (Some pattern) \<and> keyword_request_from_args (ke_unicode env) args pattern = Inr req \<and>
    (and_then fetched (redacted_keyword_window_from_clean env) = Inr w \<or>
      (\<not> kr_refresh req \<and>
       (\<exists>q\<in>set qs. kk_session_id (lk_key q) = session \<and> kk_profile_key (lk_key q) = profile_key_from_args args \<and>
          lk_fetch q = Inr w \<and> now - lk_minted q \<le> 3000))) \<and>
    scan_keyword_window env w req = Inr clean"
proof -
  let ?u = "ke_unicode env"
  obtain pattern req where p: "raw = Some (Some pattern)" "keyword_request_from_args ?u args pattern = Inr req"
    using assms by (auto simp: invoke_keyword_def ok_or_def and_then_def split: option.splits sum.splits)
  define q where "q = keyword_call req env session now fetched minted"
  obtain r es1 where g: "keyword_get_or_fetch ?u KEYWORD_INDEX_CACHE_TTL (kcache_after ?u qs) q = (r, es1)" by fastforce
  obtain found where found: "r = Inr found"
    using assms p g by (cases r) (simp_all add: invoke_keyword_def flip: q_def)
  define w where "w = ik_window (kl_indexed found)"
  have ix: "ik_index (kl_indexed found) = KeywordIndex_build ?u (rw_lines w)"
    using lookup_indexed [OF entries_indexed_after g [unfolded found]] by (simp add: own_index_def w_def)
  have f: "filter_keyword_indexed_window env w (KeywordIndex_build ?u (rw_lines w)) req = Inr clean"
    using assms p g found ix
    by (cases "filter_keyword_indexed_window env w (KeywordIndex_build ?u (rw_lines w)) req")
      (simp_all add: invoke_keyword_def Let_def flip: q_def w_def)
  have key: "kr_profile_key req = profile_key_from_args args"
    using p(2) by (auto simp: keyword_request_from_args_def and_then_Inr_iff split: if_splits)
  have "scan_keyword_window env w req = Inr clean"
    using filter_keyword_is_scan [of env req w] request_has_terms [OF p(2)] f by simp
  moreover have "and_then fetched (redacted_keyword_window_from_clean env) = Inr w \<or>
      (\<not> kr_refresh req \<and>
       (\<exists>q\<in>set qs. kk_session_id (lk_key q) = session \<and> kk_profile_key (lk_key q) = profile_key_from_args args \<and>
          lk_fetch q = Inr w \<and> now - lk_minted q \<le> 3000))"
  proof -
    have "lk_key q = \<lparr>kk_session_id = session, kk_profile_key = profile_key_from_args args\<rparr>" by (simp add: q_def keyword_call_def key)
    then show ?thesis using kcache_served [OF g [unfolded found] w_def]
      by (metis KeywordCacheKey.select_convs Lookup.select_convs(2-4) keyword_call_def q_def)
  qed
  ultimately show ?thesis using p by blast
qed

text \<open>A search served from the window that a call of the same session fetched two seconds earlier.\<close>

definition ascii_tables :: UnicodeTables where
  "ascii_tables = \<lparr>uc_alphanumeric = is_ascii_alnum, uc_to_lowercase = map (\<lambda>n. if 65 \<le> n \<and> n \<le> 90 then n + 32 else n)\<rparr>"

definition demo_env :: KeywordEnv where
  "demo_env = \<lparr>ke_unicode = ascii_tables, ke_from_str = (\<lambda>_. None), ke_to_string = (\<lambda>_. Inr (chars ''{}'')),
     ke_level_regex = (\<lambda>_. Inl ''none'')\<rparr>"

definition demo_args :: "utext Json" where
  "demo_args = JObject (insert_all [(''pattern'', JString (chars ''error'')), (''profile'', JString (chars ''p''))] [])"

definition demo_keyword_window :: RedactedKeywordWindow where
  "demo_keyword_window = \<lparr>rw_lines = [chars ''INFO user=<a:Email_1> ok'', chars ''ERROR id=7''], rw_metadata = None, rw_truncated_at = []\<rparr>"

definition demo_earlier :: keyword_lookup where
  "demo_earlier = \<lparr>lk_key = \<lparr>kk_session_id = chars ''s'', kk_profile_key = chars ''p''\<rparr>, lk_refresh = False, lk_now = 0,
     lk_fetch = Inr demo_keyword_window, lk_minted = 1\<rparr>"

definition demo_run :: "(ToolError + utext CleanOutput) \<times> keyword_cache \<times> ResultSummary option" where
  "demo_run = invoke_keyword demo_env (\<lambda>_. []) (chars ''s'') (Some (Some (chars ''error''))) demo_args
     (kcache_after (ke_unicode demo_env) [demo_earlier]) 2001 (Inl (ToolInternal ''offline'')) 2002"

theorem keyword_search_is_scan_witness:
  "\<exists>w req. (\<exists>q\<in>set [demo_earlier]. lk_fetch q = Inr w) \<and>
     scan_keyword_window demo_env w req = Inr (CleanText (chars ''{}'' @ 10 # chars ''ERROR id=7'') [])"
proof -
  have "fst demo_run = Inr (CleanText (chars ''{}'' @ 10 # chars ''ERROR id=7'') [])" by code_simp
  then obtain es summary where
    run: "demo_run = (Inr (CleanText (chars ''{}'' @ 10 # chars ''ERROR id=7'') []), es, summary)"
    by (metis prod.collapse)
  from keyword_search_is_scan [OF run [unfolded demo_run_def]] show ?thesis by fastforce
qed

end
