(* ===== verification/Remote_Wire.thy ===== *)
theory Remote_Wire
  imports Json_Value Log_Sources
begin

text \<open>
  The private transport of the remote log source, \<^verbatim>\<open>src/source/remote/wire.rs\<close>: reading one bounded
  frame, rejecting duplicate keys, the fixed control messages, the call, and the validation of the
  upstream body. serde's token stream, its printer and the derived readers of the two structures are the
  record \<open>RemoteSerde\<close>. Texts are bytes in UTF-8.
\<close>

section \<open>Messages\<close>

definition failure :: LensError where
  "failure = SourceError ''remote log'' ''remote operation rejected'' None None"

definition VERSION :: bytes where "VERSION = ''2025-11-25''"
definition FRAME_BYTES :: nat where "FRAME_BYTES = 1024 * 1024"
definition RESULT_BYTES :: nat where "RESULT_BYTES = 128 * 1024"
definition LINE_BYTES :: nat where "LINE_BYTES = 8192"
definition MAX_LINES :: nat where "MAX_LINES = 1000"
definition SCAN_BYTES :: nat where "SCAN_BYTES = 1024 * 1024"

text \<open>The stream of values serde presents to a visitor: object entries in order, repeats included.\<close>

datatype RawJson =
    RNull
  | RBool bool
  | RNumber JsonNumber
  | RNonFinite
  | RString bytes
  | RArray "RawJson list"
  | RObject "(bytes \<times> RawJson) list"

fun unique :: "RawJson \<Rightarrow> bytes Json option"
  and unique_seq :: "RawJson list \<Rightarrow> bytes Json list option"
  and unique_map :: "(bytes \<times> bytes Json) list \<Rightarrow> (bytes \<times> RawJson) list \<Rightarrow> (bytes \<times> bytes Json) list option" where
  "unique RNull = Some JNull"
| "unique (RBool b) = Some (JBool b)"
| "unique (RNumber n) = Some (JNumber n)"
| "unique RNonFinite = None"
| "unique (RString s) = Some (JString s)"
| "unique (RArray xs) = map_option JArray (unique_seq xs)"
| "unique (RObject kvs) = map_option JObject (unique_map [] kvs)"
| "unique_seq [] = Some []"
| "unique_seq (x # xs) = (case unique x of None \<Rightarrow> None | Some v \<Rightarrow> map_option (\<lambda>vs. v # vs) (unique_seq xs))"
| "unique_map m [] = Some m"
| "unique_map m ((k, x) # kvs) =
     (if map_of m k \<noteq> None then None
      else (case unique x of None \<Rightarrow> None | Some v \<Rightarrow> unique_map (map_insert k v m) kvs))"

datatype Truncation = TBytes | TLines | TLineBytes

record LogBody =
  lb_lines :: "bytes list"
  lb_truncated :: "Truncation list"

record Arguments =
  ar_resource :: bytes
  ar_lines :: nat

record Call =
  ca_jsonrpc :: bytes
  ca_id :: nat
  ca_method :: bytes
  ca_name :: bytes
  ca_arguments :: Arguments
  ca_token :: bytes

record Response =
  re_jsonrpc :: bytes
  re_id :: nat
  re_content :: "bytes Json list"
  re_body :: LogBody
  re_is_error :: bool

record RemoteSerde =
  sd_parse :: "bytes \<Rightarrow> RawJson option"
  sd_to_vec :: "bytes Json \<Rightarrow> bytes option"
  sd_call :: "bytes Json \<Rightarrow> Call option"
  sd_response :: "bytes Json \<Rightarrow> Response option"

definition wire_parse :: "RemoteSerde \<Rightarrow> bytes \<Rightarrow> LensError + bytes Json" where
  "wire_parse sd b = ok_or failure (Option.bind (sd_parse sd b) unique)"

section \<open>Frames\<close>

text \<open>
  A peer's side of the stream: what successive \<^verbatim>\<open>fill_buf\<close> calls show, \<^const>\<open>None\<close> for an I/O error or a
  timeout; the empty list is the end of the stream.
\<close>

type_synonym io_stream = "bytes option list"

fun wire_read_frame :: "RemoteSerde \<Rightarrow> bytes \<Rightarrow> io_stream \<Rightarrow> (LensError + bytes Json) \<times> io_stream" where
  "wire_read_frame sd acc [] = (Inl failure, [])"
| "wire_read_frame sd acc (None # io) = (Inl failure, io)"
| "wire_read_frame sd acc (Some buf # io) =
     (if buf = [] then (Inl failure, io)
      else
        (let upto = length (takeWhile (\<lambda>c. c \<noteq> newline) buf); n = (if newline \<in> set buf then upto + 1 else length buf) in
         if length acc + n > FRAME_BYTES then (Inl failure, Some buf # io)
         else if newline \<in> set buf then
           (wire_parse sd (acc @ take n buf), if drop n buf = [] then io else Some (drop n buf) # io)
         else wire_read_frame sd (acc @ buf) io))"

definition wire_read :: "RemoteSerde \<Rightarrow> io_stream \<Rightarrow> (LensError + bytes Json) \<times> io_stream" where
  "wire_read sd io = wire_read_frame sd [] io"

definition wire_write :: "RemoteSerde \<Rightarrow> bytes Json \<Rightarrow> LensError + bytes" where
  "wire_write sd v =
     and_then (ok_or failure (sd_to_vec sd v)) (\<lambda>b. if length b \<ge> FRAME_BYTES then Inl failure else Inr (b @ [newline]))"

definition wire_expect :: "RemoteSerde \<Rightarrow> bytes Json \<Rightarrow> io_stream \<Rightarrow> (LensError + unit) \<times> io_stream" where
  "wire_expect sd v io =
     (case wire_read sd io of
        (Inl e, r) \<Rightarrow> (Inl e, r)
      | (Inr got, r) \<Rightarrow> (if got \<noteq> v then Inl failure else Inr (), r))"

definition json_obj :: "(bytes \<times> bytes Json) list \<Rightarrow> bytes Json" where
  "json_obj kvs = JObject (map_inserts kvs [])"

definition json_num :: "nat \<Rightarrow> bytes Json" where
  "json_num n = JNumber (PosInt n)"

definition wire_initialize :: "bytes Json" where
  "wire_initialize = json_obj [(''jsonrpc'', JString ''2.0''), (''id'', json_num 1), (''method'', JString ''initialize''),
     (''params'', json_obj [(''protocolVersion'', JString VERSION), (''capabilities'', json_obj []),
        (''clientInfo'', json_obj [(''name'', JString ''gaze-lens''), (''version'', JString ''1'')])])]"

definition wire_initialized :: "bytes Json" where
  "wire_initialized = json_obj [(''jsonrpc'', JString ''2.0''), (''method'', JString ''notifications/initialized'')]"

definition wire_ready :: "bytes Json" where
  "wire_ready = json_obj [(''jsonrpc'', JString ''2.0''), (''id'', json_num 1),
     (''result'', json_obj [(''protocolVersion'', JString VERSION), (''capabilities'', json_obj [(''tools'', json_obj [])]),
        (''serverInfo'', json_obj [(''name'', JString ''gaze-lens-log-service''), (''version'', JString ''1'')])])]"

definition wire_list :: "bytes Json" where
  "wire_list = json_obj [(''jsonrpc'', JString ''2.0''), (''id'', json_num 2), (''method'', JString ''tools/list''), (''params'', json_obj [])]"

definition wire_tools :: "bytes Json" where
  "wire_tools = json_obj [(''jsonrpc'', JString ''2.0''), (''id'', json_num 2),
     (''result'', json_obj [(''tools'', JArray [json_obj [(''name'', JString ''log_tail''),
        (''description'', JString ''Read a bounded configured log resource''),
        (''inputSchema'', json_obj [(''type'', JString ''object''),
           (''properties'', json_obj [(''resource'', json_obj [(''type'', JString ''string'')]),
              (''lines'', json_obj [(''type'', JString ''integer''), (''minimum'', json_num 1), (''maximum'', json_num MAX_LINES)])]),
           (''required'', JArray [JString ''resource'', JString ''lines'']), (''additionalProperties'', JBool False)])]])])]"

definition wire_call :: "bytes \<Rightarrow> nat \<Rightarrow> bytes \<Rightarrow> bytes Json" where
  "wire_call resource lines token = json_obj [(''jsonrpc'', JString ''2.0''), (''id'', json_num 3), (''method'', JString ''tools/call''),
     (''params'', json_obj [(''name'', JString ''log_tail''),
        (''arguments'', json_obj [(''resource'', JString resource), (''lines'', json_num lines)]),
        (''_meta'', json_obj [(''gaze-lens/token'', JString token)])])]"

fun truncation_text :: "Truncation \<Rightarrow> bytes" where
  "truncation_text TBytes = ''bytes''"
| "truncation_text TLines = ''lines''"
| "truncation_text TLineBytes = ''line_bytes''"

definition wire_response :: "LogBody \<Rightarrow> bytes Json" where
  "wire_response body = json_obj [(''jsonrpc'', JString ''2.0''), (''id'', json_num 3),
     (''result'', json_obj [(''content'', JArray []),
        (''structuredContent'', json_obj [(''lines'', JArray (map JString (lb_lines body))),
           (''truncated'', JArray (map (\<lambda>t. JString (truncation_text t)) (lb_truncated body)))]),
        (''isError'', JBool False)])]"

section \<open>Validation\<close>

definition valid_name :: "bytes \<Rightarrow> bool" where
  "valid_name s \<longleftrightarrow> s \<noteq> [] \<and> length s \<le> 64 \<and> list_all (\<lambda>c. is_ascii_alphanumeric c \<or> c = CHR ''_'' \<or> c = CHR ''-'') s"

definition valid_token :: "bytes \<Rightarrow> bool" where
  "valid_token s \<longleftrightarrow> length s = 64 \<and> list_all is_ascii_hexdigit s"

definition wire_decode_call :: "RemoteSerde \<Rightarrow> bytes Json \<Rightarrow> LensError + Call" where
  "wire_decode_call sd v =
     and_then (ok_or failure (sd_call sd v)) (\<lambda>c.
     if ca_jsonrpc c \<noteq> ''2.0'' \<or> ca_id c \<noteq> 3 \<or> ca_method c \<noteq> ''tools/call'' \<or> ca_name c \<noteq> ''log_tail'' \<or>
        \<not> (1 \<le> ar_lines (ca_arguments c) \<and> ar_lines (ca_arguments c) \<le> MAX_LINES) \<or>
        \<not> valid_name (ar_resource (ca_arguments c)) \<or> \<not> valid_token (ca_token c)
     then Inl failure else Inr c)"

definition bad_line_byte :: "char \<Rightarrow> bool" where
  "bad_line_byte c \<longleftrightarrow> c = newline \<or> c = CHR 0x0D \<or> c = CHR 0x00"

fun upstream_lines :: "nat \<Rightarrow> bytes list \<Rightarrow> LensError + unit" where
  "upstream_lines used [] = Inr ()"
| "upstream_lines used (l # ls) =
     (let used1 = used + length l + 1 in
      if length l > LINE_BYTES \<or> list_ex bad_line_byte l \<or> used1 > RESULT_BYTES then Inl failure
      else upstream_lines used1 ls)"

definition upstream_validate :: "LogBody \<Rightarrow> nat \<Rightarrow> LensError + LogBody" where
  "upstream_validate body requested =
     (if length (lb_lines body) > requested \<or> length (lb_lines body) > MAX_LINES \<or> \<not> distinct (lb_truncated body) then Inl failure
      else and_then (upstream_lines 0 (lb_lines body)) (\<lambda>_. Inr body))"

definition wire_decode_response :: "RemoteSerde \<Rightarrow> bytes Json \<Rightarrow> nat \<Rightarrow> LensError + LogBody" where
  "wire_decode_response sd v requested =
     and_then (ok_or failure (sd_response sd v)) (\<lambda>r.
     if re_jsonrpc r \<noteq> ''2.0'' \<or> re_id r \<noteq> 3 \<or> re_is_error r \<or> re_content r \<noteq> [] then Inl failure
     else upstream_validate (re_body r) requested)"

definition truncation_at :: "Truncation \<Rightarrow> TruncatedAt" where
  "truncation_at t = (case t of TBytes \<Rightarrow> BytesCut | TLines \<Rightarrow> RowsCut | TLineBytes \<Rightarrow> LineBytesCut)"

text \<open>\<^verbatim>\<open>into_output\<close>: the text for redaction and what was cut.\<close>

definition into_output :: "LogBody \<Rightarrow> bytes \<times> TruncatedAt list" where
  "into_output body = (join [newline] (lb_lines body), map truncation_at (lb_truncated body))"

section \<open>Reading a frame\<close>

lemma upstream_lines_iff:
  "upstream_lines used ls = Inr u \<longleftrightarrow>
     (\<forall>l\<in>set ls. length l \<le> LINE_BYTES \<and> \<not> list_ex bad_line_byte l) \<and> (ls \<noteq> [] \<longrightarrow> used + sum_list (map (\<lambda>l. length l + 1) ls) \<le> RESULT_BYTES)"
proof (induction used ls rule: upstream_lines.induct)
  case (2 used l ls)
  then show ?case by (cases "ls = []") (auto simp: Let_def)
qed simp

lemma wire_read_line:
  assumes "newline \<notin> set line" "length line < FRAME_BYTES"
  shows "wire_read sd (Some (line @ [newline]) # io) = (wire_parse sd (line @ [newline]), io)"
proof -
  have "takeWhile (\<lambda>c. c \<noteq> newline) (line @ [newline]) = line" using assms(1) by (induction line) auto
  then show ?thesis using assms(2) by (simp add: wire_read_def Let_def)
qed

text \<open>No object that passes has a repeated key, at any depth: its entries are strictly sorted.\<close>

fun json_unique :: "bytes Json \<Rightarrow> bool" where
  "json_unique (JArray xs) \<longleftrightarrow> (\<forall>x\<in>set xs. json_unique x)"
| "json_unique (JObject m) \<longleftrightarrow> sorted_map m \<and> (\<forall>(k, v)\<in>set m. json_unique v)"
| "json_unique _ \<longleftrightarrow> True"

lemma unique_sorted:
  "unique x = Some v \<Longrightarrow> json_unique v"
  "unique_seq xs = Some vs \<Longrightarrow> \<forall>v\<in>set vs. json_unique v"
  "unique_map m kvs = Some n \<Longrightarrow> sorted_map m \<Longrightarrow> \<forall>(k, v)\<in>set m. json_unique v \<Longrightarrow>
     sorted_map n \<and> (\<forall>(k, v)\<in>set n. json_unique v)"
proof (induction x and xs and m kvs arbitrary: v and vs and n rule: unique_unique_seq_unique_map.induct)
  case (11 m k x kvs)
  from 11(3) obtain v where v: "map_of m k = None" "unique x = Some v" "unique_map (map_insert k v m) kvs = Some n"
    by (auto split: if_splits option.splits)
  have "set (map_insert k v m) \<subseteq> insert (k, v) (set m)" by (induction k v m rule: map_insert.induct) auto
  with 11(1) [OF _ v(2)] 11(5) v(1) have "\<forall>(l, w)\<in>set (map_insert k v m). json_unique w" by fastforce
  with 11(2) [OF _ v(2) v(3)] sorted_map_insert [OF 11(4)] v(1) show ?case by blast
qed (auto simp: sorted_map_def split: option.splits)

end
