(* ===== verification/Remote_Service.thy ===== *)
theory Remote_Service
  imports Remote_Wire Profiles
begin

text \<open>
  The remote log service, \<^verbatim>\<open>src/source/remote/service.rs\<close>, and the client that reads it,
  \<^verbatim>\<open>src/source/remote/mod.rs\<close>: grants, the bounded tail of a file, one connection on each side. TLS,
  sockets, the file system, the clock and SHA-256 are arguments; a peer's bytes are the stream of
  \<^verbatim>\<open>Remote_Wire\<close>.
\<close>

section \<open>Files and grants\<close>

text \<open>\<open>f\<close> is what opening the path shows: \<^const>\<open>None\<close> for an error, else whether it is regular and its bytes.\<close>

definition remote_bounded_file :: "(bool \<times> bytes) option \<Rightarrow> nat \<Rightarrow> LensError + bytes" where
  "remote_bounded_file f mx =
     (case f of
        None \<Rightarrow> Inl failure
      | Some (regular, content) \<Rightarrow>
          if \<not> regular then Inl failure
          else (let b = take (mx + 1) content in if length b > mx then Inl failure else Inr b))"

record ServiceGrant =
  sg_sha256 :: bytes
  sg_enabled :: bool
  sg_expires_unix :: nat
  sg_operation :: bytes
  sg_resource :: bytes

definition hex_digit :: "char \<Rightarrow> nat" where
  "hex_digit c = (if is_ascii_digit c then byte c - 48 else if 97 \<le> byte c then byte c - 87 else byte c - 55)"

fun hex_bytes :: "bytes \<Rightarrow> nat list" where
  "hex_bytes (a # b # s) = (hex_digit a * 16 + hex_digit b) # hex_bytes s"
| "hex_bytes _ = []"

fun authorize_grants :: "nat list \<Rightarrow> nat \<Rightarrow> bytes \<Rightarrow> ServiceGrant list \<Rightarrow> nat list list \<Rightarrow> bool \<Rightarrow> LensError + bool" where
  "authorize_grants digest now resource [] seen allowed = Inr allowed"
| "authorize_grants digest now resource (g # gs) seen allowed =
     (if \<not> valid_token (sg_sha256 g) \<or> \<not> valid_name (sg_resource g) \<or> sg_operation g \<noteq> ''log_tail'' then Inl failure
      else
        (let expected = hex_bytes (sg_sha256 g) in
         if expected \<in> set seen then Inl failure
         else authorize_grants digest now resource gs (expected # seen)
                (allowed \<or> (digest = expected \<and> sg_enabled g \<and> sg_expires_unix g > now \<and> sg_resource g = resource))))"

text \<open>
  One look at the grants: the file as it is then, the time since the epoch (\<^const>\<open>None\<close> before it), and
  the derived reader of the grants.
\<close>

record GrantView =
  gv_file :: "(bool \<times> bytes) option"
  gv_now :: "nat option"

record ServiceEnv =
  sv_serde :: RemoteSerde
  sv_grants :: "bytes Json \<Rightarrow> ServiceGrant list option"
  sv_sha256 :: "bytes \<Rightarrow> nat list"

definition authorize :: "ServiceEnv \<Rightarrow> GrantView \<Rightarrow> bytes \<Rightarrow> bytes \<Rightarrow> LensError + unit" where
  "authorize env gv token resource =
     and_then (remote_bounded_file (gv_file gv) (64 * 1024)) (\<lambda>b.
     and_then (wire_parse (sv_serde env) b) (\<lambda>v.
     and_then (ok_or failure (sv_grants env v)) (\<lambda>gs.
     if length gs > 128 then Inl failure
     else
       and_then (ok_or failure (gv_now gv)) (\<lambda>now.
       and_then (authorize_grants (sv_sha256 env token) now resource gs [] False) (\<lambda>allowed.
       if allowed then Inr () else Inl failure)))))"

section \<open>The tail\<close>

definition push_cut :: "Truncation list \<Rightarrow> Truncation \<Rightarrow> Truncation list" where
  "push_cut ts t = (if t \<in> set ts then ts else ts @ [t])"

text \<open>\<^verbatim>\<open>str::lines\<close> on a text whose last line is terminated.\<close>

definition strip_cr :: "bytes \<Rightarrow> bytes" where
  "strip_cr l = (if l \<noteq> [] \<and> last l = CHR 0x0D then butlast l else l)"

definition complete_lines :: "bytes \<Rightarrow> bytes list" where
  "complete_lines b = map strip_cr (butlast (split_on newline b))"

fun tail_loop :: "nat \<Rightarrow> bytes list \<Rightarrow> bytes list \<Rightarrow> nat \<Rightarrow> Truncation list \<Rightarrow> LensError + LogBody" where
  "tail_loop mx [] out used ts = Inr \<lparr>lb_lines = rev out, lb_truncated = ts\<rparr>"
| "tail_loop mx (l # ls) out used ts =
     (if length out = mx then Inr \<lparr>lb_lines = rev out, lb_truncated = push_cut ts TLines\<rparr>
      else if length l > LINE_BYTES then tail_loop mx ls out used (push_cut ts TLineBytes)
      else if list_ex (\<lambda>c. c = CHR 0x0D \<or> c = CHR 0x00) l then Inl failure
      else if used + length l + 1 > RESULT_BYTES then Inr \<lparr>lb_lines = rev out, lb_truncated = push_cut ts TBytes\<rparr>
      else tail_loop mx ls (out @ [l]) (used + length l + 1) ts)"

text \<open>The bytes behind the first newline, and up to the last one.\<close>

definition after_first_newline :: "bytes \<Rightarrow> bytes" where
  "after_first_newline b = drop 1 (dropWhile (\<lambda>c. c \<noteq> newline) b)"

definition upto_last_newline :: "bytes \<Rightarrow> bytes" where
  "upto_last_newline b = rev (dropWhile (\<lambda>c. c \<noteq> newline) (rev b))"

definition finish_tail :: "bytes \<Rightarrow> nat \<Rightarrow> nat \<Rightarrow> LensError + LogBody" where
  "finish_tail b start mx =
     (let (b1, t1) = (if start > 0 then (after_first_newline b, [TBytes]) else (b, []));
          b2 = upto_last_newline b1;
          t2 = (if length b2 < length b1 then push_cut t1 TBytes else t1)
      in if \<not> utf8_valid b2 then Inl failure
         else tail_loop mx (rev (complete_lines b2)) [] 0 t2)"

definition service_tail :: "(bool \<times> bytes) option \<Rightarrow> nat \<Rightarrow> LensError + LogBody" where
  "service_tail f mx =
     (case f of
        None \<Rightarrow> Inl failure
      | Some (regular, content) \<Rightarrow>
          if \<not> regular then Inl failure
          else (let start = length content - SCAN_BYTES in finish_tail (drop start content) start mx))"

text \<open>\<open>gv1\<close> and \<open>gv2\<close> are the grants before and after the read; \<open>fs\<close> opens a path in between.\<close>

definition authorized_tail ::
  "ServiceEnv \<Rightarrow> (bytes \<Rightarrow> bytes option) \<Rightarrow> GrantView \<Rightarrow> GrantView \<Rightarrow> (bytes \<Rightarrow> (bool \<times> bytes) option) \<Rightarrow> bytes \<Rightarrow> Arguments \<Rightarrow> LensError + LogBody" where
  "authorized_tail env resources gv1 gv2 fs token args =
     and_then (authorize env gv1 token (ar_resource args)) (\<lambda>_.
     and_then (ok_or failure (resources (ar_resource args))) (\<lambda>path.
     and_then (service_tail (fs path) (ar_lines args)) (\<lambda>body.
     and_then (authorize env gv2 token (ar_resource args)) (\<lambda>_. Inr body))))"

section \<open>One connection\<close>

text \<open>
  Both sides keep the frames they have written and the rest of the peer's stream; an error carries the
  frames written before it. Writes, flushes and the half-close are taken to succeed.
\<close>

type_synonym endpoint = "bytes list \<times> io_stream"
type_synonym 'a exchanged = "(bytes list \<times> LensError) + 'a"

definition fail_at :: "endpoint \<Rightarrow> LensError + 'a \<Rightarrow> 'a exchanged" where
  "fail_at ep r = (case r of Inl e \<Rightarrow> Inl (fst ep, e) | Inr x \<Rightarrow> Inr x)"

definition ep_send :: "RemoteSerde \<Rightarrow> bytes Json \<Rightarrow> endpoint \<Rightarrow> endpoint exchanged" where
  "ep_send sd v ep = and_then (fail_at ep (wire_write sd v)) (\<lambda>b. Inr (fst ep @ [b], snd ep))"

definition ep_expect :: "RemoteSerde \<Rightarrow> bytes Json \<Rightarrow> endpoint \<Rightarrow> endpoint exchanged" where
  "ep_expect sd v ep = and_then (fail_at ep (fst (wire_expect sd v (snd ep)))) (\<lambda>_. Inr (fst ep, snd (wire_expect sd v (snd ep))))"

definition ep_read :: "RemoteSerde \<Rightarrow> endpoint \<Rightarrow> (bytes Json \<times> endpoint) exchanged" where
  "ep_read sd ep = and_then (fail_at ep (fst (wire_read sd (snd ep)))) (\<lambda>v. Inr (v, fst ep, snd (wire_read sd (snd ep))))"

definition ep_closed :: "endpoint \<Rightarrow> unit exchanged" where
  "ep_closed ep = (if snd ep \<noteq> [] then Inl (fst ep, failure) else Inr ())"

record ServiceWorld =
  sw_env :: ServiceEnv
  sw_resources :: "bytes \<Rightarrow> bytes option"
  sw_before :: GrantView
  sw_after :: GrantView
  sw_files :: "bytes \<Rightarrow> (bool \<times> bytes) option"

definition service_body :: "ServiceWorld \<Rightarrow> Call \<Rightarrow> LensError + LogBody" where
  "service_body w c =
     authorized_tail (sw_env w) (sw_resources w) (sw_before w) (sw_after w) (sw_files w) (ca_token c) (ca_arguments c)"

text \<open>The service's side; \<open>tls\<close> tells whether the handshake completed.\<close>

definition service_connection :: "ServiceWorld \<Rightarrow> bool \<Rightarrow> io_stream \<Rightarrow> endpoint exchanged" where
  "service_connection w tls io =
     (let sd = sv_serde (sw_env w) in
      if \<not> tls then Inl ([], failure)
      else
        and_then (ep_expect sd wire_initialize ([], io)) (\<lambda>ep.
        and_then (ep_send sd wire_ready ep) (\<lambda>ep.
        and_then (ep_expect sd wire_initialized ep) (\<lambda>ep.
        and_then (ep_expect sd wire_list ep) (\<lambda>ep.
        and_then (ep_send sd wire_tools ep) (\<lambda>ep.
        and_then (ep_read sd ep) (\<lambda>(v, ep).
        and_then (fail_at ep (wire_decode_call sd v)) (\<lambda>c.
        and_then (ep_closed ep) (\<lambda>_.
        and_then (fail_at ep (service_body w c)) (\<lambda>body.
        ep_send sd (wire_response body) ep))))))))))"

text \<open>
  The client's side. \<open>token\<close> is the secret that was looked up, \<open>root\<close> the trust root file, \<open>tls\<close> the outcome
  of building the TLS configuration, connecting and the handshake.
\<close>

definition config_validate :: "(bytes \<Rightarrow> bool) \<Rightarrow> (bytes \<Rightarrow> bool) \<Rightarrow> RemoteConfig \<Rightarrow> LensError + unit" where
  "config_validate socket_addr server_name cfg =
     (if \<not> socket_addr (rc_endpoint cfg) \<or> \<not> server_name (rc_server_name cfg) \<or> rc_trust_root cfg = [] \<or> \<not> valid_name (rc_resource cfg)
      then Inl failure else Inr ())"

definition config_token :: "(bytes \<Rightarrow> bytes option) \<Rightarrow> (bytes \<Rightarrow> bytes \<Rightarrow> bytes option) \<Rightarrow> RemoteConfig \<Rightarrow> LensError + bytes" where
  "config_token env_var keyring cfg =
     and_then (ok_or failure (case rc_secret cfg of EnvSecret v \<Rightarrow> env_var v | KeyringSecret s a \<Rightarrow> keyring s a)) (\<lambda>token.
     if \<not> valid_token token then Inl failure else Inr token)"

definition client_exchange :: "RemoteSerde \<Rightarrow> RemoteConfig \<Rightarrow> LensError + bytes \<Rightarrow> (bool \<times> bytes) option \<Rightarrow> bool \<Rightarrow> io_stream \<Rightarrow> nat \<Rightarrow>
    (bytes list \<times> bytes \<times> TruncatedAt list) exchanged" where
  "client_exchange sd cfg token root tls io mx =
     and_then (fail_at ([], io) token) (\<lambda>tk.
     and_then (fail_at ([], io) (remote_bounded_file root (64 * 1024))) (\<lambda>_.
     if \<not> tls then Inl ([], failure)
     else
       and_then (ep_send sd wire_initialize ([], io)) (\<lambda>ep.
       and_then (ep_expect sd wire_ready ep) (\<lambda>ep.
       and_then (ep_send sd wire_initialized ep) (\<lambda>ep.
       and_then (ep_send sd wire_list ep) (\<lambda>ep.
       and_then (ep_expect sd wire_tools ep) (\<lambda>ep.
       and_then (ep_send sd (wire_call (rc_resource cfg) mx tk) ep) (\<lambda>ep.
       and_then (ep_read sd ep) (\<lambda>(v, ep).
       and_then (fail_at ep (wire_decode_response sd v mx)) (\<lambda>body.
       and_then (ep_closed ep) (\<lambda>_. Inr (fst ep, into_output body))))))))))))"

definition forget_sent :: "(bytes list \<times> 'a) exchanged \<Rightarrow> LensError + 'a" where
  "forget_sent r = (case r of Inl (_, e) \<Rightarrow> Inl e | Inr (_, x) \<Rightarrow> Inr x)"

definition remote_tail :: "RemoteSerde \<Rightarrow> RemoteConfig \<Rightarrow> LensError + bytes \<Rightarrow> (bool \<times> bytes) option \<Rightarrow> bool \<Rightarrow> io_stream \<Rightarrow> nat \<Rightarrow>
    LensError + bytes \<times> TruncatedAt list" where
  "remote_tail sd cfg token root tls io mx =
     (if \<not> (1 \<le> mx \<and> mx \<le> MAX_LINES) then Inl failure else forget_sent (client_exchange sd cfg token root tls io mx))"

text \<open>\<open>args\<close> is the derived reader of the call's arguments: the profile and the optional line count.\<close>

definition remote_dispatch :: "RemoteSerde \<Rightarrow> RemoteConfig \<Rightarrow> LensError + bytes \<Rightarrow> (bool \<times> bytes) option \<Rightarrow> bool \<Rightarrow> io_stream \<Rightarrow>
    bytes \<Rightarrow> (bytes \<times> nat option) option \<Rightarrow> LensError + bytes \<times> TruncatedAt list" where
  "remote_dispatch sd cfg token root tls io tool args =
     (if tool \<noteq> ''log_tail'' then Inl failure
      else and_then (ok_or failure args) (\<lambda>(profile, lines).
           case validate_profile_name profile of
             Inl _ \<Rightarrow> Inl failure
           | Inr _ \<Rightarrow> remote_tail sd cfg token root tls io (unwrap_or lines 100)))"

section \<open>The tail the service returns\<close>

definition short_line :: "bytes \<Rightarrow> bool" where
  "short_line l \<longleftrightarrow> length l \<le> LINE_BYTES"

definition clean_line :: "bytes \<Rightarrow> bool" where
  "clean_line l \<longleftrightarrow> \<not> list_ex (\<lambda>c. c = CHR 0x0D \<or> c = CHR 0x00) l"

definition line_cost :: "bytes list \<Rightarrow> nat" where
  "line_cost ls = sum_list (map (\<lambda>l. length l + 1) ls)"

lemma line_cost_simps [simp]: "line_cost [] = 0" "line_cost (l # ls) = length l + 1 + line_cost ls"
  "line_cost (ls @ ms) = line_cost ls + line_cost ms" "line_cost (rev ls) = line_cost ls"
  by (simp_all add: line_cost_def rev_map [symmetric])

lemma distinct_push_cut: "distinct ts \<Longrightarrow> distinct (push_cut ts t)"
  by (simp add: push_cut_def)

lemma set_push_cut [simp]: "set (push_cut ts t) = insert t (set ts)"
  by (auto simp: push_cut_def)

lemma push_cut_not_Nil [simp]: "push_cut ts t \<noteq> []"
  by (auto simp: push_cut_def)

text \<open>What the loop over the reversed lines \<open>ls\<close> adds to the lines \<open>out\<close> it has.\<close>

lemma tail_loop_spec:
  assumes "tail_loop mx ls out used ts = Inr body" "length out \<le> mx" "used = line_cost out" "used \<le> RESULT_BYTES"
    "\<forall>l\<in>set out. short_line l \<and> clean_line l" "distinct ts"
  shows "\<exists>n. lb_lines body = rev (out @ filter short_line (take n ls)) \<and> length (lb_lines body) \<le> mx \<and>
    line_cost (lb_lines body) \<le> RESULT_BYTES \<and> (\<forall>l\<in>set (lb_lines body). short_line l \<and> clean_line l) \<and>
    distinct (lb_truncated body) \<and> set ts \<subseteq> set (lb_truncated body) \<and>
    (lb_truncated body = [] \<longrightarrow> filter short_line (take n ls) = ls)"
  using assms
proof (induction mx ls out used ts rule: tail_loop.induct)
  case (1 mx out used ts)
  then show ?case by (intro exI [of _ 0]) auto
next
  case (2 mx l ls out used ts)
  consider (full) "length out = mx"
    | (long) "length out \<noteq> mx" "length l > LINE_BYTES"
    | (over) "length out \<noteq> mx" "\<not> length l > LINE_BYTES" "clean_line l" "used + length l + 1 > RESULT_BYTES"
    | (more) "length out \<noteq> mx" "\<not> length l > LINE_BYTES" "clean_line l" "\<not> used + length l + 1 > RESULT_BYTES"
    using "2.prems"(1) by (auto simp: clean_line_def split: if_splits)
  then show ?case
  proof cases
    case full
    with "2.prems" show ?thesis by (intro exI [of _ 0]) (auto simp: distinct_push_cut)
  next
    case long
    then have r: "tail_loop mx ls out used (push_cut ts TLineBytes) = Inr body" using "2.prems"(1) by simp
    from "2.IH"(1) [OF long(1) long(2) r "2.prems"(2-5) distinct_push_cut [OF "2.prems"(6)]] obtain n where
      n: "lb_lines body = rev (out @ filter short_line (take n ls))" "set (push_cut ts TLineBytes) \<subseteq> set (lb_truncated body)"
      and rest: "length (lb_lines body) \<le> mx" "line_cost (lb_lines body) \<le> RESULT_BYTES"
        "\<forall>l\<in>set (lb_lines body). short_line l \<and> clean_line l" "distinct (lb_truncated body)" by blast
    from n(2) have t: "lb_truncated body \<noteq> []" "set ts \<subseteq> set (lb_truncated body)" by auto
    have f: "filter short_line (take (Suc n) (l # ls)) = filter short_line (take n ls)" using long(2) by (simp add: short_line_def)
    show ?thesis by (rule exI [of _ "Suc n"], unfold f, intro conjI n(1) rest t) (simp add: t)
  next
    case over
    with "2.prems" show ?thesis by (intro exI [of _ 0]) (auto simp: clean_line_def distinct_push_cut)
  next
    case more
    have c: "\<not> list_ex (\<lambda>c. c = CHR 0x0D \<or> c = CHR 0x00) l" using more(3) by (simp add: clean_line_def)
    have r: "tail_loop mx ls (out @ [l]) (used + length l + 1) ts = Inr body" using "2.prems"(1) more c by simp
    have "length (out @ [l]) \<le> mx" using "2.prems"(2) more(1) by simp
    moreover have "used + length l + 1 = line_cost (out @ [l])" "used + length l + 1 \<le> RESULT_BYTES" using "2.prems"(3) more(4) by simp_all
    moreover have "\<forall>k\<in>set (out @ [l]). short_line k \<and> clean_line k" using "2.prems"(5) more by (auto simp: short_line_def)
    ultimately obtain n where
      n: "lb_lines body = rev ((out @ [l]) @ filter short_line (take n ls))"
        "length (lb_lines body) \<le> mx" "line_cost (lb_lines body) \<le> RESULT_BYTES"
        "\<forall>l\<in>set (lb_lines body). short_line l \<and> clean_line l" "distinct (lb_truncated body)" "set ts \<subseteq> set (lb_truncated body)"
        "lb_truncated body = [] \<longrightarrow> filter short_line (take n ls) = ls"
      using "2.IH"(2) [OF more(1,2) c more(4) r] "2.prems"(6) by blast
    have f: "filter short_line (take (Suc n) (l # ls)) = l # filter short_line (take n ls)" using more(2) by (simp add: short_line_def)
    have a: "out @ l # filter short_line (take n ls) = (out @ [l]) @ filter short_line (take n ls)" by simp
    show ?thesis by (rule exI [of _ "Suc n"], unfold f a, intro conjI n(1-6)) (use n(7) in simp)
  qed
qed

lemma split_on_parts: "p \<in> set (split_on c s) \<Longrightarrow> c \<notin> set p"
proof (induction c s arbitrary: p rule: split_on.induct)
  case (2 c x xs)
  then show ?case by (cases "split_on c xs") (auto split: if_splits)
qed simp

lemma complete_lines_no_newline: "l \<in> set (complete_lines b) \<Longrightarrow> newline \<notin> set l"
  unfolding complete_lines_def using split_on_parts by (auto simp: strip_cr_def dest!: in_set_butlastD)

text \<open>The part of the bytes that consists of whole lines.\<close>

definition whole_lines :: "bytes \<Rightarrow> nat \<Rightarrow> bytes" where
  "whole_lines b start = upto_last_newline (if start > 0 then after_first_newline b else b)"

lemma finish_tail_eq:
  "finish_tail b start mx =
     (if \<not> utf8_valid (whole_lines b start) then Inl failure
      else tail_loop mx (rev (complete_lines (whole_lines b start))) [] 0
             (if start > 0 \<or> whole_lines b start \<noteq> b then [TBytes] else []))"
proof -
  have "length (upto_last_newline b) < length b \<longleftrightarrow> upto_last_newline b \<noteq> b"
  proof -
    have "length (dropWhile P xs) < length xs \<longleftrightarrow> dropWhile P xs \<noteq> xs" for P and xs :: bytes
    proof (cases "xs = [] \<or> \<not> P (hd xs)")
      case False
      then have "length (dropWhile P xs) \<le> length (tl xs)" by (cases xs) (simp_all add: length_dropWhile_le)
      with False have "length (dropWhile P xs) < length xs" by (cases xs) auto
      then show ?thesis by auto
    qed (cases xs, auto)
    then show ?thesis unfolding upto_last_newline_def by (metis length_rev rev_rev_ident)
  qed
  then show ?thesis by (auto simp: finish_tail_def whole_lines_def push_cut_def Let_def)
qed

lemma finish_tail_accepted:
  assumes "finish_tail b start mx = Inr body" "mx \<le> MAX_LINES"
  shows "upstream_validate body mx = Inr body \<and>
    (\<exists>n. lb_lines body = filter short_line (drop n (complete_lines (whole_lines b start)))) \<and>
    (lb_truncated body = [] \<longrightarrow> start = 0 \<and> whole_lines b start = b \<and> lb_lines body = complete_lines b)"
proof -
  define cl where "cl = complete_lines (whole_lines b start)"
  define ts where "ts = (if start > 0 \<or> whole_lines b start \<noteq> b then [TBytes] else [])"
  have "tail_loop mx (rev cl) [] 0 ts = Inr body"
    using assms(1) unfolding finish_tail_eq cl_def [symmetric] ts_def [symmetric]
    by (cases "utf8_valid (whole_lines b start)") simp_all
  then have
    "\<exists>n. lb_lines body = rev ([] @ filter short_line (take n (rev cl))) \<and> length (lb_lines body) \<le> mx \<and>
    line_cost (lb_lines body) \<le> RESULT_BYTES \<and> (\<forall>l\<in>set (lb_lines body). short_line l \<and> clean_line l) \<and>
    distinct (lb_truncated body) \<and> set ts \<subseteq> set (lb_truncated body) \<and>
    (lb_truncated body = [] \<longrightarrow> filter short_line (take n (rev cl)) = rev cl)"
    by (rule tail_loop_spec) (simp_all add: ts_def)
  then obtain n where
    n: "lb_lines body = rev ([] @ filter short_line (take n (rev cl)))" "length (lb_lines body) \<le> mx"
      "line_cost (lb_lines body) \<le> RESULT_BYTES" "\<forall>l\<in>set (lb_lines body). short_line l \<and> clean_line l"
      "distinct (lb_truncated body)" "set ts \<subseteq> set (lb_truncated body)"
      "lb_truncated body = [] \<longrightarrow> filter short_line (take n (rev cl)) = rev cl"
    by blast
  have lines: "lb_lines body = filter short_line (drop (length cl - n) cl)"
    using n(1) by (simp add: rev_filter take_rev)
  have "newline \<notin> set l" if "l \<in> set (lb_lines body)" for l
    using that complete_lines_no_newline [of l "whole_lines b start"]
    unfolding lines cl_def by (auto dest: in_set_dropD)
  then have "\<forall>l\<in>set (lb_lines body). length l \<le> LINE_BYTES \<and> \<not> list_ex bad_line_byte l"
    using n(4) by (auto simp: short_line_def clean_line_def bad_line_byte_def list_ex_iff)
  then have "upstream_lines 0 (lb_lines body) = Inr ()"
    using n(3) by (simp add: upstream_lines_iff line_cost_def)
  with n(2,5) assms(2) have "upstream_validate body mx = Inr body" by (simp add: upstream_validate_def)
  moreover have "start = 0 \<and> whole_lines b start = b \<and> lb_lines body = complete_lines b" if "lb_truncated body = []"
  proof -
    from that n(6) have "ts = []" by simp
    then have "start = 0 \<and> whole_lines b start = b" unfolding ts_def by (metis gr0I list.distinct(1))
    moreover from n(1,7) that have "lb_lines body = cl" by simp
    ultimately show ?thesis using cl_def by metis
  qed
  ultimately show ?thesis using lines cl_def by blast
qed

text \<open>
  C14: whatever the file, the body the service builds is one the client accepts without clipping: at most
  the requested lines, each within the line cap and free of line breaks and NUL, within the result cap,
  each cut named once. Its lines are, in order, the last complete lines of the scanned bytes without the
  overlong ones; and a body without a cut is the whole file, which then ends with a newline.
\<close>

theorem service_tail_is_accepted:
  assumes "finish_tail b start mx = Inr body" "mx \<le> MAX_LINES"
  shows "upstream_validate body mx = Inr body \<and>
    (\<exists>n. lb_lines body = filter short_line (drop n (complete_lines (whole_lines b start)))) \<and>
    (lb_truncated body = [] \<longrightarrow> start = 0 \<and> whole_lines b start = b \<and> lb_lines body = complete_lines b)"
  using assms by (rule finish_tail_accepted)

definition demo_log :: bytes where
  "demo_log = ''one'' @ [newline] @ ''two'' @ [newline] @ ''par''"

theorem service_tail_is_accepted_witness:
  "\<exists>body. finish_tail demo_log 0 1 = Inr body \<and> lb_lines body = [''two''] \<and> upstream_validate body 1 = Inr body"
proof -
  have f: "finish_tail demo_log 0 1 = Inr \<lparr>lb_lines = [''two''], lb_truncated = [TBytes, TLines]\<rparr>" by code_simp
  from service_tail_is_accepted [OF f] f show ?thesis by (simp add: MAX_LINES_def)
qed

section \<open>What the service releases\<close>

text \<open>Some grant of the file as seen covers the token and the resource at that time.\<close>

definition granted :: "ServiceEnv \<Rightarrow> GrantView \<Rightarrow> bytes \<Rightarrow> bytes \<Rightarrow> bool" where
  "granted env gv token resource \<longleftrightarrow>
     (\<exists>b v gs now g. remote_bounded_file (gv_file gv) (64 * 1024) = Inr b \<and> wire_parse (sv_serde env) b = Inr v \<and>
        sv_grants env v = Some gs \<and> gv_now gv = Some now \<and> g \<in> set gs \<and> hex_bytes (sg_sha256 g) = sv_sha256 env token \<and>
        sg_enabled g \<and> now < sg_expires_unix g \<and> sg_resource g = resource \<and> sg_operation g = ''log_tail'')"

lemma authorize_grants_found:
  "authorize_grants digest now resource gs seen allowed = Inr True \<Longrightarrow>
     allowed \<or> (\<exists>g\<in>set gs. hex_bytes (sg_sha256 g) = digest \<and> sg_enabled g \<and> now < sg_expires_unix g \<and>
       sg_resource g = resource \<and> sg_operation g = ''log_tail'')"
proof (induction digest now resource gs seen allowed rule: authorize_grants.induct)
  case (2 digest now resource g gs seen allowed)
  from "2.prems" have ok: "sg_operation g = ''log_tail''" "hex_bytes (sg_sha256 g) \<notin> set seen"
    "\<not> (\<not> valid_token (sg_sha256 g) \<or> \<not> valid_name (sg_resource g) \<or> sg_operation g \<noteq> ''log_tail'')"
    by (auto simp: Let_def split: if_splits)
  from "2.IH" [OF ok(3) refl ok(2)] "2.prems" ok show ?case by (auto simp: Let_def)
qed simp

lemma authorize_granted: "authorize env gv token resource = Inr u \<Longrightarrow> granted env gv token resource"
  unfolding authorize_def granted_def
  by (auto simp: and_then_Inr_iff ok_or_Inr_iff split: if_splits dest!: authorize_grants_found)

lemmas endpoint_simps = ep_send_def ep_expect_def ep_read_def ep_closed_def fail_at_def

text \<open>The two fixed answers of the service, whoever asks.\<close>

definition control_frames :: "RemoteSerde \<Rightarrow> bytes set" where
  "control_frames sd = {b. wire_write sd wire_ready = Inr b \<or> wire_write sd wire_tools = Inr b}"

definition sent_of :: "endpoint exchanged \<Rightarrow> bytes list" where
  "sent_of r = (case r of Inl (sent, _) \<Rightarrow> sent | Inr (sent, _) \<Rightarrow> sent)"

text \<open>Steps of an exchange that keep the frames written so far among the control frames.\<close>

definition only_control :: "bytes set \<Rightarrow> endpoint exchanged \<Rightarrow> bool" where
  "only_control C r \<longleftrightarrow> set (sent_of r) \<subseteq> C"

lemma only_control_bind:
  assumes "only_control C r" "\<And>ep. r = Inr ep \<Longrightarrow> set (fst ep) \<subseteq> C \<Longrightarrow> Q (f ep)" "\<And>sent e. set sent \<subseteq> C \<Longrightarrow> Q (Inl (sent, e))"
  shows "Q (and_then r f)"
  using assms by (cases r) (auto simp: only_control_def sent_of_def split: prod.splits)

lemma only_control_expect: "set (fst ep) \<subseteq> C \<Longrightarrow> only_control C (ep_expect sd v ep)"
  by (auto simp: only_control_def sent_of_def endpoint_simps and_then_def split: sum.split)

lemma only_control_send: "set (fst ep) \<subseteq> C \<Longrightarrow> (\<And>b. wire_write sd v = Inr b \<Longrightarrow> b \<in> C) \<Longrightarrow> only_control C (ep_send sd v ep)"
  by (auto simp: only_control_def sent_of_def endpoint_simps and_then_def split: sum.split)

text \<open>The last steps: read the call, decode it, insist on the half-close and answer.\<close>

definition service_answer :: "ServiceWorld \<Rightarrow> endpoint \<Rightarrow> endpoint exchanged" where
  "service_answer w ep =
     (let sd = sv_serde (sw_env w) in
      and_then (ep_read sd ep) (\<lambda>(v, ep).
      and_then (fail_at ep (wire_decode_call sd v)) (\<lambda>c.
      and_then (ep_closed ep) (\<lambda>_.
      and_then (fail_at ep (service_body w c)) (\<lambda>body.
      ep_send sd (wire_response body) ep)))))"

text \<open>The first so many messages of a peer's stream, and what is left of it.\<close>

fun read_messages :: "RemoteSerde \<Rightarrow> nat \<Rightarrow> io_stream \<Rightarrow> (bytes Json list \<times> io_stream) option" where
  "read_messages sd 0 io = Some ([], io)"
| "read_messages sd (Suc n) io =
     (case wire_read sd io of
        (Inl e, _) \<Rightarrow> None
      | (Inr v, r) \<Rightarrow> map_option (\<lambda>(vs, r2). (v # vs, r2)) (read_messages sd n r))"

text \<open>The peer opened the connection as it has to, sent this call as its last message, and nothing behind it.\<close>

definition peer_called :: "RemoteSerde \<Rightarrow> io_stream \<Rightarrow> Call \<Rightarrow> bool" where
  "peer_called sd io c \<longleftrightarrow>
     (\<exists>v. read_messages sd 4 io = Some ([wire_initialize, wire_initialized, wire_list, v], []) \<and> wire_decode_call sd v = Inr c)"

lemma service_body_released:
  fixes w :: ServiceWorld
  assumes "service_body w c = Inr body"
  shows "granted (sw_env w) (sw_before w) (ca_token c) (ar_resource (ca_arguments c)) \<and>
    granted (sw_env w) (sw_after w) (ca_token c) (ar_resource (ca_arguments c)) \<and>
    (\<exists>path. sw_resources w (ar_resource (ca_arguments c)) = Some path \<and>
       service_tail (sw_files w path) (ar_lines (ca_arguments c)) = Inr body)"
  using assms authorize_granted
  by (fastforce simp: service_body_def authorized_tail_def and_then_Inr_iff ok_or_Inr_iff)

lemma decode_call_valid: "wire_decode_call sd v = Inr c \<Longrightarrow> valid_token (ca_token c) \<and> ar_lines (ca_arguments c) \<le> MAX_LINES"
  by (auto simp: wire_decode_call_def and_then_Inr_iff split: if_splits)

text \<open>An error leaves control frames only.\<close>

definition fails_quietly :: "bytes set \<Rightarrow> endpoint exchanged \<Rightarrow> bool" where
  "fails_quietly C r \<longleftrightarrow> (\<forall>sent e. r = Inl (sent, e) \<longrightarrow> set sent \<subseteq> C)"

lemma service_answer_fails: "set (fst ep) \<subseteq> C \<Longrightarrow> fails_quietly C (service_answer w ep)"
  unfolding fails_quietly_def
proof (intro allI impI)
  fix sent e
  assume c: "set (fst ep) \<subseteq> C" and "service_answer w ep = Inl (sent, e)"
  then have "sent = fst ep"
    by (auto simp: service_answer_def endpoint_simps Let_def and_then_Inl_iff split: sum.splits if_splits)
  with c show "set sent \<subseteq> C" by simp
qed

lemma service_connection_steps:
  "service_connection w tls io =
    (if \<not> tls then Inl ([], failure)
     else and_then (ep_expect (sv_serde (sw_env w)) wire_initialize ([], io)) (\<lambda>ep.
      and_then (ep_send (sv_serde (sw_env w)) wire_ready ep) (\<lambda>ep.
      and_then (ep_expect (sv_serde (sw_env w)) wire_initialized ep) (\<lambda>ep.
      and_then (ep_expect (sv_serde (sw_env w)) wire_list ep) (\<lambda>ep.
      and_then (ep_send (sv_serde (sw_env w)) wire_tools ep) (service_answer w))))))"
  by (simp add: service_connection_def service_answer_def [abs_def] Let_def)

lemma service_connection_fails: "fails_quietly (control_frames (sv_serde (sw_env w))) (service_connection w tls io)"
proof -
  let ?sd = "sv_serde (sw_env w)" and ?C = "control_frames (sv_serde (sw_env w))"
  have sends: "\<And>b. wire_write ?sd wire_ready = Inr b \<Longrightarrow> b \<in> ?C" "\<And>b. wire_write ?sd wire_tools = Inr b \<Longrightarrow> b \<in> ?C"
    by (simp_all add: control_frames_def)
  have err: "\<And>sent e. set sent \<subseteq> ?C \<Longrightarrow> fails_quietly ?C (Inl (sent, e))" by (simp add: fails_quietly_def)
  have "fails_quietly ?C (and_then (ep_expect ?sd wire_initialize ([], io)) (\<lambda>ep.
        and_then (ep_send ?sd wire_ready ep) (\<lambda>ep.
        and_then (ep_expect ?sd wire_initialized ep) (\<lambda>ep.
        and_then (ep_expect ?sd wire_list ep) (\<lambda>ep.
        and_then (ep_send ?sd wire_tools ep) (service_answer w))))))"
    by (intro only_control_bind [where C = ?C and Q = "fails_quietly ?C"] only_control_expect only_control_send
        service_answer_fails err sends) (assumption | simp)+
  then show ?thesis by (simp add: service_connection_steps fails_quietly_def)
qed

lemma ep_expect_Inr:
  "ep_expect sd v ep = Inr ep1 \<longleftrightarrow> wire_read sd (snd ep) = (Inr v, snd ep1) \<and> fst ep1 = fst ep"
  by (cases "wire_read sd (snd ep)"; cases "fst (wire_read sd (snd ep))"; cases ep1)
     (auto simp: ep_expect_def wire_expect_def fail_at_def and_then_Inr_iff split: if_splits)

lemma ep_send_Inr: "ep_send sd v ep = Inr ep1 \<longleftrightarrow> (\<exists>b. wire_write sd v = Inr b \<and> ep1 = (fst ep @ [b], snd ep))"
  by (auto simp: ep_send_def fail_at_def and_then_Inr_iff split: sum.splits)

lemma service_answer_Inr:
  assumes "service_answer w ep = Inr (sent, rest)"
  obtains v c body b where "wire_read (sv_serde (sw_env w)) (snd ep) = (Inr v, [])" "wire_decode_call (sv_serde (sw_env w)) v = Inr c"
    "service_body w c = Inr body" "wire_write (sv_serde (sw_env w)) (wire_response body) = Inr b" "sent = fst ep @ [b]" "rest = []"
  using assms
  by (cases "wire_read (sv_serde (sw_env w)) (snd ep)")
     (auto simp: service_answer_def endpoint_simps Let_def and_then_Inr_iff split: sum.splits if_splits)

text \<open>
  C10: whatever a peer sends, the service writes only its two fixed control messages, unless the
  connection completes. Then the peer's stream holds the three opening messages and one call, and nothing
  more; and the service has written the two control messages and one more, the tail of the file configured
  for the resource of this very call, and only when the grants file as read before and again after the read
  holds an enabled, unexpired grant for the token of this call and that resource.
\<close>

theorem service_releases_only_granted:
  fixes w :: ServiceWorld
  shows "(\<forall>sent e. service_connection w tls io = Inl (sent, e) \<longrightarrow> set sent \<subseteq> control_frames (sv_serde (sw_env w))) \<and>
    (\<forall>sent rest. service_connection w tls io = Inr (sent, rest) \<longrightarrow> tls \<and> rest = [] \<and>
      (\<exists>c path body ready tools answer. peer_called (sv_serde (sw_env w)) io c \<and> sent = [ready, tools, answer] \<and>
         wire_write (sv_serde (sw_env w)) wire_ready = Inr ready \<and> wire_write (sv_serde (sw_env w)) wire_tools = Inr tools \<and>
         valid_token (ca_token c) \<and> ar_lines (ca_arguments c) \<le> MAX_LINES \<and>
         granted (sw_env w) (sw_before w) (ca_token c) (ar_resource (ca_arguments c)) \<and>
         granted (sw_env w) (sw_after w) (ca_token c) (ar_resource (ca_arguments c)) \<and>
         sw_resources w (ar_resource (ca_arguments c)) = Some path \<and>
         service_tail (sw_files w path) (ar_lines (ca_arguments c)) = Inr body \<and>
         wire_write (sv_serde (sw_env w)) (wire_response body) = Inr answer))"
proof (intro conjI allI impI)
  fix sent e
  assume "service_connection w tls io = Inl (sent, e)"
  with service_connection_fails [of w tls io] show "set sent \<subseteq> control_frames (sv_serde (sw_env w))"
    by (auto simp: fails_quietly_def)
next
  fix sent rest
  let ?sd = "sv_serde (sw_env w)"
  assume r: "service_connection w tls io = Inr (sent, rest)"
  then show "tls" by (simp add: service_connection_steps split: if_splits)
  from r obtain ep1 ep2 ep3 ep4 ep5 where
    "ep_expect ?sd wire_initialize ([], io) = Inr ep1" "ep_send ?sd wire_ready ep1 = Inr ep2" "ep_expect ?sd wire_initialized ep2 = Inr ep3"
    "ep_expect ?sd wire_list ep3 = Inr ep4" "ep_send ?sd wire_tools ep4 = Inr ep5" and a: "service_answer w ep5 = Inr (sent, rest)"
    by (auto simp: service_connection_steps and_then_Inr_iff split: if_splits)
  then obtain ready tools where steps: "wire_read ?sd io = (Inr wire_initialize, snd ep1)" "wire_write ?sd wire_ready = Inr ready"
    "wire_read ?sd (snd ep1) = (Inr wire_initialized, snd ep3)" "wire_read ?sd (snd ep3) = (Inr wire_list, snd ep4)"
    "wire_write ?sd wire_tools = Inr tools" "fst ep5 = [ready, tools]" "snd ep5 = snd ep4"
    by (auto simp: ep_expect_Inr ep_send_Inr)
  from a obtain v c body b where v: "wire_read ?sd (snd ep5) = (Inr v, [])" "wire_decode_call ?sd v = Inr c"
    "service_body w c = Inr body" "wire_write ?sd (wire_response body) = Inr b" "sent = fst ep5 @ [b]" "rest = []"
    by (rule service_answer_Inr)
  have p: "peer_called ?sd io c" unfolding peer_called_def using steps v(1,2) by (simp add: numeral_eq_Suc)
  from v(6) show "rest = []" .
  from p steps v service_body_released [OF v(3)] decode_call_valid [OF v(2)]
  show "\<exists>c path body ready tools answer. peer_called ?sd io c \<and> sent = [ready, tools, answer] \<and>
         wire_write ?sd wire_ready = Inr ready \<and> wire_write ?sd wire_tools = Inr tools \<and>
         valid_token (ca_token c) \<and> ar_lines (ca_arguments c) \<le> MAX_LINES \<and>
         granted (sw_env w) (sw_before w) (ca_token c) (ar_resource (ca_arguments c)) \<and>
         granted (sw_env w) (sw_after w) (ca_token c) (ar_resource (ca_arguments c)) \<and>
         sw_resources w (ar_resource (ca_arguments c)) = Some path \<and>
         service_tail (sw_files w path) (ar_lines (ca_arguments c)) = Inr body \<and> wire_write ?sd (wire_response body) = Inr answer"
    by (auto)
qed

section \<open>Both ends of a connection\<close>

text \<open>
  What the two ends need of serde for one message: it prints to one line within the frame cap, and the line
  is read back as the message.
\<close>

definition travels :: "RemoteSerde \<Rightarrow> bytes Json \<Rightarrow> bool" where
  "travels sd v \<longleftrightarrow>
     (\<exists>line. sd_to_vec sd v = Some line \<and> newline \<notin> set line \<and> length line < FRAME_BYTES \<and> wire_parse sd (line @ [newline]) = Inr v)"

definition frame_of :: "RemoteSerde \<Rightarrow> bytes Json \<Rightarrow> bytes" where
  "frame_of sd v = the (sd_to_vec sd v) @ [newline]"

lemma travels_send: "travels sd v \<Longrightarrow> ep_send sd v (sent, io) = Inr (sent @ [frame_of sd v], io)"
  by (auto simp: travels_def frame_of_def ep_send_def fail_at_def wire_write_def)

lemma travels_read: "travels sd v \<Longrightarrow> wire_read sd (Some (frame_of sd v) # io) = (Inr v, io)"
  unfolding travels_def frame_of_def using wire_read_line by fastforce

lemma travels_expect: "travels sd v \<Longrightarrow> ep_expect sd v (sent, Some (frame_of sd v) # io) = Inr (sent, io)"
  by (simp add: ep_expect_def fail_at_def wire_expect_def travels_read)

lemma travels_ep_read: "travels sd v \<Longrightarrow> ep_read sd (sent, Some (frame_of sd v) # io) = Inr (v, sent, io)"
  by (simp add: ep_read_def fail_at_def travels_read)

lemmas travels_simps = travels_send travels_expect travels_ep_read

lemma service_tail_upstream:
  assumes "service_body w c = Inr body" "ar_lines (ca_arguments c) \<le> MAX_LINES"
  shows "upstream_validate body (ar_lines (ca_arguments c)) = Inr body"
proof -
  from assms(1) obtain f where "service_tail f (ar_lines (ca_arguments c)) = Inr body"
    by (auto simp: service_body_def authorized_tail_def and_then_Inr_iff)
  then obtain b start where "finish_tail b start (ar_lines (ca_arguments c)) = Inr body"
    by (auto simp: service_tail_def Let_def split: option.splits prod.splits if_splits)
  from finish_tail_accepted [OF this assms(2)] show ?thesis by blast
qed

text \<open>
  The frames each end writes when all goes well.
\<close>

definition client_frames :: "RemoteSerde \<Rightarrow> bytes Json \<Rightarrow> bytes list" where
  "client_frames sd cl = map (frame_of sd) [wire_initialize, wire_initialized, wire_list, cl]"

definition service_frames :: "RemoteSerde \<Rightarrow> LogBody \<Rightarrow> bytes list" where
  "service_frames sd body = map (frame_of sd) [wire_ready, wire_tools, wire_response body]"

text \<open>
  C15: client and service fit. If serde carries the seven messages, and the service has a body for the client's
  call, then the service, fed what the client writes, writes exactly what the client reads, and the client
  returns that body as text, with what was cut: none of the checks on either side gets in the way.
\<close>

theorem exchange_delivers_tail:
  fixes w :: ServiceWorld and sd :: RemoteSerde and cfg :: RemoteConfig
  assumes "sv_serde (sw_env w) = sd"
    "list_all (travels sd) [wire_initialize, wire_ready, wire_initialized, wire_list, wire_tools, wire_call (rc_resource cfg) mx tk, wire_response body]"
    "wire_decode_call sd (wire_call (rc_resource cfg) mx tk) = Inr c" "ar_lines (ca_arguments c) = mx"
    "sd_response sd (wire_response body) = Some \<lparr>re_jsonrpc = ''2.0'', re_id = 3, re_content = [], re_body = body, re_is_error = False\<rparr>"
    "service_body w c = Inr body" "remote_bounded_file root (64 * 1024) = Inr pem"
  shows "service_connection w True (map Some (client_frames sd (wire_call (rc_resource cfg) mx tk))) = Inr (service_frames sd body, []) \<and>
    client_exchange sd cfg (Inr tk) root True (map Some (service_frames sd body)) mx =
      Inr (client_frames sd (wire_call (rc_resource cfg) mx tk), into_output body)"
proof -
  from assms(2) have t: "travels sd wire_initialize" "travels sd wire_ready" "travels sd wire_initialized" "travels sd wire_list" "travels sd wire_tools"
    "travels sd (wire_call (rc_resource cfg) mx tk)" "travels sd (wire_response body)" by simp_all
  from decode_call_valid [OF assms(3)] assms(4,6) have v: "upstream_validate body mx = Inr body" using service_tail_upstream by blast
  have "wire_decode_response sd (wire_response body) mx = Inr body" by (simp add: wire_decode_response_def assms(5) v)
  then show ?thesis
    using t assms(1,3,6,7)
    by (simp add: service_connection_def client_exchange_def client_frames_def service_frames_def travels_simps fail_at_def ep_closed_def)
qed

fun raw_of :: "bytes Json \<Rightarrow> RawJson"
  and raw_values :: "bytes Json list \<Rightarrow> RawJson list"
  and raw_entries :: "(bytes \<times> bytes Json) list \<Rightarrow> (bytes \<times> RawJson) list" where
  "raw_of JNull = RNull"
| "raw_of (JBool b) = RBool b"
| "raw_of (JNumber n) = RNumber n"
| "raw_of (JString s) = RString s"
| "raw_of (JArray xs) = RArray (raw_values xs)"
| "raw_of (JObject m) = RObject (raw_entries m)"
| "raw_values [] = []"
| "raw_values (x # xs) = raw_of x # raw_values xs"
| "raw_entries [] = []"
| "raw_entries ((k, v) # m) = (k, raw_of v) # raw_entries m"

definition demo_token :: bytes where
  "demo_token = replicate 64 (CHR ''a'')"

definition demo_body :: LogBody where
  "demo_body = \<lparr>lb_lines = [''two''], lb_truncated = [TBytes, TLines]\<rparr>"

definition demo_wire_call :: Call where
  "demo_wire_call =
     \<lparr>ca_jsonrpc = ''2.0'', ca_id = 3, ca_method = ''tools/call'', ca_name = ''log_tail'',
      ca_arguments = \<lparr>ar_resource = ''app'', ar_lines = 1\<rparr>, ca_token = demo_token\<rparr>"

definition demo_messages :: "(bytes \<times> bytes Json) list" where
  "demo_messages =
     [(''a'', wire_initialize), (''b'', wire_ready), (''c'', wire_initialized), (''d'', wire_list), (''e'', wire_tools),
      (''f'', wire_call ''app'' 1 demo_token), (''g'', wire_response demo_body)]"

definition demo_serde :: RemoteSerde where
  "demo_serde =
     \<lparr>sd_parse = (\<lambda>b. map_option raw_of (map_of demo_messages (filter (\<lambda>c. c \<noteq> newline) b))),
      sd_to_vec = (\<lambda>v. map_option fst (List.find (\<lambda>(l, m). m = v) demo_messages)),
      sd_call = (\<lambda>_. Some demo_wire_call),
      sd_response = (\<lambda>_. Some \<lparr>re_jsonrpc = ''2.0'', re_id = 3, re_content = [], re_body = demo_body, re_is_error = False\<rparr>)\<rparr>"

definition demo_world :: ServiceWorld where
  "demo_world =
     \<lparr>sw_env = \<lparr>sv_serde = demo_serde,
        sv_grants = (\<lambda>_. Some [\<lparr>sg_sha256 = replicate 64 (CHR ''b''), sg_enabled = True, sg_expires_unix = 100, sg_operation = ''log_tail'', sg_resource = ''app''\<rparr>]),
        sv_sha256 = (\<lambda>_. replicate 32 187)\<rparr>,
      sw_resources = (\<lambda>_. Some ''log''), sw_before = \<lparr>gv_file = Some (True, ''a''), gv_now = Some 98\<rparr>,
      sw_after = \<lparr>gv_file = Some (True, ''a''), gv_now = Some 99\<rparr>, sw_files = (\<lambda>_. Some (True, demo_log))\<rparr>"

definition demo_remote :: RemoteConfig where
  "demo_remote = \<lparr>rc_endpoint = ''h'', rc_server_name = ''h'', rc_trust_root = ''r'', rc_resource = ''app'', rc_secret = EnvSecret ''T''\<rparr>"

definition travels_as :: "RemoteSerde \<Rightarrow> bytes Json \<Rightarrow> bytes \<Rightarrow> bool" where
  "travels_as sd v line \<longleftrightarrow>
     sd_to_vec sd v = Some line \<and> newline \<notin> set line \<and> length line < FRAME_BYTES \<and> wire_parse sd (line @ [newline]) = Inr v"

lemma travels_asD: "travels_as sd v line \<Longrightarrow> travels sd v"
  unfolding travels_as_def travels_def by blast

theorem exchange_delivers_tail_witness:
  "\<exists>frames. client_exchange demo_serde demo_remote (Inr demo_token) (Some (True, ''pem'')) True (map Some (service_frames demo_serde demo_body)) 1 =
     Inr (frames, ''two'', [BytesCut, RowsCut]) \<and>
     service_connection demo_world True (map Some frames) = Inr (service_frames demo_serde demo_body, [])"
proof -
  have "list_all (\<lambda>(l, v). travels_as demo_serde v l) demo_messages" by code_simp
  then have t: "list_all (travels demo_serde)
      [wire_initialize, wire_ready, wire_initialized, wire_list, wire_tools, wire_call (rc_resource demo_remote) 1 demo_token, wire_response demo_body]"
    by (auto simp: demo_messages_def demo_remote_def dest: travels_asD)
  have s: "sv_serde (sw_env demo_world) = demo_serde" by (simp add: demo_world_def)
  have d: "wire_decode_call demo_serde (wire_call (rc_resource demo_remote) 1 demo_token) = Inr demo_wire_call" by code_simp
  have b: "service_body demo_world demo_wire_call = Inr demo_body" by code_simp
  have r: "remote_bounded_file (Some (True, ''pem'')) (64 * 1024) = Inr ''pem''" by code_simp
  have o: "into_output demo_body = (''two'', [BytesCut, RowsCut])" by code_simp
  from exchange_delivers_tail [OF s t d _ _ b r] o show ?thesis
    by (simp add: demo_wire_call_def demo_serde_def)
qed

text \<open>What is released to the client of the demonstration was granted before and after the read.\<close>

theorem service_releases_only_granted_witness:
  "\<exists>c. peer_called demo_serde (map Some (client_frames demo_serde (wire_call ''app'' 1 demo_token))) c \<and>
     granted (sw_env demo_world) (sw_before demo_world) (ca_token c) (ar_resource (ca_arguments c)) \<and>
     granted (sw_env demo_world) (sw_after demo_world) (ca_token c) (ar_resource (ca_arguments c))"
proof -
  let ?io = "map Some (client_frames demo_serde (wire_call ''app'' 1 demo_token))"
  have s: "sv_serde (sw_env demo_world) = demo_serde" by (simp add: demo_world_def)
  have "service_connection demo_world True ?io = Inr (service_frames demo_serde demo_body, [])" by code_simp
  from service_releases_only_granted [THEN conjunct2, rule_format, OF this] show ?thesis unfolding s by blast
qed

end
