(* ===== verification/Session_Restore.thy ===== *)
theory Session_Restore
  imports Maintenance
begin

text \<open>
  Replay of a session, \<^verbatim>\<open>src/session/restore.rs\<close>, over the manifest that the calls of
  \<^verbatim>\<open>Session_Manifest\<close> write and the sweeps of \<^verbatim>\<open>Maintenance\<close> retire. The file system, SQLite's failures, the gaze
  library and the calendar are the record \<open>ReplayEnv\<close>.
\<close>

section \<open>State\<close>

datatype RestoreDecision = RestoreSuccess | RestorePartial | RestoreFailed | RestoreOther

record RestoreTelemetry =
  rt_decision :: RestoreDecision
  rt_unknown_token_count :: nat
  rt_manifest_bypass_count :: nat
  rt_fresh_pii_detected_count :: nat

record RestoreTelemetrySummary =
  ts_success_calls :: nat
  ts_partial_calls :: nat
  ts_failed_calls :: nat
  ts_unknown_token_count :: nat
  ts_manifest_bypass_count :: nat
  ts_fresh_pii_detected_count :: nat

record RestoredCall =
  rd_call_id :: bytes
  rd_tool_name :: bytes
  rd_redacted_args_json :: bytes
  rd_restored_args_json :: bytes
  rd_snapshot_ref :: bytes
  rd_telemetry :: RestoreTelemetry

record RestoredSession =
  rs_session_id :: bytes
  rs_calls :: "RestoredCall list"
  rs_summary :: RestoreTelemetrySummary

text \<open>
  \<open>rp_open\<close> is a failure to open or query the manifest, \<open>rp_row\<close> one to decode a row; \<open>rp_read\<close> reads a file,
  \<open>rp_import\<close> a snapshot, \<open>rp_gaze\<close> holds the library's answers to a build, \<open>rp_args\<close> the recorded arguments; \<open>rp_restore\<close> is the strict restore; \<open>rp_rfc3339\<close>
  formats seconds and nanoseconds.
\<close>

record 'g ReplayEnv =
  rp_open :: "bytes option"
  rp_gaze :: GazeLib
  rp_row :: "CallRow \<Rightarrow> bytes option"
  rp_read :: "bytes \<Rightarrow> bytes + bytes"
  rp_import :: "bytes \<Rightarrow> bytes + 'g"
  rp_args :: "bytes \<Rightarrow> bytes + bytes"
  rp_restore :: "Pipeline \<Rightarrow> 'g \<Rightarrow> bytes \<Rightarrow> bytes + bytes \<times> RestoreTelemetry"
  rp_rfc3339 :: "int \<Rightarrow> nat \<Rightarrow> bytes option"

section \<open>Operations\<close>

definition summary_default :: RestoreTelemetrySummary where
  "summary_default = \<lparr>ts_success_calls = 0, ts_partial_calls = 0, ts_failed_calls = 0, ts_unknown_token_count = 0,
     ts_manifest_bypass_count = 0, ts_fresh_pii_detected_count = 0\<rparr>"

definition record_telemetry :: "RestoreTelemetry \<Rightarrow> RestoreTelemetrySummary \<Rightarrow> RestoreTelemetrySummary" where
  "record_telemetry t sm =
     (case rt_decision t of
        RestoreSuccess \<Rightarrow> sm\<lparr>ts_success_calls := ts_success_calls sm + 1\<rparr>
      | RestorePartial \<Rightarrow> sm\<lparr>ts_partial_calls := ts_partial_calls sm + 1\<rparr>
      | _ \<Rightarrow> sm\<lparr>ts_failed_calls := ts_failed_calls sm + 1\<rparr>)
     \<lparr>ts_unknown_token_count := ts_unknown_token_count sm + rt_unknown_token_count t,
      ts_manifest_bypass_count := ts_manifest_bypass_count sm + rt_manifest_bypass_count t,
      ts_fresh_pii_detected_count := ts_fresh_pii_detected_count sm + rt_fresh_pii_detected_count t\<rparr>"

definition format_iso8601_ms :: "'g ReplayEnv \<Rightarrow> int \<Rightarrow> bytes" where
  "format_iso8601_ms env ms =
     unwrap_or (rp_rfc3339 env (ms div 1000) (nat (ms mod 1000) * 1000000)) (''epoch_ms='' @ int_to_string ms)"

text \<open>\<^verbatim>\<open>map_err(|err| LensError::ReplayUnavailable { .. })\<close>.\<close>

definition replay :: "bytes \<Rightarrow> bytes + 'a \<Rightarrow> LensError + 'a" where
  "replay session r = (case r of Inl e \<Rightarrow> Inl (ReplayUnavailable session e) | Inr x \<Rightarrow> Inr x)"

definition fails :: "bytes option \<Rightarrow> bytes + unit" where
  "fails m = (case m of None \<Rightarrow> Inr () | Some e \<Rightarrow> Inl e)"

definition restore_tokens :: "'g ReplayEnv \<Rightarrow> bytes \<Rightarrow> Pipeline \<Rightarrow> 'g \<Rightarrow> bytes \<Rightarrow> LensError + bytes \<times> RestoreTelemetry" where
  "restore_tokens env session p g input = replay session (rp_restore env p g input)"

definition missing_ref :: "bytes \<Rightarrow> bytes" where
  "missing_ref call_id = ''call '' @ call_id @ '' has no snapshot_ref and no purged_at_ms tombstone''"

text \<open>One row of the loop.\<close>

definition restore_call :: "'g ReplayEnv \<Rightarrow> bytes \<Rightarrow> nat \<Rightarrow> Pipeline \<Rightarrow> CallRow \<Rightarrow> LensError + RestoredCall" where
  "restore_call env session days p r =
     and_then (replay session (fails (rp_row env r))) (\<lambda>_.
     case cl_purged_at_ms r of
       Some t \<Rightarrow> Inl (SnapshotPurged session t (format_iso8601_ms env t) days)
     | None \<Rightarrow>
         and_then (ok_or (ReplayUnavailable session (missing_ref (cl_call_id r))) (cl_snapshot_ref r)) (\<lambda>path.
         and_then (replay session (rp_read env path)) (\<lambda>b.
         and_then (replay session (rp_import env b)) (\<lambda>g.
         and_then (replay session (rp_args env (cl_redacted_args_json r))) (\<lambda>args.
         and_then (restore_tokens env session p g args) (\<lambda>(json, t).
         Inr \<lparr>rd_call_id = cl_call_id r, rd_tool_name = cl_tool_name r, rd_redacted_args_json = cl_redacted_args_json r,
              rd_restored_args_json = json, rd_snapshot_ref = path, rd_telemetry = t\<rparr>))))))"

fun restore_calls :: "'g ReplayEnv \<Rightarrow> bytes \<Rightarrow> nat \<Rightarrow> Pipeline \<Rightarrow> CallRow list \<Rightarrow> RestoreTelemetrySummary \<Rightarrow>
    LensError + RestoredCall list \<times> RestoreTelemetrySummary" where
  "restore_calls env session days p [] sm = Inr ([], sm)"
| "restore_calls env session days p (r # rs) sm =
     and_then (restore_call env session days p r) (\<lambda>c.
     and_then (restore_calls env session days p rs (record_telemetry (rd_telemetry c) sm)) (\<lambda>(cs, sm1). Inr (c # cs, sm1)))"

text \<open>\<^verbatim>\<open>WHERE lens_session_id = ?1 AND status = 'ok' ORDER BY started_at_ms ASC\<close>; equal times keep the order of insertion.\<close>

definition session_rows :: "bytes \<Rightarrow> CallRow list \<Rightarrow> CallRow list" where
  "session_rows session m = sort_key cl_started_at_ms (filter (\<lambda>r. cl_lens_session_id r = session \<and> cl_status r = ''ok'') m)"

definition restore_whole_session :: "'g ReplayEnv \<Rightarrow> CallRow list \<Rightarrow> bytes \<Rightarrow> nat \<Rightarrow> LensError + RestoredSession" where
  "restore_whole_session env m session days =
     and_then (replay session (fails (rp_open env))) (\<lambda>_.
     and_then (default_pipeline (rp_gaze env)) (\<lambda>p.
     and_then (restore_calls env session days p (session_rows session m) summary_default) (\<lambda>(cs, sm).
     Inr \<lparr>rs_session_id = session, rs_calls = cs, rs_summary = sm\<rparr>)))"

section \<open>Manifests over time\<close>

text \<open>The steps of a manifest: calls begin, open calls end, sweeps run in any mode and may fail on the way.\<close>

inductive manifest_step :: "CallRow list \<Rightarrow> CallRow list \<Rightarrow> bool" where
  Begin: "manifest_step m (snd (begin_call env call args m))"
| Finish: "open_call i m \<Longrightarrow> manifest_step m (snd (finish_call env i sm path m))"
| Fail: "open_call i m \<Longrightarrow> manifest_step m (snd (fail_call env i err m))"
| Sweep: "sweep_expired_snapshots sw days mode (Some m) = (res, Some m1) \<Longrightarrow> manifest_step m m1"

inductive_cases manifest_stepE: "manifest_step m m1"

inductive reachable_manifest :: "CallRow list \<Rightarrow> bool" where
  Fresh: "reachable_manifest []"
| Step: "reachable_manifest m \<Longrightarrow> manifest_step m m1 \<Longrightarrow> reachable_manifest m1"

lemma sweep_ok:
  assumes "sweep_expired_snapshots sw days mode (Some m) = (res, Some m1)" "manifest_ok m"
  shows "manifest_ok m1"
proof -
  from assms(2) have d: "distinct (map cl_call_id m)" "list_all row_ok m" by (simp_all add: manifest_ok_def)
  from sweep_effect [OF assms(1) d(1)] obtain t S where
    m1: "m1 = map (\<lambda>r. if r \<in> S then tomb (t r) r else r) m" and S: "S \<subseteq> {r \<in> set m. mode = Purge \<and> candidate r \<and> purgeable sw days r}"
    by (auto simp: simp_thms)
  have "map cl_call_id m1 = map cl_call_id m" unfolding m1 by (simp add: tomb_def)
  moreover have "row_ok (if r \<in> S then tomb (t r) r else r)" if "r \<in> set m" for r
    using d(2) that S by (auto simp: list_all_iff row_ok_def tomb_def candidate_def)
  then have "list_all row_ok m1" unfolding m1 by (induction m) simp_all
  ultimately show ?thesis using d(1) unfolding manifest_ok_def by simp
qed

lemma step_ok: "manifest_step m m1 \<Longrightarrow> manifest_ok m \<Longrightarrow> manifest_ok m1"
  by (induction rule: manifest_step.induct) (simp_all add: begin_call_ok finish_call_ok fail_call_ok sweep_ok)

lemma reachable_manifest_ok: "reachable_manifest m \<Longrightarrow> manifest_ok m"
proof (induction rule: reachable_manifest.induct)
  case Fresh
  show ?case by (simp add: manifest_ok_def)
qed (rule step_ok)

section \<open>What a replay gives\<close>

lemma restore_calls_Inr:
  assumes "restore_calls env session days p rs sm = Inr (cs, sm1)"
  shows "list_all2 (\<lambda>r c. restore_call env session days p r = Inr c) rs cs"
  using assms by (induction rs arbitrary: sm cs sm1) (auto simp: and_then_Inr_iff)

text \<open>A replay that succeeds has restored every successful call of the session, none of them purged, in order.\<close>

lemma restore_whole_session_Inr:
  assumes "restore_whole_session env m session days = Inr out"
  shows "map rd_call_id (rs_calls out) = map cl_call_id (session_rows session m) \<and> list_all (\<lambda>r. cl_purged_at_ms r = None) (session_rows session m)"
proof -
  from assms obtain p cs sm where c: "restore_calls env session days p (session_rows session m) summary_default = Inr (cs, sm)" "rs_calls out = cs"
    by (auto simp: restore_whole_session_def and_then_Inr_iff)
  have one: "rd_call_id c = cl_call_id r \<and> cl_purged_at_ms r = None" if "restore_call env session days p r = Inr c" for r c
    using that by (auto simp: restore_call_def and_then_Inr_iff split: option.splits)
  from restore_calls_Inr [OF c(1)] have "map rd_call_id cs = map cl_call_id (session_rows session m) \<and> list_all (\<lambda>r. cl_purged_at_ms r = None) (session_rows session m)"
    by (induction rule: list_all2_induct) (auto dest: one)
  with c(2) show ?thesis by simp
qed

lemma set_session_rows: "set (session_rows session m) = {r \<in> set m. cl_lens_session_id r = session \<and> cl_status r = ''ok''}"
  by (auto simp: session_rows_def)

lemma replay_purged:
  assumes "rp_open env = None" "default_pipeline (rp_gaze env) = Inr p" "\<forall>r. rp_row env r = None" "session_rows session m = r # rs"
    "cl_purged_at_ms r = Some t"
  shows "restore_whole_session env m session days = Inl (SnapshotPurged session t (format_iso8601_ms env t) days)"
  using assms by (simp add: restore_whole_session_def restore_call_def replay_def fails_def)

lemma sweep_purges_session:
  assumes "sweep_expired_snapshots sw days Purge (Some m) = (Inr rep, Some m1)" "manifest_ok m"
    "sw_ulid sw session = Some ms" "int ms \<le> 9223372036854775807"
    "min 9223372036854775807 (int days * 86400000) < max (- 9223372036854775808) (min 9223372036854775807 (sw_now sw - int ms))"
    "\<forall>r\<in>set m. \<forall>path. cl_lens_session_id r = session \<and> cl_snapshot_ref r = Some path \<longrightarrow> sw_remove sw path = Removed \<or> sw_remove sw path = Missing"
    "r1 \<in> set (session_rows session m1)"
  shows "\<exists>r0 t. r0 \<in> set m \<and> cl_call_id r0 = cl_call_id r1 \<and> cl_purged_at_ms r1 = Some t \<and>
    (cl_purged_at_ms r0 = Some t \<or> cl_purged_at_ms r0 = None \<and> t \<in> range (sw_clock sw))"
proof -
  from assms(2) have d: "distinct (map cl_call_id m)" "list_all row_ok m" by (simp_all add: manifest_ok_def)
  from sweep_effect [OF assms(1) d(1)] obtain t S where S: "S = {r \<in> set m. candidate r \<and> purgeable sw days r}"
    and m1: "m1 = map (\<lambda>r. if r \<in> S then tomb (t r) r else r) m" and t: "\<forall>r\<in>S. t r \<in> range (sw_clock sw)"
    by auto
  from assms(7) m1 obtain r where r: "r \<in> set m" "r1 = (if r \<in> S then tomb (t r) r else r)"
    "cl_lens_session_id r1 = session" "cl_status r1 = ''ok''" by (auto simp: set_session_rows)
  then have s: "cl_lens_session_id r = session" "cl_status r = ''ok''" by (auto simp: tomb_def split: if_splits)
  have due: "r \<in> S" if "candidate r"
  proof -
    from that obtain path where p: "cl_snapshot_ref r = Some path" "cl_purged_at_ms r = None" by (auto simp: candidate_def)
    have "sw_remove sw path = Removed \<or> sw_remove sw path = Missing" using assms(6) r(1) s(1) p(1) by blast
    with p s assms(3-5) have "due_for_purge sw days r"
      unfolding due_for_purge_def s(1) by (intro conjI exI [of _ path] exI [of _ ms]) assumption+
    then show ?thesis unfolding S due_iff using r(1) by simp
  qed
  have "candidate r \<or> cl_purged_at_ms r \<noteq> None" using d(2) r(1) s(2) by (auto simp: list_all_iff row_ok_def candidate_def)
  then consider "r \<in> S" | u where "r \<notin> S" "cl_purged_at_ms r = Some u" using due by auto
  then show ?thesis
  proof cases
    case 1
    then have "cl_purged_at_ms r = None" by (auto simp: S candidate_def)
    with 1 r(1,2) t show ?thesis by (intro exI [of _ r] exI [of _ "t r"]) (simp add: tomb_def)
  next
    case 2
    with r(1,2) show ?thesis by (intro exI [of _ r] exI [of _ u]) simp
  qed
qed

text \<open>
  C12: manifest, sweep and replay together. Whatever calls and sweeps made the manifest, once a purge sweep
  completes in which a session is past its retention and its files could be removed, a replay of that
  session is refused before any file is read, and the refusal carries the purge time that the first row of the session has
  on record: the one it had before the sweep, or the one this sweep read off its clock.
\<close>

theorem replay_after_purge_is_refused:
  assumes "reachable_manifest m" "sweep_expired_snapshots sw days Purge (Some m) = (Inr rep, Some m1)"
    "sw_ulid sw session = Some ms" "int ms \<le> 9223372036854775807"
    "min 9223372036854775807 (int days * 86400000) < max (- 9223372036854775808) (min 9223372036854775807 (sw_now sw - int ms))"
    "\<forall>r\<in>set m. \<forall>path. cl_lens_session_id r = session \<and> cl_snapshot_ref r = Some path \<longrightarrow> sw_remove sw path = Removed \<or> sw_remove sw path = Missing"
    "session_rows session m \<noteq> []" "rp_open env = None" "default_pipeline (rp_gaze env) = Inr p" "\<forall>r. rp_row env r = None"
  shows "\<exists>r rs r0 t. session_rows session m1 = r # rs \<and> r0 \<in> set m \<and> cl_call_id r0 = cl_call_id r \<and> cl_purged_at_ms r = Some t \<and>
    (cl_purged_at_ms r0 = Some t \<or> cl_purged_at_ms r0 = None \<and> t \<in> range (sw_clock sw)) \<and>
    restore_whole_session env m1 session keep = Inl (SnapshotPurged session t (format_iso8601_ms env t) keep)"
proof -
  note ok = reachable_manifest_ok [OF assms(1)]
  have "distinct (map cl_call_id m)" using ok by (simp add: manifest_ok_def)
  from sweep_effect [OF assms(2) this] obtain t S where "Some m1 = Some (map (\<lambda>r. if r \<in> S then tomb (t r) r else r) m)" by blast
  then have "m1 = map (\<lambda>r. if r \<in> S then tomb (t r) r else r) m" by simp
  moreover obtain x where "x \<in> set m" "cl_lens_session_id x = session" "cl_status x = ''ok''"
    using assms(7) set_session_rows [of session m] last_in_set [OF assms(7)] by blast
  ultimately have "(if x \<in> S then tomb (t x) x else x) \<in> set (session_rows session m1)" by (auto simp: set_session_rows tomb_def)
  then obtain r rs where rs: "session_rows session m1 = r # rs" by (cases "session_rows session m1") auto
  then have "r \<in> set (session_rows session m1)" by simp
  from sweep_purges_session [OF assms(2) ok assms(3-6) this] obtain r0 u where
    r: "r0 \<in> set m" "cl_call_id r0 = cl_call_id r" "cl_purged_at_ms r = Some u"
      "cl_purged_at_ms r0 = Some u \<or> cl_purged_at_ms r0 = None \<and> u \<in> range (sw_clock sw)" by blast
  from replay_purged [OF assms(8-10) rs r(3)] rs r show ?thesis by blast
qed

definition demo_manifest_env :: ManifestEnv where
  "demo_manifest_env =
     \<lparr>mv_session = ''old'', mv_path = ''m'', mv_now = 1000, mv_args = Inr, mv_summary = (\<lambda>_. Inr ''{}''), mv_db = None,
      mv_conflict = ''UNIQUE'', mv_debug = concat\<rparr>"

definition demo_manifest :: "CallRow list" where
  "demo_manifest =
     snd (finish_call demo_manifest_env ''1'' \<lparr>rs_rows = 0, rs_bytes = 2, rs_truncated_at = []\<rparr> ''f''
       (snd (begin_call demo_manifest_env demo_query_call ''{}'' [])))"

definition demo_replay :: "unit ReplayEnv" where
  "demo_replay =
     \<lparr>rp_open = None, rp_gaze = \<lparr>gl_emails = None, gl_ner = (\<lambda>_ _. None), gl_regex = (\<lambda>_. None), gl_build = None\<rparr>, rp_row = (\<lambda>_. None), rp_read = (\<lambda>_. Inl ''gone''), rp_import = (\<lambda>_. Inl ''bad''),
      rp_args = (\<lambda>_. Inl ''bad''), rp_restore = (\<lambda>_ _ _. Inl ''bad''), rp_rfc3339 = (\<lambda>_ _. None)\<rparr>"

lemma demo_manifest_reachable: "reachable_manifest demo_manifest"
  unfolding demo_manifest_def
proof (rule Step [OF Step [OF Fresh Begin] Finish])
  show "open_call ''1'' (snd (begin_call demo_manifest_env demo_query_call ''{}'' []))" by code_simp
qed

text \<open>The replay is refused with the first reading of the sweep's clock.\<close>

theorem replay_after_purge_is_refused_witness:
  "restore_whole_session demo_replay (the (snd (sweep_expired_snapshots demo_sweep 1 Purge (Some demo_manifest)))) ''old'' 1 =
     Inl (SnapshotPurged ''old'' 200000001 (format_iso8601_ms demo_replay 200000001) 1)"
proof -
  let ?run = "sweep_expired_snapshots demo_sweep 1 Purge (Some demo_manifest)"
  have "\<not> Option.is_none (snd ?run)" "isl (fst ?run) = False" by code_simp+
  then obtain rep m1 where s: "?run = (Inr rep, Some m1)" by (cases ?run; cases "fst ?run"; cases "snd ?run") auto
  have "sw_ulid demo_sweep ''old'' = Some 1000" "session_rows ''old'' demo_manifest \<noteq> []" by code_simp+
  moreover have "min 9223372036854775807 (int 1 * 86400000) <
      max (- 9223372036854775808) (min 9223372036854775807 (sw_now demo_sweep - int 1000))" "int 1000 \<le> 9223372036854775807"
    by (simp_all add: demo_sweep_def)
  moreover have "\<forall>r\<in>set demo_manifest. \<forall>path. cl_lens_session_id r = ''old'' \<and> cl_snapshot_ref r = Some path \<longrightarrow>
      sw_remove demo_sweep path = Removed \<or> sw_remove demo_sweep path = Missing" "\<forall>r. rp_row demo_replay r = None"
    "rp_open demo_replay = None" "default_pipeline (rp_gaze demo_replay) = Inr \<lparr>pl_detectors = [EmailDetector], pl_rules = [ClassRuleOf EmailClass Tokenize, DefaultRuleOf Preserve]\<rparr>"
    by (simp_all add: demo_sweep_def demo_replay_def default_pipeline_def)
  ultimately have "\<exists>r rs r0 t. session_rows ''old'' m1 = r # rs \<and> r0 \<in> set demo_manifest \<and> cl_call_id r0 = cl_call_id r \<and> cl_purged_at_ms r = Some t \<and>
    (cl_purged_at_ms r0 = Some t \<or> cl_purged_at_ms r0 = None \<and> t \<in> range (sw_clock demo_sweep)) \<and>
    restore_whole_session demo_replay m1 ''old'' 1 = Inl (SnapshotPurged ''old'' t (format_iso8601_ms demo_replay t) 1)"
    by (intro replay_after_purge_is_refused [OF demo_manifest_reachable s, of "''old''" 1000])
  then obtain r rs t where r: "session_rows ''old'' m1 = r # rs" "cl_purged_at_ms r = Some t"
    "restore_whole_session demo_replay m1 ''old'' 1 = Inl (SnapshotPurged ''old'' t (format_iso8601_ms demo_replay t) 1)" by blast
  have "map cl_purged_at_ms (session_rows ''old'' (the (snd ?run))) = [Some 200000001]" by code_simp
  with r(1,2) s have "t = 200000001" by simp
  with r(3) s show ?thesis by simp
qed

end
