(* ===== verification/Db_Adapters.thy ===== *)
theory Db_Adapters
  imports Session_Dispatch Schema_Tokenizer
begin

text \<open>
  The three database adapters, \<^verbatim>\<open>src/source/db/mysql.rs\<close>, \<^verbatim>\<open>postgres.rs\<close> and \<^verbatim>\<open>sqlite.rs\<close>: listing tables,
  reading a schema, running a canned query and decoding its rows. The driver sqlx, the crate time and serde
  are outside the repository: the record \<open>DbLib\<close> holds the operations of theirs that the adapters and
  \<^verbatim>\<open>Db_Source\<close> use. A fetch acts on the world \<open>'w\<close>; one that does not end in time is \<^const>\<open>None\<close>.
\<close>

unbundle bit_operations_syntax

section \<open>Effects\<close>

definition e_of :: "LensError + 'a \<Rightarrow> ('w, 'a) effect" where
  "e_of r w = (Some r, w)"

definition e_bind :: "('w, 'a) effect \<Rightarrow> ('a \<Rightarrow> ('w, 'b) effect) \<Rightarrow> ('w, 'b) effect" where
  "e_bind m f w =
     (case m w of
        (Some (Inr x), w1) \<Rightarrow> f x w1
      | (Some (Inl e), w1) \<Rightarrow> (Some (Inl e), w1)
      | (None, w1) \<Rightarrow> (None, w1))"

text \<open>An operation of the driver, its error turned into one of the program.\<close>

definition e_driver :: "(bytes \<Rightarrow> LensError) \<Rightarrow> ('w \<Rightarrow> (bytes + 'a) option \<times> 'w) \<Rightarrow> ('w, 'a) effect" where
  "e_driver err op w =
     (case op w of
        (Some (Inr x), w1) \<Rightarrow> (Some (Inr x), w1)
      | (Some (Inl d), w1) \<Rightarrow> (Some (Inl (err d)), w1)
      | (None, w1) \<Rightarrow> (None, w1))"

text \<open>\<^verbatim>\<open>collect::<Result<Vec<_>, _>>()\<close>.\<close>

fun collect_results :: "('a \<Rightarrow> 'e + 'b) \<Rightarrow> 'a list \<Rightarrow> 'e + 'b list" where
  "collect_results f [] = Inr []"
| "collect_results f (x # xs) = and_then (f x) (\<lambda>y. and_then (collect_results f xs) (\<lambda>ys. Inr (y # ys)))"

section \<open>The libraries\<close>

text \<open>Dates and times of the crate time: year, month, day; hour, minute, second, nanosecond; and an offset in seconds.\<close>

type_synonym Date = "int \<times> nat \<times> nat"
type_synonym Time = "nat \<times> nat \<times> nat \<times> nat"
type_synonym OffsetDateTime = "(Date \<times> Time) \<times> int"

text \<open>\<^verbatim>\<open>BigDecimal\<close>: its text, and its digits and scale.\<close>

record BigDecimal =
  bd_text :: bytes
  bd_mantissa :: int
  bd_scale :: int

text \<open>
  A cell of a fetched row: the name and type of its column, \<^verbatim>\<open>try_get_raw\<close> (the type of the value, or
  \<^const>\<open>None\<close> for a null) and \<^verbatim>\<open>try_get\<close> at each type the adapters ask for; an error is its text.
\<close>

record Cell =
  ce_name :: bytes
  ce_column_type :: bytes
  ce_raw :: "bytes + bytes option"
  ce_bool :: "bytes + bool"
  ce_i64 :: "bytes + int"
  ce_u64 :: "bytes + nat"
  ce_f64 :: "bytes + 64 word"
  ce_string :: "bytes + bytes"
  ce_bytes :: "bytes + 8 word list"
  ce_decimal :: "bytes + BigDecimal"
  ce_date :: "bytes + Date"
  ce_time :: "bytes + Time"
  ce_primitive :: "bytes + Date \<times> Time"
  ce_offset :: "bytes + OffsetDateTime"
  ce_uuid :: "bytes + bytes"
  ce_json :: "bytes + bytes Json"

text \<open>A statement: its text and the values bound to it.\<close>

type_synonym Statement = "bytes \<times> QueryValue list"

datatype ConnectOptions = NetOptions Dialect bytes nat bytes bytes bytes | FileOptions bytes bool

text \<open>
  \<^verbatim>\<open>query_as\<close> at a column of names, at the three columns of an information schema and at the six of
  \<^verbatim>\<open>PRAGMA table_info\<close>; \<^verbatim>\<open>query\<close>; opening a pool; \<^verbatim>\<open>execute\<close>; running \<^verbatim>\<open>ssh\<close> (its exit or the error of
  the spawn) and what else the tunnel asks of the system; formatting and parsing of values;
  deserialising arguments; printing a JSON string.
\<close>

record 'w DbLib =
  dl_names :: "Statement \<Rightarrow> 'w \<Rightarrow> (bytes + bytes list) option \<times> 'w"
  dl_columns :: "Statement \<Rightarrow> 'w \<Rightarrow> (bytes + (bytes \<times> bytes \<times> bytes) list) option \<times> 'w"
  dl_pragma :: "Statement \<Rightarrow> 'w \<Rightarrow> (bytes + (int \<times> bytes \<times> bytes \<times> int \<times> bytes option \<times> int) list) option \<times> 'w"
  dl_rows :: "Statement \<Rightarrow> 'w \<Rightarrow> (bytes + Cell list list) option \<times> 'w"
  dl_connect :: "ConnectOptions \<Rightarrow> 'w \<Rightarrow> (bytes + unit) option \<times> 'w"
  dl_execute :: "Statement \<Rightarrow> 'w \<Rightarrow> (bytes + unit) option \<times> 'w"
  dl_ssh :: "bytes list \<Rightarrow> 'w \<Rightarrow> (bytes + bool \<times> bytes) \<times> 'w"
  dl_listening_pid :: "nat \<Rightarrow> 'w \<Rightarrow> nat option \<times> 'w"
  dl_remove :: "bytes \<Rightarrow> 'w \<Rightarrow> (bytes + unit) \<times> 'w"
  dl_control_path :: "nat \<Rightarrow> bytes"
  dl_sqlite_uri :: "bytes \<Rightarrow> bytes + bytes"
  dl_rfc3339 :: "OffsetDateTime \<Rightarrow> bytes + bytes"
  dl_reformat :: "bytes \<Rightarrow> bytes option"
  dl_decode_text :: "bytes \<Rightarrow> bytes"
  dl_f64_text :: "64 word \<Rightarrow> bytes"
  dl_parse_json :: "bytes \<Rightarrow> bytes + bytes Json"
  dl_to_query :: "bytes Json \<Rightarrow> bytes + CannedQuery"
  dl_to_table :: "bytes Json \<Rightarrow> bytes + bytes"
  dl_quote :: "bytes \<Rightarrow> bytes"

section \<open>The adapters\<close>

record MysqlAdapter =
  my_profile_name :: bytes
  my_database :: bytes
  my_limit_cap :: nat

record PostgresAdapter =
  pg_profile_name :: bytes
  pg_limit_cap :: nat

record SqliteAdapter =
  sq_profile_name :: bytes
  sq_limit_cap :: nat
  sq_json_text_columns :: "bytes list"

text \<open>The objects behind the trait \<^verbatim>\<open>DbSource\<close>.\<close>

datatype DbAdapter = MysqlDb MysqlAdapter | PostgresDb PostgresAdapter | SqliteDb SqliteAdapter

definition adapter_kind :: "DbAdapter \<Rightarrow> Dialect" where
  "adapter_kind a = (case a of MysqlDb _ \<Rightarrow> Mysql | PostgresDb _ \<Rightarrow> Postgres | SqliteDb _ \<Rightarrow> Sqlite)"

definition adapter_name :: "DbAdapter \<Rightarrow> bytes" where
  "adapter_name a = (case a of MysqlDb m \<Rightarrow> my_profile_name m | PostgresDb p \<Rightarrow> pg_profile_name p | SqliteDb s \<Rightarrow> sq_profile_name s)"

definition adapter_cap :: "DbAdapter \<Rightarrow> nat" where
  "adapter_cap a = (case a of MysqlDb m \<Rightarrow> my_limit_cap m | PostgresDb p \<Rightarrow> pg_limit_cap p | SqliteDb s \<Rightarrow> sq_limit_cap s)"

definition source_error :: "bytes \<Rightarrow> bytes \<Rightarrow> bytes option \<Rightarrow> LensError" where
  "source_error source_name detail stmt = SourceError source_name detail stmt None"

section \<open>Error texts\<close>

definition op_debug :: "WhereOp \<Rightarrow> bytes" where
  "op_debug op =
     (case op of OpEq \<Rightarrow> ''Eq'' | OpNe \<Rightarrow> ''Ne'' | OpGt \<Rightarrow> ''Gt'' | OpGte \<Rightarrow> ''Gte'' | OpLt \<Rightarrow> ''Lt'' | OpLte \<Rightarrow> ''Lte''
      | OpIn \<Rightarrow> ''In'' | OpLike \<Rightarrow> ''Like'' | OpIsNull \<Rightarrow> ''IsNull'' | OpIsNotNull \<Rightarrow> ''IsNotNull'')"

definition ticked :: "bytes \<Rightarrow> bytes" where
  "ticked s = ''`'' @ s @ ''`''"

fun query_error_text :: "QueryError \<Rightarrow> bytes" where
  "query_error_text (TableMismatch q s) = ''query table '' @ ticked q @ '' does not match schema table '' @ ticked s"
| "query_error_text (UnknownColumn c) = ''unknown column '' @ ticked c"
| "query_error_text (DisallowedColumn c) = ''column '' @ ticked c @ '' is not allowed by schema policy''"
| "query_error_text (OperatorTypeMismatch c op ty) =
     ''operator '' @ ticked (op_debug op) @ '' cannot be used with column '' @ ticked c @ '' of type '' @ ticked ty"
| "query_error_text (OperatorRequiresList op) = ''operator '' @ ticked (op_debug op) @ '' requires a list value''"
| "query_error_text (OperatorRequiresScalar op) = ''operator '' @ ticked (op_debug op) @ '' requires a scalar value''"
| "query_error_text (OperatorRequiresNoValue op) = ''operator '' @ ticked (op_debug op) @ '' requires no value''"
| "query_error_text (OperatorRequiresValue op) = ''operator '' @ ticked (op_debug op) @ '' requires a value''"
| "query_error_text (LimitExceedsCap r c) = ''query limit '' @ nat_to_string r @ '' exceeds source row cap '' @ nat_to_string c"
| "query_error_text (UnsafeColumn c) = ''unsafe column identifier '' @ ticked c"

section \<open>Metadata\<close>

text \<open>The fixed statements, with their line breaks.\<close>

definition sql_lines :: "bytes list \<Rightarrow> bytes" where
  "sql_lines ls = newline # join [newline] ls"

definition sqlite_tables_sql :: bytes where
  "sqlite_tables_sql = ''SELECT name FROM sqlite_master WHERE type = '' @ [CHR 0x27] @ ''table'' @ [CHR 0x27] @ '' ORDER BY name''"

definition mysql_tables_sql :: bytes where
  "mysql_tables_sql = sql_lines
     [''            SELECT CAST(TABLE_NAME AS CHAR) AS table_name'',
      ''            FROM information_schema.TABLES'',
      ''            WHERE TABLE_SCHEMA = ?'',
      ''            ORDER BY TABLE_NAME'',
      ''            '']"

definition postgres_tables_sql :: bytes where
  "postgres_tables_sql = sql_lines
     [''            SELECT table_name'',
      ''            FROM information_schema.tables'',
      ''            WHERE table_schema = current_schema()'',
      ''              AND table_type = '' @ [CHR 0x27] @ ''BASE TABLE'' @ [CHR 0x27],
      ''            ORDER BY table_name'',
      ''            '']"

definition mysql_columns_sql :: bytes where
  "mysql_columns_sql = sql_lines
     [''            SELECT'',
      ''                CAST(COLUMN_NAME AS CHAR) AS column_name,'',
      ''                CAST(DATA_TYPE AS CHAR) AS data_type,'',
      ''                CAST(IS_NULLABLE AS CHAR) AS is_nullable'',
      ''            FROM information_schema.COLUMNS'',
      ''            WHERE TABLE_SCHEMA = ? AND TABLE_NAME = ?'',
      ''            ORDER BY ORDINAL_POSITION'',
      ''            '']"

definition postgres_columns_sql :: bytes where
  "postgres_columns_sql = sql_lines
     [''            SELECT column_name, data_type, is_nullable'',
      ''            FROM information_schema.columns'',
      ''            WHERE table_schema = current_schema() AND table_name = $1'',
      ''            ORDER BY ordinal_position'',
      ''            '']"

definition sqlite_table_info_sql :: "bytes \<Rightarrow> bytes" where
  "sqlite_table_info_sql table = ''PRAGMA table_info('' @ escape_ident table Sqlite @ '')''"

definition mysql_list_tables :: "'w DbLib \<Rightarrow> MysqlAdapter \<Rightarrow> ('w, bytes list) effect" where
  "mysql_list_tables lib m =
     e_driver (\<lambda>d. source_error (my_profile_name m) d None) (dl_names lib (mysql_tables_sql, [QString (my_database m)]))"

definition postgres_list_tables :: "'w DbLib \<Rightarrow> PostgresAdapter \<Rightarrow> ('w, bytes list) effect" where
  "postgres_list_tables lib p = e_driver (\<lambda>d. source_error (pg_profile_name p) d None) (dl_names lib (postgres_tables_sql, []))"

definition sqlite_list_tables :: "'w DbLib \<Rightarrow> SqliteAdapter \<Rightarrow> ('w, bytes list) effect" where
  "sqlite_list_tables lib s = e_driver (\<lambda>d. source_error (sq_profile_name s) d None) (dl_names lib (sqlite_tables_sql, []))"

text \<open>A schema of the columns of a table; a table without columns is unknown.\<close>

definition column_info :: "bytes \<Rightarrow> bytes \<Rightarrow> bool \<Rightarrow> ColumnInfo" where
  "column_info name data_type nullable =
     \<lparr>ci_name = name, ci_name_token = name, ci_data_type = data_type, ci_nullable = nullable, ci_allowed = True\<rparr>"

definition table_schema :: "bytes \<Rightarrow> bytes \<Rightarrow> nat \<Rightarrow> ColumnInfo list \<Rightarrow> LensError + TableSchema" where
  "table_schema profile_name table limit_cap cols =
     (if cols = [] then Inl (source_error profile_name (''unknown table '' @ ticked table) None)
      else Inr \<lparr>ts_table = table, ts_table_token = table, ts_columns = cols, ts_limit_cap = Some limit_cap\<rparr>)"

definition mysql_schema :: "'w DbLib \<Rightarrow> MysqlAdapter \<Rightarrow> bytes \<Rightarrow> ('w, TableSchema) effect" where
  "mysql_schema lib m table =
     e_bind (e_driver (\<lambda>d. source_error (my_profile_name m) d None) (dl_columns lib (mysql_columns_sql, [QString (my_database m), QString table])))
       (\<lambda>rows. e_of (table_schema (my_profile_name m) table (my_limit_cap m) (map (\<lambda>(n, ty, nl). column_info n ty (nl = ''YES'')) rows)))"

definition postgres_schema :: "'w DbLib \<Rightarrow> PostgresAdapter \<Rightarrow> bytes \<Rightarrow> ('w, TableSchema) effect" where
  "postgres_schema lib p table =
     e_bind (e_driver (\<lambda>d. source_error (pg_profile_name p) d None) (dl_columns lib (postgres_columns_sql, [QString table])))
       (\<lambda>rows. e_of (table_schema (pg_profile_name p) table (pg_limit_cap p) (map (\<lambda>(n, ty, nl). column_info n ty (nl = ''YES'')) rows)))"

definition sqlite_schema :: "'w DbLib \<Rightarrow> SqliteAdapter \<Rightarrow> bytes \<Rightarrow> ('w, TableSchema) effect" where
  "sqlite_schema lib s table =
     (let q = sqlite_table_info_sql table in
      e_bind (e_driver (\<lambda>d. source_error (sq_profile_name s) d (Some q)) (dl_pragma lib (q, [])))
        (\<lambda>rows. e_of (table_schema (sq_profile_name s) table (sq_limit_cap s) (map (\<lambda>(_, n, ty, notnull, _, _). column_info n ty (notnull = 0)) rows))))"

section \<open>Decoding rows\<close>

definition base64_table :: "char list" where
  "base64_table = ''ABCDEFGHIJKLMNOPQRSTUVWXYZabcdefghijklmnopqrstuvwxyz0123456789+/''"

definition table_char :: "8 word \<Rightarrow> char" where
  "table_char w = base64_table ! unat w"

text \<open>The chunks of three bytes; a shorter one is filled with zeros and padded with \<^verbatim>\<open>=\<close>.\<close>

definition sextets :: "8 word \<Rightarrow> 8 word \<Rightarrow> 8 word \<Rightarrow> 8 word list" where
  "sextets b0 b1 b2 = [drop_bit 2 b0, push_bit 4 (b0 AND 3) OR drop_bit 4 b1, push_bit 2 (b1 AND 15) OR drop_bit 6 b2, b2 AND 63]"

definition chunk_text :: "nat \<Rightarrow> 8 word \<Rightarrow> 8 word \<Rightarrow> 8 word \<Rightarrow> bytes" where
  "chunk_text len b0 b1 b2 = map table_char (take (Suc len) (sextets b0 b1 b2)) @ replicate (3 - len) (CHR ''='')"

fun base64_encode :: "8 word list \<Rightarrow> bytes" where
  "base64_encode [] = []"
| "base64_encode [b0] = chunk_text 1 b0 0 0"
| "base64_encode [b0, b1] = chunk_text 2 b0 b1 0"
| "base64_encode (b0 # b1 # b2 # bs) = chunk_text 3 b0 b1 b2 @ base64_encode bs"

definition bytes_value :: "8 word list \<Rightarrow> LensValue" where
  "bytes_value bs = VBytes (base64_encode bs) (length bs)"

definition cell_error :: "bytes \<Rightarrow> bytes \<Rightarrow> bytes \<Rightarrow> LensError" where
  "cell_error kind ty err = ConvertError (Decode kind (ty @ '': '' @ err))"

text \<open>A value read at one type, or the error of the read.\<close>

definition got :: "bytes \<Rightarrow> bytes \<Rightarrow> bytes + 'a \<Rightarrow> ('a \<Rightarrow> LensValue) \<Rightarrow> LensError + LensValue" where
  "got kind ty r mk = (case r of Inl e \<Rightarrow> Inl (cell_error kind ty e) | Inr x \<Rightarrow> Inr (mk x))"

text \<open>A date or time read and formatted; a failing format is wrapped as a decoding error of the driver.\<close>

definition formatted :: "'w DbLib \<Rightarrow> bytes + 'a \<Rightarrow> ('a \<Rightarrow> OffsetDateTime) \<Rightarrow> bytes + bytes" where
  "formatted lib r to_offset =
     and_then r (\<lambda>x. case dl_rfc3339 lib (to_offset x) of Inl e \<Rightarrow> Inl (dl_decode_text lib e) | Inr s \<Rightarrow> Inr s)"

definition midnight :: Time where
  "midnight = (0, 0, 0, 0)"

definition assume_utc :: "Date \<times> Time \<Rightarrow> OffsetDateTime" where
  "assume_utc p = (p, 0)"

definition decimal_precision :: "bytes \<Rightarrow> nat" where
  "decimal_precision s = min (length (filter is_ascii_digit s)) 255"

definition decimal_scale :: "bytes \<Rightarrow> nat" where
  "decimal_scale s =
     min (case split_once (CHR ''.'') s of Some (_, scale) \<Rightarrow> length (takeWhile is_ascii_digit scale) | None \<Rightarrow> 0) 255"

definition decimal_value :: "BigDecimal \<Rightarrow> LensValue" where
  "decimal_value d =
     VDecimal (bd_text d)
       (min (length (filter is_ascii_digit (dropWhile (\<lambda>c. c = CHR ''-'') (int_to_string (bd_mantissa d))))) 255)
       (min (nat (bd_scale d)) 255)"

definition mysql_decode_value :: "'w DbLib \<Rightarrow> Cell \<Rightarrow> LensError + LensValue" where
  "mysql_decode_value lib c =
     (let ty = ce_column_type c; upper = to_ascii_uppercase ty in
      case ce_raw c of
        Inl e \<Rightarrow> Inl (cell_error ''mysql'' ty e)
      | Inr None \<Rightarrow> Inr VNull
      | Inr (Some _) \<Rightarrow>
          if upper \<in> {''BOOL'', ''BOOLEAN'', ''TINYINT(1)''} then got ''mysql'' ty (ce_bool c) VBool
          else if upper \<in> {''TINYINT'', ''SMALLINT'', ''MEDIUMINT'', ''INT'', ''INTEGER'', ''BIGINT''} then got ''mysql'' ty (ce_i64 c) VI64
          else if upper \<in> {''TINYINT UNSIGNED'', ''SMALLINT UNSIGNED'', ''MEDIUMINT UNSIGNED'', ''INT UNSIGNED'',
              ''INTEGER UNSIGNED'', ''BIGINT UNSIGNED''} then got ''mysql'' ty (ce_u64 c) VU64
          else if upper \<in> {''FLOAT'', ''DOUBLE''} then got ''mysql'' ty (ce_f64 c) VF64
          else if upper \<in> {''DECIMAL'', ''NUMERIC''}
            then got ''mysql'' ty (ce_string c) (\<lambda>s. VDecimal s (decimal_precision s) (decimal_scale s))
          else if upper \<in> {''CHAR'', ''VARCHAR'', ''TEXT'', ''TINYTEXT'', ''MEDIUMTEXT'', ''LONGTEXT''} then got ''mysql'' ty (ce_string c) VString
          else if upper \<in> {''BINARY'', ''VARBINARY'', ''BLOB'', ''TINYBLOB'', ''MEDIUMBLOB'', ''LONGBLOB''} then got ''mysql'' ty (ce_bytes c) bytes_value
          else if upper = ''DATE'' then got ''mysql'' ty (formatted lib (ce_date c) (\<lambda>d. assume_utc (d, midnight))) VDateTime
          else if upper = ''DATETIME'' then got ''mysql'' ty (formatted lib (ce_primitive c) assume_utc) VDateTime
          else if upper = ''TIMESTAMP'' then got ''mysql'' ty (formatted lib (ce_offset c) id) VDateTime
          else if upper = ''JSON'' then got ''mysql'' ty (ce_json c) VJson
          else Inl (ConvertError (Unsupported upper)))"

definition eq_ignore_ascii_case :: "bytes \<Rightarrow> bytes \<Rightarrow> bool" where
  "eq_ignore_ascii_case s t \<longleftrightarrow> to_ascii_lowercase s = to_ascii_lowercase t"

definition postgres_decode_value :: "'w DbLib \<Rightarrow> Cell \<Rightarrow> bytes \<Rightarrow> LensError + LensValue" where
  "postgres_decode_value lib c declared_ty =
     (let ty = ce_column_type c; upper = to_ascii_uppercase ty in
      case ce_raw c of
        Inl e \<Rightarrow> Inl (cell_error ''postgres'' ty e)
      | Inr None \<Rightarrow> Inr VNull
      | Inr (Some _) \<Rightarrow>
          if starts_with upper ''_'' \<or> eq_ignore_ascii_case declared_ty ''ARRAY'' then Inl (ConvertError (Unsupported ''array''))
          else if upper = ''BOOL'' then got ''postgres'' ty (ce_bool c) VBool
          else if upper \<in> {''INT2'', ''INT4'', ''INT8''} then got ''postgres'' ty (ce_i64 c) VI64
          else if upper \<in> {''FLOAT4'', ''FLOAT8''} then got ''postgres'' ty (ce_f64 c) VF64
          else if upper = ''NUMERIC'' then got ''postgres'' ty (ce_decimal c) decimal_value
          else if upper \<in> {''VARCHAR'', ''TEXT'', ''BPCHAR'', ''CHAR'', ''NAME''} then got ''postgres'' ty (ce_string c) VString
          else if upper = ''BYTEA'' then got ''postgres'' ty (ce_bytes c) bytes_value
          else if upper = ''DATE'' then got ''postgres'' ty (formatted lib (ce_date c) (\<lambda>d. assume_utc (d, midnight))) VDateTime
          else if upper = ''TIME'' then got ''postgres'' ty (formatted lib (ce_time c) (\<lambda>t. assume_utc ((1970, 1, 1), t))) VDateTime
          else if upper = ''TIMESTAMP'' then got ''postgres'' ty (formatted lib (ce_primitive c) assume_utc) VDateTime
          else if upper = ''TIMESTAMPTZ'' then got ''postgres'' ty (formatted lib (ce_offset c) id) VDateTime
          else if upper = ''UUID'' then got ''postgres'' ty (ce_uuid c) VUuid
          else if upper \<in> {''JSON'', ''JSONB''} then got ''postgres'' ty (ce_json c) VJson
          else if eq_ignore_ascii_case declared_ty ''USER-DEFINED'' then got ''postgres'' ty (ce_string c) VString
          else Inl (ConvertError (Unsupported upper)))"

definition is_datetime_declared :: "bytes \<Rightarrow> bool" where
  "is_datetime_declared up \<longleftrightarrow> contains_text up ''DATE'' \<or> contains_text up ''TIME'' \<or> contains_text up ''TIMESTAMP''"

text \<open>A value of a column declared as a date or time that reads as one; \<open>v\<close> is the value otherwise.\<close>

definition datetime_or :: "'w DbLib \<Rightarrow> bytes \<Rightarrow> bytes \<Rightarrow> LensError + LensValue \<Rightarrow> LensError + LensValue" where
  "datetime_or lib up text v =
     (if is_datetime_declared up then (case dl_reformat lib text of Some s \<Rightarrow> Inr (VDateTime s) | None \<Rightarrow> v) else v)"

definition sqlite_integer :: "'w DbLib \<Rightarrow> bytes \<Rightarrow> int \<Rightarrow> LensError + LensValue" where
  "sqlite_integer lib up n =
     (if contains_text up ''BOOL''
      then Inr (if n = 0 then VBool False else if n = 1 then VBool True else VI64 n)
      else datetime_or lib up (int_to_string n) (Inr (VI64 n)))"

definition sqlite_text :: "'w DbLib \<Rightarrow> bytes \<Rightarrow> bool \<Rightarrow> bytes \<Rightarrow> LensError + LensValue" where
  "sqlite_text lib up is_json s =
     datetime_or lib up s (if is_json then got ''sqlite'' ''TEXT json'' (dl_parse_json lib s) VJson else Inr (VString s))"

definition sqlite_decode_value :: "'w DbLib \<Rightarrow> Cell \<Rightarrow> bytes \<Rightarrow> bytes \<Rightarrow> bytes list \<Rightarrow> LensError + LensValue" where
  "sqlite_decode_value lib c table_name declared_ty json_text_columns =
     (case ce_raw c of
        Inl e \<Rightarrow> Inl (cell_error ''sqlite'' ''sqlite'' e)
      | Inr None \<Rightarrow> Inr VNull
      | Inr (Some raw_ty) \<Rightarrow>
          (let runtime_ty = to_ascii_uppercase raw_ty; up = to_ascii_uppercase declared_ty;
               error = (\<lambda>e. Inl (cell_error ''sqlite'' runtime_ty e))
           in if runtime_ty = ''INTEGER'' then (case ce_i64 c of Inl e \<Rightarrow> error e | Inr n \<Rightarrow> sqlite_integer lib up n)
              else if runtime_ty = ''REAL''
                then (case ce_f64 c of Inl e \<Rightarrow> error e | Inr x \<Rightarrow> datetime_or lib up (dl_f64_text lib x) (Inr (VF64 x)))
              else if runtime_ty = ''TEXT''
                then (case ce_string c of Inl e \<Rightarrow> error e
                      | Inr s \<Rightarrow> sqlite_text lib up (table_name @ ''.'' @ ce_name c \<in> set json_text_columns) s)
              else if runtime_ty = ''BLOB'' then got ''sqlite'' ''BLOB'' (ce_bytes c) bytes_value
              else Inl (ConvertError (Unsupported runtime_ty))))"

text \<open>The loop over the columns of a row, into a \<^verbatim>\<open>BTreeMap\<close>.\<close>

fun row_loop :: "(Cell \<Rightarrow> LensError + LensValue) \<Rightarrow> Cell list \<Rightarrow> LensRow \<Rightarrow> LensError + LensRow" where
  "row_loop decode [] out = Inr out"
| "row_loop decode (c # cs) out = and_then (decode c) (\<lambda>v. row_loop decode cs (map_insert (ce_name c) v out))"

definition declared_type :: "TableSchema \<Rightarrow> bytes \<Rightarrow> bytes option" where
  "declared_type ts name = map_option ci_data_type (List.find (\<lambda>i. ci_name i = name) (ts_columns ts))"

definition mysql_row_to_values :: "'w DbLib \<Rightarrow> Cell list \<Rightarrow> LensError + LensRow" where
  "mysql_row_to_values lib row = row_loop (mysql_decode_value lib) row []"

definition postgres_row_to_values :: "'w DbLib \<Rightarrow> TableSchema \<Rightarrow> Cell list \<Rightarrow> LensError + LensRow" where
  "postgres_row_to_values lib ts row =
     row_loop (\<lambda>c. postgres_decode_value lib c (unwrap_or (declared_type ts (ce_name c)) (ce_column_type c))) row []"

definition sqlite_row_to_values :: "'w DbLib \<Rightarrow> TableSchema \<Rightarrow> bytes list \<Rightarrow> Cell list \<Rightarrow> LensError + LensRow" where
  "sqlite_row_to_values lib ts json_text_columns row =
     row_loop (\<lambda>c. sqlite_decode_value lib c (ts_table ts) (unwrap_or (declared_type ts (ce_name c)) '''') json_text_columns) row []"

section \<open>Queries\<close>

text \<open>MySQL binds every value as it is; the other two have no unsigned integers.\<close>

definition bind_value :: "Dialect \<Rightarrow> QueryValue \<Rightarrow> LensError + QueryValue" where
  "bind_value d v =
     (case v of
        QU64 n \<Rightarrow>
          if d = Mysql then Inr v
          else if n < 2 ^ 63 then Inr (QI64 (int n))
          else Inl (ConvertError (Unsupported ((if d = Postgres then ''postgres'' else ''sqlite'') @ '' unsigned integer bind'')))
      | _ \<Rightarrow> Inr v)"

definition canned_error :: "bytes \<Rightarrow> QueryError \<Rightarrow> LensError" where
  "canned_error profile_name e = source_error profile_name (query_error_text e) (Some ''<canned>'')"

text \<open>The body the three \<^verbatim>\<open>query\<close> methods share: schema, compiled text, binds, rows.\<close>

definition run_query ::
  "'w DbLib \<Rightarrow> Dialect \<Rightarrow> bytes \<Rightarrow> (bytes \<Rightarrow> ('w, TableSchema) effect) \<Rightarrow> (TableSchema \<Rightarrow> Cell list \<Rightarrow> LensError + LensRow) \<Rightarrow>
     CannedQuery \<Rightarrow> ('w, LensRow list) effect" where
  "run_query lib d profile_name read_schema to_values q =
     e_bind (read_schema (cq_table q)) (\<lambda>ts.
       case compile_to_sql_for q ts d of
         Inl e \<Rightarrow> e_of (Inl (canned_error profile_name e))
       | Inr c \<Rightarrow>
           e_bind (e_of (collect_results (bind_value d) (binds c))) (\<lambda>args.
           e_bind (e_driver (\<lambda>e. source_error profile_name e (Some (sql c))) (dl_rows lib (sql c, args))) (\<lambda>rows.
           e_of (collect_results (to_values ts) rows))))"

definition mysql_query :: "'w DbLib \<Rightarrow> MysqlAdapter \<Rightarrow> CannedQuery \<Rightarrow> ('w, LensRow list) effect" where
  "mysql_query lib m = run_query lib Mysql (my_profile_name m) (mysql_schema lib m) (\<lambda>_. mysql_row_to_values lib)"

definition postgres_query :: "'w DbLib \<Rightarrow> PostgresAdapter \<Rightarrow> CannedQuery \<Rightarrow> ('w, LensRow list) effect" where
  "postgres_query lib p = run_query lib Postgres (pg_profile_name p) (postgres_schema lib p) (postgres_row_to_values lib)"

definition sqlite_query :: "'w DbLib \<Rightarrow> SqliteAdapter \<Rightarrow> CannedQuery \<Rightarrow> ('w, LensRow list) effect" where
  "sqlite_query lib s =
     run_query lib Sqlite (sq_profile_name s) (sqlite_schema lib s) (\<lambda>ts. sqlite_row_to_values lib ts (sq_json_text_columns s))"

section \<open>The trait\<close>

definition adapter_list_tables :: "'w DbLib \<Rightarrow> DbAdapter \<Rightarrow> ('w, bytes list) effect" where
  "adapter_list_tables lib a =
     (case a of MysqlDb m \<Rightarrow> mysql_list_tables lib m | PostgresDb p \<Rightarrow> postgres_list_tables lib p | SqliteDb s \<Rightarrow> sqlite_list_tables lib s)"

definition adapter_schema :: "'w DbLib \<Rightarrow> DbAdapter \<Rightarrow> bytes \<Rightarrow> ('w, TableSchema) effect" where
  "adapter_schema lib a =
     (case a of MysqlDb m \<Rightarrow> mysql_schema lib m | PostgresDb p \<Rightarrow> postgres_schema lib p | SqliteDb s \<Rightarrow> sqlite_schema lib s)"

definition adapter_query :: "'w DbLib \<Rightarrow> DbAdapter \<Rightarrow> CannedQuery \<Rightarrow> ('w, LensRow list) effect" where
  "adapter_query lib a =
     (case a of MysqlDb m \<Rightarrow> mysql_query lib m | PostgresDb p \<Rightarrow> postgres_query lib p | SqliteDb s \<Rightarrow> sqlite_query lib s)"

section \<open>Base64 read back\<close>

text \<open>A decoder of the standard alphabet with padding, for the property.\<close>

definition char_table :: "char \<Rightarrow> nat option" where
  "char_table c = map_of (zip base64_table [0..<64]) c"

definition sextet :: "char \<Rightarrow> 8 word option" where
  "sextet c = map_option of_nat (char_table c)"

definition join_sextets :: "8 word \<Rightarrow> 8 word \<Rightarrow> 8 word \<Rightarrow> 8 word \<Rightarrow> 8 word list" where
  "join_sextets v0 v1 v2 v3 =
     [push_bit 2 v0 OR drop_bit 4 v1, push_bit 4 v1 OR drop_bit 2 v2, push_bit 6 v2 OR v3]"

definition pad_sextet :: "char \<Rightarrow> 8 word option" where
  "pad_sextet c = (if c = CHR ''='' then Some 0 else sextet c)"

fun base64_decode :: "bytes \<Rightarrow> 8 word list option" where
  "base64_decode [] = Some []"
| "base64_decode (c0 # c1 # c2 # c3 # cs) =
     (case (sextet c0, sextet c1, pad_sextet c2, pad_sextet c3, base64_decode cs) of
        (Some v0, Some v1, Some v2, Some v3, Some bs) \<Rightarrow>
          Some (take (if c3 \<noteq> CHR ''='' then 3 else if c2 \<noteq> CHR ''='' then 2 else 1) (join_sextets v0 v1 v2 v3) @ bs)
      | _ \<Rightarrow> None)"
| "base64_decode _ = None"

lemma sextet_table: "i < 64 \<Longrightarrow> sextet (base64_table ! i) = Some (of_nat i) \<and> base64_table ! i \<noteq> CHR ''=''"
proof -
  have "list_all (\<lambda>i. char_table (base64_table ! i) = Some i \<and> base64_table ! i \<noteq> CHR ''='') [0..<64]" by code_simp
  then show "i < 64 \<Longrightarrow> sextet (base64_table ! i) = Some (of_nat i) \<and> base64_table ! i \<noteq> CHR ''=''"
    by (simp add: list_all_iff sextet_def)
qed

lemma sextet_char: "w < 64 \<Longrightarrow> sextet (table_char w) = Some w \<and> table_char w \<noteq> CHR ''='' \<and> pad_sextet (table_char w) = Some w"
  using sextet_table [of "unat w"] by (simp add: table_char_def pad_sextet_def word_less_nat_alt)

lemma word8_eqI: "(\<And>n. n \<in> {0, 1, 2, 3, 4, 5, 6, 7} \<Longrightarrow> bit x n = bit y n) \<Longrightarrow> x = (y :: 8 word)"
  by (rule bit_word_eqI) (simp add: less_Suc_eq numeral_eq_Suc)

lemma masks: "(b :: 8 word) AND 3 = take_bit 2 b" "b AND 15 = take_bit 4 b" "b AND 63 = take_bit 6 b"
  by (simp_all add: take_bit_eq_mask mask_eq_exp_minus_1)

lemma six_bits: "take_bit 6 (x :: 8 word) = x \<Longrightarrow> x < 64"
  using and_mask_less' [of 6 x] by (simp add: take_bit_eq_mask)

lemma six_bits_of:
  fixes b0 b1 b2 :: "8 word"
  shows "take_bit 6 (drop_bit 2 b0) = drop_bit 2 b0"
    "take_bit 6 (push_bit 4 (take_bit 2 b0) OR drop_bit 4 b1) = push_bit 4 (take_bit 2 b0) OR drop_bit 4 b1"
    "take_bit 6 (push_bit 2 (take_bit 4 b1) OR drop_bit 6 b2) = push_bit 2 (take_bit 4 b1) OR drop_bit 6 b2"
    "take_bit 6 (take_bit 6 b2) = take_bit 6 b2"
  by (rule bit_word_eqI; auto simp: bit_simps dest: bit_imp_le_length)+

lemma joined_bits:
  fixes b0 b1 b2 :: "8 word"
  shows "push_bit 2 (drop_bit 2 b0) OR drop_bit 4 (push_bit 4 (take_bit 2 b0) OR drop_bit 4 b1) = b0"
    "push_bit 4 (push_bit 4 (take_bit 2 b0) OR drop_bit 4 b1) OR drop_bit 2 (push_bit 2 (take_bit 4 b1) OR drop_bit 6 b2) = b1"
    "push_bit 6 (push_bit 2 (take_bit 4 b1) OR drop_bit 6 b2) OR take_bit 6 b2 = b2"
  by (rule word8_eqI; elim insertE emptyE; hypsubst; simp add: bit_simps)+
lemma sextets_small: "x \<in> set (sextets b0 b1 b2) \<Longrightarrow> x < 64"
  unfolding sextets_def masks
  by (simp only: list.set insert_iff empty_iff) (elim disjE FalseE; hypsubst; rule six_bits; rule six_bits_of)

lemma sextets_join:
  assumes "sextets b0 b1 b2 = [v0, v1, v2, v3]"
  shows "join_sextets v0 v1 v2 v3 = [b0, b1, b2]"
proof -
  from assms have "v0 = drop_bit 2 b0" "v1 = push_bit 4 (take_bit 2 b0) OR drop_bit 4 b1"
      "v2 = push_bit 2 (take_bit 4 b1) OR drop_bit 6 b2" "v3 = take_bit 6 b2"
    by (simp_all only: sextets_def masks list.inject)
  then show ?thesis by (simp only: join_sextets_def joined_bits)
qed

lemma sextets_zero: "sextets b0 0 0 = [v0, v1, v2, v3] \<Longrightarrow> v2 = 0 \<and> v3 = 0" "sextets b0 b1 0 = [v0, v1, v2, v3] \<Longrightarrow> v3 = 0"
  by (simp_all add: sextets_def)

lemma decode_chunk:
  assumes "base64_decode s = Some bs" "n = 1 \<and> b1 = 0 \<and> b2 = 0 \<or> n = 2 \<and> b2 = 0 \<or> n = 3"
  shows "base64_decode (chunk_text n b0 b1 b2 @ s) = Some (take n [b0, b1, b2] @ bs)"
proof -
  obtain v0 v1 v2 v3 where v: "sextets b0 b1 b2 = [v0, v1, v2, v3]" by (simp add: sextets_def)
  have ch: "sextet (table_char x) = Some x" "table_char x \<noteq> CHR ''=''" "pad_sextet (table_char x) = Some x" if "x \<in> {v0, v1, v2, v3}" for x
    using sextet_char [OF sextets_small [of x b0 b1 b2]] that v by auto
  note sx = ch [of v0, simplified] ch [of v1, simplified] ch [of v2, simplified] ch [of v3, simplified]
  have z: "pad_sextet (CHR ''='') = Some 0" by (simp add: pad_sextet_def)
  note facts = assms(1) sx z sextets_join [OF v]
  from assms(2) show ?thesis
  proof (elim disjE conjE)
    assume "n = 1" "b1 = 0" "b2 = 0"
    then show ?thesis using v sextets_zero(1) [of b0 v0 v1 v2 v3] facts by (simp add: chunk_text_def numeral_2_eq_2)
  next
    assume "n = 2" "b2 = 0"
    then show ?thesis using v sextets_zero(2) [of b0 b1 v0 v1 v2 v3] facts by (simp add: chunk_text_def numeral_2_eq_2 numeral_3_eq_3)
  next
    assume "n = 3"
    then show ?thesis using v facts by (simp add: chunk_text_def numeral_3_eq_3)
  qed
qed

lemma decode_encode: "base64_decode (base64_encode bs) = Some bs"
proof (induction bs rule: base64_encode.induct)
  case (2 b0)
  show ?case using decode_chunk [of "[]" "[]" 1 0 0 b0] by simp
next
  case (3 b0 b1)
  show ?case using decode_chunk [of "[]" "[]" 2 b1 0 b0] by simp
next
  case (4 b0 b1 b2 bs)
  then show ?case using decode_chunk [OF 4, of 3 b1 b2 b0] by simp
qed simp

lemma length_base64: "length (base64_encode bs) = 4 * ((length bs + 2) div 3)"
  by (induction bs rule: base64_encode.induct) (simp add: chunk_text_def sextets_def; presburger)+
text \<open>
  The text a blob is shown as decodes to the blob, whatever its length, and has the length of padded
  base64.
\<close>

theorem base64_round_trip: "base64_decode (base64_encode bs) = Some bs \<and> length (base64_encode bs) = 4 * ((length bs + 2) div 3)"
  using decode_encode length_base64 by blast

end
