(* ===== verification/Db_Source.thy ===== *)
theory Db_Source
  imports Db_Adapters Profiles Ssh_Command
begin

text \<open>
  Database sources of the session: the wrapper \<^verbatim>\<open>DbSourceWrapper\<close> of \<^verbatim>\<open>src/source/mod.rs\<close> with the
  presentation of schemas, the plan and the connection of \<^verbatim>\<open>src/source/db/runtime.rs\<close>, and opening and
  closing of the tunnel of \<^verbatim>\<open>src/source/ssh_tunnel.rs\<close>. The statements a source runs are read off a
  library that logs what it is asked.
\<close>

section \<open>The wrapper\<close>

datatype SchemaPresentation = Raw | Tokenized "bytes list option"

record DbSourceWrapper =
  dw_inner :: DbAdapter
  dw_presentation :: SchemaPresentation

definition wrapper_new :: "DbAdapter \<Rightarrow> DbSourceWrapper" where
  "wrapper_new a = \<lparr>dw_inner = a, dw_presentation = Raw\<rparr>"

definition with_schema_presentation :: "DbAdapter \<Rightarrow> SchemaPresentation \<Rightarrow> DbSourceWrapper" where
  "with_schema_presentation a p = \<lparr>dw_inner = a, dw_presentation = p\<rparr>"

text \<open>The tokenizer of a wrapper is part of the state its calls act on, in front of the world.\<close>

type_synonym ('w, 'a) db_effect = "(SchemaTokenizerInner \<times> 'w, 'a) effect"

definition on_world :: "('w, 'a) effect \<Rightarrow> ('w, 'a) db_effect" where
  "on_world m s = (case m (snd s) of (r, w) \<Rightarrow> (r, (fst s, w)))"

definition on_tokenizer :: "(SchemaTokenizerInner \<Rightarrow> 'a \<times> SchemaTokenizerInner) \<Rightarrow> ('w, 'a) db_effect" where
  "on_tokenizer f s = (case f (fst s) of (x, st) \<Rightarrow> (Some (Inr x), (st, snd s)))"

definition present_schema :: "SchemaPresentation \<Rightarrow> TableSchema \<Rightarrow> SchemaTokenizerInner \<Rightarrow> TableSchema \<times> SchemaTokenizerInner" where
  "present_schema p ts st =
     (case p of Raw \<Rightarrow> (ts, st) | Tokenized allowlist \<Rightarrow> tokenize_table_schema st ts allowlist)"

definition present_table_names :: "SchemaPresentation \<Rightarrow> bytes list \<Rightarrow> SchemaTokenizerInner \<Rightarrow> bytes list \<times> SchemaTokenizerInner" where
  "present_table_names p tables st =
     (case p of Raw \<Rightarrow> (tables, st) | Tokenized allowlist \<Rightarrow> tokenize_table_names st tables allowlist)"

text \<open>
  \<^verbatim>\<open>serde_json::to_string\<close> of the derived serializers, which skip the real names and cannot fail on these
  types.
\<close>

definition bool_text :: "bool \<Rightarrow> bytes" where
  "bool_text b = (if b then ''true'' else ''false'')"

definition dq :: "bytes \<Rightarrow> bytes" where
  "dq s = CHR 0x22 # s @ [CHR 0x22]"

definition column_json :: "(bytes \<Rightarrow> bytes) \<Rightarrow> ColumnInfo \<Rightarrow> bytes" where
  "column_json quote c =
     ''{'' @ dq ''name_token'' @ '':'' @ quote (ci_name_token c) @ '','' @ dq ''data_type'' @ '':'' @ quote (ci_data_type c) @ '','' @
     dq ''nullable'' @ '':'' @ bool_text (ci_nullable c) @ '','' @ dq ''allowed'' @ '':'' @ bool_text (ci_allowed c) @ ''}''"

definition schema_json :: "(bytes \<Rightarrow> bytes) \<Rightarrow> TableSchema \<Rightarrow> bytes" where
  "schema_json quote ts =
     ''{'' @ dq ''table_token'' @ '':'' @ quote (ts_table_token ts) @ '','' @
     dq ''columns'' @ '':['' @ join '','' (map (column_json quote) (ts_columns ts)) @ ''],'' @
     dq ''limit_cap'' @ '':'' @ (case ts_limit_cap ts of None \<Rightarrow> ''null'' | Some n \<Rightarrow> nat_to_string n) @ ''}''"

definition names_json :: "(bytes \<Rightarrow> bytes) \<Rightarrow> bytes list \<Rightarrow> bytes" where
  "names_json quote names = ''['' @ join '','' (map quote names) @ '']''"

text \<open>A query without columns gets the allowed columns of the schema.\<close>

definition fill_columns :: "CannedQuery \<Rightarrow> TableSchema \<Rightarrow> CannedQuery" where
  "fill_columns q ts =
     (if cq_columns q = None \<or> cq_columns q = Some [] then q\<lparr>cq_columns := Some (map ci_name (filter ci_allowed (ts_columns ts)))\<rparr> else q)"

definition args_error :: "bytes \<Rightarrow> bytes + 'a \<Rightarrow> LensError + 'a" where
  "args_error tool r = (case r of Inl e \<Rightarrow> Inl (SourceError tool e None None) | Inr x \<Rightarrow> Inr x)"

definition checked_query :: "bytes \<Rightarrow> CannedQuery \<Rightarrow> TableSchema \<Rightarrow> LensError + CannedQuery" where
  "checked_query tool q ts =
     (case compile_to_sql q ts of
        Inl e \<Rightarrow> Inl (SourceError tool (query_error_text e) (Some ''<canned>'') None)
      | Inr _ \<Rightarrow> Inr (fill_columns q ts))"

definition query_tool :: "'w DbLib \<Rightarrow> DbAdapter \<Rightarrow> ToolCall \<Rightarrow> ('w, SourceOutput) effect" where
  "query_tool lib a call =
     e_bind (e_of (args_error (tc_tool_name call) (dl_to_query lib (tc_args call)))) (\<lambda>q.
     e_bind (adapter_schema lib a (cq_table q)) (\<lambda>ts.
     e_bind (e_of (checked_query (tc_tool_name call) q ts)) (\<lambda>q1.
     e_bind (adapter_query lib a q1) (\<lambda>rows. e_of (Inr (RowsOutput rows))))))"

definition schema_tool :: "'w DbLib \<Rightarrow> DbSourceWrapper \<Rightarrow> ToolCall \<Rightarrow> ('w, SourceOutput) db_effect" where
  "schema_tool lib dw call =
     e_bind (e_of (args_error (tc_tool_name call) (dl_to_table lib (tc_args call)))) (\<lambda>table.
     e_bind (on_world (adapter_schema lib (dw_inner dw) table)) (\<lambda>ts.
     e_bind (on_tokenizer (present_schema (dw_presentation dw) ts)) (\<lambda>shown. e_of (Inr (SchemaText (schema_json (dl_quote lib) shown))))))"

definition list_tables_tool :: "'w DbLib \<Rightarrow> DbSourceWrapper \<Rightarrow> ('w, SourceOutput) db_effect" where
  "list_tables_tool lib dw =
     e_bind (on_world (adapter_list_tables lib (dw_inner dw))) (\<lambda>tables.
     e_bind (on_tokenizer (present_table_names (dw_presentation dw) tables)) (\<lambda>shown. e_of (Inr (SchemaText (names_json (dl_quote lib) shown)))))"

definition db_dispatch :: "'w DbLib \<Rightarrow> DbSourceWrapper \<Rightarrow> ToolCall \<Rightarrow> ('w, SourceOutput) db_effect" where
  "db_dispatch lib dw call =
     (if tc_tool_name call = ''query'' then on_world (query_tool lib (dw_inner dw) call)
      else if tc_tool_name call = ''schema'' then schema_tool lib dw call
      else if tc_tool_name call = ''list_tables'' then list_tables_tool lib dw
      else e_of (Inl (SourceError (tc_tool_name call) ''unsupported db source tool'' None None)))"

section \<open>The runtime plan\<close>

record DbRuntimePlan =
  rp_connect_host :: bytes
  rp_connect_port :: nat
  rp_tunnel :: "TunnelSpec option"

definition db_runtime_plan :: "bytes \<Rightarrow> bytes \<Rightarrow> nat \<Rightarrow> bytes option \<Rightarrow> nat option \<Rightarrow> LensError + DbRuntimePlan" where
  "db_runtime_plan name remote_host remote_port ssh_host local_port =
     (case (ssh_host, local_port) of
        (Some h, Some l) \<Rightarrow>
          Inr \<lparr>rp_connect_host = ''127.0.0.1'', rp_connect_port = l,
            rp_tunnel = Some \<lparr>tn_ssh_host = h, tn_local_port = l, tn_remote_host = remote_host, tn_remote_port = remote_port\<rparr>\<rparr>
      | (None, None) \<Rightarrow> Inr \<lparr>rp_connect_host = remote_host, rp_connect_port = remote_port, rp_tunnel = None\<rparr>
      | _ \<Rightarrow> Inl (ProfileError (''profile '' @ ticked name @ '' db tunnel requires both `ssh_host` and `local_port`'')))"

definition not_database :: "bytes \<Rightarrow> LensError" where
  "not_database name = ProfileError (''profile '' @ ticked name @ '' is not a database source'')"

definition spec_plan :: "bytes \<Rightarrow> DbSpec \<Rightarrow> LensError + DbRuntimePlan" where
  "spec_plan name d = db_runtime_plan name (db_host d) (db_port d) (db_ssh_host d) (db_local_port d)"

definition runtime_plan :: "Profile \<Rightarrow> LensError + DbRuntimePlan" where
  "runtime_plan p =
     (case p_source p of
        MysqlSource d \<Rightarrow> spec_plan (p_name p) d
      | PostgresSource d \<Rightarrow> spec_plan (p_name p) d
      | SqliteSource _ _ _ \<Rightarrow> Inr \<lparr>rp_connect_host = [], rp_connect_port = 0, rp_tunnel = None\<rparr>
      | _ \<Rightarrow> Inl (not_database (p_name p)))"

section \<open>The tunnel\<close>

type_synonym SshTunnel = "bytes \<times> bytes"

text \<open>\<^verbatim>\<open>Command::new("ssh").args(..).status()\<close>; a failing exit is explained by who listens on the port.\<close>

definition tunnel_open :: "'w DbLib \<Rightarrow> TunnelSpec \<Rightarrow> 'w \<Rightarrow> (SshError + SshTunnel) \<times> 'w" where
  "tunnel_open lib spec w =
     (let path = dl_control_path lib (tn_local_port spec) in
      case and_then (validate_ssh_login_host (tn_ssh_host spec)) (\<lambda>h. and_then (open_argv spec path) (\<lambda>argv. Inr (h, argv))) of
        Inl e \<Rightarrow> (Inl e, w)
      | Inr (h, argv) \<Rightarrow>
          (case dl_ssh lib argv w of
             (Inl e, w1) \<Rightarrow> (Inl (Spawn e), w1)
           | (Inr (True, _), w1) \<Rightarrow> (Inr (path, h), w1)
           | (Inr (False, code), w1) \<Rightarrow>
               (case dl_listening_pid lib (tn_local_port spec) w1 of
                  (Some pid, w2) \<Rightarrow> (Inl (LocalPortInUse (tn_local_port spec) pid), w2)
                | (None, w2) \<Rightarrow> (Inl (NonZero (''ssh returned '' @ code)), w2))))"

text \<open>\<^verbatim>\<open>SshTunnel::close\<close>, which \<^verbatim>\<open>Drop\<close> calls: a failing exit keeps the socket.\<close>

definition tunnel_close :: "'w DbLib \<Rightarrow> SshTunnel \<Rightarrow> 'w \<Rightarrow> (SshError + unit) \<times> 'w" where
  "tunnel_close lib t w =
     (case and_then (validate_ssh_login_host (snd t)) (\<lambda>h. close_argv h (fst t)) of
        Inl e \<Rightarrow> (Inl e, w)
      | Inr argv \<Rightarrow>
          (case dl_ssh lib argv w of
             (Inl e, w1) \<Rightarrow> (Inl (Spawn e), w1)
           | (Inr (False, code), w1) \<Rightarrow> (Inl (NonZero (''ssh control exit returned '' @ code)), w1)
           | (Inr (True, _), w1) \<Rightarrow>
               (case dl_remove lib (fst t) w1 of (Inl e, w2) \<Rightarrow> (Inl (Spawn e), w2) | (Inr u, w2) \<Rightarrow> (Inr (), w2))))"

fun ssh_error_text :: "SshError \<Rightarrow> bytes" where
  "ssh_error_text (InvalidHost h r) = ''invalid ssh host '' @ ticked h @ '': '' @ r"
| "ssh_error_text (InvalidPath p r) = ''invalid ssh path '' @ ticked p @ '': '' @ r"
| "ssh_error_text (Spawn e) = ''ssh spawn failed: '' @ e"
| "ssh_error_text (NonZero e) = ''ssh exited non-zero: '' @ e"
| "ssh_error_text (LocalPortInUse l pid) =
     ''local port '' @ nat_to_string l @ '' is already in use by pid '' @ nat_to_string pid @
     ''; stop that process or configure another local_port''"

definition tunnel_error :: "bytes \<Rightarrow> SshError \<Rightarrow> LensError" where
  "tunnel_error name e =
     (case e of
        LocalPortInUse _ _ \<Rightarrow> ProfileError (ssh_error_text e)
      | _ \<Rightarrow> SourceError name (''ssh tunnel failed: '' @ ssh_error_text e) None None)"

section \<open>Connecting\<close>

definition validate_readonly_profile :: "bytes \<Rightarrow> bytes \<Rightarrow> DbSpec \<Rightarrow> LensError + unit" where
  "validate_readonly_profile kind name d =
     (if db_readonly_required d then Inr ()
      else Inl (ProfileError (kind @ '' profile '' @ ticked name @ '' must require read-only mode'')))"

definition readonly_statement :: "Dialect \<Rightarrow> bytes" where
  "readonly_statement d =
     (if d = Postgres then ''SET SESSION CHARACTERISTICS AS TRANSACTION READ ONLY'' else ''SET SESSION TRANSACTION READ ONLY'')"

text \<open>
  \<^verbatim>\<open>connect_with_target\<close> with the password of the caller or the profile's, of MySQL and Postgres: \<open>pw\<close> is
  the outcome of \<^verbatim>\<open>resolve_password\<close> or the given password.
\<close>

definition connect_net ::
  "'w DbLib \<Rightarrow> Dialect \<Rightarrow> bytes \<Rightarrow> bytes \<Rightarrow> DbSpec \<Rightarrow> bytes \<Rightarrow> nat \<Rightarrow> LensError + bytes \<Rightarrow> ('w, unit) effect" where
  "connect_net lib d kind name spec host port pw =
     e_bind (e_of (and_then (validate_readonly_profile kind name spec) (\<lambda>_. pw))) (\<lambda>password.
     e_bind (e_driver (\<lambda>e. source_error name e None)
        (dl_connect lib (NetOptions d host port (db_database spec) (db_username spec) password))) (\<lambda>_.
     e_driver (\<lambda>e. source_error name e None) (dl_execute lib (readonly_statement d, []))))"

definition sqlite_connect :: "'w DbLib \<Rightarrow> bytes \<Rightarrow> bytes \<Rightarrow> bool \<Rightarrow> ('w, unit) effect" where
  "sqlite_connect lib name path readonly_required =
     (if \<not> readonly_required then e_of (Inl (ProfileError (''sqlite profile '' @ ticked name @ '' must require read-only mode'')))
      else
        (case dl_sqlite_uri lib (''sqlite:'' @ path) of
           Inl e \<Rightarrow> e_of (Inl (source_error name e None))
         | Inr file \<Rightarrow> e_driver (\<lambda>e. source_error name e None) (dl_connect lib (FileOptions file True))))"

definition mysql_connect :: "'w DbLib \<Rightarrow> bytes \<Rightarrow> DbSpec \<Rightarrow> nat \<Rightarrow> bytes \<Rightarrow> nat \<Rightarrow> LensError + bytes \<Rightarrow> ('w, DbAdapter) effect" where
  "mysql_connect lib name spec limit_cap host port pw =
     e_bind (connect_net lib Mysql ''mysql'' name spec host port pw)
       (\<lambda>_. e_of (Inr (MysqlDb \<lparr>my_profile_name = name, my_database = db_database spec, my_limit_cap = limit_cap\<rparr>)))"

definition postgres_connect :: "'w DbLib \<Rightarrow> bytes \<Rightarrow> DbSpec \<Rightarrow> nat \<Rightarrow> bytes \<Rightarrow> nat \<Rightarrow> LensError + bytes \<Rightarrow> ('w, DbAdapter) effect" where
  "postgres_connect lib name spec limit_cap host port pw =
     e_bind (connect_net lib Postgres ''postgres'' name spec host port pw)
       (\<lambda>_. e_of (Inr (PostgresDb \<lparr>pg_profile_name = name, pg_limit_cap = limit_cap\<rparr>)))"

definition connect_inner :: "'w DbLib \<Rightarrow> Profile \<Rightarrow> nat \<Rightarrow> DbRuntimePlan \<Rightarrow> LensError + bytes \<Rightarrow> ('w, DbAdapter) effect" where
  "connect_inner lib p limit_cap plan pw =
     (case p_source p of
        MysqlSource d \<Rightarrow> mysql_connect lib (p_name p) d limit_cap (rp_connect_host plan) (rp_connect_port plan) pw
      | PostgresSource d \<Rightarrow> postgres_connect lib (p_name p) d limit_cap (rp_connect_host plan) (rp_connect_port plan) pw
      | SqliteSource path ro cols \<Rightarrow>
          e_bind (sqlite_connect lib (p_name p) path ro)
            (\<lambda>_. e_of (Inr (SqliteDb \<lparr>sq_profile_name = p_name p, sq_limit_cap = limit_cap, sq_json_text_columns = sort (remdups cols)\<rparr>)))
      | _ \<Rightarrow> e_of (Inl (not_database (p_name p))))"

text \<open>A source keeps its tunnel; a connection that fails, or is given up, drops it.\<close>

definition connect_db_source_with_password ::
  "'w DbLib \<Rightarrow> Profile \<Rightarrow> nat \<Rightarrow> LensError + bytes \<Rightarrow> ('w, DbAdapter \<times> SshTunnel option) effect" where
  "connect_db_source_with_password lib p limit_cap pw w =
     (case runtime_plan p of
        Inl e \<Rightarrow> (Some (Inl e), w)
      | Inr plan \<Rightarrow>
          (case rp_tunnel plan of
             None \<Rightarrow> e_bind (connect_inner lib p limit_cap plan pw) (\<lambda>a. e_of (Inr (a, None))) w
           | Some spec \<Rightarrow>
               (case tunnel_open lib spec w of
                  (Inl e, w1) \<Rightarrow> (Some (Inl (tunnel_error (p_name p) e)), w1)
                | (Inr t, w1) \<Rightarrow>
                    (case connect_inner lib p limit_cap plan pw w1 of
                       (Some (Inr a), w2) \<Rightarrow> (Some (Inr (a, Some t)), w2)
                     | (Some (Inl e), w2) \<Rightarrow> (Some (Inl e), snd (tunnel_close lib t w2))
                     | (None, w2) \<Rightarrow> (None, snd (tunnel_close lib t w2))))))"

definition connect_db_source ::
  "'w DbLib \<Rightarrow> (bytes \<Rightarrow> bytes option) \<Rightarrow> (bytes \<Rightarrow> bytes \<Rightarrow> LensError + bytes) \<Rightarrow> Profile \<Rightarrow> nat \<Rightarrow> ('w, DbAdapter \<times> SshTunnel option) effect" where
  "connect_db_source lib env keyring p limit_cap = connect_db_source_with_password lib p limit_cap (resolve_password env keyring p)"

end
