(* ===== verification/Db_Guarantees.thy ===== *)
theory Db_Guarantees
  imports Db_Source
begin

text \<open>
  What a database source does to its database and shows of it: a library that logs what it is asked, the
  statements of a call and of a connection read off that log, the rows in the form the session's
  redaction expects, and the independence of shown schemas from hidden names.
\<close>

section \<open>A library that keeps a log\<close>

datatype DbEvent = Asked Statement | Ran Statement | Connected ConnectOptions | Executed Statement | Ssh "bytes list"

definition logged :: "('a \<Rightarrow> DbEvent) \<Rightarrow> ('a \<Rightarrow> 'w \<Rightarrow> 'r \<times> 'w) \<Rightarrow> 'a \<Rightarrow> 'w \<times> DbEvent list \<Rightarrow> 'r \<times> 'w \<times> DbEvent list" where
  "logged ev op x s = (case op x (fst s) of (r, w) \<Rightarrow> (r, w, snd s @ [ev x]))"

definition unlogged :: "('a \<Rightarrow> 'w \<Rightarrow> 'r \<times> 'w) \<Rightarrow> 'a \<Rightarrow> 'w \<times> DbEvent list \<Rightarrow> 'r \<times> 'w \<times> DbEvent list" where
  "unlogged op x s = (case op x (fst s) of (r, w) \<Rightarrow> (r, w, snd s))"

definition with_log :: "'w DbLib \<Rightarrow> ('w \<times> DbEvent list) DbLib" where
  "with_log lib = \<lparr>
     dl_names = logged Asked (dl_names lib), dl_columns = logged Asked (dl_columns lib), dl_pragma = logged Asked (dl_pragma lib),
     dl_rows = logged Ran (dl_rows lib), dl_connect = logged Connected (dl_connect lib), dl_execute = logged Executed (dl_execute lib),
     dl_ssh = logged Ssh (dl_ssh lib), dl_listening_pid = unlogged (dl_listening_pid lib), dl_remove = unlogged (dl_remove lib),
     dl_control_path = dl_control_path lib, dl_sqlite_uri = dl_sqlite_uri lib, dl_rfc3339 = dl_rfc3339 lib,
     dl_reformat = dl_reformat lib, dl_decode_text = dl_decode_text lib, dl_f64_text = dl_f64_text lib,
     dl_parse_json = dl_parse_json lib, dl_to_query = dl_to_query lib, dl_to_table = dl_to_table lib, dl_quote = dl_quote lib\<rparr>"

text \<open>
  A run of an effect logs one event for each of the given predicates in their order when it succeeds,
  and events for the first few of them when it fails or does not end.
\<close>

definition follows :: "(DbEvent \<Rightarrow> bool) list \<Rightarrow> DbEvent list \<Rightarrow> bool" where
  "follows Ps es \<longleftrightarrow> list_all2 (\<lambda>P e. P e) Ps es"

definition run_follows :: "(DbEvent \<Rightarrow> bool) list \<Rightarrow> DbEvent list \<Rightarrow> (LensError + 'a) option \<Rightarrow> bool" where
  "run_follows Ps es r \<longleftrightarrow> (case r of Some (Inr _) \<Rightarrow> follows Ps es | _ \<Rightarrow> follows (take (length es) Ps) es)"

definition runs :: "('w \<Rightarrow> DbEvent list) \<Rightarrow> (DbEvent \<Rightarrow> bool) list \<Rightarrow> ('w, 'a) effect \<Rightarrow> bool" where
  "runs lg Ps m \<longleftrightarrow> (\<forall>w. \<exists>es. lg (snd (m w)) = lg w @ es \<and> run_follows Ps es (fst (m w)))"

lemma run_follows_prefix: "run_follows Ps es r \<Longrightarrow> follows (take (length es) Ps) es"
  by (auto simp: run_follows_def follows_def list_all2_lengthD split: option.splits sum.splits dest: list_all2_lengthD)

lemma follows_append: "follows Ps es \<Longrightarrow> follows Qs fs \<Longrightarrow> follows (Ps @ Qs) (es @ fs)"
  unfolding follows_def by (rule list_all2_appendI)

lemma runs_fail: "runs lg Ps (e_of (Inl e))"
  by (auto simp: runs_def e_of_def run_follows_def follows_def)

lemma runs_of: "runs lg [] (e_of r)"
  by (auto simp: runs_def e_of_def run_follows_def follows_def split: sum.split)

lemma runs_from_empty: "runs lg Ps m \<Longrightarrow> lg w = [] \<Longrightarrow> run_follows Ps (lg (snd (m w))) (fst (m w))"
  unfolding runs_def by (metis append_Nil)

lemma runs_bind:
  assumes "runs lg Ps m" "\<And>w x w1. m w = (Some (Inr x), w1) \<Longrightarrow> runs lg Qs (f x)"
  shows "runs lg (Ps @ Qs) (e_bind m f)"
  unfolding runs_def
proof
  fix w
  from assms(1) obtain es where es: "lg (snd (m w)) = lg w @ es" "run_follows Ps es (fst (m w))" unfolding runs_def by blast
  have failed: "follows (take (length es) (Ps @ Qs)) es"
  proof -
    have p: "follows (take (length es) Ps) es" using es(2) by (rule run_follows_prefix)
    then have "length es \<le> length Ps" unfolding follows_def by (auto dest: list_all2_lengthD)
    with p show ?thesis by simp
  qed
  obtain r w1 where m: "m w = (r, w1)" by fastforce
  show "\<exists>es. lg (snd (e_bind m f w)) = lg w @ es \<and> run_follows (Ps @ Qs) es (fst (e_bind m f w))"
  proof (cases "\<exists>x. r = Some (Inr x)")
    case True
    then obtain x where x: "r = Some (Inr x)" by blast
    with assms(2) m obtain fs where fs: "lg (snd (f x w1)) = lg w1 @ fs" "run_follows Qs fs (fst (f x w1))"
      unfolding runs_def by metis
    have ps: "follows Ps es" using es(2) m x by (simp add: run_follows_def)
    then have len: "length es = length Ps" unfolding follows_def by (simp add: list_all2_lengthD)
    have "run_follows (Ps @ Qs) (es @ fs) (fst (f x w1))"
      using fs(2) ps follows_append [OF ps] len unfolding run_follows_def by (auto split: option.splits sum.splits)
    with es fs m x show ?thesis by (intro exI [of _ "es @ fs"]) (simp add: e_bind_def)
  next
    case False
    then have "snd (e_bind m f w) = w1 \<and> (\<forall>y. fst (e_bind m f w) \<noteq> Some (Inr y))"
      using m by (auto simp: e_bind_def split: option.splits sum.splits)
    with es(1) m failed show ?thesis
      by (intro exI [of _ es]) (auto simp: run_follows_def split: option.splits sum.splits)
  qed
qed

lemma runs_driver:
  fixes op :: "'a \<Rightarrow> 'b \<Rightarrow> (bytes + 'c) option \<times> 'b"
  assumes "P (ev x)"
  shows "runs snd [P] (e_driver err (logged ev op x))"
  unfolding runs_def
proof
  fix s :: "'b \<times> DbEvent list"
  obtain r w where "op x (fst s) = (r, w)" by fastforce
  then show "\<exists>es. snd (snd (e_driver err (logged ev op x) s)) = snd s @ es \<and> run_follows [P] es (fst (e_driver err (logged ev op x) s))"
    using assms by (intro exI [of _ "[ev x]"]) (auto simp: e_driver_def logged_def run_follows_def follows_def split: option.splits sum.splits)
qed

lemma runs_on_world: "runs snd Ps m \<Longrightarrow> runs (snd \<circ> snd) Ps (on_world m)"
  unfolding runs_def on_world_def by (auto split: prod.splits) (metis fst_conv snd_conv)

lemma runs_on_tokenizer: "runs (snd \<circ> snd) [] (on_tokenizer f)"
  by (auto simp: runs_def on_tokenizer_def run_follows_def follows_def split: prod.splits)

section \<open>The statements of a call\<close>

text \<open>What a statement says outside of quoted identifiers.\<close>

definition outside_quotes :: "Dialect \<Rightarrow> bytes \<Rightarrow> bytes option" where
  "outside_quotes d s = map_option raw_text (sql_lex (quote_char d) s)"

definition tables_text :: "Dialect \<Rightarrow> bytes" where
  "tables_text d = (case d of Mysql \<Rightarrow> mysql_tables_sql | Postgres \<Rightarrow> postgres_tables_sql | Sqlite \<Rightarrow> sqlite_tables_sql)"

definition columns_text :: "Dialect \<Rightarrow> bytes" where
  "columns_text d = (case d of Mysql \<Rightarrow> mysql_columns_sql | Postgres \<Rightarrow> postgres_columns_sql | Sqlite \<Rightarrow> ''PRAGMA table_info()'')"

definition asks :: "Dialect \<Rightarrow> bytes \<Rightarrow> DbEvent \<Rightarrow> bool" where
  "asks d fixed e \<longleftrightarrow> (case e of Asked (s, _) \<Rightarrow> outside_quotes d s = Some fixed | _ \<Rightarrow> False)"

text \<open>A select that reads at most one row more than the cap.\<close>

definition selects :: "Dialect \<Rightarrow> nat \<Rightarrow> DbEvent \<Rightarrow> bool" where
  "selects d limit_cap e \<longleftrightarrow>
     (\<exists>s args n comb shapes dirs limit. e = Ran (s, args @ [if d = Mysql then QU64 limit else QI64 (int limit)]) \<and>
        outside_quotes d s = Some (skeleton d n comb shapes dirs) \<and> limit \<le> limit_cap + 1)"

definition call_events :: "DbAdapter \<Rightarrow> bytes \<Rightarrow> (DbEvent \<Rightarrow> bool) list" where
  "call_events a tool =
     (let d = adapter_kind a; schema = asks d (columns_text d) in
      if tool = ''query'' then [schema, schema, selects d (adapter_cap a)]
      else if tool = ''schema'' then [schema]
      else if tool = ''list_tables'' then [asks d (tables_text d)] else [])"

lemma raw_outside: "quote_char d \<notin> set s \<Longrightarrow> outside_quotes d s = Some s"
proof -
  have "raw_text (map TRaw s) = s" by (induction s) (simp_all add: raw_text_def)
  then show "quote_char d \<notin> set s \<Longrightarrow> outside_quotes d s = Some s"
    using lex_raw [of "quote_char d" s "[]"] by (simp add: outside_quotes_def)
qed

lemma tables_text_unquoted: "quote_char d \<notin> set (tables_text d)"
proof (cases d)
  case Mysql
  then show ?thesis by (simp add: quote_char_def tables_text_def mysql_tables_sql_def sql_lines_def newline_def)
next
  case Postgres
  then show ?thesis by (simp add: quote_char_def tables_text_def postgres_tables_sql_def sql_lines_def newline_def)
next
  case Sqlite
  then show ?thesis by (simp add: quote_char_def tables_text_def sqlite_tables_sql_def)
qed

lemma columns_text_unquoted:
  "quote_char Mysql \<notin> set mysql_columns_sql" "quote_char Postgres \<notin> set postgres_columns_sql"
  by (simp_all add: quote_char_def mysql_columns_sql_def postgres_columns_sql_def sql_lines_def newline_def)

lemma table_info_outside: "outside_quotes Sqlite (sqlite_table_info_sql table) = Some ''PRAGMA table_info()''"
proof -
  let ?ps = "[PRaw ''PRAGMA table_info('', PId table, PRaw '')'']"
  have "sqlite_table_info_sql table = render Sqlite ?ps" by (simp add: sqlite_table_info_sql_def)
  moreover have "wf_pieces ?ps" by simp
  ultimately have "sql_lex (quote_char Sqlite) (sqlite_table_info_sql table) = Some (tokens ?ps)" by (simp only: lex_render)
  then show ?thesis by (simp add: outside_quotes_def raw_text_def)
qed

lemma asks_fixed: "quote_char d \<notin> set s \<Longrightarrow> asks d s (Asked (s, args))"
  by (simp add: asks_def raw_outside)

lemma runs_list_tables: "runs snd [asks (adapter_kind a) (tables_text (adapter_kind a))] (adapter_list_tables (with_log lib) a)"
  using tables_text_unquoted [of Mysql] tables_text_unquoted [of Postgres] tables_text_unquoted [of Sqlite]
  by (cases a) (auto simp: adapter_list_tables_def adapter_kind_def mysql_list_tables_def postgres_list_tables_def sqlite_list_tables_def
      with_log_def tables_text_def intro!: runs_driver asks_fixed)

lemma runs_schema: "runs snd [asks (adapter_kind a) (columns_text (adapter_kind a))] (adapter_schema (with_log lib) a table)"
proof -
  note last = runs_bind [where Qs = "[]", simplified]
  show ?thesis
  proof (cases a)
    case (SqliteDb s)
    have "asks Sqlite ''PRAGMA table_info()'' (Asked (sqlite_table_info_sql table, []))" by (simp add: asks_def table_info_outside)
    then show ?thesis using SqliteDb
      by (auto simp: adapter_schema_def adapter_kind_def sqlite_schema_def columns_text_def with_log_def Let_def intro!: last runs_driver runs_of)
  qed (use columns_text_unquoted in \<open>auto simp: adapter_schema_def adapter_kind_def mysql_schema_def postgres_schema_def columns_text_def with_log_def
      intro!: last runs_driver runs_of asks_fixed\<close>)
qed

lemma collect_append:
  "collect_results f (xs @ ys) = and_then (collect_results f xs) (\<lambda>us. and_then (collect_results f ys) (\<lambda>vs. Inr (us @ vs)))"
proof (induction xs)
  case (Cons x xs)
  then show ?case by (cases "f x"; cases "collect_results f xs"; cases "collect_results f ys") simp_all
qed (cases "collect_results f ys"; simp)

lemma compiled_selects:
  assumes "compile_to_sql_for q ts d = Inr c" "collect_results (bind_value d) (binds c) = Inr args" "ts_limit_cap ts = Some n"
  shows "selects d n (Ran (sql c, args))"
proof -
  from compile_ok [OF assms(1)] obtain qs where a: "accepts_query q ts" "sql c = render d (query_pieces d q ts)"
    "binds c = qs @ [QU64 (bound_limit q ts)]" by blast
  from assms(2) a(3) obtain us v where args: "args = us @ [v]" "bind_value d (QU64 (bound_limit q ts)) = Inr v"
    by (auto simp: collect_append and_then_Inr_iff)
  have "v = (if d = Mysql then QU64 (bound_limit q ts) else QI64 (int (bound_limit q ts)))"
    using args(2) by (auto simp: bind_value_def split: if_splits)
  moreover have "bound_limit q ts \<le> n + 1"
    using a(1) assms(3) by (auto simp: bound_limit_def accepts_query_def hard_cap_def le_SucI split: option.splits)
  moreover have "outside_quotes d (sql c) = Some (skeleton d (length (selected_columns q ts)) (cq_combinator q) (map clause_shape (where_list q)) (map ob_dir (order_list q)))"
    using a(2) wf_query_pieces by (simp add: outside_quotes_def lex_render raw_query_pieces)
  ultimately show ?thesis using args(1) unfolding selects_def by blast
qed

lemma e_bind_Inr: "e_bind m f w = (Some (Inr y), w2) \<longleftrightarrow> (\<exists>x w1. m w = (Some (Inr x), w1) \<and> f x w1 = (Some (Inr y), w2))"
  by (auto simp: e_bind_def split: prod.splits option.splits sum.splits)

lemma e_of_Inr: "e_of r w = (Some (Inr y), w2) \<longleftrightarrow> r = Inr y \<and> w2 = w"
  by (auto simp: e_of_def)

lemma schema_of_table:
  assumes "adapter_schema lib a table w = (Some (Inr ts), w1)"
  shows "ts_table ts = table" "ts_limit_cap ts = Some (adapter_cap a)" "ts_columns ts \<noteq> []"
  using assms by (cases a; auto simp: adapter_schema_def mysql_schema_def postgres_schema_def sqlite_schema_def Let_def e_bind_Inr e_of_Inr
      table_schema_def adapter_cap_def split: if_splits)+

definition adapter_to_values :: "'w DbLib \<Rightarrow> DbAdapter \<Rightarrow> TableSchema \<Rightarrow> Cell list \<Rightarrow> LensError + LensRow" where
  "adapter_to_values lib a =
     (case a of MysqlDb _ \<Rightarrow> (\<lambda>_. mysql_row_to_values lib) | PostgresDb _ \<Rightarrow> postgres_row_to_values lib
      | SqliteDb s \<Rightarrow> (\<lambda>ts. sqlite_row_to_values lib ts (sq_json_text_columns s)))"

lemma adapter_query_run:
  "adapter_query lib a = run_query lib (adapter_kind a) (adapter_name a) (adapter_schema lib a) (adapter_to_values lib a)"
  by (cases a) (simp_all add: adapter_query_def mysql_query_def postgres_query_def sqlite_query_def adapter_kind_def adapter_name_def
      adapter_schema_def adapter_to_values_def)

lemma runs_query:
  "runs snd [asks (adapter_kind a) (columns_text (adapter_kind a)), selects (adapter_kind a) (adapter_cap a)] (adapter_query (with_log lib) a q)"
proof -
  have tail: "runs snd [selects (adapter_kind a) (adapter_cap a)]
      (case compile_to_sql_for q ts (adapter_kind a) of
         Inl e \<Rightarrow> e_of (Inl (canned_error (adapter_name a) e))
       | Inr c \<Rightarrow>
           e_bind (e_of (collect_results (bind_value (adapter_kind a)) (binds c))) (\<lambda>args.
           e_bind (e_driver (\<lambda>e. source_error (adapter_name a) e (Some (sql c))) (dl_rows (with_log lib) (sql c, args))) (\<lambda>rows.
           e_of (collect_results (adapter_to_values (with_log lib) a ts) rows))))"
    if ts: "ts_limit_cap ts = Some (adapter_cap a)" for ts
  proof (cases "compile_to_sql_for q ts (adapter_kind a)")
    case (Inr c)
    have "runs snd ([] @ [selects (adapter_kind a) (adapter_cap a)]) (e_bind (e_of (collect_results (bind_value (adapter_kind a)) (binds c))) (\<lambda>args.
           e_bind (e_driver (\<lambda>e. source_error (adapter_name a) e (Some (sql c))) (dl_rows (with_log lib) (sql c, args))) (\<lambda>rows.
           e_of (collect_results (adapter_to_values (with_log lib) a ts) rows))))"
    proof (rule runs_bind [OF runs_of])
      fix w args w1
      assume "e_of (collect_results (bind_value (adapter_kind a)) (binds c)) w = (Some (Inr args), w1)"
      then have "selects (adapter_kind a) (adapter_cap a) (Ran (sql c, args))"
        using compiled_selects [OF Inr _ ts] by (simp add: e_of_Inr)
      then show "runs snd [selects (adapter_kind a) (adapter_cap a)]
          (e_bind (e_driver (\<lambda>e. source_error (adapter_name a) e (Some (sql c))) (dl_rows (with_log lib) (sql c, args))) (\<lambda>rows.
           e_of (collect_results (adapter_to_values (with_log lib) a ts) rows)))"
        by (auto simp: with_log_def intro!: runs_bind [where Qs = "[]", simplified] runs_driver runs_of)
    qed
    with Inr show ?thesis by simp
  qed (simp add: runs_fail)
  show ?thesis
    unfolding adapter_query_run run_query_def
    by (rule runs_bind [where Ps = "[x]" for x, simplified, OF runs_schema]) (auto dest: schema_of_table(2) intro: tail)
qed

lemma runs_query_tool:
  "runs snd (call_events a ''query'') (query_tool (with_log lib) a call)"
proof -
  let ?s = "asks (adapter_kind a) (columns_text (adapter_kind a))" and ?r = "selects (adapter_kind a) (adapter_cap a)"
  note first = runs_bind [where Ps = "[]", simplified, OF runs_of] and schema = runs_bind [where Ps = "[x]" for x, simplified, OF runs_schema]
    and last = runs_bind [where Qs = "[]", simplified]
  have "runs snd [?s, ?s, ?r] (query_tool (with_log lib) a call)"
    unfolding query_tool_def by (intro first schema last runs_query runs_of)
  then show ?thesis by (simp add: call_events_def Let_def)
qed

lemma db_call_runs:
  "runs (snd \<circ> snd) (call_events (dw_inner dw) (tc_tool_name call)) (db_dispatch (with_log lib) dw call)"
proof -
  note first = runs_bind [where Ps = "[]", simplified, OF runs_of] and last = runs_bind [where Qs = "[]", simplified]
  have "runs (snd \<circ> snd) (call_events (dw_inner dw) ''schema'') (schema_tool (with_log lib) dw call)"
    unfolding schema_tool_def call_events_def by (auto simp: Let_def intro!: first last runs_on_world runs_schema runs_on_tokenizer runs_of)
  moreover have "runs (snd \<circ> snd) (call_events (dw_inner dw) ''list_tables'') (list_tables_tool (with_log lib) dw)"
    unfolding list_tables_tool_def call_events_def by (auto simp: Let_def intro!: last runs_on_world runs_list_tables runs_on_tokenizer runs_of)
  moreover have "runs (snd \<circ> snd) [] (e_of r)" for r :: "LensError + SourceOutput" by (rule runs_of)
  ultimately show ?thesis
    using runs_on_world [OF runs_query_tool [of "dw_inner dw" lib call]] by (auto simp: db_dispatch_def call_events_def Let_def)
qed

text \<open>
  C5: the statements of a database call. Whatever the arguments of the call and whatever the database
  answers, a call reads the schema of a table or the list of tables with the fixed statement of its
  dialect, in which only the quoted name of a table can vary, and a query reads the schema twice and then
  runs one select, whose text outside the quoted names is a skeleton and whose last bound value limits
  the rows to the cap of the source plus one; nothing else is sent, and a call that fails stops early.
\<close>

theorem db_call_statements:
  "runs (snd \<circ> snd) (call_events (dw_inner dw) (tc_tool_name call)) (db_dispatch (with_log lib) dw call)"
  by (rule db_call_runs)

section \<open>Rows\<close>

lemma row_loop_sorted: "row_loop f cs out = Inr row \<Longrightarrow> sorted_map out \<Longrightarrow> sorted_map row"
  by (induction cs arbitrary: out) (auto simp: and_then_Inr_iff intro: sorted_map_insert)

lemma collect_results_in: "collect_results f xs = Inr ys \<Longrightarrow> y \<in> set ys \<Longrightarrow> \<exists>x\<in>set xs. f x = Inr y"
  by (induction xs arbitrary: ys) (auto simp: and_then_Inr_iff)

lemma to_values_sorted: "adapter_to_values lib a ts cs = Inr row \<Longrightarrow> sorted_map row"
  by (cases a) (auto simp: adapter_to_values_def mysql_row_to_values_def postgres_row_to_values_def sqlite_row_to_values_def
      sorted_map_def elim!: row_loop_sorted [unfolded sorted_map_def])

lemma adapter_query_sorted:
  assumes "adapter_query lib a q w = (Some (Inr rows), w1)" "row \<in> set rows"
  shows "sorted_map row"
proof -
  from assms(1) obtain ts w0 where t: "(case compile_to_sql_for q ts (adapter_kind a) of
         Inl e \<Rightarrow> e_of (Inl (canned_error (adapter_name a) e))
       | Inr c \<Rightarrow>
           e_bind (e_of (collect_results (bind_value (adapter_kind a)) (binds c))) (\<lambda>args.
           e_bind (e_driver (\<lambda>e. source_error (adapter_name a) e (Some (sql c))) (dl_rows lib (sql c, args))) (\<lambda>cells.
           e_of (collect_results (adapter_to_values lib a ts) cells)))) w0 = (Some (Inr rows), w1)"
    unfolding adapter_query_run run_query_def e_bind_Inr by blast
  show ?thesis
  proof (cases "compile_to_sql_for q ts (adapter_kind a)")
    case (Inr c)
    with t obtain cells where "collect_results (adapter_to_values lib a ts) cells = Inr rows" by (auto simp: e_bind_Inr e_of_Inr)
    with assms(2) show ?thesis by (auto dest: collect_results_in intro: to_values_sorted)
  qed (use t in \<open>simp add: e_of_Inr\<close>)
qed

lemma on_world_Inr: "on_world m s = (Some (Inr x), s1) \<longleftrightarrow> m (snd s) = (Some (Inr x), snd s1) \<and> fst s1 = fst s"
  by (cases s1) (auto simp: on_world_def split: prod.splits)

lemma db_rows_sorted:
  assumes "db_dispatch lib dw call s = (Some (Inr (RowsOutput rows)), s1)"
  shows "\<forall>row\<in>set rows. sorted_map row"
  using assms by (auto simp: db_dispatch_def query_tool_def schema_tool_def list_tables_tool_def e_bind_Inr e_of_Inr on_world_Inr
      split: if_splits intro: adapter_query_sorted)

section \<open>Hidden names\<close>

text \<open>
  A renaming of the names that the allow-list and the default rule do not permit, such as one database
  administrator might choose instead of another.
\<close>

definition shown_name :: "bytes list option \<Rightarrow> bytes \<Rightarrow> bool" where
  "shown_name allowlist v \<longleftrightarrow> v \<in> set (schema_allowlist allowlist) \<or> is_default_allowed_name v"

definition renames_hidden :: "bytes list option \<Rightarrow> (bytes \<Rightarrow> bytes) \<Rightarrow> bool" where
  "renames_hidden allowlist f \<longleftrightarrow>
     inj f \<and> (\<forall>v. if shown_name allowlist v then f v = v else \<not> shown_name allowlist (f v))"

definition rename_column :: "(bytes \<Rightarrow> bytes) \<Rightarrow> ColumnInfo \<Rightarrow> ColumnInfo" where
  "rename_column f c = c\<lparr>ci_name := f (ci_name c), ci_name_token := f (ci_name_token c)\<rparr>"

definition rename_schema :: "(bytes \<Rightarrow> bytes) \<Rightarrow> TableSchema \<Rightarrow> TableSchema" where
  "rename_schema f ts =
     ts\<lparr>ts_table := f (ts_table ts), ts_table_token := f (ts_table_token ts), ts_columns := map (rename_column f) (ts_columns ts)\<rparr>"

text \<open>What the two metadata tools of a wrapper show of a schema or a list of tables the database answers.\<close>

datatype Shown = ShowSchema TableSchema | ShowTables "bytes list"

fun rename_shown :: "(bytes \<Rightarrow> bytes) \<Rightarrow> Shown \<Rightarrow> Shown" where
  "rename_shown f (ShowSchema ts) = ShowSchema (rename_schema f ts)"
| "rename_shown f (ShowTables names) = ShowTables (map f names)"

fun show_step :: "(bytes \<Rightarrow> bytes) \<Rightarrow> SchemaPresentation \<Rightarrow> Shown \<Rightarrow> SchemaTokenizerInner \<Rightarrow> bytes \<times> SchemaTokenizerInner" where
  "show_step quote p (ShowSchema ts) st = (case present_schema p ts st of (shown, st1) \<Rightarrow> (schema_json quote shown, st1))"
| "show_step quote p (ShowTables names) st = (case present_table_names p names st of (shown, st1) \<Rightarrow> (names_json quote shown, st1))"

fun show_run :: "(bytes \<Rightarrow> bytes) \<Rightarrow> SchemaPresentation \<Rightarrow> Shown list \<Rightarrow> SchemaTokenizerInner \<Rightarrow> bytes list" where
  "show_run quote p [] st = []"
| "show_run quote p (r # rs) st = (case show_step quote p r st of (text, st1) \<Rightarrow> text # show_run quote p rs st1)"

lemma schema_tool_shows:
  "adapter_schema lib (dw_inner dw) table w = (Some (Inr ts), w1) \<Longrightarrow> dl_to_table lib (tc_args call) = Inr table \<Longrightarrow>
     schema_tool lib dw call (st, w) =
       (case show_step (dl_quote lib) (dw_presentation dw) (ShowSchema ts) st of (text, st1) \<Rightarrow> (Some (Inr (SchemaText text)), (st1, w1)))"
  by (simp add: schema_tool_def e_bind_def e_of_def args_error_def on_world_def on_tokenizer_def split: prod.split)

lemma list_tables_tool_shows:
  "adapter_list_tables lib (dw_inner dw) w = (Some (Inr names), w1) \<Longrightarrow>
     list_tables_tool lib dw (st, w) =
       (case show_step (dl_quote lib) (dw_presentation dw) (ShowTables names) st of (text, st1) \<Rightarrow> (Some (Inr (SchemaText text)), (st1, w1)))"
  by (simp add: list_tables_tool_def e_bind_def e_of_def on_world_def on_tokenizer_def split: prod.split)

definition rename_state :: "(bytes \<Rightarrow> bytes) \<Rightarrow> SchemaTokenizerInner \<Rightarrow> SchemaTokenizerInner" where
  "rename_state f st = \<lparr>table_tokens = map (apfst f) (table_tokens st), column_tokens = map (apfst f) (column_tokens st)\<rparr>"

lemma map_of_renamed: "inj f \<Longrightarrow> map_of (map (apfst f) m) (f v) = map_of m v"
  by (induction m) (auto simp: inj_eq)

lemma rename_state_new: "rename_state f tokenizer_new = tokenizer_new"
  by (simp add: rename_state_def tokenizer_new_def)

lemma renames_shown:
  assumes "renames_hidden al f"
  shows "f v \<in> set (schema_allowlist al) \<or> is_default_allowed_name (f v) \<longleftrightarrow> v \<in> set (schema_allowlist al) \<or> is_default_allowed_name v"
    "v \<in> set (schema_allowlist al) \<or> is_default_allowed_name v \<Longrightarrow> f v = v"
  using assms unfolding renames_hidden_def shown_name_def by metis+

lemma token_for_renamed:
  assumes "renames_hidden al f"
  shows "token_for (rename_state f st) pre (f v) (schema_allowlist al) =
    apsnd (rename_state f) (token_for st pre v (schema_allowlist al))"
proof -
  have inj: "inj f" using assms by (simp add: renames_hidden_def)
  show ?thesis
  proof (cases "v \<in> set (schema_allowlist al) \<or> is_default_allowed_name v")
    case True
    with renames_shown [OF assms, of v] show ?thesis by (simp add: token_for_def)
  next
    case False
    with renames_shown(1) [OF assms, of v] show ?thesis
      by (auto simp: token_for_def Let_def rename_state_def map_of_renamed [OF inj] split: option.split)
  qed
qed

lemma tokens_for_renamed:
  assumes "renames_hidden al f"
  shows "tokens_for (rename_state f st) pre (map f vs) (schema_allowlist al) =
    apsnd (rename_state f) (tokens_for st pre vs (schema_allowlist al))"
proof (induction vs arbitrary: st)
  case (Cons v vs)
  then show ?case by (simp add: token_for_renamed [OF assms] split: prod.split)
qed simp

lemma column_allowed_renamed: "renames_hidden al f \<Longrightarrow> column_allowed al (rename_column f c) = column_allowed al c"
  using renames_shown [of al f "ci_name c"] unfolding column_allowed_def rename_column_def Let_def
  by simp (metis schema_allowlist_def Un_iff set_append)

lemma schema_renamed:
  assumes "renames_hidden al f"
  shows "(case tokenize_table_schema (rename_state f st) (rename_schema f ts) al of (shown, st1) \<Rightarrow> (schema_json quote shown, st1)) =
    apsnd (rename_state f) (case tokenize_table_schema st ts al of (shown, st1) \<Rightarrow> (schema_json quote shown, st1))"
proof -
  have names: "ci_name \<circ> rename_column f = f \<circ> ci_name" by (simp add: rename_column_def fun_eq_iff)
  obtain t st1 where t: "token_for st ''TABLE'' (ts_table ts) (schema_allowlist al) = (t, st1)" by fastforce
  obtain us st2 where us: "tokens_for st1 ''COL'' (map ci_name (ts_columns ts)) (schema_allowlist al) = (us, st2)" by fastforce
  have "map (column_json quote) (map2 (\<lambda>c t. c\<lparr>ci_name_token := t, ci_allowed := column_allowed al c\<rparr>) (map (rename_column f) cs) us)
      = map (column_json quote) (map2 (\<lambda>c t. c\<lparr>ci_name_token := t, ci_allowed := column_allowed al c\<rparr>) cs us)" for cs
    by (auto simp: zip_map1 column_json_def column_allowed_renamed [OF assms, unfolded rename_column_def] rename_column_def)
  then show ?thesis
    using token_for_renamed [OF assms, of st "''TABLE''" "ts_table ts"] tokens_for_renamed [OF assms, of st1 "''COL''" "map ci_name (ts_columns ts)"] t us
    by (simp add: tokenize_table_schema_def rename_schema_def names schema_json_def Let_def)
qed

lemma show_step_renamed:
  assumes "renames_hidden al f"
  shows "show_step quote (Tokenized al) (rename_shown f r) (rename_state f st) = apsnd (rename_state f) (show_step quote (Tokenized al) r st)"
proof (cases r)
  case (ShowSchema ts)
  with schema_renamed [OF assms] show ?thesis by (simp add: present_schema_def)
next
  case (ShowTables names)
  with tokens_for_renamed [OF assms] show ?thesis by (simp add: present_table_names_def tokenize_table_names_def split: prod.split)
qed

lemma show_run_renamed:
  assumes "renames_hidden al f"
  shows "show_run quote (Tokenized al) (map (rename_shown f) rs) (rename_state f st) = show_run quote (Tokenized al) rs st"
  by (induction rs arbitrary: st) (simp_all add: show_step_renamed [OF assms] split: prod.split)

text \<open>
  C7: hidden names do not show. When a source presents its schemas tokenized, the texts that any sequence of
  schema and table-list answers is shown as stay the same, byte for byte, when the tables and columns
  whose names are not permitted had any other distinct names that are not permitted.
\<close>

theorem hidden_names_do_not_show:
  assumes "renames_hidden al f"
  shows "show_run quote (Tokenized al) (map (rename_shown f) rs) tokenizer_new = show_run quote (Tokenized al) rs tokenizer_new"
  using show_run_renamed [OF assms, where st = tokenizer_new] by (simp only: rename_state_new)

definition demo_swap :: "bytes \<Rightarrow> bytes" where
  "demo_swap v = (if v = ''ssn'' then ''pin'' else if v = ''pin'' then ''ssn'' else v)"

definition demo_shown :: "Shown list" where
  "demo_shown = [ShowTables [''ssn'', ''status''],
     ShowSchema \<lparr>ts_table = ''ssn'', ts_table_token = ''ssn'', ts_columns = [column_info ''id'' ''INT'' False, column_info ''pin'' ''TEXT'' True],
       ts_limit_cap = Some 5\<rparr>]"

theorem hidden_names_do_not_show_witness:
  "show_run dq (Tokenized None) (map (rename_shown demo_swap) demo_shown) tokenizer_new = show_run dq (Tokenized None) demo_shown tokenizer_new \<and>
    hd (show_run dq (Tokenized None) demo_shown tokenizer_new) = ''['' @ dq ''<TABLE_001>'' @ '','' @ dq ''status'' @ '']''"
proof
  have "\<not> shown_name None ''ssn''" "\<not> shown_name None ''pin''" by code_simp+
  then have "renames_hidden None demo_swap" by (auto simp: renames_hidden_def inj_def demo_swap_def)
  then show "show_run dq (Tokenized None) (map (rename_shown demo_swap) demo_shown) tokenizer_new = show_run dq (Tokenized None) demo_shown tokenizer_new"
    by (rule hidden_names_do_not_show)
  show "hd (show_run dq (Tokenized None) demo_shown tokenizer_new) = ''['' @ dq ''<TABLE_001>'' @ '','' @ dq ''status'' @ '']''" by code_simp
qed

section \<open>Connecting\<close>

text \<open>The events of a connection that succeeds: the tunnel first, then the pool, then the read-only statement.\<close>

definition opens_tunnel :: "'w DbLib \<Rightarrow> TunnelSpec \<Rightarrow> DbEvent \<Rightarrow> bool" where
  "opens_tunnel lib spec e \<longleftrightarrow> (\<exists>argv. open_argv spec (dl_control_path lib (tn_local_port spec)) = Inr argv \<and> e = Ssh argv)"

definition closes_tunnel :: "'w DbLib \<Rightarrow> TunnelSpec \<Rightarrow> DbEvent \<Rightarrow> bool" where
  "closes_tunnel lib spec e \<longleftrightarrow>
     (\<exists>argv. close_argv (tn_ssh_host spec) (dl_control_path lib (tn_local_port spec)) = Inr argv \<and> e = Ssh argv)"

definition connects_to :: "Dialect \<Rightarrow> DbSpec \<Rightarrow> DbRuntimePlan \<Rightarrow> DbEvent \<Rightarrow> bool" where
  "connects_to d spec plan e \<longleftrightarrow>
     (\<exists>password. e = Connected (NetOptions d (rp_connect_host plan) (rp_connect_port plan) (db_database spec) (db_username spec) password))"

definition sets_readonly :: "Dialect \<Rightarrow> DbEvent \<Rightarrow> bool" where
  "sets_readonly d e \<longleftrightarrow> e = Executed (readonly_statement d, [])"

definition opens_readonly_file :: "DbEvent \<Rightarrow> bool" where
  "opens_readonly_file e \<longleftrightarrow> (\<exists>file. e = Connected (FileOptions file True))"

definition connect_events :: "SourceSpec \<Rightarrow> DbRuntimePlan \<Rightarrow> (DbEvent \<Rightarrow> bool) list" where
  "connect_events s plan =
     (case s of
        MysqlSource d \<Rightarrow> [connects_to Mysql d plan, sets_readonly Mysql]
      | PostgresSource d \<Rightarrow> [connects_to Postgres d plan, sets_readonly Postgres]
      | SqliteSource _ _ _ \<Rightarrow> [opens_readonly_file]
      | _ \<Rightarrow> [])"

lemma runs_connect_net:
  "runs snd [connects_to d spec plan, sets_readonly d]
     (connect_net (with_log lib) d kind name spec (rp_connect_host plan) (rp_connect_port plan) pw)"
proof -
  have "runs snd [connects_to d spec plan] (e_driver (\<lambda>e. source_error name e None)
      (dl_connect (with_log lib) (NetOptions d (rp_connect_host plan) (rp_connect_port plan) (db_database spec) (db_username spec) password)))" for password
    by (auto simp: with_log_def connects_to_def intro!: runs_driver)
  moreover have "runs snd [sets_readonly d] (e_driver (\<lambda>e. source_error name e None) (dl_execute (with_log lib) (readonly_statement d, [])))"
    by (auto simp: with_log_def sets_readonly_def intro!: runs_driver)
  ultimately show ?thesis
    unfolding connect_net_def
    by (intro runs_bind [where Ps = "[]", simplified, OF runs_of] runs_bind [where Ps = "[x]" and Qs = "[y]" for x y, simplified])
qed

lemma runs_sqlite_connect: "runs snd [opens_readonly_file] (sqlite_connect (with_log lib) name path ro)"
  by (auto simp: sqlite_connect_def with_log_def opens_readonly_file_def split: sum.split intro!: runs_driver runs_fail)

lemma runs_connect_inner: "runs snd (connect_events (p_source p) plan) (connect_inner (with_log lib) p limit_cap plan pw)"
  unfolding connect_events_def connect_inner_def mysql_connect_def postgres_connect_def
  by (auto split: SourceSpec.split intro!: runs_bind [where Qs = "[]", simplified] runs_connect_net runs_sqlite_connect runs_of)

lemma login_host_same: "validate_ssh_login_host h = Inr h1 \<Longrightarrow> h1 = h"
  by (auto simp: validate_ssh_login_host_def and_then_Inr_iff split: if_splits)

lemma tunnel_open_ok:
  assumes "tunnel_open (with_log lib) spec (w, log) = (Inr t, s)"
  shows "validate_ssh_login_host (tn_ssh_host spec) = Inr (tn_ssh_host spec)" "t = (dl_control_path lib (tn_local_port spec), tn_ssh_host spec)"
    "\<exists>e. snd s = log @ [e] \<and> opens_tunnel lib spec e"
  using assms by (auto simp: tunnel_open_def with_log_def logged_def unlogged_def opens_tunnel_def Let_def and_then_Inr_iff
      split: sum.splits prod.splits bool.splits option.splits dest: login_host_same)

lemma tunnel_open_failed:
  assumes "tunnel_open (with_log lib) spec (w, log) = (Inl e, s)"
  shows "snd s = log \<or> (\<exists>x. snd s = log @ [x] \<and> opens_tunnel lib spec x)"
  using assms by (auto simp: tunnel_open_def with_log_def logged_def unlogged_def opens_tunnel_def Let_def and_then_Inr_iff
      split: sum.splits prod.splits bool.splits option.splits)

lemma tunnel_close_runs:
  assumes "validate_ssh_login_host (tn_ssh_host spec) = Inr (tn_ssh_host spec)" "t = (dl_control_path lib (tn_local_port spec), tn_ssh_host spec)"
  shows "\<exists>e. snd (snd (tunnel_close (with_log lib) t s)) = snd s @ [e] \<and> closes_tunnel lib spec e"
proof -
  obtain argv where a: "close_argv (tn_ssh_host spec) (dl_control_path lib (tn_local_port spec)) = Inr argv"
    using assms(1) by (simp add: close_argv_def)
  with assms show ?thesis
    by (cases s) (auto simp: tunnel_close_def with_log_def logged_def unlogged_def closes_tunnel_def split: sum.split prod.split bool.split)
qed

definition readonly_required :: "SourceSpec \<Rightarrow> bool" where
  "readonly_required s =
     (case s of MysqlSource d \<Rightarrow> db_readonly_required d | PostgresSource d \<Rightarrow> db_readonly_required d | SqliteSource _ ro _ \<Rightarrow> ro | _ \<Rightarrow> False)"

text \<open>
  The events of a connection of a profile with the outcome \<open>r\<close>: a tunnel is opened first and closed again
  unless the connection succeeds.
\<close>

definition connection_follows :: "'w DbLib \<Rightarrow> Profile \<Rightarrow> (LensError + DbAdapter \<times> SshTunnel option) option \<Rightarrow> DbEvent list \<Rightarrow> bool" where
  "connection_follows lib p r es =
     (case runtime_plan p of
        Inl e \<Rightarrow> r = Some (Inl e) \<and> es = []
      | Inr plan \<Rightarrow>
          (case rp_tunnel plan of
             None \<Rightarrow> run_follows (connect_events (p_source p) plan) es r
           | Some spec \<Rightarrow>
               (case r of
                  Some (Inr _) \<Rightarrow> follows (opens_tunnel lib spec # connect_events (p_source p) plan) es
                | _ \<Rightarrow> (\<exists>n. follows (take n [opens_tunnel lib spec]) es) \<or>
                    (\<exists>n. follows (opens_tunnel lib spec # take n (connect_events (p_source p) plan) @ [closes_tunnel lib spec]) es))))"

lemma connect_inner_ok:
  assumes "connect_inner lib p limit_cap plan pw w = (Some (Inr a), w1)"
  shows "readonly_required (p_source p) \<and> adapter_name a = p_name p \<and> adapter_cap a = limit_cap"
  using assms
  by (cases "p_source p") (auto simp: connect_inner_def mysql_connect_def postgres_connect_def connect_net_def sqlite_connect_def e_bind_Inr e_of_Inr and_then_Inr_iff readonly_required_def
      validate_readonly_profile_def adapter_name_def adapter_cap_def split: if_splits)

text \<open>
  C6: no source without read-only mode. A connection that succeeds is of a profile that requires read-only
  mode, opens its tunnel before anything else when it has one, and then connects to the host of the plan
  and switches the session to read-only transactions before the source exists, or opens the SQLite file
  read-only. A connection that fails or does not end stops early and closes the tunnel it opened.
\<close>

theorem connection_is_read_only:
  assumes "connect_db_source_with_password (with_log lib) p limit_cap pw (w, []) = (r, (w1, es))"
  shows "connection_follows lib p r es \<and>
    (\<forall>a t. r = Some (Inr (a, t)) \<longrightarrow> readonly_required (p_source p) \<and> adapter_name a = p_name p \<and> adapter_cap a = limit_cap)"
proof (cases "runtime_plan p")
  case (Inl e)
  with assms show ?thesis by (auto simp: connect_db_source_with_password_def connection_follows_def)
next
  case (Inr plan)
  let ?inner = "connect_inner (with_log lib) p limit_cap plan pw" and ?ev = "connect_events (p_source p) plan"
  show ?thesis
  proof (cases "rp_tunnel plan")
    case None
    have "runs snd ?ev (e_bind ?inner (\<lambda>a. e_of (Inr (a, None :: SshTunnel option))))"
      by (rule runs_bind [where Qs = "[]", simplified, OF runs_connect_inner runs_of])
    then obtain fs where "snd (snd (e_bind ?inner (\<lambda>a. e_of (Inr (a, None :: SshTunnel option))) (w, []))) = [] @ fs"
      "run_follows ?ev fs (fst (e_bind ?inner (\<lambda>a. e_of (Inr (a, None :: SshTunnel option))) (w, [])))"
      unfolding runs_def by (metis snd_conv)
    with assms Inr None show ?thesis
      by (auto simp: connect_db_source_with_password_def connection_follows_def e_bind_Inr e_of_Inr dest: connect_inner_ok)
  next
    case (Some spec)
    obtain o1 s1 where o: "tunnel_open (with_log lib) spec (w, []) = (o1, s1)" by (meson surj_pair)
    show ?thesis
    proof (cases o1)
      case (Inl e)
      with o tunnel_open_failed [of lib spec w "[]" e s1] have "\<exists>n. follows (take n [opens_tunnel lib spec]) (snd s1)"
        by (auto simp: follows_def intro: exI [of _ 0] exI [of _ 1])
      with assms Inr Some Inl o show ?thesis by (auto simp: connect_db_source_with_password_def connection_follows_def)
    next
      case (Inr t)
      note opened = tunnel_open_ok [OF o [unfolded Inr]]
      from opened(3) obtain x where x: "snd s1 = [x]" "opens_tunnel lib spec x" by auto
      obtain r2 s2 where i: "?inner s1 = (r2, s2)" by (meson surj_pair)
      with runs_connect_inner [of p plan lib limit_cap pw] obtain fs where fs: "snd s2 = x # fs" "run_follows ?ev fs r2"
        unfolding runs_def using x(1) by (metis append_Cons append_Nil fst_conv snd_conv)
      obtain y where y: "snd (snd (tunnel_close (with_log lib) t s2)) = x # fs @ [y]" "closes_tunnel lib spec y"
        using tunnel_close_runs [OF opened(1,2), of s2] fs(1) by auto
      have closed: "\<exists>n. follows (opens_tunnel lib spec # take n ?ev @ [closes_tunnel lib spec]) (x # fs @ [y])"
        using run_follows_prefix [OF fs(2)] x(2) y(2) by (auto simp: follows_def intro!: exI [of _ "length fs"] list_all2_appendI)
      have run: "connect_db_source_with_password (with_log lib) p limit_cap pw (w, []) =
          (case ?inner s1 of
             (Some (Inr a), w2) \<Rightarrow> (Some (Inr (a, Some t)), w2)
           | (Some (Inl e), w2) \<Rightarrow> (Some (Inl e), snd (tunnel_close (with_log lib) t w2))
           | (None, w2) \<Rightarrow> (None, snd (tunnel_close (with_log lib) t w2)))"
        using \<open>runtime_plan p = Inr plan\<close> Some o Inr by (simp add: connect_db_source_with_password_def)
      show ?thesis
      proof (cases "\<exists>a. r2 = Some (Inr a)")
        case True
        then obtain a where a: "r2 = Some (Inr a)" by blast
        with fs(2) x(2) have "follows (opens_tunnel lib spec # ?ev) (snd s2)" by (simp add: fs(1) run_follows_def follows_def)
        with assms run i a connect_inner_ok [of "with_log lib" p limit_cap plan pw s1 a s2] \<open>runtime_plan p = Inr plan\<close> Some show ?thesis
          by (auto simp: connection_follows_def)
      next
        case False
        with assms run i closed y(1) \<open>runtime_plan p = Inr plan\<close> Some show ?thesis
          by (cases r2; cases "the r2") (auto simp: connection_follows_def)
      qed
    qed
  qed
qed

definition demo_cell :: Cell where
  "demo_cell = \<lparr>ce_name = ''a`b'', ce_column_type = ''text'', ce_raw = Inr (Some ''TEXT''), ce_bool = Inl [], ce_i64 = Inl [], ce_u64 = Inl [],
     ce_f64 = Inl [], ce_string = Inr ''x@y'', ce_bytes = Inl [], ce_decimal = Inl [], ce_date = Inl [], ce_time = Inl [], ce_primitive = Inl [],
     ce_offset = Inl [], ce_uuid = Inl [], ce_json = Inl []\<rparr>"

definition demo_db_lib :: "nat DbLib" where
  "demo_db_lib = \<lparr>
     dl_names = (\<lambda>_ w. (Some (Inr [''t'']), w + 1)), dl_columns = (\<lambda>_ w. (Some (Inr [(''a`b'', ''TEXT'', ''YES'')]), w + 1)),
     dl_pragma = (\<lambda>_ w. (None, w)), dl_rows = (\<lambda>_ w. (Some (Inr [[demo_cell]]), w + 1)), dl_connect = (\<lambda>_ w. (Some (Inr ()), w + 1)),
     dl_execute = (\<lambda>_ w. (Some (Inl ''denied''), w + 1)), dl_ssh = (\<lambda>_ w. (Inr (True, ''0''), w + 1)),
     dl_listening_pid = (\<lambda>_ w. (None, w)), dl_remove = (\<lambda>_ w. (Inr (), w)), dl_control_path = (\<lambda>n. ''sock''), dl_sqlite_uri = Inr,
     dl_rfc3339 = (\<lambda>_. Inl []), dl_reformat = (\<lambda>_. None), dl_decode_text = (\<lambda>e. e), dl_f64_text = (\<lambda>_. []),
     dl_parse_json = (\<lambda>_. Inl []), dl_to_query = (\<lambda>_. Inr demo_query), dl_to_table = (\<lambda>_. Inr ''t''), dl_quote = dq\<rparr>"

definition demo_db_spec :: DbSpec where
  "demo_db_spec = \<lparr>db_host = ''db'', db_port = 3306, db_database = ''app'', db_username = ''u'', db_password_env = None, db_secret = None,
     db_ssh_host = Some ''app01'', db_local_port = Some 9, db_readonly_required = True\<rparr>"

definition demo_db_profile :: Profile where
  "demo_db_profile = \<lparr>p_name = ''p'', p_source = MysqlSource demo_db_spec, p_discovered_from_ssh_host = None, p_discovered_from_path = None,
     p_discovered_at = None, p_discovered_fingerprint = None, p_credential_class = None, p_policy = None, p_schema_tokenize = None,
     p_schema_allowlist = None, p_production = False, p_snapshot_retention_days = None, p_auto_purge = Off\<rparr>"

text \<open>The server refuses the read-only statement: the connection fails and the tunnel is closed.\<close>

definition demo_connect_events :: "DbEvent list" where
  "demo_connect_events =
     [Ssh [''-f'', ''-N'', ''-M'', ''-S'', ''sock'', ''-o'', ''ExitOnForwardFailure=yes'', ''-L'', ''9:db:3306'', ''--'', ''app01''],
      Connected (NetOptions Mysql ''127.0.0.1'' 9 ''app'' ''u'' ''pw''), Executed (''SET SESSION TRANSACTION READ ONLY'', []),
      Ssh [''-S'', ''sock'', ''-O'', ''exit'', ''--'', ''app01'']]"

lemma demo_connect:
  "connect_db_source_with_password (with_log demo_db_lib) demo_db_profile 10 (Inr ''pw'') (0, []) =
     (Some (Inl (SourceError ''p'' ''denied'' None None)), (4, demo_connect_events))"
  by code_simp

theorem connection_is_read_only_witness:
  "connection_follows demo_db_lib demo_db_profile (Some (Inl (SourceError ''p'' ''denied'' None None))) demo_connect_events"
  using connection_is_read_only [OF demo_connect] by (rule conjunct1)

definition demo_db_call :: ToolCall where
  "demo_db_call = \<lparr>tc_call_id = ''1'', tc_tool_name = ''query'', tc_args = JObject [(''profile'', JString ''p'')]\<rparr>"

definition demo_wrapper :: DbSourceWrapper where
  "demo_wrapper = wrapper_new (MysqlDb \<lparr>my_profile_name = ''p'', my_database = ''app'', my_limit_cap = 10\<rparr>)"

text \<open>A query of the demonstration library: two schema reads and one select, with the values of the query bound.\<close>

definition demo_db_events :: "DbEvent list" where
  "demo_db_events =
     [Asked (mysql_columns_sql, [QString ''app'', QString ''t'']), Asked (mysql_columns_sql, [QString ''app'', QString ''t'']),
      Ran (''SELECT `a``b` FROM `t` WHERE `a``b` IN (?, ?) LIMIT ?'', [QString ''` OR 1=1'', QU64 3, QU64 11])]"

lemma demo_db_call_events:
  "db_dispatch (with_log demo_db_lib) demo_wrapper demo_db_call (tokenizer_new, 0, []) =
     (Some (Inr (RowsOutput [[(''a`b'', VString ''x@y'')]])), (tokenizer_new, 3, demo_db_events))"
  by code_simp

section \<open>A call from the session to the database\<close>

text \<open>
  The source that answers a call for a profile, and the world once it is there: one registered under the name of the tool,
  or the profile's source of the tool's class, connected before or connected now by its builder.
\<close>

definition source_obtained :: "('s, 'w) SessionState \<Rightarrow> bytes \<Rightarrow> ToolCall \<Rightarrow> 'w \<Rightarrow> 's \<Rightarrow> 'w \<Rightarrow> bool" where
  "source_obtained s profile call w src w1 \<longleftrightarrow>
     (map_of (ss_legacy s) (tc_tool_name call) = Some src \<and> w1 = w) \<or>
     (\<exists>c lz. map_of (ss_legacy s) (tc_tool_name call) = None \<and> tool_kind (tc_tool_name call) = Some c \<and>
        map_of (ss_sources s) (c, profile) = Some lz \<and>
        (lz_cell lz = Some src \<and> w1 = w \<or> lz_cell lz = None \<and> lz_builder lz w = (Some (Inr src), w1)))"

lemma lazy_get_Inr:
  "lazy_get lz w = (Some (Inr src), lz1, w1) \<Longrightarrow>
     lz_cell lz = Some src \<and> w1 = w \<or> lz_cell lz = None \<and> lz_builder lz w = (Some (Inr src), w1)"
  by (auto simp: lazy_get_def split: option.splits prod.splits sum.splits)

lemma invoke_source_dispatches:
  assumes "invoke_source dispatch call profile s w = (Some (Inr raw), s1, w2)"
  shows "\<exists>src w1. source_obtained s profile call w src w1 \<and> dispatch src call w1 = (Some (Inr raw), w2)"
proof (cases "map_of (ss_legacy s) (tc_tool_name call)")
  case (Some src)
  with assms have "dispatch src call w = (Some (Inr raw), w2)" by (auto simp: invoke_source_def split: prod.splits)
  with Some show ?thesis by (auto simp: source_obtained_def)
next
  case None
  from assms None obtain c lz where k: "tool_kind (tc_tool_name call) = Some c"
    and lz: "lookup_source s c profile (tc_tool_name call) = Inr lz"
    by (auto simp: invoke_source_def split: option.splits sum.splits)
  obtain r lz1 w1 where g: "lazy_get lz w = (r, lz1, w1)" by (metis surj_pair)
  with assms None k lz obtain src where src: "r = Some (Inr src)" "dispatch src call w1 = (Some (Inr raw), w2)"
    by (auto simp: invoke_source_def Let_def split: option.splits sum.splits prod.splits)
  have "map_of (ss_sources s) (c, profile) = Some lz" using lz by (auto simp: lookup_source_def split: option.splits if_splits)
  with lazy_get_Inr [OF g [unfolded src(1)]] None k src(2) show ?thesis unfolding source_obtained_def by blast
qed

lemma db_dispatch_kinds:
  assumes "db_dispatch lib dw call s = (Some (Inr raw), s1)"
  shows "(tc_tool_name call = ''query'' \<and> (\<exists>rows. raw = RowsOutput rows)) \<or>
    ((tc_tool_name call = ''schema'' \<or> tc_tool_name call = ''list_tables'') \<and> (\<exists>t. raw = SchemaText t))"
  using assms by (auto simp: db_dispatch_def query_tool_def schema_tool_def list_tables_tool_def e_bind_Inr e_of_Inr on_world_Inr split: if_splits)

lemma runs_appends: "runs lg Ps m \<Longrightarrow> m w = (Some (Inr x), w1) \<Longrightarrow> \<exists>es. lg w1 = lg w @ es \<and> follows Ps es"
  unfolding runs_def run_follows_def by (metis (mono_tags, lifting) fst_conv option.simps(5) snd_conv sum.simps(6))

text \<open>
  C1: a database call end to end. A call that answers was served by the source of its profile, connected before or
  on this call, which sent its database exactly the read statements of the tool after whatever connecting sent. What this run of the source
  returned is what is released: for a query its first rows, whose texts carry whatever the pipeline of the call's
  profile guarantees of its texts (the cells are those of C2); for the two schema tools, whose answers do not pass the
  pipeline, the presented names, cut at the byte cap. There is no other tool.
\<close>

theorem database_call_end_to_end:
  assumes "invoke_core_tool gz (db_dispatch (with_log lib)) call0 s g w = (Inr out, s1, g1, w2)"
    "call_plan s call0 = Inr (profile, call, p, acts)" "pipeline_texts gz p P" "pipeline_keeps_keys gz p"
    "oc_bytes (ss_caps s) < USIZE_LIMIT - 1"
  shows "\<exists>dw w1 raw es. source_obtained s profile call w dw w1 \<and> db_dispatch (with_log lib) dw call w1 = (Some (Inr raw), w2) \<and>
    snd (snd w2) = snd (snd w1) @ es \<and> follows (call_events (dw_inner dw) (tc_tool_name call)) es \<and>
    ((tc_tool_name call = ''query'' \<and> (\<exists>rows. raw = RowsOutput rows \<and> rows_clean gz P rows out)) \<or>
     ((tc_tool_name call = ''schema'' \<or> tc_tool_name call = ''list_tables'') \<and>
        (\<exists>t. raw = SchemaText t \<and> text_cut (oc_bytes (ss_caps s)) t out)))"
proof -
  from assms(1,2) obtain raw s2 where i: "invoke_source (db_dispatch (with_log lib)) call profile s w = (Some (Inr raw), s2, w2)"
    and r: "fst (redact_result gz (ss_caps s) p acts raw g) = Inr out"
    by (auto simp: invoke_core_tool_def split: prod.splits option.splits sum.splits)
  from invoke_source_dispatches [OF i] obtain dw w1 where dw: "source_obtained s profile call w dw w1"
    and d: "db_dispatch (with_log lib) dw call w1 = (Some (Inr raw), w2)" by blast
  from runs_appends [OF db_call_runs d] obtain es where
    es: "snd (snd w2) = snd (snd w1) @ es" "follows (call_events (dw_inner dw) (tc_tool_name call)) es" by auto
  have "output_clean gz p P (oc_bytes (ss_caps s)) raw out"
    using redact_result_clean [OF r assms(3-5)] db_rows_sorted d by blast
  with db_dispatch_kinds [OF d] have "(tc_tool_name call = ''query'' \<and> (\<exists>rows. raw = RowsOutput rows \<and> rows_clean gz P rows out)) \<or>
     ((tc_tool_name call = ''schema'' \<or> tc_tool_name call = ''list_tables'') \<and>
        (\<exists>t. raw = SchemaText t \<and> text_cut (oc_bytes (ss_caps s)) t out))"
    by (auto simp: output_clean_def)
  with dw d es show ?thesis by blast
qed

definition demo_db_session :: "(DbSourceWrapper, SchemaTokenizerInner \<times> nat \<times> DbEvent list) SessionState" where
  "demo_db_session = register_source_for_profile DatabaseClass ''p'' demo_wrapper (session_for_profile ''p'' demo_gaze_pipeline)"

definition demo_db_run :: "(LensError + bytes CleanOutput) \<times> (DbSourceWrapper, SchemaTokenizerInner \<times> nat \<times> DbEvent list) SessionState \<times> nat \<times>
    SchemaTokenizerInner \<times> nat \<times> DbEvent list" where
  "demo_db_run = invoke_core_tool demo_gaze (db_dispatch (with_log demo_db_lib)) demo_db_call demo_db_session 0 (tokenizer_new, 0, [])"

text \<open>The query of the demonstration: the row that the database returned loses the sign in its text, nothing else.\<close>

theorem database_call_end_to_end_witness:
  "\<exists>dw w1. source_obtained demo_db_session ''p'' demo_db_call (tokenizer_new, 0, []) dw w1 \<and>
     db_dispatch (with_log demo_db_lib) dw demo_db_call w1 = (Some (Inr (RowsOutput [[(''a`b'', VString ''x@y'')]])), (tokenizer_new, 3, demo_db_events)) \<and>
     follows (call_events (dw_inner dw) ''query'') demo_db_events \<and>
     rows_clean demo_gaze (\<lambda>s. CHR ''@'' \<notin> set s) [[(''a`b'', VString ''x@y'')]] (CleanRows [[(''a`b'', JString ''xy'')]] [])"
proof -
  have out: "fst demo_db_run = Inr (CleanRows [[(''a`b'', JString ''xy'')]] [])" by code_simp
  have world: "snd (snd (snd demo_db_run)) = (tokenizer_new, 3, demo_db_events)" by code_simp
  have run: "invoke_core_tool demo_gaze (db_dispatch (with_log demo_db_lib)) demo_db_call demo_db_session 0 (tokenizer_new, 0, []) =
      (Inr (CleanRows [[(''a`b'', JString ''xy'')]] []), fst (snd demo_db_run), fst (snd (snd demo_db_run)), (tokenizer_new, 3, demo_db_events))"
    using out world unfolding demo_db_run_def by (metis prod.collapse)
  have plan: "call_plan demo_db_session demo_db_call = Inr (''p'', demo_db_call, demo_gaze_pipeline, Map.empty)"
    by (simp add: call_plan_def extract_profile_def demo_db_call_def profile_arg_def json_field_def as_str_def demo_db_session_def
        register_source_for_profile_def put_source_def session_for_profile_def pipeline_for_def column_actions_for_def)
  have caps: "oc_bytes (ss_caps demo_db_session) < USIZE_LIMIT - 1" by code_simp
  have only: "dw = demo_wrapper \<and> w1 = w" if "source_obtained demo_db_session ''p'' demo_db_call w dw w1" for w dw w1
    using that by (auto simp: source_obtained_def demo_db_session_def demo_db_call_def register_source_for_profile_def put_source_def
        session_for_profile_def lazy_ready_def tool_kind_def)
  have tool: "tc_tool_name demo_db_call = ''query''" by (simp add: demo_db_call_def)
  from database_call_end_to_end [OF run plan demo_gaze_texts demo_gaze_keys caps] obtain dw w1 raw es where
    h: "source_obtained demo_db_session ''p'' demo_db_call (tokenizer_new, 0, []) dw w1"
      "db_dispatch (with_log demo_db_lib) dw demo_db_call w1 = (Some (Inr raw), (tokenizer_new, 3, demo_db_events))"
      "snd (snd (tokenizer_new, 3, demo_db_events)) = snd (snd w1) @ es" "follows (call_events (dw_inner dw) ''query'') es"
      "\<exists>rows. raw = RowsOutput rows \<and> rows_clean demo_gaze (\<lambda>s. CHR ''@'' \<notin> set s) rows (CleanRows [[(''a`b'', JString ''xy'')]] [])"
    unfolding tool by auto
  note eq = only [OF h(1)]
  from h(2) eq demo_db_call_events have "raw = RowsOutput [[(''a`b'', VString ''x@y'')]]" by simp
  with h eq show ?thesis by auto
qed

end
