(* ===== verification/Serve_Startup.thy ===== *)
theory Serve_Startup
  imports Db_Guarantees Policy Maintenance Watchdog Remote_Service
begin

text \<open>
  Start of the server, \<^verbatim>\<open>src/cli/serve.rs\<close> with \<^verbatim>\<open>src/cli/retention.rs\<close>: which profiles are served, the
  retention sweep before a session exists, the policy, pipeline and column actions of each profile, and the
  sources, which are registered unconnected. Reading of policy files, opening of the manifest and creation of the
  session's stores are arguments.
\<close>

section \<open>Selection\<close>

fun validate_names :: "Profile list \<Rightarrow> LensError + unit" where
  "validate_names [] = Inr ()"
| "validate_names (p # ps) = and_then (validate_profile_name (p_name p)) (\<lambda>_. validate_names ps)"

fun pick_profiles :: "Profile list \<Rightarrow> bytes list \<Rightarrow> LensError + Profile list" where
  "pick_profiles valid [] = Inr []"
| "pick_profiles valid (n # ns) =
     and_then (ok_or (ProfileError (''profile '' @ ticked n @ '' not found'')) (List.find (\<lambda>p. p_name p = n) valid)) (\<lambda>p.
     and_then (pick_profiles valid ns) (\<lambda>ps. Inr (p # ps)))"

definition select_profiles :: "Profile list \<Rightarrow> bytes list \<Rightarrow> LensError + Profile list" where
  "select_profiles profiles restrict_list =
     and_then (validate_names profiles) (\<lambda>_.
     if restrict_list = [] then Inr profiles
     else and_then (checks (map validate_profile_name restrict_list)) (\<lambda>_. pick_profiles profiles restrict_list))"

definition is_remote :: "Profile \<Rightarrow> bool" where
  "is_remote p = (case p_source p of RemoteMcpLog _ \<Rightarrow> True | _ \<Rightarrow> False)"

definition mixed_text :: bytes where
  "mixed_text = ''remote profiles require a dedicated process; mixed direct and remote profiles are rejected''"

text \<open>Whether the process is a dedicated remote one, which enables the watchdog.\<close>

definition remote_mode :: "Profile list \<Rightarrow> LensError + bool" where
  "remote_mode profiles =
     (let remote = length (filter is_remote profiles) in
      if remote > 0 \<and> remote \<noteq> length profiles then Inl (ProfileError mixed_text) else Inr (remote > 0))"

lemma validate_names_Inr: "validate_names ps = Inr () \<longleftrightarrow> (\<forall>p\<in>set ps. is_safe_profile_name (p_name p))"
  by (induction ps) (auto simp: and_then_Inr_iff validate_profile_name_def)

lemma find_Some: "List.find P xs = Some x \<Longrightarrow> x \<in> set xs \<and> P x"
  by (induction xs) (auto split: if_splits)

lemma pick_profiles_Inr: "pick_profiles valid ns = Inr ps \<Longrightarrow> map p_name ps = ns \<and> set ps \<subseteq> set valid"
  by (induction ns arbitrary: ps) (auto simp: and_then_Inr_iff ok_or_Inr_iff dest: find_Some)

lemma select_profiles_Inr:
  "select_profiles profiles restrict_list = Inr ps \<Longrightarrow>
     (\<forall>p\<in>set ps. p \<in> set profiles \<and> is_safe_profile_name (p_name p)) \<and>
     (if restrict_list = [] then ps = profiles else map p_name ps = restrict_list)"
  by (auto simp: select_profiles_def and_then_Inr_iff validate_names_Inr split: if_splits dest: pick_profiles_Inr)

text \<open>A process serves remote profiles only, or none.\<close>

lemma remote_mode_Inr: "remote_mode ps = Inr r \<Longrightarrow> (\<forall>p\<in>set ps. is_remote p) \<or> (\<forall>p\<in>set ps. \<not> is_remote p)"
  by (cases "\<forall>p\<in>set ps. is_remote p") (auto simp: remote_mode_def Let_def filter_empty_conv dest: length_filter_less split: if_splits)

section \<open>Policies\<close>

fun policy_error_text :: "PolicyError \<Rightarrow> bytes" where
  "policy_error_text (InvalidAction column action) = ''invalid action '' @ ticked action @ '' for column '' @ ticked column"
| "policy_error_text (UnknownPiiClass column class_text) = ''unknown pii class '' @ ticked class_text @ '' for column '' @ ticked column"
| "policy_error_text (UnsupportedSessionScope scope) =
     ''policy.session.scope = '' @ dq scope @ '' is not supported in v0.1; only '' @ dq ''conversation'' @
     '' is accepted. See SPEC.md '' @ [CHR 0xC2, CHR 0xA7] @ ''session-lifecycle.''"
| "policy_error_text (PipelineError e) = ''pipeline build failed: '' @ e"
| "policy_error_text (RecognizerError e) = ''recognizer build failed: '' @ e"
| "policy_error_text (ProductionNerRequired profile) =
     ''profile '' @ ticked profile @ '' is marked '' @ ticked ''production = true'' @ '' but its policy has no '' @ ticked ''[ner].model_dir'' @
     ''; production profiles require a configured NER model so person names cannot leak unredacted. Configure '' @ ticked ''[ner].model_dir'' @
     '' in the profile'' @ [CHR 0x27] @ ''s policy file, or remove '' @ ticked ''production = true'' @ ''.''"

definition policy_error :: "PolicyError + 'a \<Rightarrow> LensError + 'a" where
  "policy_error r = (case r of Inl e \<Rightarrow> Inl (ProfileError (policy_error_text e)) | Inr x \<Rightarrow> Inr x)"

text \<open>The file with an empty database section: every other field has its default.\<close>

definition default_policy_file :: PolicyFile where
  "default_policy_file =
     \<lparr>pf_scope = ''conversation'', pf_ttl_secs = None, pf_ner_model_dir = None, pf_ner_locale = None,
      pf_default_action = None, pf_column_rules = [], pf_logs = None\<rparr>"

text \<open>\<open>read\<close> expands the path, reads the file and parses it.\<close>

definition policy_file_of :: "(bytes \<Rightarrow> LensError + PolicyFile) \<Rightarrow> Profile \<Rightarrow> LensError + PolicyFile" where
  "policy_file_of read p = (case p_policy p of Some path \<Rightarrow> read path | None \<Rightarrow> Inr default_policy_file)"

definition runtime_policy :: "GazeLib \<Rightarrow> (bytes \<Rightarrow> LensError + PolicyFile) \<Rightarrow> Profile \<Rightarrow> LensError + Pipeline \<times> (bytes \<Rightarrow> (Action \<times> PiiClass) option)" where
  "runtime_policy lib read p =
     and_then (policy_file_of read p) (\<lambda>pf.
     and_then (enforce_remote_output_policy p pf) (\<lambda>_.
     and_then (policy_error (enforce_production_ner (p_name p) (p_production p) pf)) (\<lambda>_.
     and_then (policy_error (to_gaze_policy pf)) (\<lambda>_.
     and_then (policy_error (build_pipeline lib pf)) (\<lambda>pipeline.
     and_then (policy_error (column_actions Map.empty (pf_column_rules pf))) (\<lambda>acts.
     Inr (pipeline, acts)))))))"

section \<open>Retention\<close>

definition apply_retention_policy :: "SweepEnv \<Rightarrow> LensError option \<Rightarrow> nat option \<Rightarrow> AutoPurge \<Rightarrow> CallRow list option \<Rightarrow>
    (LensError + SweepReport) \<times> CallRow list option" where
  "apply_retention_policy env opened days mode m =
     (case days of
        None \<Rightarrow> (Inr report_default, m)
      | Some d \<Rightarrow>
          if mode = Off then (Inr report_default, m)
          else (case opened of Some e \<Rightarrow> (Inl e, m) | None \<Rightarrow> sweep_expired_snapshots env d mode m))"

lemma set_filtered: "set (List.map_filter f xs) = {y. \<exists>x\<in>set xs. f x = Some y}"
  by (induction xs) (auto simp: List.map_filter_def)

text \<open>The fewest days of any profile, and the weakest purge of all of them.\<close>

definition merged_days :: "Profile list \<Rightarrow> nat option" where
  "merged_days profiles =
     (case List.map_filter p_snapshot_retention_days profiles of [] \<Rightarrow> None | d # ds \<Rightarrow> Some (fold min ds d))"

definition merged_purge :: "Profile list \<Rightarrow> AutoPurge" where
  "merged_purge profiles = (case map p_auto_purge profiles of [] \<Rightarrow> Off | a # as \<Rightarrow> fold (\<lambda>next merged. cap_with merged next) as a)"

definition apply_multi_profile_retention :: "SweepEnv \<Rightarrow> LensError option \<Rightarrow> Profile list \<Rightarrow> CallRow list option \<Rightarrow>
    (LensError + SweepReport) \<times> CallRow list option" where
  "apply_multi_profile_retention env opened profiles m =
     (case merged_days profiles of
        None \<Rightarrow> (Inr report_default, m)
      | Some d \<Rightarrow> apply_retention_policy env opened (Some d) (merged_purge profiles) m)"

section \<open>Sources\<close>

datatype ServedSource = ServedDb DbSourceWrapper | ServedSsh bytes bytes bytes | ServedLocal bytes bytes | ServedRemote RemoteConfig

definition schema_presentation :: "Profile \<Rightarrow> SchemaPresentation" where
  "schema_presentation p = (if unwrap_or (p_schema_tokenize p) False then Tokenized (p_schema_allowlist p) else Raw)"

definition default_db_limit_cap :: nat where
  "default_db_limit_cap = min (oc_rows default_caps) (2 ^ 32 - 1)"

definition is_database :: "Profile \<Rightarrow> bool" where
  "is_database p = (case p_source p of MysqlSource _ \<Rightarrow> True | PostgresSource _ \<Rightarrow> True | SqliteSource _ _ _ \<Rightarrow> True | _ \<Rightarrow> False)"

definition build_db_source ::
  "'w DbLib \<Rightarrow> (bytes \<Rightarrow> bytes option) \<Rightarrow> (bytes \<Rightarrow> bytes \<Rightarrow> LensError + bytes) \<Rightarrow> Profile \<Rightarrow> ('w, ServedSource) effect" where
  "build_db_source lib env keyring p =
     (if is_database p then
        e_bind (connect_db_source lib env keyring p default_db_limit_cap)
          (\<lambda>(a, t). e_of (Inr (ServedDb (with_schema_presentation a (schema_presentation p)))))
      else e_of (Inl (ProfileError (''profile '' @ ticked (p_name p) @ '' is not a database source''))))"

text \<open>\<open>socket_addr\<close> and \<open>server_name\<close> are the standard library's and rustls' parsers.\<close>

definition build_log_source :: "(bytes \<Rightarrow> bool) \<Rightarrow> (bytes \<Rightarrow> bool) \<Rightarrow> Profile \<Rightarrow> LensError + ServedSource" where
  "build_log_source socket_addr server_name p =
     (case p_source p of
        RemoteMcpLog cfg \<Rightarrow> and_then (config_validate socket_addr server_name cfg) (\<lambda>_. Inr (ServedRemote cfg))
      | SshLog host path \<Rightarrow>
          (case ssh_log_source_new host path of
             Inl e \<Rightarrow> Inl (source_error (p_name p) (ssh_error_text e) None)
           | Inr (h, q) \<Rightarrow> Inr (ServedSsh (p_name p) h q))
      | LocalLog path \<Rightarrow>
          if path = [] then Inl (source_error (p_name p) ''local_log path must not be empty'' None) else Inr (ServedLocal (p_name p) path)
      | _ \<Rightarrow> Inl (ProfileError (''profile '' @ ticked (p_name p) @ '' is not a log source'')))"

record 'w Serve =
  sv_lib :: "'w DbLib"
  sv_env :: "bytes \<Rightarrow> bytes option"
  sv_keyring :: "bytes \<Rightarrow> bytes \<Rightarrow> LensError + bytes"
  sv_socket_addr :: "bytes \<Rightarrow> bool"
  sv_server_name :: "bytes \<Rightarrow> bool"
  sv_gaze :: GazeLib
  sv_read_policy :: "bytes \<Rightarrow> LensError + PolicyFile"
  sv_sweep :: SweepEnv
  sv_open :: "LensError option"
  sv_create :: "LensError option"

definition source_class :: "Profile \<Rightarrow> SourceClass" where
  "source_class p = (if is_database p then DatabaseClass else LogClass)"

definition source_builder :: "'w Serve \<Rightarrow> Profile \<Rightarrow> ('w, ServedSource) effect" where
  "source_builder sv p =
     (if is_database p then build_db_source (sv_lib sv) (sv_env sv) (sv_keyring sv) p
      else e_of (build_log_source (sv_socket_addr sv) (sv_server_name sv) p))"

type_synonym 'w serve_session = "(ServedSource, 'w) SessionState"

definition register_lazy_source :: "'w Serve \<Rightarrow> Profile \<Rightarrow> 'w serve_session \<Rightarrow> 'w serve_session" where
  "register_lazy_source sv p s = register_source_lazy (source_class p) (p_name p) (source_builder sv p) s"

section \<open>Preparation\<close>

type_synonym policies = "(Profile \<times> Pipeline \<times> (bytes \<Rightarrow> (Action \<times> PiiClass) option)) list"

fun runtime_policies :: "'w Serve \<Rightarrow> Profile list \<Rightarrow> LensError + policies" where
  "runtime_policies sv [] = Inr []"
| "runtime_policies sv (p # ps) =
     and_then (runtime_policy (sv_gaze sv) (sv_read_policy sv) p) (\<lambda>pa.
     and_then (runtime_policies sv ps) (\<lambda>rest. Inr ((p, pa) # rest)))"

definition register_profile :: "'w Serve \<Rightarrow> Profile \<Rightarrow> Pipeline \<Rightarrow> (bytes \<Rightarrow> (Action \<times> PiiClass) option) \<Rightarrow> 'w serve_session \<Rightarrow>
    LensError + 'w serve_session" where
  "register_profile sv p pipeline acts s =
     and_then (register_pipeline (p_name p) pipeline s) (\<lambda>s1.
     and_then (register_column_action_policy (p_name p) acts s1) (\<lambda>s2.
     and_then (register_profile_production (p_name p) (p_production p) s2) (\<lambda>s3.
     Inr (register_lazy_source sv p s3))))"

fun register_profiles :: "'w Serve \<Rightarrow> policies \<Rightarrow> 'w serve_session \<Rightarrow> LensError + 'w serve_session" where
  "register_profiles sv [] s = Inr s"
| "register_profiles sv ((p, pipeline, acts) # rest) s =
     and_then (register_profile sv p pipeline acts s) (register_profiles sv rest)"

text \<open>
  \<^verbatim>\<open>prepare_selected_session\<close> on the rows of the manifest. With no profile the policy of the session is the
  default file, whose scope is accepted; the first policy only names the scope, which is checked for each profile.
\<close>

definition prepare_selected_session :: "'w Serve \<Rightarrow> Profile list \<Rightarrow> CallRow list option \<Rightarrow>
    (LensError + 'w serve_session \<times> bytes list) \<times> CallRow list option" where
  "prepare_selected_session sv profiles m =
     (case apply_multi_profile_retention (sv_sweep sv) (sv_open sv) profiles m of
        (Inl e, m1) \<Rightarrow> (Inl e, m1)
      | (Inr _, m1) \<Rightarrow>
          (and_then (runtime_policies sv profiles) (\<lambda>runtime.
           and_then (case sv_create sv of Some e \<Rightarrow> Inl e | None \<Rightarrow> Inr session_for_multi_profile) (\<lambda>s0.
           and_then (register_profiles sv runtime s0) (\<lambda>s. Inr (s, map p_name profiles)))), m1))"

section \<open>What a started server holds\<close>

definition multi_ok :: "'w serve_session \<Rightarrow> bool" where
  "multi_ok s \<longleftrightarrow> (\<exists>ps cs. ss_pipelines s = MultiPipeline ps \<and> ss_columns s = MultiColumns cs \<and> sorted_map ps \<and> sorted_map cs)"

definition served_names :: "'w serve_session \<Rightarrow> bytes set" where
  "served_names s = (case ss_pipelines s of SinglePipeline n _ \<Rightarrow> {n} | MultiPipeline ps \<Rightarrow> fst ` set ps)"

text \<open>The profile is registered with this pipeline, these column actions, its production mark and an unconnected source.\<close>

definition served :: "'w Serve \<Rightarrow> 'w serve_session \<Rightarrow> Profile \<times> Pipeline \<times> (bytes \<Rightarrow> (Action \<times> PiiClass) option) \<Rightarrow> bool" where
  "served sv s e = (case e of (p, pipeline, acts) \<Rightarrow>
     pipeline_for s (p_name p) = Inr pipeline \<and> column_actions_for s (p_name p) = Inr acts \<and>
     profile_is_production (p_name p) s = p_production p \<and>
     map_of (ss_sources s) (source_class p, p_name p) = Some (lazy_new (source_builder sv p)))"

lemma register_profile_Inr:
  assumes ok: "multi_ok s" and run: "register_profile sv p pipeline acts s = Inr s1"
  shows "\<exists>ps cs. ss_pipelines s = MultiPipeline ps \<and> ss_columns s = MultiColumns cs \<and> sorted_map ps \<and> sorted_map cs \<and>
    ss_pipelines s1 = MultiPipeline (map_insert (p_name p) pipeline ps) \<and> ss_columns s1 = MultiColumns (map_insert (p_name p) acts cs) \<and>
    ss_production s1 = (if p_production p then List.insert (p_name p) (ss_production s) else removeAll (p_name p) (ss_production s)) \<and>
    ss_sources s1 = AList.update (source_class p, p_name p) (lazy_new (source_builder sv p)) (ss_sources s)"
  using assms
  by (auto simp: multi_ok_def register_profile_def register_pipeline_def register_column_action_policy_def register_profile_production_def
      register_lazy_source_def register_source_lazy_def put_source_def and_then_Inr_iff)

lemma register_profile_step:
  assumes ok: "multi_ok s" and run: "register_profile sv p pipeline acts s = Inr s1"
  shows "multi_ok s1 \<and> served_names s1 = insert (p_name p) (served_names s) \<and> served sv s1 (p, pipeline, acts)"
proof -
  obtain ps cs where r: "ss_pipelines s = MultiPipeline ps" "ss_columns s = MultiColumns cs" "sorted_map ps" "sorted_map cs"
    "ss_pipelines s1 = MultiPipeline (map_insert (p_name p) pipeline ps)" "ss_columns s1 = MultiColumns (map_insert (p_name p) acts cs)"
    "ss_production s1 = (if p_production p then List.insert (p_name p) (ss_production s) else removeAll (p_name p) (ss_production s))"
    "ss_sources s1 = AList.update (source_class p, p_name p) (lazy_new (source_builder sv p)) (ss_sources s)"
    using register_profile_Inr [OF assms] by blast
  then show ?thesis
    by (simp add: multi_ok_def sorted_map_insert served_names_def set_map_insert served_def pipeline_for_def column_actions_for_def
        profile_is_production_def map_of_map_insert update_conv' unwrap_or_def)
qed

lemma register_profile_keeps:
  assumes ok: "multi_ok s" and run: "register_profile sv p pipeline acts s = Inr s1" and e: "served sv s e" and other: "p_name (fst e) \<noteq> p_name p"
  shows "served sv s1 e"
proof -
  obtain ps cs where "ss_pipelines s = MultiPipeline ps" "ss_columns s = MultiColumns cs" "sorted_map ps" "sorted_map cs"
    "ss_pipelines s1 = MultiPipeline (map_insert (p_name p) pipeline ps)" "ss_columns s1 = MultiColumns (map_insert (p_name p) acts cs)"
    "ss_production s1 = (if p_production p then List.insert (p_name p) (ss_production s) else removeAll (p_name p) (ss_production s))"
    "ss_sources s1 = AList.update (source_class p, p_name p) (lazy_new (source_builder sv p)) (ss_sources s)"
    using register_profile_Inr [OF ok run] by blast
  with e other show ?thesis
    by (cases e) (auto simp: served_def pipeline_for_def column_actions_for_def profile_is_production_def map_of_map_insert update_conv'
        ok_or_Inr_iff)
qed

lemma register_profiles_serve:
  "register_profiles sv rt s = Inr s1 \<Longrightarrow> multi_ok s \<Longrightarrow> \<forall>e\<in>D. served sv s e \<Longrightarrow>
     \<forall>e\<in>D \<union> set rt. \<forall>f\<in>set rt. p_name (fst e) = p_name (fst f) \<longrightarrow> e = f \<Longrightarrow>
     multi_ok s1 \<and> served_names s1 = served_names s \<union> p_name ` fst ` set rt \<and> (\<forall>e\<in>D \<union> set rt. served sv s1 e)"
proof (induction rt arbitrary: s D)
  case (Cons x rt)
  obtain p pipeline acts where x: "x = (p, pipeline, acts)" by (cases x)
  from Cons.prems(1) x obtain s2 where s2: "register_profile sv p pipeline acts s = Inr s2" "register_profiles sv rt s2 = Inr s1"
    by (auto simp: and_then_Inr_iff)
  note st = register_profile_step [OF Cons.prems(2) s2(1)]
  have "\<forall>e\<in>insert x D. served sv s2 e"
  proof
    fix e assume e: "e \<in> insert x D"
    show "served sv s2 e"
    proof (cases "p_name (fst e) = p_name p")
      case True
      with e x Cons.prems(4) have "e = x" by auto
      with st x show ?thesis by simp
    next
      case False
      with e x Cons.prems(3) have "served sv s e" by auto
      from register_profile_keeps [OF Cons.prems(2) s2(1) this False] show ?thesis .
    qed
  qed
  from Cons.IH [OF s2(2) _ this] st Cons.prems(4) show ?case by (auto simp: x)
qed simp

lemma runtime_policies_Inr:
  "runtime_policies sv ps = Inr rt \<Longrightarrow> map fst rt = ps \<and> (\<forall>(p, pa)\<in>set rt. runtime_policy (sv_gaze sv) (sv_read_policy sv) p = Inr pa)"
  by (induction ps arbitrary: rt) (auto simp: and_then_Inr_iff)

lemma policy_error_Inr [simp]: "policy_error r = Inr x \<longleftrightarrow> r = Inr x"
  by (cases r) (simp_all add: policy_error_def)

text \<open>What a served profile's policy file has to satisfy, and what its pipeline then does.\<close>

definition under_own_policy :: "'w Serve \<Rightarrow> Profile \<Rightarrow> Pipeline \<Rightarrow> (bytes \<Rightarrow> (Action \<times> PiiClass) option) \<Rightarrow> bool" where
  "under_own_policy sv p pipeline acts \<longleftrightarrow>
     (\<exists>pf. policy_file_of (sv_read_policy sv) p = Inr pf \<and> enforce_remote_output_policy p pf = Inr () \<and>
        enforce_production_ner (p_name p) (p_production p) pf = Inr () \<and> build_pipeline (sv_gaze sv) pf = Inr pipeline \<and>
        column_actions Map.empty (pf_column_rules pf) = Inr acts)"

lemma runtime_policy_under: "runtime_policy (sv_gaze sv) (sv_read_policy sv) p = Inr (pipeline, acts) \<Longrightarrow> under_own_policy sv p pipeline acts"
  by (auto simp: runtime_policy_def under_own_policy_def and_then_Inr_iff)

lemma under_own_policy_mandates:
  assumes "under_own_policy sv p pipeline acts"
  shows "(is_remote p \<longrightarrow> (\<forall>r\<in>set (pl_rules pipeline). rule_act r = Tokenize \<or> rule_act r = Redact)) \<and>
    (p_production p \<longrightarrow> (\<exists>dir locale. NerDetector dir locale \<in> set (pl_detectors pipeline)))"
proof -
  from assms obtain pf where pf: "enforce_remote_output_policy p pf = Inr ()" "build_pipeline (sv_gaze sv) pf = Inr pipeline"
      "enforce_production_ner (p_name p) (p_production p) pf = Inr ()"
    by (auto simp: under_own_policy_def)
  note m = policy_mandates [of p pf _ "sv_gaze sv" pipeline "p_name p"]
  have "\<forall>r\<in>set (pl_rules pipeline). rule_act r = Tokenize \<or> rule_act r = Redact" if "is_remote p"
    using that pf m by (auto simp: is_remote_def split: SourceSpec.splits)
  moreover have "\<exists>dir locale. NerDetector dir locale \<in> set (pl_detectors pipeline)" if "p_production p"
    using that pf m by metis
  ultimately show ?thesis by blast
qed

lemma multi_ok_start: "multi_ok (session_for_multi_profile :: 'w serve_session)" "served_names (session_for_multi_profile :: 'w serve_session) = {}"
  by (simp_all add: multi_ok_def session_for_multi_profile_def sorted_map_def served_names_def)

lemma prepare_Inr:
  assumes "prepare_selected_session sv profiles m = (Inr (s, loaded), m1)"
  shows "\<exists>rt rep. apply_multi_profile_retention (sv_sweep sv) (sv_open sv) profiles m = (Inr rep, m1) \<and> runtime_policies sv profiles = Inr rt \<and>
    register_profiles sv rt session_for_multi_profile = Inr s \<and> loaded = map p_name profiles"
  using assms by (auto simp: prepare_selected_session_def and_then_Inr_iff split: prod.splits sum.splits option.splits)

lemma call_plan_name:
  assumes "multi_ok s" "call_plan s call = Inr (profile, call1, pipeline, acts)"
  shows "profile \<in> served_names s \<and> pipeline_for s profile = Inr pipeline \<and> column_actions_for s profile = Inr acts"
proof -
  from assms obtain ps where ps: "ss_pipelines s = MultiPipeline ps" by (auto simp: multi_ok_def)
  from assms(2) have p: "pipeline_for s profile = Inr pipeline" "column_actions_for s profile = Inr acts"
    by (auto simp: call_plan_def and_then_Inr_iff)
  with ps have "map_of ps profile = Some pipeline" by (simp add: pipeline_for_def ok_or_Inr_iff)
  then have "profile \<in> fst ` set ps" by (metis domI dom_map_of_conv_image_fst)
  with p ps show ?thesis by (simp add: served_names_def)
qed

text \<open>
  C16: a started server serves each profile under its own policy. When the start succeeds over profiles whose
  names tell them apart, exactly those profiles are served, each with the pipeline and the column actions built
  from its own policy file, which passed the mandates: the pipeline of a remote profile only tokenizes or
  redacts, that of a production profile runs its detector of names. Each has a source of its class that is
  still unconnected, and every call the session plans runs under the policy of a profile that is served.
\<close>

theorem server_serves_under_own_policies:
  assumes "prepare_selected_session sv profiles m = (Inr (s, loaded), m1)"
    and "\<forall>p\<in>set profiles. \<forall>q\<in>set profiles. p_name p = p_name q \<longrightarrow> p = q"
  shows "loaded = map p_name profiles \<and> served_names s = set loaded \<and>
    (\<forall>p\<in>set profiles. \<exists>pipeline acts. under_own_policy sv p pipeline acts \<and> served sv s (p, pipeline, acts) \<and>
       (is_remote p \<longrightarrow> (\<forall>r\<in>set (pl_rules pipeline). rule_act r = Tokenize \<or> rule_act r = Redact)) \<and>
       (p_production p \<longrightarrow> (\<exists>dir locale. NerDetector dir locale \<in> set (pl_detectors pipeline)))) \<and>
    (\<forall>call profile call1 pipeline acts. call_plan s call = Inr (profile, call1, pipeline, acts) \<longrightarrow>
       (\<exists>p\<in>set profiles. p_name p = profile \<and> under_own_policy sv p pipeline acts))"
proof -
  obtain rt where rt: "runtime_policies sv profiles = Inr rt" "register_profiles sv rt session_for_multi_profile = Inr s"
      "loaded = map p_name profiles"
    using prepare_Inr [OF assms(1)] by blast
  note own = runtime_policies_Inr [OF rt(1)]
  have entry: "runtime_policy (sv_gaze sv) (sv_read_policy sv) (fst e) = Inr (snd e) \<and> fst e \<in> set profiles" if "e \<in> set rt" for e
  proof -
    from own have "fst ` set rt = set profiles" by (metis list.set_map)
    with that have "fst e \<in> set profiles" by blast
    moreover from own that have "runtime_policy (sv_gaze sv) (sv_read_policy sv) (fst e) = Inr (snd e)" by (auto simp: case_prod_beta)
    ultimately show ?thesis by blast
  qed
  have "\<forall>e\<in>{} \<union> set rt. \<forall>f\<in>set rt. p_name (fst e) = p_name (fst f) \<longrightarrow> e = f"
  proof (intro ballI impI)
    fix e f assume a: "e \<in> {} \<union> set rt" "f \<in> set rt" "p_name (fst e) = p_name (fst f)"
    with assms(2) entry [of e] entry [of f] have "fst e = fst f" by auto
    with entry [of e] entry [of f] a show "e = f" by (auto simp: prod_eq_iff)
  qed
  from register_profiles_serve [OF rt(2) multi_ok_start(1), of "{}"] this
  have m: "multi_ok s" "served_names s = p_name ` fst ` set rt" "\<forall>e\<in>set rt. served sv s e" by (simp_all add: multi_ok_start)
  have names: "p_name ` fst ` set rt = p_name ` set profiles" using own by (metis list.set_map)
  have each: "\<exists>pipeline acts. under_own_policy sv p pipeline acts \<and> served sv s (p, pipeline, acts)" if "p \<in> set profiles" for p
  proof -
    have "fst ` set rt = set profiles" using own by (metis list.set_map)
    with that obtain pipeline acts where e: "(p, pipeline, acts) \<in> set rt" by force
    with entry [OF e] m(3) show ?thesis using runtime_policy_under [of sv p pipeline acts] by auto
  qed
  have plan: "\<exists>p\<in>set profiles. p_name p = profile \<and> under_own_policy sv p pipeline acts"
    if c: "call_plan s call = Inr (profile, call1, pipeline, acts)" for call profile call1 pipeline acts
  proof -
    from call_plan_name [OF m(1) c] m(2) names obtain p where p: "p \<in> set profiles" "p_name p = profile"
        "pipeline_for s profile = Inr pipeline" "column_actions_for s profile = Inr acts" by auto
    from each [OF p(1)] obtain pl ac where "under_own_policy sv p pl ac" "served sv s (p, pl, ac)" by blast
    with p show ?thesis by (auto simp: served_def)
  qed
  have "served_names s = set loaded" using m(2) names rt(3) by simp
  with rt(3) each under_own_policy_mandates plan show ?thesis by meson
qed

definition demo_serve :: "nat Serve" where
  "demo_serve =
     \<lparr>sv_lib = demo_db_lib, sv_env = (\<lambda>_. None), sv_keyring = (\<lambda>_ _. Inr []), sv_socket_addr = (\<lambda>_. True), sv_server_name = (\<lambda>_. True),
      sv_gaze = demo_lib, sv_read_policy = (\<lambda>_. Inr demo_policy), sv_sweep = demo_sweep, sv_open = None, sv_create = None\<rparr>"

text \<open>A production profile with a policy and a development profile without one.\<close>

definition demo_served :: "Profile list" where
  "demo_served = [(demo_profile Purge True)\<lparr>p_policy := Some ''policy.toml'', p_snapshot_retention_days := Some 2\<rparr>,
     (demo_profile Purge False)\<lparr>p_name := ''dev'', p_snapshot_retention_days := Some 1\<rparr>]"

theorem server_serves_under_own_policies_witness:
  "\<exists>s m1. prepare_selected_session demo_serve demo_served None = (Inr (s, map p_name demo_served), m1) \<and>
    served_names s = set (map p_name demo_served) \<and>
    (\<exists>pipeline acts. served demo_serve s (hd demo_served, pipeline, acts) \<and> (\<exists>dir locale. NerDetector dir locale \<in> set (pl_detectors pipeline)))"
proof -
  obtain r m1 where run: "prepare_selected_session demo_serve demo_served None = (r, m1)" by (meson surj_pair)
  have "\<not> isl (fst (prepare_selected_session demo_serve demo_served None))" by code_simp
  with run obtain s loaded where r: "r = Inr (s, loaded)" by (cases r) auto
  have d: "\<forall>p\<in>set demo_served. \<forall>q\<in>set demo_served. p_name p = p_name q \<longrightarrow> p = q"
    by (simp add: demo_served_def demo_profile_def)
  have h: "hd demo_served \<in> set demo_served" "p_production (hd demo_served)" by (simp_all add: demo_served_def demo_profile_def)
  from server_serves_under_own_policies [OF run [unfolded r] d] h run r show ?thesis by blast
qed

section \<open>The sweep at the start\<close>

lemma fold_cap_rank: "purge_rank (fold (\<lambda>next merged. cap_with merged next) as a) \<le> purge_rank a \<and>
    (\<forall>b\<in>set as. purge_rank (fold (\<lambda>next merged. cap_with merged next) as a) \<le> purge_rank b)"
proof (induction as arbitrary: a)
  case (Cons b as)
  from Cons.IH [of "cap_with a b"] show ?case by (auto simp: cap_with_rank)
qed simp

lemma merged_purge_rank: "p \<in> set profiles \<Longrightarrow> purge_rank (merged_purge profiles) \<le> purge_rank (p_auto_purge p)"
  using fold_cap_rank by (cases profiles) (auto simp: merged_purge_def)

lemma sweep_not_purge:
  assumes "mode \<noteq> Purge" "sweep_expired_snapshots env d mode m = (r, m1)"
  shows "m1 = m"
proof (cases mode)
  case Warn
  show ?thesis
  proof (cases m)
    case (Some rows)
    obtain r2 rows1 where sw: "sweep_rows env d Warn (filter candidate rows) report_default rows = (r2, rows1)" by (meson surj_pair)
    with sweep_rows_warn [of env d "filter candidate rows" report_default rows] have "rows1 = rows" by simp
    with assms(2) Warn Some sw show ?thesis by (auto simp: sweep_expired_snapshots_def split: option.splits sum.splits if_splits)
  qed (use assms(2) Warn in \<open>simp add: sweep_expired_snapshots_def\<close>)
qed (use assms in \<open>simp_all add: sweep_expired_snapshots_def\<close>)

lemma merged_purge_all:
  assumes "profiles \<noteq> []" "\<forall>p\<in>set profiles. p_auto_purge p = Purge"
  shows "merged_purge profiles = Purge"
proof -
  have "fold (\<lambda>next merged. cap_with merged next) as Purge = Purge" if "\<forall>a\<in>set as. a = Purge" for as
    using that by (induction as) (simp_all add: cap_with_def)
  with assms show ?thesis by (cases profiles) (simp_all add: merged_purge_def)
qed

lemma merged_purge_consent: "merged_purge profiles = Purge \<Longrightarrow> p \<in> set profiles \<Longrightarrow> p_auto_purge p = Purge"
  using merged_purge_rank [of p profiles] by (cases "p_auto_purge p") simp_all

lemma merged_days_none: "merged_days profiles = None \<longleftrightarrow> (\<forall>p\<in>set profiles. p_snapshot_retention_days p = None)"
proof -
  have "merged_days profiles = None \<longleftrightarrow> set (List.map_filter p_snapshot_retention_days profiles) = {}"
    by (simp add: merged_days_def split: list.split)
  then show ?thesis by (simp add: set_filtered) (metis not_None_eq)
qed

lemma merged_days_min:
  assumes "merged_days profiles = Some d"
  shows "(\<exists>p\<in>set profiles. p_snapshot_retention_days p = Some d) \<and>
    (\<forall>p\<in>set profiles. \<forall>e. p_snapshot_retention_days p = Some e \<longrightarrow> d \<le> e)"
proof -
  from assms obtain x xs where f: "List.map_filter p_snapshot_retention_days profiles = x # xs" "d = fold min xs x"
    by (auto simp: merged_days_def split: list.splits)
  have mem: "set (x # xs) = {e. \<exists>p\<in>set profiles. p_snapshot_retention_days p = Some e}"
    using f(1) [symmetric] by (auto simp: set_filtered)
  have "d = Min (set (x # xs))" by (simp only: f(2) Min.set_eq_fold)
  then have "d \<in> set (x # xs)" "\<forall>e\<in>set (x # xs). d \<le> e" using Min_in [of "set (x # xs)"] by auto
  with mem show ?thesis by blast
qed

lemma retention_refused: "merged_purge profiles \<noteq> Purge \<or> merged_days profiles = None \<or> opened \<noteq> None \<Longrightarrow>
    snd (apply_multi_profile_retention sw opened profiles m) = m"
  by (auto simp: apply_multi_profile_retention_def apply_retention_policy_def split: option.split
      intro: sweep_not_purge [OF _ surjective_pairing])

lemma retention_swept:
  assumes "merged_purge profiles = Purge" "merged_days profiles = Some d" "opened = None"
  shows "apply_multi_profile_retention sw opened profiles m = sweep_expired_snapshots sw d Purge m"
  using assms by (simp add: apply_multi_profile_retention_def apply_retention_policy_def)

lemma swept_rows:
  assumes "sweep_expired_snapshots sw d Purge (Some rows) = (Inr rep, m1)" "distinct (map cl_call_id rows)"
  shows "\<exists>t. m1 = Some (map (\<lambda>x. if due_for_purge sw d x then x\<lparr>cl_purged_at_ms := Some (t x), cl_snapshot_ref := None\<rparr> else x) rows)"
proof -
  from sweep_effect [OF assms] obtain t S where
    m: "m1 = Some (map (\<lambda>r. if r \<in> S then tomb (t r) r else r) rows)" "S = {r \<in> set rows. due_for_purge sw d r}"
    unfolding due_iff by auto
  have "map (\<lambda>r. if r \<in> S then tomb (t r) r else r) rows =
      map (\<lambda>x. if due_for_purge sw d x then x\<lparr>cl_purged_at_ms := Some (t x), cl_snapshot_ref := None\<rparr> else x) rows"
    by (rule map_cong) (simp_all add: m(2) tomb_def)
  with m(1) show ?thesis by (intro exI [of _ t]) simp
qed

lemma prepare_retention:
  assumes "prepare_selected_session sv profiles m = (r, m1)"
  shows "snd (apply_multi_profile_retention (sv_sweep sv) (sv_open sv) profiles m) = m1 \<and>
    (r = Inr out \<longrightarrow> (\<exists>rep. fst (apply_multi_profile_retention (sv_sweep sv) (sv_open sv) profiles m) = Inr rep))"
  using assms by (auto simp: prepare_selected_session_def split: prod.splits sum.splits)

text \<open>
  C36: a start purges with the consent of every profile, and only then. Unless every profile to be served asks for
  purging and one of them states a retention, the start leaves the manifest as it found it, whether it succeeds or fails.
  When they all do, the manifest is what the purge sweep with the shortest stated retention leaves (untouched when
  it cannot be opened), and a start that succeeds has marked exactly the rows due under that retention.
\<close>

theorem startup_purges_by_consent:
  assumes "prepare_selected_session sv profiles m = (r, m1)"
  shows "((\<exists>p\<in>set profiles. p_auto_purge p \<noteq> Purge) \<or> (\<forall>p\<in>set profiles. p_snapshot_retention_days p = None) \<longrightarrow> m1 = m) \<and>
    ((\<forall>p\<in>set profiles. p_auto_purge p = Purge) \<and> (\<exists>p\<in>set profiles. p_snapshot_retention_days p \<noteq> None) \<longrightarrow>
      (\<exists>d. (\<exists>p\<in>set profiles. p_snapshot_retention_days p = Some d) \<and>
         (\<forall>p\<in>set profiles. \<forall>e. p_snapshot_retention_days p = Some e \<longrightarrow> d \<le> e) \<and>
         m1 = (if sv_open sv = None then snd (sweep_expired_snapshots (sv_sweep sv) d Purge m) else m) \<and>
         (\<forall>rows out. m = Some rows \<and> distinct (map cl_call_id rows) \<and> r = Inr out \<longrightarrow>
            (\<exists>t. m1 = Some (map (\<lambda>x. if due_for_purge (sv_sweep sv) d x
               then x\<lparr>cl_purged_at_ms := Some (t x), cl_snapshot_ref := None\<rparr> else x) rows)))))"
proof (intro conjI impI)
  let ?run = "apply_multi_profile_retention (sv_sweep sv) (sv_open sv) profiles m"
  note pr = prepare_retention [OF assms]
  show "m1 = m" if c: "(\<exists>p\<in>set profiles. p_auto_purge p \<noteq> Purge) \<or> (\<forall>p\<in>set profiles. p_snapshot_retention_days p = None)"
  proof -
    from c have "merged_purge profiles \<noteq> Purge \<or> merged_days profiles = None \<or> sv_open sv \<noteq> None"
      by (auto simp: merged_days_none dest: merged_purge_consent)
    then show ?thesis using pr retention_refused by metis
  qed
  assume c: "(\<forall>p\<in>set profiles. p_auto_purge p = Purge) \<and> (\<exists>p\<in>set profiles. p_snapshot_retention_days p \<noteq> None)"
  then have "merged_purge profiles = Purge" by (intro merged_purge_all) auto
  moreover from c obtain d where d: "merged_days profiles = Some d" by (metis merged_days_none not_None_eq)
  ultimately have sw: "sv_open sv = None \<Longrightarrow> ?run = sweep_expired_snapshots (sv_sweep sv) d Purge m" by (rule retention_swept)
  have m1: "m1 = (if sv_open sv = None then snd (sweep_expired_snapshots (sv_sweep sv) d Purge m) else m)"
    using pr sw retention_refused by (metis (no_types))
  have rows: "\<exists>t. m1 = Some (map (\<lambda>x. if due_for_purge (sv_sweep sv) d x
      then x\<lparr>cl_purged_at_ms := Some (t x), cl_snapshot_ref := None\<rparr> else x) rows)"
    if h: "m = Some rows" "distinct (map cl_call_id rows)" "r = Inr out" for rows out
  proof -
    from h(3) prepare_retention [OF assms, of out] obtain rep where rep: "fst ?run = Inr rep" by blast
    have "sv_open sv = None"
      using rep \<open>merged_purge profiles = Purge\<close> d by (auto simp: apply_multi_profile_retention_def apply_retention_policy_def split: option.splits)
    with sw pr rep h(1) have "sweep_expired_snapshots (sv_sweep sv) d Purge (Some rows) = (Inr rep, m1)" by (metis prod.collapse)
    then show ?thesis using h(2) by (rule swept_rows)
  qed
  from merged_days_min [OF d] m1 rows
  show "\<exists>d. (\<exists>p\<in>set profiles. p_snapshot_retention_days p = Some d) \<and>
      (\<forall>p\<in>set profiles. \<forall>e. p_snapshot_retention_days p = Some e \<longrightarrow> d \<le> e) \<and>
      m1 = (if sv_open sv = None then snd (sweep_expired_snapshots (sv_sweep sv) d Purge m) else m) \<and>
      (\<forall>rows out. m = Some rows \<and> distinct (map cl_call_id rows) \<and> r = Inr out \<longrightarrow>
         (\<exists>t. m1 = Some (map (\<lambda>x. if due_for_purge (sv_sweep sv) d x
            then x\<lparr>cl_purged_at_ms := Some (t x), cl_snapshot_ref := None\<rparr> else x) rows)))"
    by (intro exI [of _ d]) blast
qed

text \<open>Two profiles that both purge, after two days and after one, purge a row after one; a third that does not stops the sweep.\<close>

theorem startup_purges_by_consent_witness:
  "snd (prepare_selected_session demo_serve demo_served (Some [demo_row ''a'' ''old'', demo_row ''b'' ''new''])) =
     Some [(demo_row ''a'' ''old'')\<lparr>cl_purged_at_ms := Some 200000001, cl_snapshot_ref := None\<rparr>, demo_row ''b'' ''new''] \<and>
   snd (prepare_selected_session demo_serve ((demo_profile Off True)\<lparr>p_snapshot_retention_days := Some 1\<rparr> # demo_served) (Some [demo_row ''a'' ''old''])) =
     Some [demo_row ''a'' ''old'']"
proof
  let ?m = "[demo_row ''a'' ''old'', demo_row ''b'' ''new'']"
  obtain r m1 where run: "prepare_selected_session demo_serve demo_served (Some ?m) = (r, m1)" by (meson surj_pair)
  have c: "(\<forall>p\<in>set demo_served. p_auto_purge p = Purge) \<and> (\<exists>p\<in>set demo_served. p_snapshot_retention_days p \<noteq> None)"
    "p_snapshot_retention_days (demo_served ! 1) = Some 1" "demo_served ! 1 \<in> set demo_served"
    by (simp_all add: demo_served_def demo_profile_def)
  have one: "p \<in> set demo_served \<Longrightarrow> p_snapshot_retention_days p = Some d \<Longrightarrow> 1 \<le> d" for p d
    by (auto simp: demo_served_def)
  from startup_purges_by_consent [OF run] c(1) obtain d where
    d: "\<exists>p\<in>set demo_served. p_snapshot_retention_days p = Some d" "\<forall>p\<in>set demo_served. \<forall>e. p_snapshot_retention_days p = Some e \<longrightarrow> d \<le> e"
      "m1 = (if sv_open demo_serve = None then snd (sweep_expired_snapshots (sv_sweep demo_serve) d Purge (Some ?m)) else Some ?m)" by blast
  from d(1) one have "1 \<le> d" by blast
  moreover have "d \<le> 1" using d(2) c(2,3) by blast
  ultimately have "d = 1" by simp
  moreover have "snd (sweep_expired_snapshots demo_sweep 1 Purge (Some ?m)) =
     Some [(demo_row ''a'' ''old'')\<lparr>cl_purged_at_ms := Some 200000001, cl_snapshot_ref := None\<rparr>, demo_row ''b'' ''new'']" by code_simp
  ultimately show "snd (prepare_selected_session demo_serve demo_served (Some ?m)) =
     Some [(demo_row ''a'' ''old'')\<lparr>cl_purged_at_ms := Some 200000001, cl_snapshot_ref := None\<rparr>, demo_row ''b'' ''new'']"
    using d(3) run by (simp add: demo_serve_def)
next
  let ?ps = "(demo_profile Off True)\<lparr>p_snapshot_retention_days := Some 1\<rparr> # demo_served"
  obtain r m1 where run: "prepare_selected_session demo_serve ?ps (Some [demo_row ''a'' ''old'']) = (r, m1)" by (meson surj_pair)
  have "\<exists>p\<in>set ?ps. p_auto_purge p \<noteq> Purge" by (simp add: demo_profile_def)
  with startup_purges_by_consent [OF run] run
  show "snd (prepare_selected_session demo_serve ?ps (Some [demo_row ''a'' ''old''])) = Some [demo_row ''a'' ''old'']" by auto
qed

end
