(* ===== verification/Mcp_Frontend.thy ===== *)
theory Mcp_Frontend
  imports Session_Dispatch Watchdog "HOL-Library.Product_Lexorder" "HOL-Library.Multiset"
begin

text \<open>
  The way of a call from the agent to the session and back: \<^verbatim>\<open>src/frontend/mcp.rs\<close>, \<^verbatim>\<open>src/mcp\<close>, and of
  \<^verbatim>\<open>src/session/mod.rs\<close> the dispatch through the envelope, the discovery metadata and the conversions of
  errors. The envelope of \<^verbatim>\<open>gaze-mcp-core\<close>, which redacts arguments, records the call and runs the tool, is an
  argument, and so are serde and the digest.
\<close>

section \<open>Errors of the envelope\<close>

text \<open>A boxed error is the lens error the code put in the box, or another with its text.\<close>

datatype BoxedError = BoxedLens LensError | BoxedOther bytes
datatype ToolError = InvalidArgs bytes | ToolNotFound bytes | ToolInternal BoxedError | ToolErrorOther
datatype ManifestError = ManifestBackend BoxedError | ManifestOther bytes

datatype DispatchError =
    DispatchTool ToolError | DispatchRedaction bytes | UnknownTool bytes | DispatchSessionId bytes | DispatchAuth bytes
  | DispatchManifest ManifestError | ResponseSerialization bytes | DispatchOther

definition boxed_error_to_lens_error :: "BoxedError \<Rightarrow> LensError" where
  "boxed_error_to_lens_error b = (case b of BoxedLens e \<Rightarrow> e | BoxedOther t \<Rightarrow> InternalError t)"

fun tool_error_to_lens_error :: "ToolError \<Rightarrow> LensError" where
  "tool_error_to_lens_error (InvalidArgs detail) = ProfileError detail"
| "tool_error_to_lens_error (ToolNotFound detail) = ProfileError detail"
| "tool_error_to_lens_error (ToolInternal b) = boxed_error_to_lens_error b"
| "tool_error_to_lens_error ToolErrorOther = InternalError ''unknown gaze-mcp-core tool error''"

definition manifest_error_to_lens_error :: "ManifestError \<Rightarrow> LensError" where
  "manifest_error_to_lens_error m = (case m of ManifestBackend b \<Rightarrow> boxed_error_to_lens_error b | ManifestOther t \<Rightarrow> InternalError t)"

fun dispatch_error_to_lens_error :: "DispatchError \<Rightarrow> LensError" where
  "dispatch_error_to_lens_error (DispatchTool e) = tool_error_to_lens_error e"
| "dispatch_error_to_lens_error (DispatchRedaction detail) = RedactionFailed detail"
| "dispatch_error_to_lens_error (UnknownTool tool) = SourceError tool ''unknown source'' None None"
| "dispatch_error_to_lens_error (DispatchSessionId t) = ProfileError t"
| "dispatch_error_to_lens_error (DispatchAuth t) = InternalError t"
| "dispatch_error_to_lens_error (DispatchManifest m) = manifest_error_to_lens_error m"
| "dispatch_error_to_lens_error (ResponseSerialization t) = InternalError t"
| "dispatch_error_to_lens_error DispatchOther = InternalError ''unknown gaze-mcp-core dispatch error''"

definition lens_error_to_tool_error :: "(bytes list \<Rightarrow> bytes) \<Rightarrow> LensError \<Rightarrow> ToolError" where
  "lens_error_to_tool_error dbg e = (if is_invalid_params e then InvalidArgs (sanitize_error dbg e) else ToolInternal (BoxedLens e))"

section \<open>Discovery metadata\<close>

record DiscoveryMetadata =
  di_profile :: bytes
  di_source_class :: bytes
  di_allowed_columns :: "bytes list option"
  di_schema_hash :: bytes

text \<open>\<^verbatim>\<open>SchemaDiscoveryDescriptor\<close> and \<^verbatim>\<open>ListTablesDiscoveryDescriptor\<close>; the tool is the constructor.\<close>

datatype Descriptor =
    SchemaDescriptor bytes bytes bytes "(bytes \<times> bool) list"
  | TablesDescriptor bytes bytes "bytes list"

text \<open>
  What serde and the digest do: the presented schema of a text as its table and its columns with their
  \<^verbatim>\<open>allowed\<close>, the list of table names, the JSON of a descriptor and the digest in hexadecimal; a clean output
  from its JSON; the text of a JSON value.
\<close>

record FrontLib =
  fl_schema :: "bytes \<Rightarrow> bytes + bytes \<times> (bytes \<times> bool) list"
  fl_tables :: "bytes \<Rightarrow> bytes + bytes list"
  fl_descriptor :: "Descriptor \<Rightarrow> bytes + bytes"
  fl_sha256_hex :: "bytes \<Rightarrow> bytes"
  fl_from_value :: "bytes Json \<Rightarrow> bytes + bytes CleanOutput"
  fl_to_string :: "bytes Json \<Rightarrow> bytes + bytes"

definition internal :: "bytes \<Rightarrow> bytes + 'a \<Rightarrow> LensError + 'a" where
  "internal pre r = (case r of Inl t \<Rightarrow> Inl (InternalError (pre @ t)) | Inr x \<Rightarrow> Inr x)"

definition clean_text :: "bytes CleanOutput \<Rightarrow> bytes \<Rightarrow> LensError + bytes" where
  "clean_text clean tool =
     (case clean of CleanText t _ \<Rightarrow> Inr t | CleanRows _ _ \<Rightarrow> Inl (InternalError (tool @ '' discovery metadata expected text output'')))"

definition schema_hash :: "FrontLib \<Rightarrow> Descriptor \<Rightarrow> LensError + bytes" where
  "schema_hash fl d = and_then (internal ''failed to serialize discovery descriptor: '' (fl_descriptor fl d)) (\<lambda>b. Inr (fl_sha256_hex fl b))"

definition schema_descriptor :: "bytes \<Rightarrow> SourceClass \<Rightarrow> bytes \<Rightarrow> (bytes \<times> bool) list \<Rightarrow> Descriptor" where
  "schema_descriptor profile c table columns = SchemaDescriptor profile (class_name c) table (sort columns)"

definition schema_discovery_metadata :: "FrontLib \<Rightarrow> bytes \<Rightarrow> SourceClass \<Rightarrow> bytes CleanOutput \<Rightarrow> LensError + DiscoveryMetadata" where
  "schema_discovery_metadata fl profile c clean =
     and_then (clean_text clean ''schema'') (\<lambda>t.
     and_then (internal ''failed to parse schema discovery metadata: '' (fl_schema fl t)) (\<lambda>(table, columns).
     and_then (schema_hash fl (schema_descriptor profile c table columns)) (\<lambda>h.
     Inr \<lparr>di_profile = profile, di_source_class = class_name c,
          di_allowed_columns = Some (map fst (filter snd (sort columns))), di_schema_hash = h\<rparr>)))"

definition tables_descriptor :: "bytes \<Rightarrow> SourceClass \<Rightarrow> bytes list \<Rightarrow> Descriptor" where
  "tables_descriptor profile c tables = TablesDescriptor profile (class_name c) (sort tables)"

definition list_tables_discovery_metadata :: "FrontLib \<Rightarrow> bytes \<Rightarrow> SourceClass \<Rightarrow> bytes CleanOutput \<Rightarrow> LensError + DiscoveryMetadata" where
  "list_tables_discovery_metadata fl profile c clean =
     and_then (clean_text clean ''list_tables'') (\<lambda>t.
     and_then (internal ''failed to parse list_tables discovery metadata: '' (fl_tables fl t)) (\<lambda>tables.
     and_then (schema_hash fl (tables_descriptor profile c tables)) (\<lambda>h.
     Inr \<lparr>di_profile = profile, di_source_class = class_name c, di_allowed_columns = None, di_schema_hash = h\<rparr>)))"

definition discovery_observability_for_clean ::
  "FrontLib \<Rightarrow> bytes \<Rightarrow> bytes \<Rightarrow> bytes CleanOutput \<Rightarrow> LensError + DiscoveryMetadata option" where
  "discovery_observability_for_clean fl tool profile clean =
     (case tool_kind tool of
        None \<Rightarrow> Inr None
      | Some c \<Rightarrow>
          if tool = ''schema'' then and_then (schema_discovery_metadata fl profile c clean) (\<lambda>d. Inr (Some d))
          else if tool = ''list_tables'' then and_then (list_tables_discovery_metadata fl profile c clean) (\<lambda>d. Inr (Some d))
          else Inr None)"

section \<open>Tools\<close>

text \<open>\<^verbatim>\<open>serde_json::to_value(clean)\<close>: the variant tags its fields. It has no failing case on this type.\<close>

definition cuts_json :: "TruncatedAt list \<Rightarrow> bytes Json" where
  "cuts_json ts = JArray (map (JString \<circ> truncated_name) ts)"

definition clean_json :: "bytes CleanOutput \<Rightarrow> (bytes \<times> bytes Json) list" where
  "clean_json out =
     (case out of
        CleanRows rows ts \<Rightarrow> [(''Rows'', JObject [(''rows'', JArray (map JObject rows)), (''truncated_at'', cuts_json ts)])]
      | CleanText t ts \<Rightarrow> [(''Text'', JObject [(''text'', JString t), (''truncated_at'', cuts_json ts)])])"

definition clean_output_response :: "bytes CleanOutput \<Rightarrow> ToolError + bytes Json" where
  "clean_output_response out = Inr (JObject (clean_json out))"

definition restore_tokens_in_string :: "'g Gaze \<Rightarrow> Pipeline \<Rightarrow> bytes \<Rightarrow> ('g, bytes) run" where
  "restore_tokens_in_string gz p s = redaction (gz_restore gz p s)"

definition restore_tokens_in_json :: "'g Gaze \<Rightarrow> Pipeline \<Rightarrow> bytes Json \<Rightarrow> ('g, bytes Json) run" where
  "restore_tokens_in_json gz p = walk_json (restore_tokens_in_string gz p)"

text \<open>The state a call runs on: the session, gaze, the world of the sources, and what the envelope keeps.\<close>

type_synonym ('s, 'g, 'w, 'm) call_state = "('s, 'w) SessionState \<times> 'g \<times> 'w \<times> 'm"

definition invoke_session_tool ::
  "(bytes list \<Rightarrow> bytes) \<Rightarrow> 'g Gaze \<Rightarrow> ('s \<Rightarrow> ToolCall \<Rightarrow> ('w, SourceOutput) effect) \<Rightarrow> Pipeline \<Rightarrow> bytes \<Rightarrow> bytes \<Rightarrow> bytes Json \<Rightarrow>
     ('s, 'g, 'w, 'm) call_state \<Rightarrow> (ToolError + bytes Json) \<times> ('s, 'g, 'w, 'm) call_state" where
  "invoke_session_tool dbg gz dispatch p tool call_id redacted x =
     (case x of (s, g, w, m) \<Rightarrow>
       case restore_tokens_in_json gz p redacted g of
         (Inl e, g1) \<Rightarrow> (Inl (ToolInternal (BoxedLens e)), (s, g1, w, m))
       | (Inr args, g1) \<Rightarrow>
           (case invoke_core_tool gz dispatch \<lparr>tc_call_id = call_id, tc_tool_name = tool, tc_args = args\<rparr> s g1 w of
              (Inl e, s1, g2, w1) \<Rightarrow> (Inl (lens_error_to_tool_error dbg e), (s1, g2, w1, m))
            | (Inr clean, s1, g2, w1) \<Rightarrow> (clean_output_response clean, (s1, g2, w1, m))))"

text \<open>The tools of the registry; \<open>grep\<close> is the invocation of the search tool, which has its own and sees the raw pattern.\<close>

type_synonym ('s, 'g, 'w, 'm) invocation =
  "bytes \<Rightarrow> bytes Json \<Rightarrow> ('s, 'g, 'w, 'm) call_state \<Rightarrow> (ToolError + bytes Json) \<times> ('s, 'g, 'w, 'm) call_state"

definition core_tool_registry ::
  "(bytes list \<Rightarrow> bytes) \<Rightarrow> 'g Gaze \<Rightarrow> ('s \<Rightarrow> ToolCall \<Rightarrow> ('w, SourceOutput) effect) \<Rightarrow> (bytes option \<Rightarrow> Pipeline \<Rightarrow> ('s, 'g, 'w, 'm) invocation) \<Rightarrow>
     bytes option \<Rightarrow> Pipeline \<Rightarrow>
     (bytes \<times> ('s, 'g, 'w, 'm) invocation) list" where
  "core_tool_registry dbg gz dispatch grep pattern p =
     map (\<lambda>t. (t, invoke_session_tool dbg gz dispatch p t)) [''query'', ''schema'', ''list_tables'', ''log_tail''] @ [(''log_grep'', grep pattern p)]"

text \<open>\<^verbatim>\<open>LensAuthHook\<close>: agents may call, operators are denied.\<close>

record AuthHook =
  ah_agent :: "bytes \<Rightarrow> bytes \<Rightarrow> bytes option"
  ah_operator :: "bytes \<Rightarrow> bytes \<Rightarrow> bytes option"

definition lens_auth_hook :: AuthHook where
  "lens_auth_hook =
     \<lparr>ah_agent = (\<lambda>_ _. None), ah_operator = (\<lambda>_ _. Some ''operator-tier tools are not part of gaze-lens v1'')\<rparr>"

section \<open>Dispatch\<close>

text \<open>
  The envelope: whether the registry accepts the tools, and the dispatch of a call by an agent over the hook,
  the registry and the pipeline. It begins, finishes or fails the row of the call in the manifest, part of \<open>'m\<close>.
\<close>

record ('s, 'g, 'w, 'm) Envelope =
  en_registry :: "bytes list \<Rightarrow> bytes option"
  en_dispatch :: "AuthHook \<Rightarrow> (bytes \<times> ('s, 'g, 'w, 'm) invocation) list \<Rightarrow> Pipeline \<Rightarrow> bytes \<Rightarrow> bytes \<Rightarrow> bytes Json \<Rightarrow>
     ('s, 'g, 'w, 'm) call_state \<Rightarrow> (DispatchError + bytes Json) \<times> ('s, 'g, 'w, 'm) call_state"

record ToolResult =
  tr_clean :: "bytes CleanOutput"
  tr_snapshot :: bytes
  tr_discovery :: "DiscoveryMetadata option"

record ('s, 'g, 'w, 'm) Front =
  fr_dbg :: "bytes list \<Rightarrow> bytes"
  fr_gaze :: "'g Gaze"
  fr_dispatch :: "'s \<Rightarrow> ToolCall \<Rightarrow> ('w, SourceOutput) effect"
  fr_grep :: "bytes option \<Rightarrow> Pipeline \<Rightarrow> ('s, 'g, 'w, 'm) invocation"
  fr_envelope :: "('s, 'g, 'w, 'm) Envelope"
  fr_lib :: FrontLib
  fr_snapshot :: bytes

text \<open>What follows the envelope: the output is read back, tokens of the schema tools are restored, metadata is added.\<close>

definition read_back :: "('s, 'g, 'w, 'm) Front \<Rightarrow> bytes \<Rightarrow> bytes \<Rightarrow> Pipeline \<Rightarrow> bytes Json \<Rightarrow> ('g, ToolResult) run" where
  "read_back fr tool profile p payload =
     r_bind (r_of (internal [] (fl_from_value (fr_lib fr) payload))) (\<lambda>clean.
     r_bind (if tool \<in> {''schema'', ''list_tables''} then restore_gaze_tokens (fr_gaze fr) p clean else r_ok clean) (\<lambda>clean1.
     r_bind (r_of (discovery_observability_for_clean (fr_lib fr) tool profile clean1)) (\<lambda>d.
     r_ok \<lparr>tr_clean = clean1, tr_snapshot = fr_snapshot fr, tr_discovery = d\<rparr>)))"

text \<open>The task-local the search tool reads.\<close>

definition raw_pattern :: "ToolCall \<Rightarrow> bytes option" where
  "raw_pattern call = Option.bind (json_field ''pattern'' (tc_args call)) as_str"

definition dispatch_tool :: "('s, 'g, 'w, 'm) Front \<Rightarrow> ToolCall \<Rightarrow> ('s, 'g, 'w, 'm) call_state \<Rightarrow>
    (LensError + ToolResult) \<times> ('s, 'g, 'w, 'm) call_state" where
  "dispatch_tool fr call0 x =
     (case and_then (extract_profile (fst x) call0) (\<lambda>(profile, call).
           and_then (pipeline_for (fst x) profile) (\<lambda>p.
           let tools = core_tool_registry (fr_dbg fr) (fr_gaze fr) (fr_dispatch fr) (fr_grep fr) (raw_pattern call) p in
           case en_registry (fr_envelope fr) (map fst tools) of
             Some t \<Rightarrow> Inl (InternalError t)
           | None \<Rightarrow> Inr (profile, call, p, tools))) of
        Inl e \<Rightarrow> (Inl e, x)
      | Inr (profile, call, p, tools) \<Rightarrow>
          (case en_dispatch (fr_envelope fr) lens_auth_hook tools p ''lens-agent'' (tc_tool_name call) (tc_args call) x of
             (Inl e, x1) \<Rightarrow> (Inl (dispatch_error_to_lens_error e), x1)
           | (Inr payload, (s, g, w, m)) \<Rightarrow>
               (case read_back fr (tc_tool_name call) profile p payload g of (r, g1) \<Rightarrow> (r, (s, g1, w, m)))))"

section \<open>The frontend\<close>

definition public_tools :: "bytes list" where
  "public_tools = [''query'', ''schema'', ''list_tables'', ''log_tail'', ''log_grep'']"

text \<open>\<open>attached\<close>: whether a session is attached; \<open>call_id\<close> is fresh.\<close>

definition frontend_dispatch :: "('s, 'g, 'w, 'm) Front \<Rightarrow> bool \<Rightarrow> bytes \<Rightarrow> bytes \<Rightarrow> bytes Json \<Rightarrow> ('s, 'g, 'w, 'm) call_state \<Rightarrow>
    (LensError + ToolResult) \<times> ('s, 'g, 'w, 'm) call_state" where
  "frontend_dispatch fr attached call_id tool args x =
     (if tool \<notin> set public_tools then (Inl (FrontendError ''mcp'' (''unknown tool '' @ [CHR 0x60] @ tool @ [CHR 0x60])), x)
      else if \<not> attached then (Inl (FrontendError ''mcp'' ''session not attached''), x)
      else dispatch_tool fr \<lparr>tc_call_id = call_id, tc_tool_name = tool, tc_args = args\<rparr> x)"

definition discovery_json :: "DiscoveryMetadata \<Rightarrow> bytes Json" where
  "discovery_json d =
     JObject ((case di_allowed_columns d of None \<Rightarrow> [] | Some cs \<Rightarrow> [(''allowed_columns'', JArray (map JString cs))]) @
       [(''profile'', JString (di_profile d)), (''schema_hash'', JString (di_schema_hash d)), (''source_class'', JString (di_source_class d))])"

definition clean_output_json :: "bytes CleanOutput \<Rightarrow> DiscoveryMetadata option \<Rightarrow> bytes Json" where
  "clean_output_json out d =
     JObject (case d of None \<Rightarrow> clean_json out | Some m \<Rightarrow> map_insert ''observability'' (JObject [(''discovery'', discovery_json m)]) (clean_json out))"

definition tool_result_json :: "ToolResult \<Rightarrow> bytes Json" where
  "tool_result_json r =
     JObject [(''clean'', clean_output_json (tr_clean r) (tr_discovery r)),
              (''snapshot_ref'', JObject [(''path'', JString (tr_snapshot r))])]"

datatype McpResponse = Success bytes | InvalidParams bytes | InternalResponse bytes

definition respond :: "('s, 'g, 'w, 'm) Front \<Rightarrow> LensError + ToolResult \<Rightarrow> McpResponse" where
  "respond fr r =
     (case r of
        Inr t \<Rightarrow> (case fl_to_string (fr_lib fr) (tool_result_json t) of Inr b \<Rightarrow> Success b | Inl e \<Rightarrow> InternalResponse e)
      | Inl e \<Rightarrow> if is_invalid_params e then InvalidParams (sanitize_error (fr_dbg fr) e) else InternalResponse (sanitize_error (fr_dbg fr) e))"

text \<open>
  \<^verbatim>\<open>to_call_tool_result\<close>. The supervisor is absent when the watchdog is not enabled; \<open>took\<close> is how long the
  dispatch takes. No response leaves a process that has exited.
\<close>

definition to_call_tool_result ::
  "('s, 'g, 'w, 'm) Front \<Rightarrow> bool \<Rightarrow> bytes \<Rightarrow> nat \<Rightarrow> bytes \<Rightarrow> bytes + bytes Json \<Rightarrow> Supervisor option \<Rightarrow> ('s, 'g, 'w, 'm) call_state \<Rightarrow>
     McpResponse option \<times> Supervisor option \<times> ('s, 'g, 'w, 'm) call_state" where
  "to_call_tool_result fr attached call_id took tool args sv x =
     (case args of
        Inl t \<Rightarrow> (Some (InternalResponse t), sv, x)
      | Inr a \<Rightarrow>
          (case sv of
             None \<Rightarrow> (case frontend_dispatch fr attached call_id tool a x of (r, x1) \<Rightarrow> (Some (respond fr r), None, x1))
           | Some v \<Rightarrow>
               (case admit v of
                  None \<Rightarrow> (Some (InternalResponse ''remote operation unavailable''), sv, x)
                | Some v1 \<Rightarrow>
                    (case frontend_dispatch fr attached call_id tool a x of
                       (r, x1) \<Rightarrow>
                         let v2 = complete (wd_now v + 90) (v1\<lparr>wd_now := wd_now v1 + took\<rparr>) in
                         (if wd_exited v2 then None else Some (respond fr r), Some v2, x1)))))"

definition call_tool_json :: "('s, 'g, 'w, 'm) Front \<Rightarrow> bool \<Rightarrow> bytes \<Rightarrow> bytes \<Rightarrow> bytes Json \<Rightarrow> ('s, 'g, 'w, 'm) call_state \<Rightarrow>
    (bytes + bytes Json) \<times> ('s, 'g, 'w, 'm) call_state" where
  "call_tool_json fr attached call_id tool args x =
     (case frontend_dispatch fr attached call_id tool args x of
        (Inl e, x1) \<Rightarrow> (Inl (sanitize_error (fr_dbg fr) e), x1)
      | (Inr t, x1) \<Rightarrow> (Inr (tool_result_json t), x1))"

section \<open>What an error shows\<close>

text \<open>The part of an error the agent may see: the rest, details, statements, outputs of programs, is blanked.\<close>

fun public_view :: "LensError \<Rightarrow> LensError" where
  "public_view (ManifestBeginFailed _ _ _) = ManifestBeginFailed [] [] None"
| "public_view (ManifestFinishFailed _ _ _) = ManifestFinishFailed [] [] None"
| "public_view (FrontendError _ _) = FrontendError [] []"
| "public_view (SourceError _ _ _ _) = SourceError [] [] None None"
| "public_view (RedactionFailed _) = RedactionFailed []"
| "public_view (ReplayUnavailable _ _) = ReplayUnavailable [] []"
| "public_view (SnapshotPurged _ _ _ _) = SnapshotPurged [] 0 [] 0"
| "public_view (ScopeRejected _) = ScopeRejected []"
| "public_view (ConvertError (Decode kind _)) = ConvertError (Decode kind [])"
| "public_view (ConvertError (Unsupported _)) = ConvertError (Unsupported [])"
| "public_view (SecretBackendUnavailable backend _) = SecretBackendUnavailable backend []"
| "public_view (BatchPartial applied pending _ _) =
     BatchPartial (replicate (length applied) []) (replicate (length pending) []) [] (InternalError [])"
| "public_view (InternalError _) = InternalError []"
| "public_view e = e"

lemma sanitize_public_view: "sanitize_error dbg (public_view e) = sanitize_error dbg e"
  by (induction e rule: public_view.induct) simp_all

lemma invalid_public_view: "is_invalid_params (public_view e) = is_invalid_params e"
  by (induction e rule: public_view.induct) (simp_all add: is_invalid_params_def)

lemma respond_public_view: "public_view e = public_view f \<Longrightarrow> respond fr (Inl e) = respond fr (Inl f)"
proof -
  assume "public_view e = public_view f"
  with sanitize_public_view [of "fr_dbg fr"] have "sanitize_error (fr_dbg fr) e = sanitize_error (fr_dbg fr) f" by metis
  moreover from \<open>public_view e = public_view f\<close> invalid_public_view have "is_invalid_params e = is_invalid_params f" by metis
  ultimately show ?thesis by (simp add: respond_def)
qed

text \<open>An error that goes through a tool of the envelope keeps its class and shows no more.\<close>

definition through_tool :: "(bytes list \<Rightarrow> bytes) \<Rightarrow> LensError \<Rightarrow> LensError" where
  "through_tool dbg e = dispatch_error_to_lens_error (DispatchTool (lens_error_to_tool_error dbg e))"

lemma through_tool_eq: "through_tool dbg e = (if is_invalid_params e then ProfileError (sanitize_error dbg e) else e)"
  by (simp add: through_tool_def lens_error_to_tool_error_def boxed_error_to_lens_error_def)

lemma through_tool_invalid: "is_invalid_params (through_tool dbg e) = is_invalid_params e"
  by (simp add: through_tool_eq) (simp add: is_invalid_params_def)

lemma through_tool_public_view: "public_view e = public_view f \<Longrightarrow> public_view (through_tool dbg e) = public_view (through_tool dbg f)"
  using sanitize_public_view [of dbg] invalid_public_view by (metis through_tool_eq)

lemma respond_not_success: "respond fr (Inl e) \<noteq> Success b"
  by (simp add: respond_def)

text \<open>
  C17: an error tells the agent only what it may see. When a call of the frontend is answered and the answer is
  no result, it is the refusal of a busy watchdog, an error of serde, or the response to an error of the
  dispatch; that response is the same for every error with the same public view, where the details of sources,
  redaction, manifest and conversions, the statement and the output of programs are blanked. An error that
  comes out of a tool through the envelope is invalid parameters exactly when it was, and shows no more.
\<close>

theorem frontend_errors_hide_details:
  assumes "to_call_tool_result fr attached call_id took tool args sv x = (Some r, sv1, x1)" "\<nexists>b. r = Success b"
  shows "((\<exists>t. args = Inl t \<and> r = InternalResponse t) \<or> r = InternalResponse ''remote operation unavailable'' \<or>
     (\<exists>a res t. args = Inr a \<and> fst (frontend_dispatch fr attached call_id tool a x) = Inr res \<and>
        fl_to_string (fr_lib fr) (tool_result_json res) = Inl t \<and> r = InternalResponse t) \<or>
     (\<exists>a e. args = Inr a \<and> fst (frontend_dispatch fr attached call_id tool a x) = Inl e \<and>
        (\<forall>f. public_view f = public_view e \<longrightarrow> respond fr (Inl f) = r))) \<and>
   (\<forall>e f. is_invalid_params (through_tool (fr_dbg fr) e) = is_invalid_params e \<and>
      (public_view f = public_view e \<longrightarrow> respond fr (Inl (through_tool (fr_dbg fr) f)) = respond fr (Inl (through_tool (fr_dbg fr) e))))"
proof
  show "\<forall>e f. is_invalid_params (through_tool (fr_dbg fr) e) = is_invalid_params e \<and>
      (public_view f = public_view e \<longrightarrow> respond fr (Inl (through_tool (fr_dbg fr) f)) = respond fr (Inl (through_tool (fr_dbg fr) e)))"
    using through_tool_invalid through_tool_public_view respond_public_view by blast
next
  show "(\<exists>t. args = Inl t \<and> r = InternalResponse t) \<or> r = InternalResponse ''remote operation unavailable'' \<or>
     (\<exists>a res t. args = Inr a \<and> fst (frontend_dispatch fr attached call_id tool a x) = Inr res \<and>
        fl_to_string (fr_lib fr) (tool_result_json res) = Inl t \<and> r = InternalResponse t) \<or>
     (\<exists>a e. args = Inr a \<and> fst (frontend_dispatch fr attached call_id tool a x) = Inl e \<and>
        (\<forall>f. public_view f = public_view e \<longrightarrow> respond fr (Inl f) = r))"
  proof (cases args)
    case (Inl t)
    with assms(1) show ?thesis by (simp add: to_call_tool_result_def)
  next
    case (Inr a)
    obtain d xd where d: "frontend_dispatch fr attached call_id tool a x = (d, xd)" by (meson surj_pair)
    from assms(1) Inr d have "r = InternalResponse ''remote operation unavailable'' \<or> r = respond fr d"
      by (auto simp: to_call_tool_result_def Let_def split: option.splits if_splits)
    moreover have ?thesis if r: "r = respond fr d"
    proof (cases d)
      case (Inl e)
      with r have "\<forall>f. public_view f = public_view e \<longrightarrow> respond fr (Inl f) = r" by (auto intro: respond_public_view)
      with Inr d Inl show ?thesis by auto
    next
      case res: (Inr t)
      with r assms(2) obtain u where "fl_to_string (fr_lib fr) (tool_result_json t) = Inl u" "r = InternalResponse u"
        by (auto simp: respond_def split: sum.splits)
      with Inr d res show ?thesis by auto
    qed
    ultimately show ?thesis by blast
  qed
qed

text \<open>A session over one profile whose source fails with details, behind an envelope that runs the tool.\<close>

definition demo_envelope :: "('s, 'g, 'w, 'm) Envelope" where
  "demo_envelope =
     \<lparr>en_registry = (\<lambda>_. None),
      en_dispatch = (\<lambda>hook tools p who tool args x.
        case map_of tools tool of
          None \<Rightarrow> (Inl (UnknownTool tool), x)
        | Some tool_run \<Rightarrow> (case tool_run ''01J'' args x of (Inl e, x1) \<Rightarrow> (Inl (DispatchTool e), x1) | (Inr v, x1) \<Rightarrow> (Inr v, x1)))\<rparr>"

definition demo_front :: "(bytes, nat, nat, unit) Front" where
  "demo_front =
     \<lparr>fr_dbg = (\<lambda>_. ''[]''), fr_gaze = demo_gaze,
      fr_dispatch = (\<lambda>src call w. (Some (Inl (SourceError ''db'' ''password is hunter2'' (Some ''SELECT 1'') None)), Suc w)),
      fr_grep = (\<lambda>_ _ _ _ x. (Inl ToolErrorOther, x)), fr_envelope = demo_envelope,
      fr_lib = \<lparr>fl_schema = (\<lambda>_. Inl ''eof''), fl_tables = (\<lambda>_. Inl ''eof''), fl_descriptor = (\<lambda>_. Inr []), fl_sha256_hex = (\<lambda>_. ''00''),
        fl_from_value = (\<lambda>_. Inr (CleanText [] [])), fl_to_string = (\<lambda>_. Inr [])\<rparr>,
      fr_snapshot = ''/s''\<rparr>"

definition demo_front_state :: "(bytes, nat, nat, unit) call_state" where
  "demo_front_state = (register_source_for_profile DatabaseClass ''app'' ''db'' (session_for_profile ''app'' demo_gaze_pipeline), 0, 0, ())"

definition demo_front_run :: "McpResponse option \<times> Supervisor option \<times> (bytes, nat, nat, unit) call_state" where
  "demo_front_run = to_call_tool_result demo_front True ''01J'' 3 ''query'' (Inr (JObject [])) (Some (wd_enable 5)) demo_front_state"

theorem frontend_errors_hide_details_witness:
  "fst demo_front_run = Some (InternalResponse ''SourceError: source failed'') \<and>
   fst (frontend_dispatch demo_front True ''01J'' ''query'' (JObject []) demo_front_state)
     = Inl (SourceError ''db'' ''password is hunter2'' (Some ''SELECT 1'') None) \<and>
   respond demo_front (Inl (SourceError ''other'' ''another detail'' None (Some ''stderr''))) = InternalResponse ''SourceError: source failed''"
proof -
  have r: "fst demo_front_run = Some (InternalResponse ''SourceError: source failed'')" by code_simp
  have run: "to_call_tool_result demo_front True ''01J'' 3 ''query'' (Inr (JObject [])) (Some (wd_enable 5)) demo_front_state =
      (Some (InternalResponse ''SourceError: source failed''), fst (snd demo_front_run), snd (snd demo_front_run))"
    using r by (simp add: demo_front_run_def prod_eq_iff)
  have d: "fst (frontend_dispatch demo_front True ''01J'' ''query'' (JObject []) demo_front_state)
     = Inl (SourceError ''db'' ''password is hunter2'' (Some ''SELECT 1'') None)" by code_simp
  from frontend_errors_hide_details [OF run] d
  have "\<forall>f. public_view f = SourceError [] [] None None \<longrightarrow> respond demo_front (Inl f) = InternalResponse ''SourceError: source failed''"
    by auto
  with r d show ?thesis by simp
qed

section \<open>Supervision\<close>

text \<open>
  Calls are supervised one at a time. With the watchdog enabled, what a call does to it is a run of the
  watchdog's own steps. While another call is running the frontend refuses, and nothing changes; from an idle
  watchdog the call is answered exactly when it took less than the ninety seconds of its admission, and leaves
  the watchdog idle; otherwise the process has exited and there is no answer.
\<close>

theorem frontend_calls_are_supervised:
  assumes "to_call_tool_result fr attached call_id took tool (Inr a) (Some v) x = (resp, sv1, x1)" "\<not> wd_exited v"
  shows "\<exists>v1. sv1 = Some v1 \<and> wd_steps v v1 \<and>
    (if wd_state v = Idle
     then (resp \<noteq> None) = (took < 90) \<and> (if took < 90 then wd_state v1 = Idle \<and> \<not> wd_exited v1 else wd_exited v1)
     else resp = Some (InternalResponse ''remote operation unavailable'') \<and> v1 = v \<and> x1 = x)"
proof (cases "wd_state v = Idle")
  case False
  with assms(1) show ?thesis by (auto simp: to_call_tool_result_def admit_def admit_for_def intro: wd_refl)
next
  case True
  obtain d xd where d: "frontend_dispatch fr attached call_id tool a x = (d, xd)" by (meson surj_pair)
  let ?dl = "wd_now v + 90"
  let ?v1 = "v\<lparr>wd_state := Running ?dl, wd_admissions := ?dl # wd_admissions v\<rparr>"
  let ?v2 = "?v1\<lparr>wd_now := wd_now ?v1 + took\<rparr>"
  let ?v3 = "complete ?dl ?v2"
  have adm: "admit v = Some ?v1" using True by (simp add: admit_def admit_for_def Let_def)
  have "wd_steps v ?v1" by (rule wd_trans [OF wd_refl wd_admit]) (simp_all add: assms(2) adm)
  then have "wd_steps v ?v2" by (rule wd_trans) (rule wd_tick, simp add: assms(2))
  then have st: "wd_steps v ?v3" by (rule wd_trans) (rule wd_complete, simp_all add: assms(2))
  have ex: "wd_exited ?v3 \<longleftrightarrow> \<not> took < 90" "took < 90 \<Longrightarrow> wd_state ?v3 = Idle"
    using assms(2) by (auto simp: complete_def Let_def)
  from assms(1) adm d have "resp = (if wd_exited ?v3 then None else Some (respond fr d))" "sv1 = Some ?v3"
    by (simp_all add: to_call_tool_result_def Let_def)
  with st ex True show ?thesis by auto
qed

theorem frontend_calls_are_supervised_witness:
  "\<exists>v1. fst (snd demo_front_run) = Some v1 \<and> wd_steps (wd_enable 5) v1 \<and> wd_state v1 = Idle"
proof -
  have "to_call_tool_result demo_front True ''01J'' 3 ''query'' (Inr (JObject [])) (Some (wd_enable 5)) demo_front_state =
      (fst demo_front_run, fst (snd demo_front_run), snd (snd demo_front_run))"
    by (simp add: demo_front_run_def)
  from frontend_calls_are_supervised [OF this] show ?thesis by (auto simp: wd_enable_def)
qed

section \<open>Discovery\<close>

lemma sort_eq_iff: "sort xs = sort ys \<longleftrightarrow> mset xs = mset (ys :: 'a::linorder list)"
  by (metis mset_sort properties_for_sort sorted_sort)

text \<open>
  The metadata of a discovery depends on the schema and not on the order it is shown in. Two texts whose
  presented schemas have the same table and the same columns in any order have the same metadata, two table
  lists as well; and what is hashed differs whenever profile, class, table or a column with its permission differ.
\<close>

theorem discovery_metadata_is_canonical:
  "(\<forall>t1 t2 table cs1 cs2 ts1 ts2.
      fl_schema fl t1 = Inr (table, cs1) \<and> fl_schema fl t2 = Inr (table, cs2) \<and> mset cs1 = mset cs2 \<longrightarrow>
      schema_discovery_metadata fl profile c (CleanText t1 ts1) = schema_discovery_metadata fl profile c (CleanText t2 ts2)) \<and>
   (\<forall>t1 t2 ns1 ns2 ts1 ts2.
      fl_tables fl t1 = Inr ns1 \<and> fl_tables fl t2 = Inr ns2 \<and> mset ns1 = mset ns2 \<longrightarrow>
      list_tables_discovery_metadata fl profile c (CleanText t1 ts1) = list_tables_discovery_metadata fl profile c (CleanText t2 ts2)) \<and>
   (\<forall>profile2 c2 table1 table2 cs1 cs2.
      schema_descriptor profile c table1 cs1 = schema_descriptor profile2 c2 table2 cs2 \<longleftrightarrow>
      profile = profile2 \<and> c = c2 \<and> table1 = table2 \<and> mset cs1 = mset cs2)"
proof -
  have "class_name c = class_name c2 \<longleftrightarrow> c = c2" for c2 by (cases c; cases c2) (simp_all add: class_name_def)
  then have inj: "schema_descriptor profile c table1 cs1 = schema_descriptor profile2 c2 table2 cs2 \<longleftrightarrow>
      profile = profile2 \<and> c = c2 \<and> table1 = table2 \<and> mset cs1 = mset cs2" for profile2 c2 table1 table2 cs1 cs2
    by (auto simp: schema_descriptor_def sort_eq_iff)
  have "schema_discovery_metadata fl profile c (CleanText t1 ts1) = schema_discovery_metadata fl profile c (CleanText t2 ts2)"
    if "fl_schema fl t1 = Inr (table, cs1) \<and> fl_schema fl t2 = Inr (table, cs2) \<and> mset cs1 = mset cs2" for t1 t2 table cs1 cs2 ts1 ts2
    using that sort_eq_iff [of cs1 cs2] by (simp add: schema_discovery_metadata_def clean_text_def internal_def schema_descriptor_def)
  moreover have "list_tables_discovery_metadata fl profile c (CleanText t1 ts1) = list_tables_discovery_metadata fl profile c (CleanText t2 ts2)"
    if "fl_tables fl t1 = Inr ns1 \<and> fl_tables fl t2 = Inr ns2 \<and> mset ns1 = mset ns2" for t1 t2 ns1 ns2 ts1 ts2
    using that sort_eq_iff [of ns1 ns2] by (simp add: list_tables_discovery_metadata_def clean_text_def internal_def tables_descriptor_def)
  ultimately show ?thesis using inj by blast
qed

text \<open>Two texts of one schema.\<close>

definition demo_front_lib :: FrontLib where
  "demo_front_lib =
     \<lparr>fl_schema = (\<lambda>t. Inr (''users'', if t = ''one'' then [(''id'', True), (''mail'', False)] else [(''mail'', False), (''id'', True)])),
      fl_tables = (\<lambda>_. Inl ''eof''),
      fl_descriptor = (\<lambda>d. case d of SchemaDescriptor _ _ t cs \<Rightarrow> Inr (t @ concat (map fst cs)) | _ \<Rightarrow> Inr []),
      fl_sha256_hex = rev, fl_from_value = (\<lambda>_. Inl ''eof''), fl_to_string = (\<lambda>_. Inr [])\<rparr>"

theorem discovery_metadata_is_canonical_witness:
  "schema_discovery_metadata demo_front_lib ''app'' DatabaseClass (CleanText ''one'' [])
     = schema_discovery_metadata demo_front_lib ''app'' DatabaseClass (CleanText ''two'' []) \<and>
   schema_discovery_metadata demo_front_lib ''app'' DatabaseClass (CleanText ''one'' [])
     = Inr \<lparr>di_profile = ''app'', di_source_class = ''database'', di_allowed_columns = Some [''id''], di_schema_hash = ''liamdisresu''\<rparr>"
proof
  have f: "fl_schema demo_front_lib ''one'' = Inr (''users'', [(''id'', True), (''mail'', False)])"
    "fl_schema demo_front_lib ''two'' = Inr (''users'', [(''mail'', False), (''id'', True)])"
    by (simp_all add: demo_front_lib_def)
  have m: "mset [(''id'', True), (''mail'', False)] = mset [(''mail'', False), (''id'', True)]" by simp
  show "schema_discovery_metadata demo_front_lib ''app'' DatabaseClass (CleanText ''one'' [])
      = schema_discovery_metadata demo_front_lib ''app'' DatabaseClass (CleanText ''two'' [])"
    by (rule discovery_metadata_is_canonical [THEN conjunct1, rule_format, OF conjI [OF f(1) conjI [OF f(2) m]]])
  show "schema_discovery_metadata demo_front_lib ''app'' DatabaseClass (CleanText ''one'' [])
     = Inr \<lparr>di_profile = ''app'', di_source_class = ''database'', di_allowed_columns = Some [''id''], di_schema_hash = ''liamdisresu''\<rparr>"
    by code_simp
qed

end
