(* ===== verification/Init_Discovery.thy ===== *)
theory Init_Discovery
  imports Db_Source
begin

text \<open>
  Discovery of a database in a remote \<^verbatim>\<open>.env\<close> file, \<^verbatim>\<open>src/cli/init/discovery.rs\<close>, and the command that reads
  the file, of \<^verbatim>\<open>ssh_exec.rs\<close>: the parser, the extraction of the database settings, which takes the
  password out of what is kept, and the round trip with files of quoted values.
\<close>

section \<open>Data\<close>

datatype SourceKind = KMysql | KPostgres | KSqlite | KSshLog | KLocalLog

record EnvVar =
  ev_key :: bytes
  ev_value :: bytes

record DiscoveredDbMeta =
  dm_kind :: "SourceKind option"
  dm_host :: "bytes option"
  dm_port :: "nat option"
  dm_database :: "bytes option"
  dm_username :: "bytes option"

definition meta_default :: DiscoveredDbMeta where
  "meta_default = \<lparr>dm_kind = None, dm_host = None, dm_port = None, dm_database = None, dm_username = None\<rparr>"

definition source_port_or_default :: "DiscoveredDbMeta \<Rightarrow> SourceKind \<Rightarrow> nat option" where
  "source_port_or_default m k =
     or_else (dm_port m) (case k of KMysql \<Rightarrow> Some 3306 | KPostgres \<Rightarrow> Some 5432 | _ \<Rightarrow> None)"

definition profile_err :: "bytes \<Rightarrow> LensError + 'a" where
  "profile_err detail = Inl (ProfileError detail)"

section \<open>Values\<close>

definition backslash :: char where "backslash = CHR 0x5C"
definition dquote :: char where "dquote = CHR 0x22"
definition squote :: char where "squote = CHR 0x27"

text \<open>The loop over the characters; multi-byte characters go through bytewise.\<close>

fun double_quoted :: "nat \<Rightarrow> bool \<Rightarrow> bytes \<Rightarrow> bytes \<Rightarrow> LensError + bytes" where
  "double_quoted n escaped out [] = profile_err (''unterminated double-quoted .env value at line '' @ nat_to_string n)"
| "double_quoted n escaped out (c # s) =
     (if escaped then double_quoted n False (out @ (if c = dquote \<or> c = backslash then [c] else [backslash, c])) s
      else if c = backslash then double_quoted n True out s
      else if c = dquote then Inr out
      else double_quoted n False (out @ [c]) s)"

definition parse_double_quoted :: "bytes \<Rightarrow> nat \<Rightarrow> LensError + bytes" where
  "parse_double_quoted rest n = double_quoted n False [] rest"

definition parse_single_quoted :: "bytes \<Rightarrow> nat \<Rightarrow> LensError + bytes" where
  "parse_single_quoted rest n =
     (case split_once squote rest of
        None \<Rightarrow> profile_err (''unterminated single-quoted .env value at line '' @ nat_to_string n)
      | Some (v, _) \<Rightarrow>
          if backslash \<in> set v then profile_err ''single-quoted .env values do not support escape sequences'' else Inr v)"

definition strip_unquoted_comment :: "bytes \<Rightarrow> bytes" where
  "strip_unquoted_comment s = (case find_text s '' #'' of Some i \<Rightarrow> take i s | None \<Rightarrow> s)"

definition parse_value :: "bytes \<Rightarrow> nat \<Rightarrow> LensError + bytes" where
  "parse_value s n =
     (case s of
        c # rest \<Rightarrow>
          if c = dquote then parse_double_quoted rest n
          else if c = squote then parse_single_quoted rest n
          else Inr (trim_end (strip_unquoted_comment s))
      | [] \<Rightarrow> Inr [])"

definition expands :: "bytes \<Rightarrow> bool" where
  "expands v \<longleftrightarrow> contains_text v ''${'' \<or> contains_text v ''$('' \<or> CHR 0x60 \<in> set v"

definition reject_unsupported_expansion :: "bytes \<Rightarrow> nat \<Rightarrow> LensError + unit" where
  "reject_unsupported_expansion v n =
     (if expands v then profile_err (''unsupported shell expansion in .env value at line '' @ nat_to_string n) else Inr ())"

section \<open>Lines\<close>

definition upper_start :: "char \<Rightarrow> bool" where
  "upper_start c \<longleftrightarrow> (65 \<le> byte c \<and> byte c \<le> 90) \<or> c = CHR ''_''"

definition is_env_key :: "bytes \<Rightarrow> bool" where
  "is_env_key k = (case k of [] \<Rightarrow> False | c # s \<Rightarrow> upper_start c \<and> list_all (\<lambda>x. upper_start x \<or> is_ascii_digit x) s)"

definition db_keys :: "bytes list" where
  "db_keys = [''DB_CONNECTION'', ''DB_HOST'', ''DB_PORT'', ''DB_DATABASE'', ''DB_USERNAME'', ''DB_PASSWORD'']"

text \<open>\<^verbatim>\<open>str::lines\<close>.\<close>

fun lines_from :: "bytes \<Rightarrow> bytes \<Rightarrow> bytes list" where
  "lines_from cur [] = (if cur = [] then [] else [cur])"
| "lines_from cur (c # s) =
     (if c = newline then (if cur \<noteq> [] \<and> last cur = CHR 0x0D then butlast cur else cur) # lines_from [] s
      else lines_from (cur @ [c]) s)"

definition str_lines :: "bytes \<Rightarrow> bytes list" where
  "str_lines s = lines_from [] s"

definition strip_export :: "bytes \<Rightarrow> bytes" where
  "strip_export l = (if starts_with l ''export '' then drop 7 l else l)"

text \<open>One line: skipped (\<^const>\<open>None\<close>), an error, or a key with the text behind the equals sign.\<close>

definition env_line :: "bytes \<Rightarrow> nat \<Rightarrow> LensError + (bytes \<times> bytes) option" where
  "env_line raw n =
     (let line = trim raw in
      if line = [] \<or> hd line = CHR ''#'' then Inr None
      else if last line = backslash then profile_err (''unsupported multiline .env value at line '' @ nat_to_string n)
      else
        (case split_once (CHR ''='') (trim_start (strip_export line)) of
           None \<Rightarrow> Inr None
         | Some (k, rest) \<Rightarrow>
             (let key = trim k in
              if \<not> is_env_key key then Inr None
              else if \<not> starts_with key ''DB_'' then Inr None
              else if key \<notin> set db_keys then Inr None
              else Inr (Some (key, rest)))))"

fun env_loop :: "nat \<Rightarrow> bytes list \<Rightarrow> EnvVar list \<Rightarrow> LensError + EnvVar list" where
  "env_loop n [] vars = Inr vars"
| "env_loop n (raw # ls) vars =
     and_then (env_line raw n) (\<lambda>e.
     case e of
       None \<Rightarrow> env_loop (Suc n) ls vars
     | Some (key, rest) \<Rightarrow>
         if key \<in> ev_key ` set vars then profile_err (''duplicate .env key: '' @ key)
         else
           and_then (parse_value (trim_start rest) n) (\<lambda>v.
           and_then (reject_unsupported_expansion v n) (\<lambda>_.
           env_loop (Suc n) ls (vars @ [\<lparr>ev_key = key, ev_value = v\<rparr>]))))"

definition parse_env :: "bytes \<Rightarrow> LensError + EnvVar list" where
  "parse_env input = env_loop 1 (str_lines input) []"

section \<open>The database\<close>

definition parse_db_connection :: "bytes \<Rightarrow> SourceKind option" where
  "parse_db_connection v =
     (if v \<in> {''mysql'', ''mariadb''} then Some KMysql
      else if v \<in> {''pgsql'', ''postgres'', ''postgresql''} then Some KPostgres else None)"

definition port_error :: "bytes \<Rightarrow> LensError" where
  "port_error v = ProfileError (''DB_PORT '' @ [squote] @ v @ [squote] @ '' is not a valid u16'')"

fun extract_loop :: "EnvVar list \<Rightarrow> DiscoveredDbMeta \<Rightarrow> bytes option \<Rightarrow> EnvVar list \<Rightarrow> LensError + DiscoveredDbMeta \<times> bytes option \<times> EnvVar list" where
  "extract_loop [] m pw keep = Inr (m, pw, keep)"
| "extract_loop (e # es) m pw keep =
     (let k = ev_key e; v = ev_value e in
      if k = ''DB_CONNECTION'' then extract_loop es (m\<lparr>dm_kind := parse_db_connection v\<rparr>) pw (keep @ [e])
      else if k = ''DB_HOST'' then extract_loop es (m\<lparr>dm_host := Some v\<rparr>) pw (keep @ [e])
      else if k = ''DB_PORT'' then
        (case parse_unsigned 65536 v of
           None \<Rightarrow> Inl (port_error v)
         | Some p \<Rightarrow> extract_loop es (m\<lparr>dm_port := Some p\<rparr>) pw (keep @ [e]))
      else if k = ''DB_DATABASE'' then extract_loop es (m\<lparr>dm_database := Some v\<rparr>) pw (keep @ [e])
      else if k = ''DB_USERNAME'' then extract_loop es (m\<lparr>dm_username := Some v\<rparr>) pw (keep @ [e])
      else if k = ''DB_PASSWORD'' then extract_loop es m (Some v) keep
      else extract_loop es m pw (keep @ [e]))"

definition extract_db :: "EnvVar list \<Rightarrow> LensError + DiscoveredDbMeta \<times> bytes option \<times> EnvVar list" where
  "extract_db vars = extract_loop vars meta_default None []"

section \<open>Reading the file\<close>

definition ssh_to_profile :: "bytes \<Rightarrow> SshError + 'a \<Rightarrow> LensError + 'a" where
  "ssh_to_profile pre r = (case r of Inl e \<Rightarrow> profile_err (pre @ ssh_error_text e) | Inr x \<Rightarrow> Inr x)"

definition validate_env_path :: "bytes \<Rightarrow> LensError + bytes" where
  "validate_env_path path =
     (if \<not> starts_with path ''/'' then profile_err ''discovery env path must be absolute''
      else and_then (ssh_to_profile ''invalid discovery env path: '' (validate_ssh_path path)) (\<lambda>_. Inr path))"

definition cat_env_argv :: "bytes \<Rightarrow> bytes \<Rightarrow> LensError + bytes list" where
  "cat_env_argv host path = ssh_to_profile [] (remote_argv host [''cat''] path)"

definition hardened_cat_env_argv :: "bytes \<Rightarrow> bytes \<Rightarrow> bool \<Rightarrow> LensError + bytes list" where
  "hardened_cat_env_argv host path allow_new_host =
     and_then (ssh_to_profile ''invalid ssh host: '' (validate_ssh_login_host host)) (\<lambda>_.
     and_then (ssh_to_profile ''invalid discovery env path: '' (validate_ssh_path path)) (\<lambda>_.
     Inr [''ssh'', ''-o'', ''BatchMode=yes'', ''-o'', ''ConnectTimeout=10'', ''-o'',
          if allow_new_host then ''StrictHostKeyChecking=accept-new'' else ''StrictHostKeyChecking=yes'',
          ''--'', host, ''cat'', ''--'', path]))"

section \<open>What discovery finds\<close>

definition env_get :: "EnvVar list \<Rightarrow> bytes \<Rightarrow> bytes option" where
  "env_get vars k = map_of (map (\<lambda>e. (ev_key e, ev_value e)) vars) k"

lemma env_get_simps [simp]:
  "env_get [] k = None" "env_get (e # es) k = (if ev_key e = k then Some (ev_value e) else env_get es k)"
  by (simp_all add: env_get_def)

lemma env_get_None: "k \<notin> ev_key ` set vars \<Longrightarrow> env_get vars k = None"
  by (induction vars) auto

definition env_meta :: "DiscoveredDbMeta \<Rightarrow> EnvVar list \<Rightarrow> DiscoveredDbMeta" where
  "env_meta m vars = \<lparr>
     dm_kind = (case env_get vars ''DB_CONNECTION'' of None \<Rightarrow> dm_kind m | Some v \<Rightarrow> parse_db_connection v),
     dm_host = or_else (env_get vars ''DB_HOST'') (dm_host m),
     dm_port = (case env_get vars ''DB_PORT'' of None \<Rightarrow> dm_port m | Some v \<Rightarrow> parse_unsigned 65536 v),
     dm_database = or_else (env_get vars ''DB_DATABASE'') (dm_database m),
     dm_username = or_else (env_get vars ''DB_USERNAME'') (dm_username m)\<rparr>"

text \<open>The six settings and the rest.\<close>

lemma db_key_cases:
  obtains "k = ''DB_CONNECTION''" | "k = ''DB_HOST''" | "k = ''DB_PORT''" | "k = ''DB_DATABASE''" | "k = ''DB_USERNAME''" | "k = ''DB_PASSWORD''"
    | "k \<notin> set db_keys"
  unfolding db_keys_def by auto

lemma extract_loop_Inr:
  "extract_loop vars m pw keep = Inr (m1, pw1, keep1) \<Longrightarrow> distinct (map ev_key vars) \<Longrightarrow>
     m1 = env_meta m vars \<and> pw1 = or_else (env_get vars ''DB_PASSWORD'') pw \<and>
     keep1 = keep @ filter (\<lambda>e. ev_key e \<noteq> ''DB_PASSWORD'') vars"
proof (induction vars arbitrary: m pw keep)
  case Nil
  then show ?case by (simp add: env_meta_def or_else_def)
next
  case (Cons e es)
  from Cons.prems(2) have n: "env_get es (ev_key e) = None" and d: "distinct (map ev_key es)" by (auto intro: env_get_None)
  note ih = Cons.IH [OF _ d]
  from Cons.prems(1) show ?case
  proof (cases rule: db_key_cases [of "ev_key e"])
    case 3
    with Cons.prems(1) obtain q where q: "parse_unsigned 65536 (ev_value e) = Some q" by (auto simp: Let_def split: option.splits)
    with 3 Cons.prems(1) have "extract_loop es (m\<lparr>dm_port := Some q\<rparr>) pw (keep @ [e]) = Inr (m1, pw1, keep1)" by simp
    from ih [OF this] n 3 q show ?thesis by (simp add: env_meta_def or_else_def cong: option.case_cong)
  next
    case 7
    then have k: "ev_key e \<noteq> ''DB_CONNECTION''" "ev_key e \<noteq> ''DB_HOST''" "ev_key e \<noteq> ''DB_PORT''" "ev_key e \<noteq> ''DB_DATABASE''"
        "ev_key e \<noteq> ''DB_USERNAME''" "ev_key e \<noteq> ''DB_PASSWORD''"
      by (simp_all add: db_keys_def)
    with Cons.prems(1) have "extract_loop es m pw (keep @ [e]) = Inr (m1, pw1, keep1)" by simp
    from ih [OF this] k show ?thesis by (simp add: env_meta_def cong: option.case_cong)
  next
    case 1
    with Cons.prems(1) have "extract_loop es (m\<lparr>dm_kind := parse_db_connection (ev_value e)\<rparr>) pw (keep @ [e]) = Inr (m1, pw1, keep1)" by simp
    from ih [OF this] n 1 show ?thesis by (simp add: env_meta_def or_else_def cong: option.case_cong)
  next
    case 2
    with Cons.prems(1) have "extract_loop es (m\<lparr>dm_host := Some (ev_value e)\<rparr>) pw (keep @ [e]) = Inr (m1, pw1, keep1)" by simp
    from ih [OF this] n 2 show ?thesis by (simp add: env_meta_def or_else_def cong: option.case_cong)
  next
    case 4
    with Cons.prems(1) have "extract_loop es (m\<lparr>dm_database := Some (ev_value e)\<rparr>) pw (keep @ [e]) = Inr (m1, pw1, keep1)" by simp
    from ih [OF this] n 4 show ?thesis by (simp add: env_meta_def or_else_def cong: option.case_cong)
  next
    case 5
    with Cons.prems(1) have "extract_loop es (m\<lparr>dm_username := Some (ev_value e)\<rparr>) pw (keep @ [e]) = Inr (m1, pw1, keep1)" by simp
    from ih [OF this] n 5 show ?thesis by (simp add: env_meta_def or_else_def cong: option.case_cong)
  next
    case 6
    with Cons.prems(1) have "extract_loop es m (Some (ev_value e)) keep = Inr (m1, pw1, keep1)" by simp
    from ih [OF this] n 6 show ?thesis by (simp add: env_meta_def or_else_def cong: option.case_cong)
  qed
qed

lemma env_line_key: "env_line raw n = Inr (Some (k, rest)) \<Longrightarrow> k \<in> set db_keys"
  by (auto simp: env_line_def Let_def profile_err_def split: if_splits option.splits prod.splits)

lemma env_loop_Inr:
  "env_loop n ls vars = Inr out \<Longrightarrow> distinct (map ev_key vars) \<Longrightarrow> ev_key ` set vars \<subseteq> set db_keys \<Longrightarrow> \<forall>e\<in>set vars. \<not> expands (ev_value e) \<Longrightarrow>
     distinct (map ev_key out) \<and> ev_key ` set out \<subseteq> set db_keys \<and> (\<forall>e\<in>set out. \<not> expands (ev_value e))"
proof (induction n ls vars rule: env_loop.induct)
  case (2 n raw ls vars)
  from "2.prems"(1) obtain e where e: "env_line raw n = Inr e" by (auto simp: and_then_Inr_iff)
  show ?case
  proof (cases e)
    case None
    with 2 e show ?thesis by simp
  next
    case (Some kr)
    obtain k rest where kr: "kr = (k, rest)" by (cases kr)
    with "2.prems"(1) e Some obtain v where v: "k \<notin> ev_key ` set vars" "parse_value (trim_start rest) n = Inr v" "\<not> expands v"
        "env_loop (Suc n) ls (vars @ [\<lparr>ev_key = k, ev_value = v\<rparr>]) = Inr out"
      by (auto simp: and_then_Inr_iff reject_unsupported_expansion_def profile_err_def split: if_splits)
    let ?vars = "vars @ [\<lparr>ev_key = k, ev_value = v\<rparr>]"
    from env_line_key [of raw n k rest] e Some kr have "k \<in> set db_keys" by simp
    with "2.prems"(2-4) v have "distinct (map ev_key ?vars)" "ev_key ` set ?vars \<subseteq> set db_keys" "\<forall>e\<in>set ?vars. \<not> expands (ev_value e)"
      by auto
    with "2.IH"(2) [OF v(1) v(4)] show ?thesis by blast
  qed
qed simp

lemma parse_env_Inr:
  "parse_env input = Inr vars \<Longrightarrow> distinct (map ev_key vars) \<and> ev_key ` set vars \<subseteq> set db_keys \<and> (\<forall>e\<in>set vars. \<not> expands (ev_value e))"
  unfolding parse_env_def by (drule env_loop_Inr) auto

text \<open>
  Discovery reads a file the way its settings say. The parsed variables are database settings, each at
  most once, whose values hold no shell expansion; the database found is described by the values of its
  settings; and the password is taken out of the variables that are kept.
\<close>

theorem discovery_separates_password:
  assumes "parse_env input = Inr vars" "extract_db vars = Inr (m, pw, keep)"
  shows "distinct (map ev_key vars) \<and> ev_key ` set vars \<subseteq> set db_keys \<and> (\<forall>e\<in>set vars. \<not> expands (ev_value e)) \<and>
    m = env_meta meta_default vars \<and> pw = env_get vars ''DB_PASSWORD'' \<and> keep = filter (\<lambda>e. ev_key e \<noteq> ''DB_PASSWORD'') vars"
  using parse_env_Inr [OF assms(1)] extract_loop_Inr [OF assms(2) [unfolded extract_db_def]]
  by (simp add: or_else_def split: option.split)

text \<open>A file with comments, an export, another variable and all three kinds of value.\<close>

definition demo_env_file :: bytes where
  "demo_env_file = join [newline]
     [''# app'', ''APP_KEY=base64:x'', ''export DB_CONNECTION=mariadb'', ''DB_HOST = db.internal # primary'', ''DB_PORT=3307'',
      ''DB_PASSWORD='' @ [dquote] @ ''a#'' @ [backslash, dquote] @ ''b'' @ [dquote], ''DB_USERNAME='' @ [squote] @ ''ro'' @ [squote]]"

definition demo_env_vars :: "EnvVar list" where
  "demo_env_vars = [\<lparr>ev_key = ''DB_CONNECTION'', ev_value = ''mariadb''\<rparr>, \<lparr>ev_key = ''DB_HOST'', ev_value = ''db.internal''\<rparr>,
     \<lparr>ev_key = ''DB_PORT'', ev_value = ''3307''\<rparr>, \<lparr>ev_key = ''DB_PASSWORD'', ev_value = ''a#'' @ [dquote] @ ''b''\<rparr>,
     \<lparr>ev_key = ''DB_USERNAME'', ev_value = ''ro''\<rparr>]"

definition demo_env_meta :: DiscoveredDbMeta where
  "demo_env_meta = \<lparr>dm_kind = Some KMysql, dm_host = Some ''db.internal'', dm_port = Some 3307, dm_database = None, dm_username = Some ''ro''\<rparr>"

theorem discovery_separates_password_witness:
  "demo_env_meta = env_meta meta_default demo_env_vars \<and> length (filter (\<lambda>e. ev_key e \<noteq> ''DB_PASSWORD'') demo_env_vars) = 4"
proof -
  have "parse_env demo_env_file = Inr demo_env_vars" by code_simp
  moreover have "extract_db demo_env_vars = Inr (demo_env_meta, Some (''a#'' @ [dquote] @ ''b''), filter (\<lambda>e. ev_key e \<noteq> ''DB_PASSWORD'') demo_env_vars)"
    by code_simp
  ultimately have "demo_env_meta = env_meta meta_default demo_env_vars" using discovery_separates_password by blast
  moreover have "length (filter (\<lambda>e. ev_key e \<noteq> ''DB_PASSWORD'') demo_env_vars) = 4" by code_simp
  ultimately show ?thesis by blast
qed

section \<open>Reading back what was written\<close>

definition env_quote :: "bytes \<Rightarrow> bytes" where
  "env_quote v = [dquote] @ concat (map (\<lambda>c. if c = dquote \<or> c = backslash then [backslash, c] else [c]) v) @ [dquote]"

definition env_text :: "EnvVar \<Rightarrow> bytes" where
  "env_text e = ev_key e @ ''='' @ env_quote (ev_value e)"

definition env_file :: "EnvVar list \<Rightarrow> bytes" where
  "env_file vars = concat (map (\<lambda>e. env_text e @ [newline]) vars)"

definition env_ok :: "EnvVar \<Rightarrow> bool" where
  "env_ok e \<longleftrightarrow> ev_key e \<in> set db_keys \<and> newline \<notin> set (ev_value e) \<and> \<not> expands (ev_value e)"

lemma double_quoted_escaped:
  "double_quoted n False out (concat (map (\<lambda>c. if c = dquote \<or> c = backslash then [backslash, c] else [c]) v) @ dquote # s) = Inr (out @ v)"
  by (induction v arbitrary: out) (simp_all add: dquote_def backslash_def)

lemma parse_value_quoted: "parse_value (env_quote v) n = Inr v"
  by (simp add: parse_value_def env_quote_def parse_double_quoted_def double_quoted_escaped)

lemma white_len_ascii: "byte c < 128 \<Longrightarrow> \<not> (byte c = 32 \<or> (9 \<le> byte c \<and> byte c \<le> 13)) \<Longrightarrow> white_len (c # s) = 0"
  by (auto simp: white_len_def split: list.split)

lemma trim_start_ascii: "byte c < 128 \<Longrightarrow> \<not> (byte c = 32 \<or> (9 \<le> byte c \<and> byte c \<le> 13)) \<Longrightarrow> trim_start (c # s) = c # s"
  by (subst trim_start.simps) (simp add: white_len_ascii)

text \<open>A text that ends in a quote is never blank.\<close>

lemma white_len_before_quote: "s \<noteq> [] \<Longrightarrow> last s = dquote \<Longrightarrow> white_len s < length s"
proof -
  assume s: "s \<noteq> []" "last s = dquote"
  have b: "byte dquote = 34" by (simp add: dquote_def)
  show ?thesis
  proof (cases s rule: remdups_adj.cases)
    case (2 x)
    with s b show ?thesis by (simp add: white_len_def)
  next
    case (3 x y xs)
    with s b show ?thesis by (cases xs; cases "tl xs") (auto simp: white_len_def split: list.splits if_splits)
  qed (use s in simp)
qed

lemma not_blank_before_quote: "s \<noteq> [] \<Longrightarrow> last s = dquote \<Longrightarrow> \<not> is_blank s"
proof (induction s rule: trim_start.induct)
  case (1 s)
  then show ?case
    using white_len_before_quote [of s] by (cases "white_len s = 0") (simp_all add: is_blank_def trim_start.simps [of s])
qed

lemma trim_end_quote: "s \<noteq> [] \<Longrightarrow> last s = dquote \<Longrightarrow> trim_end s = s"
proof (induction s)
  case (Cons c s)
  with not_blank_before_quote [of "c # s"] show ?case by (cases s) auto
qed simp

lemma lines_from_line:
  "newline \<notin> set l \<Longrightarrow> cur @ l = [] \<or> last (cur @ l) \<noteq> CHR 0x0D \<Longrightarrow> lines_from cur (l @ newline # s) = (cur @ l) # lines_from [] s"
proof (induction l arbitrary: cur)
  case (Cons c l)
  from Cons.IH [of "cur @ [c]"] Cons.prems show ?case by auto
qed auto

lemma env_quote_shape: "env_quote v \<noteq> []" "hd (env_quote v) = dquote" "last (env_quote v) = dquote"
  by (simp_all add: env_quote_def)

lemma env_text_last: "env_text e \<noteq> []" "last (env_text e) = dquote"
  by (simp_all add: env_text_def env_quote_shape)

lemma env_text_no_newline: "env_ok e \<Longrightarrow> newline \<notin> set (env_text e)"
  by (auto simp: env_ok_def env_text_def env_quote_def db_keys_def newline_def dquote_def backslash_def)

lemma str_lines_env_file: "list_all env_ok vars \<Longrightarrow> str_lines (env_file vars) = map env_text vars"
proof (induction vars)
  case (Cons e vars)
  from Cons.prems have e: "newline \<notin> set (env_text e)" by (simp add: env_text_no_newline)
  have "last (env_text e) \<noteq> CHR 0x0D" by (simp add: env_text_last dquote_def)
  with Cons e lines_from_line [OF e, of "[]"] show ?case by (simp add: str_lines_def env_file_def)
qed (simp add: str_lines_def env_file_def)

text \<open>The six keys at the head of a line.\<close>

lemma db_key_shape:
  "k \<in> set db_keys \<Longrightarrow> is_env_key k \<and> starts_with k ''DB_'' \<and> trim k = k \<and> (\<exists>k1. k = CHR ''D'' # k1) \<and> CHR ''='' \<notin> set k"
proof -
  have "list_all (\<lambda>k. is_env_key k \<and> starts_with k ''DB_'' \<and> trim k = k \<and> hd k = CHR ''D'' \<and> k \<noteq> [] \<and> CHR ''='' \<notin> set k) db_keys"
    by code_simp
  moreover assume "k \<in> set db_keys"
  ultimately show ?thesis by (cases k) (auto simp: list_all_iff)
qed

lemma trim_env_text: "ev_key e \<in> set db_keys \<Longrightarrow> trim_start (env_text e) = env_text e \<and> trim (env_text e) = env_text e"
proof -
  assume "ev_key e \<in> set db_keys"
  from db_key_shape [OF this] obtain k1 where "ev_key e = CHR ''D'' # k1" by blast
  then have "trim_start (env_text e) = env_text e" by (simp add: env_text_def trim_start_ascii)
  then show ?thesis by (simp add: trim_def trim_end_quote env_text_last)
qed

lemma env_line_text:
  assumes "env_ok e"
  shows "env_line (env_text e) n = Inr (Some (ev_key e, env_quote (ev_value e)))"
proof -
  from assms have k: "ev_key e \<in> set db_keys" by (simp add: env_ok_def)
  from db_key_shape [OF k] obtain k1 where k1: "ev_key e = CHR ''D'' # k1" by blast
  then have hd: "hd (env_text e) = CHR ''D''" and x: "strip_export (env_text e) = env_text e"
    by (simp_all add: env_text_def strip_export_def)
  have sp: "split_once (CHR ''='') (env_text e) = Some (ev_key e, env_quote (ev_value e))"
    using db_key_shape [OF k] by (simp add: env_text_def split_once_append)
  show ?thesis
    using k hd x sp trim_env_text [OF k] db_key_shape [OF k]
    by (simp add: env_line_def Let_def env_text_last) (simp add: dquote_def backslash_def)
qed

lemma env_loop_file:
  "list_all env_ok es \<Longrightarrow> distinct (map ev_key (vars @ es)) \<Longrightarrow> env_loop n (map env_text es) vars = Inr (vars @ es)"
proof (induction es arbitrary: n vars)
  case (Cons e es)
  have t: "trim_start (env_quote v) = env_quote v" for v
    by (simp add: env_quote_def trim_start_ascii dquote_def)
  have e: "\<lparr>ev_key = ev_key e, ev_value = ev_value e\<rparr> = e" by simp
  from Cons.prems Cons.IH [of "vars @ [e]" "Suc n"] show ?case
    by (auto simp: e env_line_text t parse_value_quoted reject_unsupported_expansion_def env_ok_def)
qed simp

text \<open>
  C37: reading back what was written. A file that states recognised database settings as \<^verbatim>\<open>KEY="value"\<close>, quotes and
  backslashes escaped, each key at most once and no value with a newline, a backtick, \<^verbatim>\<open>${\<close> or \<^verbatim>\<open>$(\<close> (which the
  reader refuses), is parsed to exactly those settings, in order.
\<close>

theorem env_file_round_trip:
  assumes "list_all env_ok vars" "distinct (map ev_key vars)"
  shows "parse_env (env_file vars) = Inr vars"
  using env_loop_file [of vars "[]" 1] assms by (simp add: parse_env_def str_lines_env_file)

theorem env_file_round_trip_witness: "parse_env (env_file demo_env_vars) = Inr demo_env_vars"
proof -
  have "list_all env_ok demo_env_vars" "distinct (map ev_key demo_env_vars)" by code_simp+
  then show ?thesis by (rule env_file_round_trip)
qed

end
