(* ===== verification/Init_Commit.thy ===== *)
theory Init_Commit
  imports Init_Discovery "HOL-Library.AList"
begin

text \<open>
  The batch commit of the guided set-up: \<^verbatim>\<open>atomic.rs\<close>, \<^verbatim>\<open>batch.rs\<close> and the commit phase of
  \<^verbatim>\<open>cli/init/mod.rs\<close>, with the keyring write that comes before it. The machine is an argument: which file
  operation fails in which world, and the keyring. Synchronising a file or its directory to the disk shows only
  in a crash and has no counterpart here.
\<close>

section \<open>Paths\<close>

text \<open>Paths are texts in normal form: no doubled or trailing separator and no dot component.\<close>

definition path_parent :: "bytes \<Rightarrow> bytes option" where
  "path_parent p =
     (if p = [] \<or> p = ''/'' then None
      else case rfind_char (CHR ''/'') p of None \<Rightarrow> Some [] | Some i \<Rightarrow> Some (if i = 0 then ''/'' else take i p))"

definition path_file_name :: "bytes \<Rightarrow> bytes option" where
  "path_file_name p =
     (let n = (case rfind_char (CHR ''/'') p of None \<Rightarrow> p | Some i \<Rightarrow> drop (Suc i) p) in
      if n = [] \<or> n = ''..'' then None else Some n)"

definition path_join :: "bytes \<Rightarrow> bytes \<Rightarrow> bytes" where
  "path_join d f = (if d = [] \<or> last d = CHR ''/'' then d @ f else d @ ''/'' @ f)"

section \<open>The machine\<close>

text \<open>The errors of the keyring crate the code tells apart.\<close>

datatype KeyringError =
    KrNoEntry | KrNoStorageAccess bytes | KrPlatformFailure bytes | KrAmbiguous nat
  | KrInvalid bytes bytes | KrTooLong bytes nat | KrBadEncoding bytes | KrOther bytes

fun map_keyring_error :: "KeyringError \<Rightarrow> bytes \<Rightarrow> bytes \<Rightarrow> LensError" where
  "map_keyring_error KrNoEntry service account = SecretKeyringMissing service account"
| "map_keyring_error (KrNoStorageAccess _) service account = SecretKeyringDenied service account"
| "map_keyring_error (KrPlatformFailure detail) service account = SecretBackendUnavailable ''platform'' detail"
| "map_keyring_error (KrAmbiguous _) service account = SecretKeyringDenied service account"
| "map_keyring_error (KrOther detail) service account = SecretBackendUnavailable ''platform'' detail"
| "map_keyring_error _ service account =
     ProfileError (''keyring entry for service='' @ service @ '' account='' @ account @
       '' is invalid; check the entry encoding and length'')"

text \<open>A file is its bytes and its mode; a directory its mode. \<open>'k\<close> is the state of the keyring.\<close>

record 'k InitWorld =
  iw_files :: "bytes \<Rightarrow> (bytes \<times> nat) option"
  iw_dirs :: "bytes \<Rightarrow> nat option"
  iw_keyring :: 'k
  iw_output :: "bytes list"
  iw_warnings :: "bytes list"

text \<open>
  \<open>mc_stage\<close>: staging a file fails, before it is opened or after so many bytes, with this text.
  \<open>mc_create_dir_all\<close>: the directories afterwards, and the error. The others: the text of a failure.
\<close>

record 'k Machine =
  mc_pid :: bytes
  mc_read :: "'k InitWorld \<Rightarrow> bytes \<Rightarrow> bytes option"
  mc_stage :: "'k InitWorld \<Rightarrow> bytes \<Rightarrow> (nat option \<times> bytes) option"
  mc_rename :: "'k InitWorld \<Rightarrow> bytes \<Rightarrow> bytes \<Rightarrow> bytes option"
  mc_remove :: "'k InitWorld \<Rightarrow> bytes \<Rightarrow> bytes option"
  mc_create_dir_all :: "'k InitWorld \<Rightarrow> bytes \<Rightarrow> (bytes \<Rightarrow> nat option) \<times> bytes option"
  mc_chmod :: "'k InitWorld \<Rightarrow> bytes \<Rightarrow> bytes option"
  mc_stat :: "'k InitWorld \<Rightarrow> bytes \<Rightarrow> bytes option"
  mc_ulid :: bytes
  kr_entry :: "bytes \<times> bytes \<Rightarrow> KeyringError option"
  kr_get :: "'k \<Rightarrow> bytes \<times> bytes \<Rightarrow> KeyringError + bytes"
  kr_set :: "'k \<Rightarrow> bytes \<times> bytes \<Rightarrow> bytes \<Rightarrow> KeyringError option \<times> 'k"
  kr_delete :: "'k \<Rightarrow> bytes \<times> bytes \<Rightarrow> 'k"

definition path_exists :: "'k InitWorld \<Rightarrow> bytes \<Rightarrow> bool" where
  "path_exists w p \<longleftrightarrow> iw_files w p \<noteq> None \<or> iw_dirs w p \<noteq> None"

definition content :: "'k InitWorld \<Rightarrow> bytes \<Rightarrow> bytes option" where
  "content w p = map_option fst (iw_files w p)"

section \<open>Atomic writes\<close>

definition mode_0600 :: nat where "mode_0600 = 6 * 64"
definition mode_0700 :: nat where "mode_0700 = 7 * 64"

text \<open>Opening with create, truncate and the mode; a stale file keeps its mode.\<close>

definition stage_file :: "'k Machine \<Rightarrow> bytes \<Rightarrow> bytes \<Rightarrow> 'k InitWorld \<Rightarrow> (bytes + unit) \<times> 'k InitWorld" where
  "stage_file mc tmp contents w =
     (let mode = (case iw_files w tmp of None \<Rightarrow> mode_0600 | Some (_, m) \<Rightarrow> m);
          put = (\<lambda>b. w\<lparr>iw_files := (iw_files w)(tmp \<mapsto> (b, mode))\<rparr>) in
      case mc_stage mc w tmp of
        None \<Rightarrow> (Inr (), put contents)
      | Some (None, err) \<Rightarrow> (Inl err, w)
      | Some (Some n, err) \<Rightarrow> (Inl err, put (take n contents)))"

definition remove_file :: "'k Machine \<Rightarrow> bytes \<Rightarrow> 'k InitWorld \<Rightarrow> 'k InitWorld" where
  "remove_file mc p w = (case mc_remove mc w p of Some _ \<Rightarrow> w | None \<Rightarrow> w\<lparr>iw_files := (iw_files w)(p := None)\<rparr>)"

definition staged_path :: "'k Machine \<Rightarrow> bytes \<Rightarrow> bytes \<Rightarrow> bytes" where
  "staged_path mc parent name = path_join parent (name @ ''.tmp.'' @ mc_pid mc)"

definition atomic_write :: "'k Machine \<Rightarrow> bytes \<Rightarrow> bytes \<Rightarrow> 'k InitWorld \<Rightarrow> (LensError + unit) \<times> 'k InitWorld" where
  "atomic_write mc dest contents w =
     (case path_parent dest of
        None \<Rightarrow> (profile_err (''dest has no parent: '' @ dest), w)
      | Some parent \<Rightarrow>
          (case path_file_name dest of
             None \<Rightarrow> (profile_err (''dest has no file name: '' @ dest), w)
           | Some name \<Rightarrow>
               (let tmp = staged_path mc parent name in
                case stage_file mc tmp contents w of
                  (Inl err, w1) \<Rightarrow> (profile_err (''failed to stage '' @ tmp @ '': '' @ err), remove_file mc tmp w1)
                | (Inr _, w1) \<Rightarrow>
                    (case mc_rename mc w1 tmp dest of
                       Some err \<Rightarrow> (profile_err (''failed to rename '' @ tmp @ '' -> '' @ dest @ '': '' @ err), remove_file mc tmp w1)
                     | None \<Rightarrow> (Inr (), w1\<lparr>iw_files := (iw_files w1)(dest := iw_files w1 tmp, tmp := None)\<rparr>)))))"

definition would_write :: "'k Machine \<Rightarrow> bytes \<Rightarrow> bytes \<Rightarrow> 'k InitWorld \<Rightarrow> LensError + bool" where
  "would_write mc dest new w =
     (case mc_read mc w dest of
        Some err \<Rightarrow> profile_err (''failed to read existing destination '' @ dest @ '' before atomic write: '' @ err)
      | None \<Rightarrow> Inr (content w dest \<noteq> Some new))"

definition create_dir_0700_if_missing :: "'k Machine \<Rightarrow> bytes \<Rightarrow> 'k InitWorld \<Rightarrow> (LensError + unit) \<times> 'k InitWorld" where
  "create_dir_0700_if_missing mc dir w =
     (if path_exists w dir then (Inr (), w)
      else
        (let (dirs, err) = mc_create_dir_all mc w dir; w1 = w\<lparr>iw_dirs := dirs\<rparr> in
         case err of
           Some e \<Rightarrow> (profile_err (''failed to create '' @ dir @ '': '' @ e), w1)
         | None \<Rightarrow>
             (case mc_chmod mc w1 dir of
                Some e \<Rightarrow> (profile_err (''failed to chmod 0700 '' @ dir @ '': '' @ e), w1)
              | None \<Rightarrow> (Inr (), w1\<lparr>iw_dirs := dirs(dir \<mapsto> mode_0700)\<rparr>))))"

text \<open>The warning goes to the tracing subscriber.\<close>

definition assert_dir_0700_or_warn :: "'k Machine \<Rightarrow> bytes \<Rightarrow> 'k InitWorld \<Rightarrow> (LensError + unit) \<times> 'k InitWorld" where
  "assert_dir_0700_or_warn mc dir w =
     (case mc_stat mc w dir of Some e \<Rightarrow> (profile_err (''failed to stat '' @ dir @ '': '' @ e), w) | None \<Rightarrow> (Inr (), w))"

section \<open>The batch\<close>

record RenderedWrite =
  rw_path :: bytes
  rw_bytes :: bytes

definition is_lens_owned_path :: "bytes \<Rightarrow> bool" where
  "is_lens_owned_path parent \<longleftrightarrow> path_file_name parent = Some ''.gaze-lens''"

definition is_third_party_dotdir :: "bytes \<Rightarrow> bool" where
  "is_third_party_dotdir parent \<longleftrightarrow> path_file_name parent = Some ''.codex'' \<or> path_file_name parent = Some ''.cursor''"

definition ensure_parent_dir_for_write :: "'k Machine \<Rightarrow> bytes \<Rightarrow> 'k InitWorld \<Rightarrow> (LensError + unit) \<times> 'k InitWorld" where
  "ensure_parent_dir_for_write mc path w =
     (case path_parent path of
        None \<Rightarrow> (Inr (), w)
      | Some parent \<Rightarrow>
          if is_lens_owned_path parent then create_dir_0700_if_missing mc parent w
          else if is_third_party_dotdir parent then
            (if \<not> path_exists w parent then create_dir_0700_if_missing mc parent w else assert_dir_0700_or_warn mc parent w)
          else (Inr (), w))"

type_synonym 'k writer = "bytes \<Rightarrow> bytes \<Rightarrow> 'k InitWorld \<Rightarrow> (LensError + unit) \<times> 'k InitWorld"

definition write_one :: "'k writer \<Rightarrow> bytes list \<Rightarrow> bytes list \<Rightarrow> bytes \<Rightarrow> bytes \<Rightarrow> 'k InitWorld \<Rightarrow>
    (LensError + bytes list \<times> bytes list) \<times> 'k InitWorld" where
  "write_one wr applied pending dest contents w =
     (case wr dest contents w of
        (Inr _, w1) \<Rightarrow> (Inr (applied @ [dest], remove1 dest pending), w1)
      | (Inl e, w1) \<Rightarrow> (Inl (BatchPartial applied pending dest e), w1))"

definition emit_orphan_warning :: "bytes \<Rightarrow> 'k InitWorld \<Rightarrow> 'k InitWorld" where
  "emit_orphan_warning m w = w\<lparr>iw_warnings := iw_warnings w @ [m]\<rparr>"

definition orphan_text :: "bytes \<Rightarrow> bytes \<Rightarrow> bytes \<Rightarrow> bytes" where
  "orphan_text service account path =
     ''gaze-lens warning: keyring entry service='' @ ticked service @ '' account='' @ ticked account @
     '' was written, but profile file commit failed at '' @ path @
     ''. The keyring entry is now orphaned. To recover: re-run '' @ ticked ''gaze-lens init --allow-overwrite'' @
     '' after fixing the file-write issue, OR delete the keyring entry manually.''"

fun commit_loop :: "'k Machine \<Rightarrow> 'k writer \<Rightarrow> (bytes \<times> bytes) option \<Rightarrow> RenderedWrite list \<Rightarrow>
    bytes list \<Rightarrow> bytes list \<Rightarrow> bytes list \<Rightarrow> 'k InitWorld \<Rightarrow> (LensError + bytes list \<times> bytes list) \<times> 'k InitWorld" where
  "commit_loop mc wr kr [] applied pending unchanged w = (Inr (applied, unchanged), w)"
| "commit_loop mc wr kr (r # rs) applied pending unchanged w =
     (case ensure_parent_dir_for_write mc (rw_path r) w of
        (Inl e, w1) \<Rightarrow> (Inl e, w1)
      | (Inr _, w1) \<Rightarrow>
          (case would_write mc (rw_path r) (rw_bytes r) w1 of
             Inl e \<Rightarrow> (Inl e, w1)
           | Inr True \<Rightarrow>
               (case write_one wr applied pending (rw_path r) (rw_bytes r) w1 of
                  (Inl e, w2) \<Rightarrow>
                    (Inl e, case kr of None \<Rightarrow> w2 | Some (s, a) \<Rightarrow> emit_orphan_warning (orphan_text s a (rw_path r)) w2)
                | (Inr (applied1, pending1), w2) \<Rightarrow> commit_loop mc wr kr rs applied1 pending1 unchanged w2)
           | Inr False \<Rightarrow> commit_loop mc wr kr rs applied (remove1 (rw_path r) pending) (unchanged @ [rw_path r]) w1))"

definition commit_writes :: "'k Machine \<Rightarrow> 'k writer \<Rightarrow> (bytes \<times> bytes) option \<Rightarrow> RenderedWrite list \<Rightarrow> 'k InitWorld \<Rightarrow>
    (LensError + bytes list \<times> bytes list) \<times> 'k InitWorld" where
  "commit_writes mc wr kr writes w = commit_loop mc wr kr writes [] (map rw_path writes) [] w"

section \<open>The keyring\<close>

datatype PlannedSecret = PlannedEnv bytes | PlannedKeyring bytes bytes "bytes option"

definition keyring_put :: "'k Machine \<Rightarrow> bytes \<times> bytes \<Rightarrow> bytes \<Rightarrow> bytes \<Rightarrow> 'k InitWorld \<Rightarrow> (LensError + unit) \<times> 'k InitWorld" where
  "keyring_put mc sa value mismatch w =
     (case kr_set mc (iw_keyring w) sa value of
        (Some e, k) \<Rightarrow> (Inl (map_keyring_error e (fst sa) (snd sa)), w\<lparr>iw_keyring := k\<rparr>)
      | (None, k) \<Rightarrow>
          (case kr_get mc k sa of
             Inl e \<Rightarrow> (Inl (map_keyring_error e (fst sa) (snd sa)), w\<lparr>iw_keyring := k\<rparr>)
           | Inr v \<Rightarrow>
               if v \<noteq> value then (Inl (SecretBackendUnavailable ''keyring'' mismatch), w\<lparr>iw_keyring := k\<rparr>)
               else (Inr (), w\<lparr>iw_keyring := k\<rparr>)))"

definition keyring_preflight :: "'k Machine \<Rightarrow> bytes \<Rightarrow> 'k InitWorld \<Rightarrow> (LensError + unit) \<times> 'k InitWorld" where
  "keyring_preflight mc name w =
     (let sa = (''gaze-lens-preflight'', name @ ''-'' @ mc_ulid mc) in
      case kr_entry mc sa of
        Some e \<Rightarrow> (Inl (map_keyring_error e (fst sa) (snd sa)), w)
      | None \<Rightarrow>
          (case keyring_put mc sa ''preflight-probe'' ''preflight read-back mismatch'' w of
             (Inl e, w1) \<Rightarrow> (Inl e, w1)
           | (Inr _, w1) \<Rightarrow> (Inr (), w1\<lparr>iw_keyring := kr_delete mc (iw_keyring w1) sa\<rparr>)))"

text \<open>\<open>overwrite\<close> is \<^verbatim>\<open>allow_overwrite || write_all\<close>.\<close>

definition keyring_preflight_and_write :: "'k Machine \<Rightarrow> bool \<Rightarrow> bytes \<Rightarrow> PlannedSecret option \<Rightarrow> 'k InitWorld \<Rightarrow>
    (LensError + (bytes \<times> bytes) option) \<times> 'k InitWorld" where
  "keyring_preflight_and_write mc overwrite name secret w =
     (case secret of
        Some (PlannedKeyring service account (Some value)) \<Rightarrow>
          (case keyring_preflight mc name w of
             (Inl e, w1) \<Rightarrow> (Inl e, w1)
           | (Inr _, w1) \<Rightarrow>
               (case kr_entry mc (service, account) of
                  Some e \<Rightarrow> (Inl (map_keyring_error e service account), w1)
                | None \<Rightarrow>
                    (let write = (case keyring_put mc (service, account) value ''post-write read-back mismatch'' w1 of
                           (Inl e, w2) \<Rightarrow> (Inl e, w2) | (Inr _, w2) \<Rightarrow> (Inr (Some (service, account)), w2)) in
                     case kr_get mc (iw_keyring w1) (service, account) of
                       Inr existing \<Rightarrow>
                         if existing = value then (Inr None, w1)
                         else if \<not> overwrite then
                           (profile_err (''keyring entry service='' @ ticked service @ '' account='' @ ticked account @
                              '' already exists; rerun with --allow-overwrite to replace''), w1)
                         else write
                     | Inl KrNoEntry \<Rightarrow> write
                     | Inl e \<Rightarrow> (Inl (map_keyring_error e service account), w1))))
      | _ \<Rightarrow> (Inr None, w))"

section \<open>The commit\<close>

text \<open>
  \<open>rendered\<close> is the phase that renders and validates every destination; it reads the world and writes nothing.
  \<open>fetch\<close> is the intent to fetch a model and \<open>provision\<close> the provisioner, if there is one.
\<close>

definition report :: "bytes list \<times> bytes list \<Rightarrow> bytes list" where
  "report au = (case au of (applied, unchanged) \<Rightarrow>
     map (\<lambda>p. ''wrote '' @ p) applied @ (if applied = [] \<and> unchanged \<noteq> [] then [''no changes''] else []))"

definition provision_model :: "bytes option option \<Rightarrow> (bytes option \<Rightarrow> LensError + unit) option \<Rightarrow> LensError + unit" where
  "provision_model fetch provision =
     (case fetch of
        None \<Rightarrow> Inr ()
      | Some model_dir \<Rightarrow>
          and_then (ok_or (FeatureDeferred ''model provisioning is deferred until --fetch-model ships with gaze-model-setup'') provision)
            (\<lambda>p. p model_dir))"

definition commit_plan :: "'k Machine \<Rightarrow> 'k writer \<Rightarrow> ('k InitWorld \<Rightarrow> LensError + RenderedWrite list) \<Rightarrow> bool \<Rightarrow> bytes \<Rightarrow>
    PlannedSecret option \<Rightarrow> bytes option option \<Rightarrow> (bytes option \<Rightarrow> LensError + unit) option \<Rightarrow> 'k InitWorld \<Rightarrow> (LensError + unit) \<times> 'k InitWorld" where
  "commit_plan mc wr rendered overwrite name secret fetch provision w =
     (case rendered w of
        Inl e \<Rightarrow> (Inl e, w)
      | Inr writes \<Rightarrow>
          (case keyring_preflight_and_write mc overwrite name secret w of
             (Inl e, w1) \<Rightarrow> (Inl e, w1)
           | (Inr kr, w1) \<Rightarrow>
               (case commit_writes mc wr kr writes w1 of
                  (Inl e, w2) \<Rightarrow> (Inl e, w2)
                | (Inr au, w2) \<Rightarrow> (provision_model fetch provision, w2\<lparr>iw_output := iw_output w2 @ report au\<rparr>))))"

section \<open>What a writer promises\<close>

text \<open>
  A batch writer replaces the whole destination or leaves it, and touches nothing else but the file it stages in.
\<close>

locale batch_writer =
  fixes wr :: "'k writer" and scratch :: "bytes \<Rightarrow> bytes"
  assumes write_ok: "wr d c w = (Inr u, w1) \<Longrightarrow> content w1 d = Some c"
    and write_err: "wr d c w = (Inl e, w1) \<Longrightarrow> content w1 d = content w d"
    and write_frame: "wr d c w = (r, w1) \<Longrightarrow> p \<noteq> d \<Longrightarrow> p \<noteq> scratch d \<Longrightarrow> content w1 p = content w p"

lemma ensure_parent_content: "ensure_parent_dir_for_write mc p w = (r, w1) \<Longrightarrow> content w1 = content w"
  by (auto simp: ensure_parent_dir_for_write_def create_dir_0700_if_missing_def assert_dir_0700_or_warn_def content_def fun_eq_iff
      Let_def profile_err_def split: option.splits if_splits prod.splits)

lemma content_warning [simp]: "content (emit_orphan_warning m w) = content w"
  by (simp add: content_def emit_orphan_warning_def fun_eq_iff)

text \<open>What has landed when the loop stops at a point of the batch, and what has not been touched.\<close>

definition stopped_at :: "RenderedWrite list \<Rightarrow> RenderedWrite list \<Rightarrow> 'k InitWorld \<Rightarrow> 'k InitWorld \<Rightarrow> bool" where
  "stopped_at landed left w w1 \<longleftrightarrow>
     (\<forall>x\<in>set landed. content w1 (rw_path x) = Some (rw_bytes x)) \<and> (\<forall>x\<in>set left. content w1 (rw_path x) = content w (rw_path x))"

text \<open>The paths a batch may change.\<close>

definition batch_paths :: "(bytes \<Rightarrow> bytes) \<Rightarrow> RenderedWrite list \<Rightarrow> bytes set" where
  "batch_paths scratch ws = rw_path ` set ws \<union> scratch ` rw_path ` set ws"

definition batch_ok :: "(bytes \<Rightarrow> bytes) \<Rightarrow> RenderedWrite list \<Rightarrow> bool" where
  "batch_ok scratch ws \<longleftrightarrow> distinct (map rw_path ws) \<and> (\<forall>x\<in>set ws. scratch (rw_path x) \<notin> rw_path ` set ws)"

definition changing :: "'k InitWorld \<Rightarrow> RenderedWrite \<Rightarrow> bool" where
  "changing w x \<longleftrightarrow> content w (rw_path x) \<noteq> Some (rw_bytes x)"

text \<open>The outcome of a batch: all of it, or the writes before the one that failed and none after.\<close>

definition batch_outcome :: "RenderedWrite list \<Rightarrow> bytes list \<Rightarrow> bytes list \<Rightarrow> 'k InitWorld \<Rightarrow> LensError + bytes list \<times> bytes list \<Rightarrow>
    'k InitWorld \<Rightarrow> bool" where
  "batch_outcome ws applied0 unchanged0 w r w1 \<longleftrightarrow>
     (case r of
        Inr (applied, unchanged) \<Rightarrow> stopped_at ws [] w w1 \<and>
          applied = applied0 @ map rw_path (filter (changing w) ws) \<and>
          unchanged = unchanged0 @ map rw_path (filter (\<lambda>x. \<not> changing w x) ws)
      | Inl e \<Rightarrow>
          (\<exists>landed x left. ws = landed @ x # left \<and> stopped_at landed (x # left) w w1 \<and>
             (case e of
                BatchPartial applied pending failed cause \<Rightarrow>
                  failed = rw_path x \<and> pending = map rw_path (x # left) \<and> applied = applied0 @ map rw_path (filter (changing w) landed)
              | _ \<Rightarrow> True)))"

lemma ensure_parent_error: "ensure_parent_dir_for_write mc p w = (Inl e, w1) \<Longrightarrow> \<exists>d. e = ProfileError d"
  by (auto simp: ensure_parent_dir_for_write_def create_dir_0700_if_missing_def assert_dir_0700_or_warn_def
      Let_def profile_err_def split: option.splits if_splits prod.splits)

lemma would_write_Inl: "would_write mc p b w = Inl e \<Longrightarrow> \<exists>d. e = ProfileError d"
  by (auto simp: would_write_def profile_err_def split: option.splits)

lemma would_write_Inr: "would_write mc p b w = Inr c \<Longrightarrow> c \<longleftrightarrow> content w p \<noteq> Some b"
  by (auto simp: would_write_def profile_err_def split: option.splits)

text \<open>One write in front of an outcome; \<open>wa\<close> is the world after the write.\<close>

lemma batch_outcome_Cons:
  assumes tail: "batch_outcome ws (if changing w x then applied0 @ [rw_path x] else applied0)
      (if changing w x then unchanged0 else unchanged0 @ [rw_path x]) wa r w1"
    and landed: "content w1 (rw_path x) = Some (rw_bytes x)"
    and same: "\<And>y. y \<in> set ws \<Longrightarrow> content wa (rw_path y) = content w (rw_path y)"
  shows "batch_outcome (x # ws) applied0 unchanged0 w r w1"
proof -
  have ch: "changing wa y = changing w y" if "y \<in> set ws" for y using same [OF that] by (simp add: changing_def)
  have f: "filter (changing wa) ys = filter (changing w) ys" "filter (\<lambda>y. \<not> changing wa y) ys = filter (\<lambda>y. \<not> changing w y) ys"
    if "set ys \<subseteq> set ws" for ys
    using that ch by (auto intro!: filter_cong)
  show ?thesis
  proof (cases r)
    case (Inr au)
    with tail landed f [of ws] show ?thesis by (cases au) (auto simp: batch_outcome_def stopped_at_def)
  next
    case (Inl e)
    with tail obtain pre y left where ws: "ws = pre @ y # left" and st: "stopped_at pre (y # left) wa w1"
      and rep: "case e of BatchPartial applied pending failed cause \<Rightarrow> failed = rw_path y \<and> pending = map rw_path (y # left) \<and>
          applied = (if changing w x then applied0 @ [rw_path x] else applied0) @ map rw_path (filter (changing wa) pre) | _ \<Rightarrow> True"
      unfolding batch_outcome_def by auto
    have fp: "filter (changing wa) pre = filter (changing w) pre" using f(1) [of pre] ws by auto
    have "x # ws = (x # pre) @ y # left" using ws by simp
    moreover have "stopped_at (x # pre) (y # left) w w1"
      using st landed same ws by (auto simp: stopped_at_def)
    moreover have "case e of BatchPartial applied pending failed cause \<Rightarrow> failed = rw_path y \<and> pending = map rw_path (y # left) \<and>
          applied = applied0 @ map rw_path (filter (changing w) (x # pre)) | _ \<Rightarrow> True"
      using rep fp by (cases e) auto
    ultimately show ?thesis unfolding batch_outcome_def Inl sum.case by blast
  qed
qed

lemma batch_outcome_stop:
  assumes "content w1 (rw_path x) = content w (rw_path x)" "\<forall>y\<in>set ws. content w1 (rw_path y) = content w (rw_path y)"
    and "case e of BatchPartial applied pending failed cause \<Rightarrow> failed = rw_path x \<and> pending = map rw_path (x # ws) \<and> applied = applied0 | _ \<Rightarrow> True"
  shows "batch_outcome (x # ws) applied0 unchanged0 w (Inl e) w1"
proof -
  have "x # ws = [] @ x # ws \<and> stopped_at [] (x # ws) w w1 \<and>
      (case e of BatchPartial applied pending failed cause \<Rightarrow>
         failed = rw_path x \<and> pending = map rw_path (x # ws) \<and> applied = applied0 @ map rw_path (filter (changing w) []) | _ \<Rightarrow> True)"
    using assms by (cases e) (simp_all add: stopped_at_def)
  then show ?thesis unfolding batch_outcome_def sum.case by blast
qed

context batch_writer
begin

lemma frame_step:
  assumes "batch_ok scratch (x # ws)" "wr (rw_path x) c w = (r, w1)" "y \<in> set ws"
  shows "content w1 (rw_path y) = content w (rw_path y)"
proof (rule write_frame [OF assms(2)])
  have y: "rw_path y \<in> rw_path ` set ws" using assms(3) by simp
  with assms(1) show "rw_path y \<noteq> rw_path x" "rw_path y \<noteq> scratch (rw_path x)" by (auto simp: batch_ok_def)
qed

lemma loop_spec:
  "commit_loop mc wr kr ws applied pending unchanged w = (r, w1) \<Longrightarrow> batch_ok scratch ws \<Longrightarrow> pending = map rw_path ws \<Longrightarrow>
     batch_outcome ws applied unchanged w r w1 \<and> (\<forall>p. p \<notin> batch_paths scratch ws \<longrightarrow> content w1 p = content w p)"
proof (induction ws arbitrary: applied pending unchanged w)
  case Nil
  then show ?case by (auto simp: batch_outcome_def stopped_at_def)
next
  case (Cons x ws)
  let ?p = "rw_path x"
  from Cons.prems(2) have ok: "batch_ok scratch ws" by (auto simp: batch_ok_def)
  from Cons.prems(2) have fresh: "?p \<notin> batch_paths scratch ws" by (force simp: batch_ok_def batch_paths_def)
  have pend: "remove1 ?p pending = map rw_path ws" using Cons.prems(3) by simp
  obtain ra wa where a: "ensure_parent_dir_for_write mc ?p w = (ra, wa)" by (meson surj_pair)
  note ca = ensure_parent_content [OF a]
  show ?case
  proof (cases ra)
    case (Inl e)
    with Cons.prems(1) a have "r = Inl e" "w1 = wa" by simp_all
    with ca ensure_parent_error [OF a [unfolded Inl]] show ?thesis
      by (auto intro: batch_outcome_stop)
  next
    case (Inr u)
    show ?thesis
    proof (cases "would_write mc ?p (rw_bytes x) wa")
      case (Inl e)
      with Cons.prems(1) a Inr have "r = Inl e" "w1 = wa" by simp_all
      with ca would_write_Inl [OF Inl] show ?thesis by (auto intro: batch_outcome_stop)
    next
      case ww: (Inr c)
      from would_write_Inr [OF ww] ca have ch: "c \<longleftrightarrow> changing w x" by (simp add: changing_def)
      show ?thesis
      proof (cases c)
        case False
        with Cons.prems(1) a Inr ww have "commit_loop mc wr kr ws applied (remove1 ?p pending) (unchanged @ [?p]) wa = (r, w1)" by simp
        from Cons.IH [OF this ok pend] have o: "batch_outcome ws applied (unchanged @ [?p]) wa r w1"
          and fr: "\<forall>p. p \<notin> batch_paths scratch ws \<longrightarrow> content w1 p = content wa p" by blast+
        from fr fresh ca False ch have "content w1 ?p = Some (rw_bytes x)" by (simp add: changing_def)
        with o ch False ca fr show ?thesis by (auto intro!: batch_outcome_Cons [of ws w x _ _ wa] simp: batch_paths_def)
      next
        case True
        obtain rb wb where b: "wr ?p (rw_bytes x) wa = (rb, wb)" by (meson surj_pair)
        have frb: "\<forall>p. p \<noteq> ?p \<and> p \<noteq> scratch ?p \<longrightarrow> content wb p = content w p" using write_frame [OF b] ca by simp
        have same: "content wb (rw_path y) = content w (rw_path y)" if "y \<in> set ws" for y
          using frame_step [OF Cons.prems(2) b that] ca by simp
        show ?thesis
        proof (cases rb)
          case (Inl e)
          with Cons.prems(1) a Inr ww True b have r: "r = Inl (BatchPartial applied pending ?p e)" "content w1 = content wb"
            by (auto simp: write_one_def split: option.splits)
          with write_err [OF b [unfolded Inl]] same ca frb Cons.prems(3) show ?thesis
            by (auto intro!: batch_outcome_stop simp: batch_paths_def)
        next
          case rb: (Inr v)
          with Cons.prems(1) a Inr ww True b
          have "commit_loop mc wr kr ws (applied @ [?p]) (remove1 ?p pending) unchanged wb = (r, w1)" by (simp add: write_one_def)
          from Cons.IH [OF this ok pend] have o: "batch_outcome ws (applied @ [?p]) unchanged wb r w1"
            and fr: "\<forall>p. p \<notin> batch_paths scratch ws \<longrightarrow> content w1 p = content wb p" by blast+
          from fr fresh write_ok [OF b [unfolded rb]] have "content w1 ?p = Some (rw_bytes x)" by simp
          with o ch True same fr frb show ?thesis by (auto intro!: batch_outcome_Cons [of ws w x _ _ wb] simp: batch_paths_def)
        qed
      qed
    qed
  qed
qed

end

section \<open>The writer of the program\<close>

text \<open>The file a destination is staged in.\<close>

definition scratch_path :: "'k Machine \<Rightarrow> bytes \<Rightarrow> bytes" where
  "scratch_path mc d =
     (case (path_parent d, path_file_name d) of (Some parent, Some name) \<Rightarrow> staged_path mc parent name | _ \<Rightarrow> d)"

lemma rfind_char_lt: "rfind_char c s = Some i \<Longrightarrow> i < length s \<and> s ! i = c \<and> c \<notin> set (drop (Suc i) s)"
proof -
  assume "rfind_char c s = Some i"
  then have c: "c \<in> set s" and i: "i = length s - 1 - length (takeWhile (\<lambda>x. x \<noteq> c) (rev s))"
    by (auto simp: rfind_char_def split: if_splits)
  from split_list_last [OF c] obtain a b where s: "s = a @ c # b" "c \<notin> set b" by blast
  then have "takeWhile (\<lambda>x. x \<noteq> c) (rev s) = rev b" by (auto simp: takeWhile_append takeWhile_eq_all_conv)
  with i s show ?thesis by (simp add: nth_append)
qed

lemma staged_path_longer:
  assumes "path_parent d = Some parent" "path_file_name d = Some name"
  shows "length d < length (staged_path mc parent name)"
  using assms
  by (auto simp: path_parent_def path_file_name_def staged_path_def path_join_def Let_def dest!: rfind_char_lt split: option.splits if_splits)

lemma content_update: "content (w\<lparr>iw_files := f\<rparr>) p = map_option fst (f p)"
  by (simp add: content_def)

lemma stage_file_content:
  "stage_file mc tmp c w = (r, w1) \<Longrightarrow> p \<noteq> tmp \<Longrightarrow> content w1 p = content w p"
  "stage_file mc tmp c w = (Inr u, w1) \<Longrightarrow> content w1 tmp = Some c"
  by (auto simp: stage_file_def Let_def content_def split: option.splits prod.splits)

lemma remove_file_content: "p \<noteq> tmp \<Longrightarrow> content (remove_file mc tmp w) p = content w p"
  by (simp add: remove_file_def content_def split: option.split)

text \<open>Every destination is written whole or left, and only the staged file is touched beside it.\<close>

lemma atomic_write_frame:
  "atomic_write mc d c w = (r, w1) \<Longrightarrow> p \<noteq> d \<Longrightarrow> p \<noteq> scratch_path mc d \<Longrightarrow> content w1 p = content w p"
  by (auto simp: atomic_write_def scratch_path_def Let_def profile_err_def content_update remove_file_content
      content_def [symmetric] dest: stage_file_content(1) [of _ _ _ _ _ _ p] split: option.splits prod.splits sum.splits)

lemma atomic_write_ok: "atomic_write mc d c w = (Inr u, w1) \<Longrightarrow> content w1 d = Some c"
proof -
  assume "atomic_write mc d c w = (Inr u, w1)"
  then obtain parent name wa v where n: "path_parent d = Some parent" "path_file_name d = Some name"
      and st: "stage_file mc (staged_path mc parent name) c w = (Inr v, wa)"
      and w1: "w1 = wa\<lparr>iw_files := (iw_files wa)(d := iw_files wa (staged_path mc parent name), staged_path mc parent name := None)\<rparr>"
    by (auto simp: atomic_write_def Let_def profile_err_def split: option.splits prod.splits sum.splits)
  from staged_path_longer [OF n, of mc] have "d \<noteq> staged_path mc parent name" by auto
  with stage_file_content(2) [OF st] w1 show ?thesis by (simp add: content_def)
qed

lemma atomic_write_err: "atomic_write mc d c w = (Inl e, w1) \<Longrightarrow> content w1 d = content w d"
proof (cases "path_parent d = None \<or> path_file_name d = None")
  case False
  then obtain parent name where n: "path_parent d = Some parent" "path_file_name d = Some name" by auto
  from staged_path_longer [OF n, of mc] have "d \<noteq> staged_path mc parent name" by auto
  moreover assume "atomic_write mc d c w = (Inl e, w1)"
  ultimately show ?thesis using n
    by (auto simp: atomic_write_def Let_def profile_err_def remove_file_content dest: stage_file_content(1) [of _ _ _ _ _ _ d]
        split: option.splits prod.splits sum.splits)
qed (auto simp: atomic_write_def profile_err_def split: option.splits)

interpretation real_writer: batch_writer "atomic_write mc" "scratch_path mc"
  by unfold_locales (auto intro: atomic_write_ok atomic_write_err atomic_write_frame)

section \<open>The commit as a whole\<close>

lemma keyring_put_content: "keyring_put mc sa v m w = (r, w1) \<Longrightarrow> content w1 = content w"
  by (auto simp: keyring_put_def content_def fun_eq_iff split: prod.splits option.splits sum.splits if_splits)

lemma keyring_preflight_content: "keyring_preflight mc name w = (r, w1) \<Longrightarrow> content w1 = content w"
  by (auto simp: keyring_preflight_def Let_def content_def fun_eq_iff split: prod.splits option.splits sum.splits
      dest!: keyring_put_content)

lemma keyring_write_content:
  "keyring_preflight_and_write mc overwrite name secret w = (r, w1) \<Longrightarrow> content w1 = content w"
  by (auto simp: keyring_preflight_and_write_def Let_def profile_err_def split: prod.splits option.splits sum.splits if_splits
      PlannedSecret.splits KeyringError.splits dest!: keyring_put_content keyring_preflight_content)

definition is_batch_partial :: "LensError \<Rightarrow> bool" where
  "is_batch_partial e = (case e of BatchPartial _ _ _ _ \<Rightarrow> True | _ \<Rightarrow> False)"

lemma is_batch_partial_simps [simp]:
  "\<not> is_batch_partial (SecretKeyringMissing s a)" "\<not> is_batch_partial (SecretKeyringDenied s a)"
  "\<not> is_batch_partial (SecretBackendUnavailable b d)" "\<not> is_batch_partial (ProfileError d)" "is_batch_partial (BatchPartial ap pe f c)"
  by (simp_all add: is_batch_partial_def)

lemma map_keyring_error_plain [simp]: "\<not> is_batch_partial (map_keyring_error e s a)"
  by (cases e) simp_all

lemma keyring_put_plain: "keyring_put mc sa v m w = (Inl e, w1) \<Longrightarrow> \<not> is_batch_partial e"
  by (auto simp: keyring_put_def split: prod.splits option.splits sum.splits if_splits)

lemma keyring_preflight_plain: "keyring_preflight mc name w = (Inl e, w1) \<Longrightarrow> \<not> is_batch_partial e"
  by (auto simp: keyring_preflight_def Let_def split: prod.splits option.splits sum.splits dest: keyring_put_plain)

lemma keyring_write_plain: "keyring_preflight_and_write mc overwrite name secret w = (Inl e, w1) \<Longrightarrow> \<not> is_batch_partial e"
  by (auto simp: keyring_preflight_and_write_def Let_def profile_err_def
      split: prod.splits option.splits sum.splits if_splits
      PlannedSecret.splits KeyringError.splits dest: keyring_put_plain keyring_preflight_plain)

lemma commit_loop_warns:
  "commit_loop mc wr (Some (s, a)) ws applied pending unchanged w = (Inl (BatchPartial ap pe failed cause), w1) \<Longrightarrow>
     iw_warnings w1 \<noteq> [] \<and> last (iw_warnings w1) = orphan_text s a failed"
proof (induction ws arbitrary: applied pending unchanged w)
  case (Cons x ws)
  obtain ra wa where a: "ensure_parent_dir_for_write mc (rw_path x) w = (ra, wa)" by (meson surj_pair)
  with Cons.prems ensure_parent_error [of mc "rw_path x" w _ wa] have "\<exists>u. ra = Inr u" by (cases ra) auto
  then obtain u where ra: "ra = Inr u" by blast
  with Cons.prems a would_write_Inl [of mc "rw_path x" "rw_bytes x" wa]
  obtain c where ww: "would_write mc (rw_path x) (rw_bytes x) wa = Inr c" by (cases "would_write mc (rw_path x) (rw_bytes x) wa") auto
  show ?case
  proof (cases c)
    case False
    with Cons.prems a ra ww have "commit_loop mc wr (Some (s, a)) ws applied (remove1 (rw_path x) pending) (unchanged @ [rw_path x]) wa =
        (Inl (BatchPartial ap pe failed cause), w1)" by simp
    then show ?thesis by (rule Cons.IH)
  next
    case True
    obtain rb wb where b: "wr (rw_path x) (rw_bytes x) wa = (rb, wb)" by (meson surj_pair)
    show ?thesis
    proof (cases rb)
      case (Inl e)
      with Cons.prems a ra ww True b show ?thesis by (auto simp: write_one_def emit_orphan_warning_def)
    next
      case (Inr v)
      with Cons.prems a ra ww True b have "commit_loop mc wr (Some (s, a)) ws (applied @ [rw_path x]) (remove1 (rw_path x) pending) unchanged wb =
          (Inl (BatchPartial ap pe failed cause), w1)" by (simp add: write_one_def)
      then show ?thesis by (rule Cons.IH)
    qed
  qed
qed simp

text \<open>What the report of a failed batch says of the world, over the world before.\<close>

definition report_true :: "RenderedWrite list \<Rightarrow> 'k InitWorld \<Rightarrow> 'k InitWorld \<Rightarrow> bytes list \<Rightarrow> bytes list \<Rightarrow> bytes \<Rightarrow> bool" where
  "report_true writes w w1 applied pending failed \<longleftrightarrow>
     (\<exists>landed x left. writes = landed @ x # left \<and> stopped_at landed (x # left) w w1 \<and> failed = rw_path x \<and>
        pending = map rw_path (x # left) \<and> applied = map rw_path (filter (changing w) landed))"

lemma commit_writes_outcome:
  assumes "batch_ok (scratch_path mc) writes" "commit_writes mc (atomic_write mc) kr writes w = (r, w1)"
  shows "batch_outcome writes [] [] w r w1 \<and> (\<forall>p. p \<notin> batch_paths (scratch_path mc) writes \<longrightarrow> content w1 p = content w p)"
  using real_writer.loop_spec [OF assms(2) [unfolded commit_writes_def] assms(1)] by simp

lemma stopped_at_content: "content w = content v \<Longrightarrow> stopped_at l f w w1 = stopped_at l f v w1"
  by (simp add: stopped_at_def)

lemma commit_plan_outcome:
  assumes ren: "rendered w = Inr writes" and ok: "batch_ok (scratch_path mc) writes"
    and run: "commit_plan mc (atomic_write mc) rendered overwrite name secret None provision w = (r, w1)"
  shows "(r = Inr () \<longrightarrow> stopped_at writes [] w w1) \<and>
    (\<forall>applied pending failed cause. r = Inl (BatchPartial applied pending failed cause) \<longrightarrow> report_true writes w w1 applied pending failed) \<and>
    (\<exists>landed left. writes = landed @ left \<and> stopped_at landed left w w1) \<and>
    (\<forall>p. p \<notin> batch_paths (scratch_path mc) writes \<longrightarrow> content w1 p = content w p)"
proof -
  obtain rk wk where k: "keyring_preflight_and_write mc overwrite name secret w = (rk, wk)" by (meson surj_pair)
  note ck = keyring_write_content [OF k]
  show ?thesis
  proof (cases rk)
    case (Inl e)
    with run ren k have "r = Inl e" "w1 = wk" by (simp_all add: commit_plan_def)
    moreover from this ck have "writes = [] @ writes \<and> stopped_at [] writes w w1" by (simp add: stopped_at_def)
    ultimately show ?thesis using ck keyring_write_plain [OF k [unfolded Inl]] by auto
  next
    case (Inr kr)
    obtain rc wc where c: "commit_writes mc (atomic_write mc) kr writes wk = (rc, wc)" by (meson surj_pair)
    from commit_writes_outcome [OF ok c] ck have o: "batch_outcome writes [] [] wk rc wc"
      and fr: "\<forall>p. p \<notin> batch_paths (scratch_path mc) writes \<longrightarrow> content wc p = content w p" by auto
    have ch: "changing wk = changing w" by (simp add: changing_def fun_eq_iff ck)
    show ?thesis
    proof (cases rc)
      case (Inl e)
      with run ren k Inr c have r: "r = Inl e" "w1 = wc" by (simp_all add: commit_plan_def)
      from o [unfolded Inl batch_outcome_def sum.case ch append_Nil stopped_at_content [OF ck]]
      obtain landed x left where ws: "writes = landed @ x # left" and st: "stopped_at landed (x # left) w wc"
        and rep: "case e of BatchPartial applied pending failed cause \<Rightarrow> failed = rw_path x \<and> pending = map rw_path (x # left) \<and>
            applied = map rw_path (filter (changing w) landed) | _ \<Rightarrow> True"
        by blast
      have "report_true writes w wc applied pending failed" if "e = BatchPartial applied pending failed cause" for applied pending failed cause
        unfolding report_true_def using ws st rep that by fastforce
      with ws st fr r show ?thesis by blast
    next
      case (Inr au)
      with run ren k \<open>rk = Inr kr\<close> c have r: "r = Inr ()" "content w1 = content wc"
        by (auto simp: commit_plan_def provision_model_def content_def)
      from o Inr have "stopped_at writes [] w wc" by (cases au) (simp add: batch_outcome_def stopped_at_content [OF ck])
      with r fr have "stopped_at writes [] w w1" "\<forall>p. p \<notin> batch_paths (scratch_path mc) writes \<longrightarrow> content w1 p = content w p"
        by (simp_all add: stopped_at_def)
      with r show ?thesis by (intro conjI) (auto intro: exI [of _ writes] exI [of _ "[]"])
    qed
  qed
qed

text \<open>
  C18: a failed set-up says what landed. Whatever the machine and the keyring do, a commit of rendered files
  leaves a prefix of them written whole and every later destination as it was; success means that all are
  written; the report of a partial batch names exactly the destination that failed, those that are pending and
  those that were written; and no other file has changed, the staged ones apart.
\<close>

theorem init_commit_reports_what_landed:
  assumes "rendered w = Inr writes" "batch_ok (scratch_path mc) writes"
    "commit_plan mc (atomic_write mc) rendered overwrite name secret None provision w = (r, w1)"
  shows "(r = Inr () \<longrightarrow> stopped_at writes [] w w1) \<and>
    (\<forall>applied pending failed cause. r = Inl (BatchPartial applied pending failed cause) \<longrightarrow> report_true writes w w1 applied pending failed) \<and>
    (\<exists>landed left. writes = landed @ left \<and> stopped_at landed left w w1) \<and>
    (\<forall>p. p \<notin> batch_paths (scratch_path mc) writes \<longrightarrow> content w1 p = content w p)"
  using assms by (rule commit_plan_outcome)

text \<open>A machine with a keyring, where staging one file fails half-way and one directory cannot be made.\<close>

type_synonym demo_keyring = "((bytes \<times> bytes) \<times> bytes) list"

definition demo_machine :: "bytes \<Rightarrow> bytes \<Rightarrow> demo_keyring Machine" where
  "demo_machine full_disk denied = \<lparr>mc_pid = ''7'', mc_read = (\<lambda>_ _. None),
     mc_stage = (\<lambda>_ p. if p = full_disk @ ''.tmp.7'' then Some (Some 1, ''no space'') else None),
     mc_rename = (\<lambda>_ _ _. None), mc_remove = (\<lambda>_ _. None),
     mc_create_dir_all = (\<lambda>w d. if d = denied then (iw_dirs w, Some ''denied'') else ((iw_dirs w)(d \<mapsto> 493), None)),
     mc_chmod = (\<lambda>_ _. None), mc_stat = (\<lambda>_ _. None), mc_ulid = ''01J'', kr_entry = (\<lambda>_. None),
     kr_get = (\<lambda>k sa. case map_of k sa of None \<Rightarrow> Inl KrNoEntry | Some v \<Rightarrow> Inr v),
     kr_set = (\<lambda>k sa v. (None, AList.update sa v k)), kr_delete = (\<lambda>k sa. AList.delete sa k)\<rparr>"

definition demo_world :: "demo_keyring InitWorld" where
  "demo_world = \<lparr>iw_files = [''/p/AGENTS.md'' \<mapsto> (''old'', 420)], iw_dirs = [''/p'' \<mapsto> 493], iw_keyring = [], iw_output = [], iw_warnings = []\<rparr>"

definition demo_writes :: "RenderedWrite list" where
  "demo_writes = [\<lparr>rw_path = ''/p/.gaze-lens.toml'', rw_bytes = ''profile''\<rparr>, \<lparr>rw_path = ''/p/.cursor/mcp.json'', rw_bytes = ''mcp''\<rparr>,
     \<lparr>rw_path = ''/p/AGENTS.md'', rw_bytes = ''agents''\<rparr>]"

definition demo_commit :: "bytes \<Rightarrow> bytes \<Rightarrow> (LensError + unit) \<times> demo_keyring InitWorld" where
  "demo_commit full_disk denied =
     (let mc = demo_machine full_disk denied in
      commit_plan mc (atomic_write mc) (\<lambda>_. Inr demo_writes) False ''app'' (Some (PlannedKeyring ''svc'' ''acc'' (Some ''pw''))) None None demo_world)"

lemma demo_batch_ok: "batch_ok (scratch_path (demo_machine a b)) demo_writes"
  by (simp add: batch_ok_def demo_writes_def scratch_path_def path_parent_def path_file_name_def rfind_char_def staged_path_def
      path_join_def demo_machine_def)

theorem init_commit_reports_what_landed_witness:
  "report_true demo_writes demo_world (snd (demo_commit ''/p/AGENTS.md'' [])) [''/p/.gaze-lens.toml'', ''/p/.cursor/mcp.json'']
     [''/p/AGENTS.md''] ''/p/AGENTS.md''"
proof -
  let ?mc = "demo_machine ''/p/AGENTS.md'' []"
  obtain r w1 where run: "demo_commit ''/p/AGENTS.md'' [] = (r, w1)" by (meson surj_pair)
  have f: "fst (demo_commit ''/p/AGENTS.md'' []) = Inl (BatchPartial [''/p/.gaze-lens.toml'', ''/p/.cursor/mcp.json'']
      [''/p/AGENTS.md''] ''/p/AGENTS.md'' (ProfileError ''failed to stage /p/AGENTS.md.tmp.7: no space''))"
    by code_simp
  show ?thesis
    using init_commit_reports_what_landed [OF _ demo_batch_ok run [unfolded demo_commit_def Let_def]] f run by simp
qed

text \<open>
  Not every error after a first write is wrapped: here the profile has been written and the keyring entry is
  in place, the directory of the second destination cannot be made, and the error is a plain one; nothing is
  said of the file that landed, nor of the entry that is orphaned.
\<close>

lemma unreported_partial_commit:
  "fst (demo_commit [] ''/p/.cursor'') = Inl (ProfileError ''failed to create /p/.cursor: denied'')"
  "content (snd (demo_commit [] ''/p/.cursor'')) ''/p/.gaze-lens.toml'' = Some ''profile''"
  "iw_keyring (snd (demo_commit [] ''/p/.cursor'')) = [((''svc'', ''acc''), ''pw'')]"
  "iw_warnings (snd (demo_commit [] ''/p/.cursor'')) = []"
  by code_simp+

section \<open>A second commit\<close>

lemma ensure_parent_files: "ensure_parent_dir_for_write mc p w = (r, w1) \<Longrightarrow> iw_files w1 = iw_files w"
  by (auto simp: ensure_parent_dir_for_write_def create_dir_0700_if_missing_def assert_dir_0700_or_warn_def
      Let_def profile_err_def split: option.splits if_splits prod.splits)

lemma commit_loop_idle:
  "commit_loop mc wr kr ws applied pending unchanged w = (r, w1) \<Longrightarrow> \<forall>x\<in>set ws. content w (rw_path x) = Some (rw_bytes x) \<Longrightarrow>
     iw_files w1 = iw_files w \<and> (case r of Inr au \<Rightarrow> au = (applied, unchanged @ map rw_path ws) | Inl e \<Rightarrow> \<not> is_batch_partial e)"
proof (induction ws arbitrary: pending unchanged w)
  case (Cons x ws)
  obtain ra wa where a: "ensure_parent_dir_for_write mc (rw_path x) w = (ra, wa)" by (meson surj_pair)
  note fa = ensure_parent_files [OF a] and ca = ensure_parent_content [OF a]
  show ?case
  proof (cases ra)
    case (Inl e)
    with Cons.prems(1) a fa ensure_parent_error [OF a [unfolded Inl]] show ?thesis by auto
  next
    case ra: (Inr u)
    show ?thesis
    proof (cases "would_write mc (rw_path x) (rw_bytes x) wa")
      case (Inl e)
      with Cons.prems(1) a ra fa would_write_Inl [OF Inl] show ?thesis by auto
    next
      case (Inr c)
      with would_write_Inr [OF Inr] Cons.prems ca a ra
      have "commit_loop mc wr kr ws applied (remove1 (rw_path x) pending) (unchanged @ [rw_path x]) wa = (r, w1)" by simp
      from Cons.IH [OF this] Cons.prems(2) ca fa show ?thesis by (simp add: sum.case_eq_if)
    qed
  qed
qed auto

text \<open>
  A second commit of the same files writes nothing. After a commit that went through, running the batch
  again, on whatever machine, leaves every file as it is; when it goes through it reports each destination as
  unchanged and prints that there are no changes, and when it fails it reports no partial batch.
\<close>

theorem second_commit_writes_nothing:
  assumes "batch_ok (scratch_path mc) writes" "commit_writes mc (atomic_write mc) kr writes w = (Inr au, w1)"
    and "commit_writes mc2 (atomic_write mc2) kr2 writes w1 = (r, w2)"
  shows "iw_files w2 = iw_files w1 \<and> (\<forall>e. r = Inl e \<longrightarrow> \<not> is_batch_partial e) \<and>
    (\<forall>au2. r = Inr au2 \<longrightarrow> au2 = ([], map rw_path writes) \<and> (writes \<noteq> [] \<longrightarrow> report au2 = [''no changes'']))"
proof -
  from commit_writes_outcome [OF assms(1,2)] have "\<forall>x\<in>set writes. content w1 (rw_path x) = Some (rw_bytes x)"
    by (cases au) (simp add: batch_outcome_def stopped_at_def)
  from commit_loop_idle [OF assms(3) [unfolded commit_writes_def] this] show ?thesis by (auto simp: report_def)
qed

theorem second_commit_writes_nothing_witness:
  "let mc = demo_machine [] []; first = commit_writes mc (atomic_write mc) None demo_writes demo_world;
       again = commit_writes mc (atomic_write mc) None demo_writes (snd first) in
   iw_files (snd again) = iw_files (snd first) \<and> report ([], map rw_path demo_writes) = [''no changes'']"
proof -
  let ?mc = "demo_machine [] []"
  obtain r1 w1 where one: "commit_writes ?mc (atomic_write ?mc) None demo_writes demo_world = (r1, w1)" by (meson surj_pair)
  have "\<not> isl (fst (commit_writes ?mc (atomic_write ?mc) None demo_writes demo_world))" by code_simp
  with one obtain au where au: "r1 = Inr au" by (cases r1) auto
  obtain r2 w2 where two: "commit_writes ?mc (atomic_write ?mc) None demo_writes w1 = (r2, w2)" by (meson surj_pair)
  have "iw_files w2 = iw_files w1" using second_commit_writes_nothing [OF demo_batch_ok one [unfolded au] two] by blast
  moreover have "report ([], map rw_path demo_writes) = [''no changes'']" by (simp add: report_def demo_writes_def)
  ultimately show ?thesis by (simp add: Let_def one two)
qed

end
