(* ===== verification/Trust_Report.thy ===== *)
theory Trust_Report
  imports Mcp_Frontend Remote_Service
begin

text \<open>
  The trust report of \<^verbatim>\<open>check --explain-risk\<close>, \<^verbatim>\<open>src/cli/check_trust.rs\<close>: the surfaces of a profile, the
  entries of its policy file, and the text that is written. Expansion of paths, permissions of files and SHA-256
  are the record \<open>TrustEnv\<close>; the report as JSON is the library's serializer on the record \<open>TrustReport\<close>.
\<close>

section \<open>Data\<close>

text \<open>\<^verbatim>\<open>toml::Value\<close>, with the text of a float and of a date.\<close>

datatype Toml = TomlString bytes | TomlInteger int | TomlFloat bytes | TomlBoolean bool | TomlDatetime bytes
  | TomlArray "Toml list" | TomlTable "(bytes \<times> Toml) list"

record CodeEvidence =
  ev_file :: bytes
  ev_line :: nat
  ev_claim :: bytes

record InputSurface =
  tin_mcp_tools :: "bytes list"
  tin_cli_subcommands :: "bytes list"
  tin_query_mode :: bytes
  tin_raw_sql :: bytes
  tin_source_kind :: bytes
  tin_source_transport :: "bytes Json"
  tin_sqlite_json_text_policy :: "bytes list option"
  tin_code_evidence :: "CodeEvidence list"

record ProcessSurface =
  tpr_process_model :: bytes
  tpr_profile_under_review :: bytes
  tpr_serve_default_scope :: bytes
  tpr_cross_profile_correlation :: bytes
  tpr_connect_lifecycle :: bytes
  tpr_code_evidence :: "CodeEvidence list"

record SchemaPolicy =
  tsp_table_allowlist :: "bytes list option"
  tsp_column_redaction_mode :: bytes

record RecognizerPack =
  trp_source :: bytes
  trp_policy_path :: "bytes option"
  trp_policy_sha256 :: "bytes option"
  trp_recognizer_keys :: "bytes list"
  trp_recognizer_classes :: "bytes list"
  trp_default_empty :: bool

record OutputCapsView =
  tcv_rows :: nat
  tcv_bytes :: nat
  tcv_cell_bytes :: nat
  tcv_line_bytes :: nat
  tcv_timeout_secs :: nat

record OutputSurface =
  tou_dispatch_chokepoint :: CodeEvidence
  tou_tool_arg_redaction :: bytes
  tou_schema_policy :: SchemaPolicy
  tou_recognizer_pack :: RecognizerPack
  tou_output_caps :: OutputCapsView
  tou_code_evidence :: "CodeEvidence list"

record PathArtifact =
  tpa_path :: bytes
  tpa_exists :: bool
  tpa_mode_ok :: "bool option"
  tpa_expected_mode :: bytes

record SecretLocator =
  tsl_backend :: bytes
  tsl_identity :: bytes

record AtRestSurface =
  tar_manifest :: PathArtifact
  tar_snapshot_dir :: PathArtifact
  tar_snapshot_retention_days :: "nat option"
  tar_auto_purge :: bytes
  tar_snapshot_encryption_at_rest :: bytes
  tar_secret_backend :: SecretLocator
  tar_code_evidence :: "CodeEvidence list"

record ResidualRisk =
  trr_id :: bytes
  trr_summary :: bytes
  trr_mitigation :: bytes

record HandoffSurface =
  tho_residual_risks :: "ResidualRisk list"

record TrustReport =
  tr_report_version :: nat
  tr_profile :: bytes
  tr_input_surface :: InputSurface
  tr_process_surface :: ProcessSurface
  tr_output_surface :: OutputSurface
  tr_at_rest_surface :: AtRestSurface
  tr_handoff_surface :: HandoffSurface

text \<open>Expansion of a path, which leaves it as it is when it fails; the permission bits of a file that exists; the hexadecimal digest.\<close>

record TrustEnv =
  te_expand :: "bytes \<Rightarrow> bytes + bytes"
  te_mode :: "bytes \<Rightarrow> nat option"
  te_sha256_hex :: "bytes \<Rightarrow> bytes"

definition REPORT_VERSION :: nat where
  "REPORT_VERSION = 1"

definition CLI_SUBCOMMANDS :: "bytes list" where
  "CLI_SUBCOMMANDS = [''init'', ''query'', ''replay'', ''check'', ''serve'', ''demo'']"

definition evidence :: "bytes \<Rightarrow> nat \<Rightarrow> bytes \<Rightarrow> CodeEvidence" where
  "evidence file line claim = \<lparr>ev_file = file, ev_line = line, ev_claim = claim\<rparr>"

section \<open>Input and process\<close>

definition source_kind :: "SourceSpec \<Rightarrow> bytes" where
  "source_kind s = (case s of RemoteMcpLog _ \<Rightarrow> ''remote_mcp_log'' | MysqlSource _ \<Rightarrow> ''mysql'' | PostgresSource _ \<Rightarrow> ''postgres''
     | SqliteSource _ _ _ \<Rightarrow> ''sqlite'' | SshLog _ _ \<Rightarrow> ''ssh_log'' | LocalLog _ \<Rightarrow> ''local_log'')"

definition optional_json :: "('a \<Rightarrow> bytes Json) \<Rightarrow> 'a option \<Rightarrow> bytes Json" where
  "optional_json f v = (case v of None \<Rightarrow> JNull | Some x \<Rightarrow> f x)"

definition count_json :: "nat \<Rightarrow> bytes Json" where
  "count_json n = JNumber (PosInt n)"

text \<open>The entries of an object in the order of their keys.\<close>

definition server_transport :: "DbSpec \<Rightarrow> bytes Json" where
  "server_transport d =
     JObject [(''database'', JString (db_database d)), (''host'', JString (db_host d)),
       (''local_port'', optional_json count_json (db_local_port d)), (''port'', count_json (db_port d)),
       (''readonly_required'', JBool (db_readonly_required d)), (''ssh_host'', optional_json JString (db_ssh_host d)),
       (''username'', JString (db_username d))]"

definition source_transport :: "SourceSpec \<Rightarrow> bytes Json" where
  "source_transport s =
     (case s of
        RemoteMcpLog c \<Rightarrow> JObject [(''endpoint'', JString (rc_endpoint c)), (''resource'', JString (rc_resource c)),
          (''server_name'', JString (rc_server_name c)), (''trust_root'', JString (rc_trust_root c))]
      | MysqlSource d \<Rightarrow> server_transport d
      | PostgresSource d \<Rightarrow> server_transport d
      | SqliteSource path ro _ \<Rightarrow> JObject [(''path'', JString path), (''readonly_required'', JBool ro)]
      | SshLog host path \<Rightarrow> JObject [(''host'', JString host), (''path'', JString path)]
      | LocalLog path \<Rightarrow> JObject [(''path'', JString path)])"

definition sqlite_json_text_policy :: "SourceSpec \<Rightarrow> bytes list option" where
  "sqlite_json_text_policy s = (case s of SqliteSource _ _ cols \<Rightarrow> Some cols | _ \<Rightarrow> None)"

definition collect_input_surface :: "Profile \<Rightarrow> InputSurface" where
  "collect_input_surface p =
     \<lparr>tin_mcp_tools = public_tools, tin_cli_subcommands = CLI_SUBCOMMANDS, tin_query_mode = ''canned-structured'',
      tin_raw_sql = ''disabled (v1 lock, D5)'', tin_source_kind = source_kind (p_source p),
      tin_source_transport = source_transport (p_source p), tin_sqlite_json_text_policy = sqlite_json_text_policy (p_source p),
      tin_code_evidence = [evidence ''src/frontend/mcp.rs'' 19 ''locked public MCP tools'',
        evidence ''src/source/db/query.rs'' 1 ''canned structured query model'']\<rparr>"

definition collect_process_surface :: "Profile \<Rightarrow> ProcessSurface" where
  "collect_process_surface p =
     \<lparr>tpr_process_model = ''single-process MCP stdio (no daemon, D17)'', tpr_profile_under_review = p_name p,
      tpr_serve_default_scope = ''all configured profiles unless serve --profile restrict-list'',
      tpr_cross_profile_correlation = ''default (Conversation; D10)'', tpr_connect_lifecycle = ''eager-parse, lazy-connect'',
      tpr_code_evidence = [evidence ''src/cli/serve.rs'' 67 ''serve loads configured profiles before MCP startup'']\<rparr>"

section \<open>The policy file\<close>

definition is_table :: "Toml \<Rightarrow> bool" where
  "is_table t = (case t of TomlTable _ \<Rightarrow> True | _ \<Rightarrow> False)"

function (sequential) collect_policy_classes :: "bytes \<Rightarrow> Toml \<Rightarrow> bytes list \<Rightarrow> bytes list"
  and collect_entries :: "bytes \<Rightarrow> (bytes \<times> Toml) list \<Rightarrow> bytes list \<Rightarrow> bytes list" where
  "collect_policy_classes prefix (TomlTable es) out = collect_entries prefix es out"
| "collect_policy_classes prefix _ out = out"
| "collect_entries prefix [] out = out"
| "collect_entries prefix ((key, nested) # es) out =
     (let next = prefix @ ''.'' @ key in
      collect_entries prefix es (if is_table nested then collect_policy_classes next nested out else out @ [next]))"
  by pat_completeness auto
termination
  by (relation "measure (case_sum (\<lambda>(p, t, a). size t) (\<lambda>(p, es, a). size_list (size_prod (\<lambda>_. 0) size) es))") auto

text \<open>The \<^verbatim>\<open>[policy]\<close> table of a file.\<close>

definition policy_sections :: "Toml \<Rightarrow> (bytes \<times> Toml) list" where
  "policy_sections t =
     (case t of TomlTable es \<Rightarrow> (case map_of es ''policy'' of Some (TomlTable ss) \<Rightarrow> ss | _ \<Rightarrow> []) | _ \<Rightarrow> [])"

definition expand_path_lossy :: "TrustEnv \<Rightarrow> bytes \<Rightarrow> bytes" where
  "expand_path_lossy env path = (case te_expand env path of Inr q \<Rightarrow> q | Inl _ \<Rightarrow> path)"

definition recognizer_pack_from_parsed :: "TrustEnv \<Rightarrow> bytes option \<Rightarrow> Toml option \<Rightarrow> bytes option \<Rightarrow> RecognizerPack" where
  "recognizer_pack_from_parsed env policy_path parsed raw_bytes =
     (case parsed of
        None \<Rightarrow> \<lparr>trp_source = ''default-empty'', trp_policy_path = None, trp_policy_sha256 = None,
          trp_recognizer_keys = [''database''], trp_recognizer_classes = [], trp_default_empty = True\<rparr>
      | Some t \<Rightarrow> \<lparr>trp_source = ''policy-toml'', trp_policy_path = map_option (expand_path_lossy env) policy_path,
          trp_policy_sha256 = map_option (te_sha256_hex env) raw_bytes,
          trp_recognizer_keys = sort (map fst (policy_sections t)),
          trp_recognizer_classes = sort (fold (\<lambda>(section, value) out. collect_policy_classes section value out) (policy_sections t) []),
          trp_default_empty = False\<rparr>)"

section \<open>Output, storage and hand-off\<close>

definition collect_output_surface :: "Profile \<Rightarrow> RecognizerPack \<Rightarrow> OutputSurface" where
  "collect_output_surface p pack =
     \<lparr>tou_dispatch_chokepoint = evidence ''src/session/mod.rs'' 304 ''dispatch_tool redacts source results'',
      tou_tool_arg_redaction = ''on (D7)'',
      tou_schema_policy = \<lparr>tsp_table_allowlist = p_schema_allowlist p,
        tsp_column_redaction_mode = ''schema/list_tables raw by default; query values use Gaze recognizer pack''\<rparr>,
      tou_recognizer_pack = pack,
      tou_output_caps = \<lparr>tcv_rows = oc_rows default_caps, tcv_bytes = oc_bytes default_caps, tcv_cell_bytes = oc_cell_bytes default_caps,
        tcv_line_bytes = oc_line_bytes default_caps, tcv_timeout_secs = oc_timeout default_caps\<rparr>,
      tou_code_evidence = [evidence ''src/session/mod.rs'' 304 ''dispatch_tool is the redaction chokepoint'']\<rparr>"

definition secret_spec_locator :: "SecretSpec \<Rightarrow> SecretLocator" where
  "secret_spec_locator s =
     (case s of EnvSecret var \<Rightarrow> \<lparr>tsl_backend = ''env'', tsl_identity = ''var='' @ var\<rparr>
      | KeyringSecret service account \<Rightarrow> \<lparr>tsl_backend = ''keyring'', tsl_identity = ''service='' @ service @ '' account='' @ account\<rparr>)"

text \<open>What the profiles of the two database servers say.\<close>

definition server_locator :: "bytes option \<Rightarrow> SecretSpec option \<Rightarrow> SecretLocator" where
  "server_locator password_env secret =
     (case (password_env, secret) of
        (Some env, None) \<Rightarrow> \<lparr>tsl_backend = ''env'', tsl_identity = ''var='' @ env\<rparr>
      | (None, Some s) \<Rightarrow> secret_spec_locator s
      | _ \<Rightarrow> \<lparr>tsl_backend = ''profile'', tsl_identity = ''invalid''\<rparr>)"

definition secret_locator :: "SourceSpec \<Rightarrow> SecretLocator" where
  "secret_locator s =
     (case s of
        RemoteMcpLog c \<Rightarrow> secret_spec_locator (rc_secret c)
      | MysqlSource d \<Rightarrow> server_locator (db_password_env d) (db_secret d)
      | PostgresSource d \<Rightarrow> server_locator (db_password_env d) (db_secret d)
      | _ \<Rightarrow> \<lparr>tsl_backend = ''none'', tsl_identity = ''not required''\<rparr>)"

text \<open>Modes are decimal here: \<open>384\<close> is \<^verbatim>\<open>0o600\<close>, \<open>448\<close> is \<^verbatim>\<open>0o700\<close>.\<close>

definition mode_label :: "nat \<Rightarrow> bytes" where
  "mode_label mode = (if mode = 384 then ''0600'' else if mode = 448 then ''0700'' else ''custom'')"

definition inspect_path :: "TrustEnv \<Rightarrow> bytes \<Rightarrow> nat \<Rightarrow> PathArtifact" where
  "inspect_path env path expected_mode =
     (let expanded = expand_path_lossy env path; mode = map_option (\<lambda>m. m mod 512) (te_mode env expanded) in
      \<lparr>tpa_path = expanded, tpa_exists = (mode \<noteq> None), tpa_mode_ok = map_option (\<lambda>m. m = expected_mode) mode,
       tpa_expected_mode = mode_label expected_mode\<rparr>)"

definition collect_at_rest_surface :: "TrustEnv \<Rightarrow> Profile \<Rightarrow> bytes \<Rightarrow> bytes \<Rightarrow> AtRestSurface" where
  "collect_at_rest_surface env p manifest_path snapshot_dir =
     \<lparr>tar_manifest = inspect_path env manifest_path 384, tar_snapshot_dir = inspect_path env snapshot_dir 448,
      tar_snapshot_retention_days = p_snapshot_retention_days p, tar_auto_purge = purge_as_str (p_auto_purge p),
      tar_snapshot_encryption_at_rest = ''none (v1) - operator must run FileVault/LUKS'',
      tar_secret_backend = secret_locator (p_source p),
      tar_code_evidence = [evidence ''src/session/manifest.rs'' 1 ''manifest stores tokenized audit rows'']\<rparr>"

definition residual_risk :: "bytes \<Rightarrow> bytes \<Rightarrow> bytes \<Rightarrow> ResidualRisk" where
  "residual_risk risk what remedy = \<lparr>trr_id = risk, trr_summary = what, trr_mitigation = remedy\<rparr>"

definition collect_handoff_surface :: HandoffSurface where
  "collect_handoff_surface = \<lparr>tho_residual_risks =
     [residual_risk ''disk_encryption'' ''snapshot files rely on operator-managed disk encryption''
        ''enable FileVault, LUKS, or equivalent full-disk encryption on hosts that store snapshots'',
      residual_risk ''db_user_privileges'' ''database credentials can still expose anything their role may read''
        ''use least-privilege read-only users and narrow schema allowlists'',
      residual_risk ''ssh_auth'' (''ssh_log profiles inherit the operator'' @ [CHR 0x27] @ ''s SSH trust and host-key posture'')
        ''use dedicated read-only log access and pinned host verification'',
      residual_risk ''backup_exclusion'' ''local backups may copy manifests and raw token snapshots''
        ''exclude ~/.gaze-lens/snapshots from unmanaged backups or encrypt those backups'',
      residual_risk ''cross_profile_correlation'' ''conversation-scoped tokens can correlate repeated values across profiles in one session''
        ''run separate sessions when cross-profile correlation is undesirable'',
      residual_risk ''binary_attestation'' ''v1 source installs do not prove binary provenance to agents''
        ''build from reviewed source or use future signed release artifacts when available'']\<rparr>"

definition build_report :: "TrustEnv \<Rightarrow> Profile \<Rightarrow> bytes \<Rightarrow> bytes \<Rightarrow> (bytes \<times> bytes \<times> Toml) option \<Rightarrow> TrustReport" where
  "build_report env p manifest_path snapshot_dir parsed_policy =
     (let pack = (case parsed_policy of
            Some (path, raw_bytes, parsed) \<Rightarrow> recognizer_pack_from_parsed env (Some path) (Some parsed) (Some raw_bytes)
          | None \<Rightarrow> recognizer_pack_from_parsed env None None None) in
      \<lparr>tr_report_version = REPORT_VERSION, tr_profile = p_name p, tr_input_surface = collect_input_surface p,
       tr_process_surface = collect_process_surface p, tr_output_surface = collect_output_surface p pack,
       tr_at_rest_surface = collect_at_rest_surface env p manifest_path snapshot_dir,
       tr_handoff_surface = collect_handoff_surface\<rparr>)"

section \<open>The text\<close>

definition validate_rendered_profile_name :: "bytes \<Rightarrow> bytes \<Rightarrow> LensError + unit" where
  "validate_rendered_profile_name field name =
     (if is_safe_profile_name name then Inr ()
      else Inl (ProfileError (''trust report '' @ field @ '' contains unsupported profile-name characters; expected ^[a-z0-9][a-z0-9_-]{0,63}$'')))"

definition validate_text_report :: "TrustReport \<Rightarrow> LensError + unit" where
  "validate_text_report r =
     and_then (validate_rendered_profile_name ''profile'' (tr_profile r)) (\<lambda>_.
     and_then (validate_rendered_profile_name ''process_surface.profile_under_review'' (tpr_profile_under_review (tr_process_surface r))) (\<lambda>_.
     if tr_profile r \<noteq> tpr_profile_under_review (tr_process_surface r)
     then Inl (ProfileError ''trust report profile fields disagree'') else Inr ()))"

definition evidence_refs :: "CodeEvidence list \<Rightarrow> bytes" where
  "evidence_refs es = join '', '' (map (\<lambda>e. ''(see '' @ ev_file e @ '':'' @ nat_to_string (ev_line e) @ '')'') es)"

definition format_list :: "bytes list \<Rightarrow> bytes" where
  "format_list vs = (if vs = [] then ''none'' else join '', '' vs)"

definition format_optional_list :: "bytes list option \<Rightarrow> bytes" where
  "format_optional_list vs = (case vs of None \<Rightarrow> ''n/a'' | Some l \<Rightarrow> format_list l)"

definition format_mode :: "bool option \<Rightarrow> bytes" where
  "format_mode m = (case m of Some True \<Rightarrow> ''ok'' | Some False \<Rightarrow> ''mismatch'' | None \<Rightarrow> ''not present'')"

definition input_lines :: "InputSurface \<Rightarrow> bytes list" where
  "input_lines s =
     [''Input surface'', ''mcp_tools: '' @ join '', '' (tin_mcp_tools s), ''cli_subcommands: '' @ join '', '' (tin_cli_subcommands s),
      ''query_mode: '' @ tin_query_mode s, ''raw_sql: '' @ tin_raw_sql s, ''source_kind: '' @ tin_source_kind s,
      ''sqlite_json_text_policy: '' @ format_optional_list (tin_sqlite_json_text_policy s),
      ''evidence: '' @ evidence_refs (tin_code_evidence s), []]"

definition process_lines :: "ProcessSurface \<Rightarrow> bytes list" where
  "process_lines s =
     [''Process surface'', ''process_model: '' @ tpr_process_model s, ''profile_under_review: '' @ tpr_profile_under_review s,
      ''serve_default_scope: '' @ tpr_serve_default_scope s, ''cross_profile_correlation: '' @ tpr_cross_profile_correlation s,
      ''connect_lifecycle: '' @ tpr_connect_lifecycle s, ''evidence: '' @ evidence_refs (tpr_code_evidence s), []]"

definition output_lines :: "OutputSurface \<Rightarrow> bytes list" where
  "output_lines s =
     [''Output surface'',
      ''dispatch_chokepoint: (see '' @ ev_file (tou_dispatch_chokepoint s) @ '':'' @ nat_to_string (ev_line (tou_dispatch_chokepoint s)) @ '')'',
      ''tool_arg_redaction: '' @ tou_tool_arg_redaction s,
      ''table_allowlist: '' @ format_optional_list (tsp_table_allowlist (tou_schema_policy s)),
      ''column_redaction_mode: '' @ tsp_column_redaction_mode (tou_schema_policy s),
      ''recognizer_pack: '' @ trp_source (tou_recognizer_pack s),
      ''recognizer_keys: '' @ format_list (trp_recognizer_keys (tou_recognizer_pack s)),
      ''recognizer_classes: '' @ format_list (trp_recognizer_classes (tou_recognizer_pack s)),
      ''evidence: '' @ evidence_refs (tou_code_evidence s), []]"

definition at_rest_lines :: "AtRestSurface \<Rightarrow> bytes list" where
  "at_rest_lines s =
     [''At-rest surface'', ''manifest: '' @ tpa_path (tar_manifest s), ''manifest_mode_ok: '' @ format_mode (tpa_mode_ok (tar_manifest s)),
      ''snapshot_dir: '' @ tpa_path (tar_snapshot_dir s), ''snapshot_dir_mode_ok: '' @ format_mode (tpa_mode_ok (tar_snapshot_dir s)),
      ''snapshot_retention_days: '' @ (case tar_snapshot_retention_days s of Some d \<Rightarrow> nat_to_string d | None \<Rightarrow> ''unlimited''),
      ''auto_purge: '' @ tar_auto_purge s, ''snapshot_encryption_at_rest: '' @ tar_snapshot_encryption_at_rest s,
      ''secret_backend: '' @ tsl_backend (tar_secret_backend s) @ '' '' @ tsl_identity (tar_secret_backend s),
      ''evidence: '' @ evidence_refs (tar_code_evidence s), []]"

definition handoff_lines :: "HandoffSurface \<Rightarrow> bytes list" where
  "handoff_lines s = ''Operator handoff'' #
     map (\<lambda>r. ''risk.'' @ trr_id r @ '': '' @ trr_summary r @ '' mitigation='' @ trr_mitigation r) (tho_residual_risks s)"

definition report_lines :: "TrustReport \<Rightarrow> bytes list" where
  "report_lines r =
     (if trp_default_empty (tou_recognizer_pack (tr_output_surface r))
      then [''WARN: no recognizer pack - running with default-empty policy''] else []) @
     [''Trust report v'' @ nat_to_string (tr_report_version r), ''profile: '' @ tr_profile r, []] @
     input_lines (tr_input_surface r) @ process_lines (tr_process_surface r) @ output_lines (tr_output_surface r) @
     at_rest_lines (tr_at_rest_surface r) @ handoff_lines (tr_handoff_surface r)"

text \<open>The lines to be written, in order; an unsafe name is an error of kind \<^verbatim>\<open>InvalidInput\<close>.\<close>

definition render_text :: "TrustReport \<Rightarrow> LensError + bytes list" where
  "render_text r = and_then (validate_text_report r) (\<lambda>_. Inr (report_lines r))"

section \<open>What the report says is so\<close>

text \<open>The path of keys that leads from a value to an entry that is not a table.\<close>

fun leaf_path :: "Toml \<Rightarrow> bytes list \<Rightarrow> bool" where
  "leaf_path t [] = (\<not> is_table t)"
| "leaf_path t (k # ks) = (case t of TomlTable es \<Rightarrow> list_ex (\<lambda>(l, v). l = k \<and> leaf_path v ks) es | _ \<Rightarrow> False)"

definition dotted :: "bytes list \<Rightarrow> bytes" where
  "dotted ks = concat (map (\<lambda>k. ''.'' @ k) ks)"

definition entry_paths :: "(bytes \<times> Toml) list \<Rightarrow> bytes list set" where
  "entry_paths es = {ks. leaf_path (TomlTable es) ks}"

lemma leaf_path_table: "{ks. leaf_path (TomlTable es) ks} = entry_paths es"
  by (simp add: entry_paths_def)

lemma entry_paths_Nil: "entry_paths [] = {}"
proof -
  have "\<not> leaf_path (TomlTable []) ks" for ks by (cases ks) (simp_all add: is_table_def)
  then show ?thesis by (simp add: entry_paths_def)
qed

lemma entry_paths_Cons: "entry_paths ((k, v) # es) = (#) k ` {ks. leaf_path v ks} \<union> entry_paths es"
proof -
  have "leaf_path (TomlTable ((k, v) # es)) ks \<longleftrightarrow> ks \<in> (#) k ` {ks. leaf_path v ks} \<or> leaf_path (TomlTable es) ks" for ks
    by (cases ks) (auto simp: is_table_def)
  then show ?thesis by (auto simp: entry_paths_def)
qed

lemma leaf_path_leaf: "\<not> is_table t \<Longrightarrow> leaf_path t ks \<longleftrightarrow> ks = []"
  by (cases ks) (auto simp: is_table_def split: Toml.splits)

lemma nonempty_paths: "{ks. ks \<noteq> [] \<and> leaf_path t ks} = (if is_table t then {ks. leaf_path t ks} else {})"
proof (cases "is_table t")
  case True
  then have "leaf_path t ks \<Longrightarrow> ks \<noteq> []" for ks by (cases ks) simp_all
  with True show ?thesis by auto
qed (auto simp: leaf_path_leaf)

lemma collected_classes:
  "set (collect_policy_classes prefix t out) = set out \<union> (\<lambda>ks. prefix @ dotted ks) ` {ks. ks \<noteq> [] \<and> leaf_path t ks}"
  "set (collect_entries prefix es out) = set out \<union> (\<lambda>ks. prefix @ dotted ks) ` entry_paths es"
proof (induction prefix t out and prefix es out rule: collect_policy_classes_collect_entries.induct)
  case (1 prefix es out)
  then show ?case by (simp add: nonempty_paths is_table_def leaf_path_table)
next
  case (4 prefix key nested es out)
  have d: "(\<lambda>ks. prefix @ dotted ks) ` (#) key ` A = (\<lambda>ks. (prefix @ ''.'' @ key) @ dotted ks) ` A" for A
    by (simp add: image_image dotted_def)
  show ?case
  proof (cases "is_table nested")
    case True
    have p: "{ks. ks \<noteq> [] \<and> leaf_path nested ks} = {ks. leaf_path nested ks}" using True by (simp only: nonempty_paths if_True)
    from 4(1) [OF refl True] 4(2) [OF refl] True show ?thesis
      unfolding p entry_paths_Cons image_Un d collect_entries.simps Let_def by auto
  next
    case False
    then have p: "{ks. leaf_path nested ks} = {[]}" by (simp add: leaf_path_leaf)
    from 4(2) [OF refl] False show ?thesis
      unfolding p entry_paths_Cons image_Un d collect_entries.simps Let_def by (auto simp: dotted_def)
  qed
qed (auto simp: entry_paths_Nil nonempty_paths is_table_def)

text \<open>The classes of the sections of a policy: the dotted paths of at least two keys to an entry that is no table.\<close>

definition section_classes :: "(bytes \<times> Toml) list \<Rightarrow> bytes set" where
  "section_classes ss = {join ''.'' ks | ks. leaf_path (TomlTable ss) ks \<and> 2 \<le> length ks}"

lemma join_dotted: "join ''.'' (k # ks) = k @ dotted ks"
  by (simp add: join_Cons dotted_def)

lemma section_classes_Cons:
  "section_classes ((section, v) # ss) = (\<lambda>ks. section @ dotted ks) ` {ks. ks \<noteq> [] \<and> leaf_path v ks} \<union> section_classes ss"
proof -
  have "{ks. leaf_path (TomlTable ((section, v) # ss)) ks \<and> 2 \<le> length ks} =
      (#) section ` {ks. ks \<noteq> [] \<and> leaf_path v ks} \<union> {ks. leaf_path (TomlTable ss) ks \<and> 2 \<le> length ks}" (is "?l = ?r")
  proof (intro set_eqI)
    fix ks
    show "ks \<in> ?l \<longleftrightarrow> ks \<in> ?r" by (cases ks) (auto simp: Suc_le_eq is_table_def)
  qed
  moreover have "section_classes es = join ''.'' ` {ks. leaf_path (TomlTable es) ks \<and> 2 \<le> length ks}" for es
    by (auto simp: section_classes_def)
  ultimately show ?thesis by (simp add: image_Un image_image join_dotted)
qed

lemma folded_classes:
  "set (fold (\<lambda>(section, value) out. collect_policy_classes section value out) ss out) = set out \<union> section_classes ss"
proof (induction ss arbitrary: out)
  case Nil
  have "\<not> leaf_path (TomlTable []) ks" for ks by (cases ks) (simp_all add: is_table_def)
  then show ?case by (simp add: section_classes_def)
next
  case (Cons e ss)
  obtain sec v where e: "e = (sec, v)" by (cases e)
  show ?case unfolding e fold.simps o_apply case_prod_conv Cons collected_classes(1) section_classes_Cons by (simp add: Un_assoc)
qed

text \<open>
  Where a secret is read from: the variable of the environment, or the entry of the keyring, on which alone the
  outcome depends.
\<close>

definition read_from :: "SecretLocator \<Rightarrow> ((bytes \<Rightarrow> bytes option) \<Rightarrow> (bytes \<Rightarrow> bytes \<Rightarrow> 'k) \<Rightarrow> 'r) \<Rightarrow> (bytes \<Rightarrow> bytes option \<Rightarrow> 'r) \<Rightarrow> ('k \<Rightarrow> 'r) \<Rightarrow> bool" where
  "read_from l resolve by_env by_key \<longleftrightarrow>
     (\<exists>v. l = \<lparr>tsl_backend = ''env'', tsl_identity = ''var='' @ v\<rparr> \<and> (\<forall>env keyring. resolve env keyring = by_env v (env v))) \<or>
     (\<exists>s a. l = \<lparr>tsl_backend = ''keyring'', tsl_identity = ''service='' @ s @ '' account='' @ a\<rparr> \<and>
        (\<forall>env keyring. resolve env keyring = by_key (keyring s a)))"

definition password_locator_true :: "SecretLocator \<Rightarrow> Profile \<Rightarrow> bool" where
  "password_locator_true l p \<longleftrightarrow>
     read_from l (\<lambda>env keyring. resolve_password env keyring p) (\<lambda>v value. ok_or (ProfileEnvMissing v) value) (\<lambda>r. r)"

definition token_of :: "bytes option \<Rightarrow> LensError + bytes" where
  "token_of value = and_then (ok_or failure value) (\<lambda>token. if \<not> valid_token token then Inl failure else Inr token)"

definition token_locator_true :: "SecretLocator \<Rightarrow> RemoteConfig \<Rightarrow> bool" where
  "token_locator_true l c \<longleftrightarrow> read_from l (\<lambda>env keyring. config_token env keyring c) (\<lambda>_. token_of) token_of"

lemma server_locator_reads:
  assumes "credentials (p_source p) = Some (e, s)" "(e = None) \<noteq> (s = None)"
  shows "password_locator_true (secret_locator (p_source p)) p"
proof -
  have l: "secret_locator (p_source p) = server_locator e s" using assms(1)
    by (auto simp: credentials_def secret_locator_def split: SourceSpec.splits)
  consider v where "e = Some v" "s = None" | v where "e = None" "s = Some (EnvSecret v)" | sv a where "e = None" "s = Some (KeyringSecret sv a)"
    using assms(2) by (cases e; cases s) (auto, metis SecretSpec.exhaust)
  then show ?thesis
    by cases (use assms(1) l in \<open>auto simp: password_locator_true_def read_from_def server_locator_def secret_spec_locator_def resolve_password_def\<close>)
qed

lemma remote_locator_reads: "token_locator_true (secret_locator (RemoteMcpLog c)) c"
proof (cases "rc_secret c")
  case (EnvSecret v)
  then show ?thesis
    by (simp add: token_locator_true_def read_from_def secret_locator_def secret_spec_locator_def config_token_def token_of_def)
next
  case (KeyringSecret s a)
  have "secret_locator (RemoteMcpLog c) = \<lparr>tsl_backend = ''keyring'', tsl_identity = ''service='' @ s @ '' account='' @ a\<rparr>"
    using KeyringSecret by (simp add: secret_locator_def secret_spec_locator_def)
  moreover have "\<forall>env keyring. config_token env keyring c = token_of (keyring s a)"
    using KeyringSecret by (simp add: config_token_def token_of_def)
  ultimately show ?thesis unfolding token_locator_true_def read_from_def by blast
qed

text \<open>
  C40: the report names the place that the secret of a loaded profile is read from. For a database it is the one
  variable, or the one entry of the keyring, on which the lookup of the password depends, and never the entry for
  an invalid profile; for a remote log the one on which its token depends; and the profiles that are reported to
  need no secret are those whose password can never be looked up.
\<close>

theorem report_names_where_secrets_are:
  assumes "load_profile n users projects = Inr p"
  shows "let l = tar_secret_backend (tr_at_rest_surface (build_report env p manifest snapshots policy)) in
    (credentials (p_source p) \<noteq> None \<longrightarrow> password_locator_true l p) \<and>
    (\<forall>c. p_source p = RemoteMcpLog c \<longrightarrow> token_locator_true l c) \<and>
    (credentials (p_source p) = None \<and> \<not> (\<exists>c. p_source p = RemoteMcpLog c) \<longrightarrow>
       tsl_backend l = ''none'' \<and> (\<forall>vars keyring. \<exists>t. resolve_password vars keyring p = Inl (ProfileError t)))"
proof -
  let ?l = "tar_secret_backend (tr_at_rest_surface (build_report env p manifest snapshots policy))"
  have l: "?l = secret_locator (p_source p)" by (simp add: build_report_def collect_at_rest_surface_def)
  from loaded_from_names [OF assms] have c: "\<forall>e s. credentials (p_source p) = Some (e, s) \<longrightarrow> (e = None) \<noteq> (s = None)" by blast
  have "password_locator_true ?l p" if "credentials (p_source p) \<noteq> None"
    using that c l server_locator_reads by fastforce
  moreover have "token_locator_true ?l c" if "p_source p = RemoteMcpLog c" for c using that remote_locator_reads [of c] l by simp
  moreover have "tsl_backend ?l = ''none'' \<and> (\<forall>vars keyring. \<exists>t. resolve_password vars keyring p = Inl (ProfileError t))"
    if "credentials (p_source p) = None \<and> \<not> (\<exists>c. p_source p = RemoteMcpLog c)"
    using that by (cases "p_source p") (simp_all add: l secret_locator_def resolve_password_def credentials_def)
  ultimately show ?thesis unfolding Let_def by blast
qed

definition demo_trust :: TrustEnv where
  "demo_trust = \<lparr>te_expand = (\<lambda>p. if starts_with p ''~'' then Inr (''/home/u'' @ drop 1 p) else Inr p),
     te_mode = (\<lambda>p. if p = ''/home/u/.gaze-lens/snapshots'' then Some 16832 else None), te_sha256_hex = (\<lambda>_. ''00'')\<rparr>"

definition demo_toml :: Toml where
  "demo_toml = TomlTable [(''ner'', TomlTable [(''model_dir'', TomlString ''/m'')]),
     (''policy'', TomlTable [(''logs'', TomlTable [(''strip_patterns'', TomlArray [TomlString ''x+''])]), (''default_action'', TomlString ''redact''),
        (''database'', TomlTable [(''columns'', TomlTable [(''mail'', TomlBoolean True), (''age'', TomlInteger 1)])])])]"

definition demo_report :: "(bytes \<times> bytes \<times> Toml) option \<Rightarrow> TrustReport" where
  "demo_report policy = build_report demo_trust (demo_profile Warn True) ''~/.gaze-lens/manifest.sqlite'' ''~/.gaze-lens/snapshots'' policy"

theorem report_names_where_secrets_are_witness:
  "password_locator_true \<lparr>tsl_backend = ''env'', tsl_identity = ''var=PW''\<rparr> (demo_profile Warn True)"
proof -
  have l: "load_profile ''db'' [demo_profile Purge False] [demo_profile Warn True] = Inr (demo_profile Warn True)" by code_simp
  have s: "tar_secret_backend (tr_at_rest_surface (build_report demo_trust (demo_profile Warn True) ''/m'' ''/s'' None)) =
      \<lparr>tsl_backend = ''env'', tsl_identity = ''var=PW''\<rparr>" by code_simp
  have c: "credentials (p_source (demo_profile Warn True)) \<noteq> None" by (simp add: demo_profile_def credentials_def)
  from report_names_where_secrets_are [OF l, of demo_trust "''/m''" "''/s''" None] c show ?thesis unfolding s Let_def by blast
qed

text \<open>
  The report lists what the policy file says. The pack counts as empty exactly when the profile has no policy
  file, and then and only then the text opens with the warning; otherwise the keys are the sections of the
  \<^verbatim>\<open>policy\<close> table and the classes are the dotted paths, of at least two keys, to the entries that are no tables,
  both in order. The text is written for a safe profile name only.
\<close>

theorem report_lists_the_policy:
  "let r = build_report env p manifest snapshots policy; pack = tou_recognizer_pack (tr_output_surface r) in
    (trp_default_empty pack \<longleftrightarrow> policy = None) \<and>
    (\<forall>path raw t. policy = Some (path, raw, t) \<longrightarrow>
       sorted (trp_recognizer_keys pack) \<and> set (trp_recognizer_keys pack) = fst ` set (policy_sections t) \<and>
       sorted (trp_recognizer_classes pack) \<and> set (trp_recognizer_classes pack) = section_classes (policy_sections t)) \<and>
    (\<forall>ls. render_text r = Inr ls \<longrightarrow> is_safe_profile_name (p_name p) \<and>
       (hd ls = ''WARN: no recognizer pack - running with default-empty policy'' \<longleftrightarrow> policy = None))"
proof -
  let ?r = "build_report env p manifest snapshots policy"
  let ?pack = "tou_recognizer_pack (tr_output_surface ?r)"
  have pack: "?pack = (case policy of Some (path, raw, t) \<Rightarrow> recognizer_pack_from_parsed env (Some path) (Some t) (Some raw)
      | None \<Rightarrow> recognizer_pack_from_parsed env None None None)"
    by (simp add: build_report_def collect_output_surface_def Let_def split: option.split)
  have d: "trp_default_empty ?pack \<longleftrightarrow> policy = None"
    unfolding pack by (auto simp: recognizer_pack_from_parsed_def split: option.split)
  moreover have "sorted (trp_recognizer_keys ?pack) \<and> set (trp_recognizer_keys ?pack) = fst ` set (policy_sections t) \<and>
      sorted (trp_recognizer_classes ?pack) \<and> set (trp_recognizer_classes ?pack) = section_classes (policy_sections t)"
    if "policy = Some (path, raw, t)" for path raw t
  proof -
    from pack that have "?pack = recognizer_pack_from_parsed env (Some path) (Some t) (Some raw)" by simp
    then show ?thesis by (simp add: recognizer_pack_from_parsed_def folded_classes)
  qed
  moreover have "is_safe_profile_name (p_name p) \<and>
      (hd ls = ''WARN: no recognizer pack - running with default-empty policy'' \<longleftrightarrow> policy = None)"
    if "render_text ?r = Inr ls" for ls
  proof -
    from that have "ls = report_lines ?r" "is_safe_profile_name (p_name p)"
      by (auto simp: render_text_def validate_text_report_def validate_rendered_profile_name_def and_then_Inr_iff build_report_def Let_def
          split: if_splits)
    with d show ?thesis by (auto simp: report_lines_def)
  qed
  ultimately show ?thesis unfolding Let_def by blast
qed

theorem report_lists_the_policy_witness:
  "section_classes (policy_sections demo_toml) = {''database.columns.age'', ''database.columns.mail'', ''logs.strip_patterns''} \<and>
   is_safe_profile_name (p_name (demo_profile Warn True))"
proof -
  let ?p = "Some (''p.toml'', [], demo_toml)"
  let ?r = "build_report demo_trust (demo_profile Warn True) ''/m'' ''/s'' ?p"
  have c: "trp_recognizer_classes (tou_recognizer_pack (tr_output_surface ?r)) =
      [''database.columns.age'', ''database.columns.mail'', ''logs.strip_patterns'']" by code_simp
  have "validate_text_report ?r = Inr ()" by code_simp
  then obtain ls where ls: "render_text ?r = Inr ls" by (simp add: render_text_def)
  note h = report_lists_the_policy [of demo_trust "demo_profile Warn True" "''/m''" "''/s''" ?p, unfolded Let_def]
  from h have "set (trp_recognizer_classes (tou_recognizer_pack (tr_output_surface ?r))) = section_classes (policy_sections demo_toml)" by blast
  moreover from h ls have "is_safe_profile_name (p_name (demo_profile Warn True))" by blast
  ultimately show ?thesis unfolding c by auto
qed

end
