(* ===== verification/Ssh_Tail.thy ===== *)
theory Ssh_Tail
  imports Log_Windows Db_Source
begin

text \<open>
  One run of \<^verbatim>\<open>ssh\<close> for a remote log, \<^verbatim>\<open>SshLogSource\<close> of \<^verbatim>\<open>src/source/log/ssh_log.rs\<close>: the source of a
  profile, the command, what becomes of its outcome, and the window that \<^verbatim>\<open>Log_Windows\<close> caches. The process is
  an operation on the world that yields a \<open>SshRun\<close>; its streams are pipes, so that they are there to be read.
\<close>

section \<open>Running the command\<close>

text \<open>The spawn failed, a stream could not be read, the time was up, or the process ended with its exit code and streams.\<close>

datatype SshRun = SpawnFailed bytes | StreamFailed bytes | TimedOut | Exited "nat option" bytes bytes

record SshLogSource =
  sl_profile_name :: bytes
  sl_host :: bytes
  sl_path :: bytes
  sl_max_line_bytes :: nat
  sl_max_total_bytes :: nat
  sl_timeout :: nat

definition STDERR_CAP_BYTES :: nat where
  "STDERR_CAP_BYTES = 8 * 1024"

definition SSH_CONNECT_TIMEOUT_SECS :: nat where
  "SSH_CONNECT_TIMEOUT_SECS = 10"

text \<open>\<^verbatim>\<open>SshLogSource::new\<close> with the caps of a session.\<close>

definition ssh_source_new :: "bytes \<Rightarrow> bytes \<Rightarrow> bytes \<Rightarrow> OutputCaps \<Rightarrow> LensError + SshLogSource" where
  "ssh_source_new profile_name host path caps =
     (case ssh_log_source_new host path of
        Inl e \<Rightarrow> Inl (SourceError profile_name (ssh_error_text e) None None)
      | Inr (h, q) \<Rightarrow> Inr \<lparr>sl_profile_name = profile_name, sl_host = h, sl_path = q, sl_max_line_bytes = oc_line_bytes caps,
          sl_max_total_bytes = oc_bytes caps, sl_timeout = oc_timeout caps\<rparr>)"

definition ssh_timeout_error :: "SshLogSource \<Rightarrow> bytes \<Rightarrow> bytes \<Rightarrow> nat \<Rightarrow> LensError" where
  "ssh_timeout_error src phase operation secs =
     OperationTimeout phase operation secs (Some (''profile='' @ sl_profile_name src @ '' host='' @ sl_host src @ '' path='' @ sl_path src))"

definition ssh_stderr_indicates_connect_timeout :: "(bytes \<Rightarrow> bytes) \<Rightarrow> bytes \<Rightarrow> bool" where
  "ssh_stderr_indicates_connect_timeout lossy stderr =
     (let text = to_ascii_lowercase (lossy stderr) in
      contains_text text ''connection timed out'' \<or> contains_text text ''operation timed out'')"

definition exit_text :: "nat option \<Rightarrow> bytes" where
  "exit_text code = (case code of None \<Rightarrow> ''None'' | Some n \<Rightarrow> ''Some('' @ nat_to_string n @ '')'')"

definition saturating_succ :: "nat \<Rightarrow> nat" where
  "saturating_succ n = min (n + 1) (USIZE_LIMIT - 1)"

text \<open>What the outcome means; one byte more than the cap is read, to notice that there is more.\<close>

definition ssh_outcome :: "(bytes \<Rightarrow> bytes) \<Rightarrow> SshLogSource \<Rightarrow> bytes \<Rightarrow> SshRun \<Rightarrow> LensError + LogOutput" where
  "ssh_outcome lossy src operation run =
     (case run of
        SpawnFailed e \<Rightarrow> Inl (SourceError (sl_profile_name src) e None None)
      | StreamFailed e \<Rightarrow> Inl (SourceError (sl_profile_name src) e None None)
      | TimedOut \<Rightarrow> Inl (ssh_timeout_error src ''ssh log command/read'' operation (sl_timeout src))
      | Exited code out err \<Rightarrow>
          (let stdout = read_capped out (saturating_succ (sl_max_total_bytes src)); stderr = read_capped err STDERR_CAP_BYTES in
           if code \<noteq> Some 0 then
             if ssh_stderr_indicates_connect_timeout lossy stderr
             then Inl (ssh_timeout_error src ''ssh connect'' operation SSH_CONNECT_TIMEOUT_SECS)
             else Inl (SourceError (sl_profile_name src) (''ssh returned '' @ exit_text code) None (Some (lossy stderr)))
           else
             (let bytes_cut = length stdout > sl_max_total_bytes src;
                  raw = (if bytes_cut then take (sl_max_total_bytes src) stdout else stdout) in
              Inr (cap_output lossy raw bytes_cut (sl_max_line_bytes src)))))"

text \<open>\<open>run\<close> spawns a command and waits. A panic of \<^const>\<open>tail_argv\<close> is no answer.\<close>

definition tail_for_operation ::
  "(bytes \<Rightarrow> bytes) \<Rightarrow> (bytes list \<Rightarrow> 'w \<Rightarrow> SshRun \<times> 'w) \<Rightarrow> SshLogSource \<Rightarrow> nat \<Rightarrow> bytes \<Rightarrow> ('w, LogOutput) effect" where
  "tail_for_operation lossy run src lines operation w =
     (case tail_argv (sl_host src) (sl_path src) lines of
        None \<Rightarrow> (None, w)
      | Some argv \<Rightarrow> (case run argv w of (outcome, w1) \<Rightarrow> (Some (ssh_outcome lossy src operation outcome), w1)))"

definition ssh_tail :: "(bytes \<Rightarrow> bytes) \<Rightarrow> (bytes list \<Rightarrow> 'w \<Rightarrow> SshRun \<times> 'w) \<Rightarrow> SshLogSource \<Rightarrow> nat \<Rightarrow> ('w, LogOutput) effect" where
  "ssh_tail lossy run src lines = tail_for_operation lossy run src lines ''log_tail''"

section \<open>What a run gives\<close>

lemma ssh_source_validated:
  assumes "ssh_source_new name host path caps = Inr src"
  shows "sl_profile_name src = name \<and> sl_host src = host \<and> sl_path src = path \<and> ssh_log_source_new host path = Inr (host, path) \<and>
    sl_max_total_bytes src = oc_bytes caps \<and> sl_max_line_bytes src = oc_line_bytes caps \<and> sl_timeout src = oc_timeout caps"
  using assms
  by (auto simp: ssh_source_new_def ssh_log_source_new_def validate_ssh_login_host_def validate_ssh_path_def and_then_Inr_iff
      split: sum.splits prod.splits option.splits if_splits)

lemma ssh_source_argv:
  assumes "ssh_source_new name host path caps = Inr src"
  shows "tail_argv (sl_host src) (sl_path src) n =
    Some [''ssh'', ''-o'', ''BatchMode=yes'', ''-o'', ''ConnectTimeout=10'', ''--'', host, ''tail'', ''-n'', nat_to_string (min n HARD_CAP_LINES), ''--'', path]"
  using ssh_source_validated [OF assms] by (auto simp: tail_argv_def ssh_log_source_new_def and_then_Inr_iff)

text \<open>A source runs its one command once, and always has an answer.\<close>

lemma tail_runs_once:
  assumes "ssh_source_new name host path caps = Inr src"
  shows "\<exists>argv. tail_argv host path n = Some argv \<and>
    tail_for_operation lossy run src n op w = (Some (ssh_outcome lossy src op (fst (run argv w))), snd (run argv w))"
  using ssh_source_argv [OF assms, of n] ssh_source_validated [OF assms] by (auto simp: tail_for_operation_def split: prod.split)

text \<open>
  An answer comes from a process that ended with success; it holds the bytes within the cap, tells whether there
  were more, and each of its lines is a decoded piece within the cap of a line.
\<close>

lemma ssh_answer_within_caps:
  assumes "ssh_outcome lossy src op run = Inr out" "sl_max_total_bytes src + 1 < USIZE_LIMIT"
  shows "\<exists>stdout stderr. run = Exited (Some 0) stdout stderr \<and> lo_bytes out = min (length stdout) (sl_max_total_bytes src) \<and>
    (BytesCut \<in> set (lo_truncated_at out) \<longleftrightarrow> sl_max_total_bytes src < length stdout) \<and>
    (\<forall>l\<in>set (lo_lines out). \<exists>piece. l = lossy piece \<and> length piece \<le> sl_max_line_bytes src)"
proof -
  let ?max = "sl_max_total_bytes src"
  obtain stdout stderr where run: "run = Exited (Some 0) stdout stderr"
    using assms(1) by (cases run) (auto simp: ssh_outcome_def Let_def split: if_splits)
  let ?raw = "take ?max stdout"
  have succ: "saturating_succ ?max = Suc ?max" using assms(2) by (simp add: saturating_succ_def)
  then have raw: "(if ?max < length stdout then take ?max (read_capped stdout (saturating_succ ?max)) else read_capped stdout (saturating_succ ?max)) = ?raw"
    by (auto simp: read_capped_def min_def)
  have cut: "?max < length (read_capped stdout (saturating_succ ?max)) \<longleftrightarrow> ?max < length stdout"
    using succ by (auto simp: read_capped_def)
  have "Inr out = (Inr (cap_output lossy ?raw (?max < length stdout) (sl_max_line_bytes src)) :: LensError + LogOutput)"
    using assms(1) unfolding run ssh_outcome_def Let_def SshRun.case cut raw by simp
  then have "out = cap_output lossy ?raw (?max < length stdout) (sl_max_line_bytes src)" by simp
  with run show ?thesis
    by (auto simp: cap_output_def split_and_cap_lines_with_truncation_def Let_def)
qed

end
