(* ===== verification/Check_Command.thy ===== *)
theory Check_Command
  imports Trust_Report Ssh_Tail Serve_Startup
begin

text \<open>
  The command \<^verbatim>\<open>check\<close>, \<^verbatim>\<open>src/cli/check.rs\<close>: policy, model, secret and source of a profile, or the trust
  report, with the lines that are written on the way. The state is the two output streams and the world of the
  sources; the file system, TOML, the environment, the keyring and the libraries are the record \<open>CheckEnv\<close>.
\<close>

section \<open>Texts of errors\<close>

text \<open>\<^verbatim>\<open>Display\<close> of errors, the attributes of \<^verbatim>\<open>src/errors.rs\<close> and \<^verbatim>\<open>src/value.rs\<close>.\<close>

fun lower_error_text :: "LowerError \<Rightarrow> bytes" where
  "lower_error_text (Decode kind detail) = ''decode failure for '' @ kind @ '': '' @ detail"
| "lower_error_text (Unsupported t) = ''unsupported source type: '' @ t"

fun display_error :: "(bytes list \<Rightarrow> bytes) \<Rightarrow> LensError \<Rightarrow> bytes" where
  "display_error dbg (ManifestBeginFailed call_id detail _) = ''manifest begin failed for call '' @ call_id @ '': '' @ detail"
| "display_error dbg (ManifestFinishFailed call_id detail _) = ''manifest finish failed for call '' @ call_id @ '': '' @ detail"
| "display_error dbg (FrontendError frontend detail) = ''frontend error from '' @ frontend @ '': '' @ detail"
| "display_error dbg (SourceError name detail _ _) = ''source error from '' @ name @ '': '' @ detail"
| "display_error dbg (RedactionFailed detail) = ''redaction failed: '' @ detail"
| "display_error dbg (ReplayUnavailable session detail) = ''replay unavailable for '' @ session @ '': '' @ detail"
| "display_error dbg (SnapshotPurged session _ at days) =
     ''snapshot for session '' @ session @ '' was purged by retention policy on '' @ at @ '' (retention: '' @ nat_to_string days @
     '' days). The audit row remains in the manifest; the raw token mappings are not recoverable.''"
| "display_error dbg (ScopeRejected scope) = ''scope rejected: '' @ scope"
| "display_error dbg (ConvertError e) = ''conversion failed: '' @ lower_error_text e"
| "display_error dbg (ProfileEnvMissing env) = ''profile environment variable missing: '' @ env"
| "display_error dbg (SecretKeyringMissing service account) = ''keyring entry not found: service='' @ service @ '' account='' @ account"
| "display_error dbg (SecretKeyringDenied service account) = ''keyring access denied: service='' @ service @ '' account='' @ account"
| "display_error dbg (SecretBackendUnavailable backend detail) = ''secret backend unavailable ('' @ backend @ ''): '' @ detail"
| "display_error dbg (ProfileNotFound label path) = ''profile config not found ('' @ label @ ''): '' @ path"
| "display_error dbg (ProfileError detail) = ''profile error: '' @ detail"
| "display_error dbg (ProfileUnknown profile loaded) = ''profile '' @ ticked profile @ '' not found; loaded: '' @ dbg loaded"
| "display_error dbg (ProfileMismatch profile tool required actual) =
     ''profile '' @ ticked profile @ '' is a '' @ actual @ '' source; tool '' @ ticked tool @ '' requires a '' @ required @ '' profile''"
| "display_error dbg (BatchPartial applied pending target e) =
     ''batch write partial failure on '' @ target @ '': '' @ nat_to_string (length applied) @ '' applied, '' @
     nat_to_string (length pending) @ '' pending, '' @ display_error dbg e"
| "display_error dbg (FeatureDeferred feature) = ''feature deferred: '' @ feature"
| "display_error dbg (OperationTimeout phase operation secs context) =
     ''timeout during '' @ phase @ '' for '' @ operation @ '' after '' @ nat_to_string secs @ ''s'' @
     (case context of Some c \<Rightarrow> '' ('' @ c @ '')'' | None \<Rightarrow> [])"
| "display_error dbg (Truncated reason) = ''output truncated at '' @ truncated_name reason"
| "display_error dbg (InternalError detail) = ''internal error: '' @ detail"

section \<open>Data\<close>

datatype TrustFormat = TextFormat | JsonFormat

datatype ModelCheckMode = FullCheck | DeferredCheck

record CheckArgs =
  ca_profile :: bytes
  ca_explain_risk :: bool
  ca_format :: TrustFormat

text \<open>
  What the two files of profiles hold; \<open>ck_expand\<close> is \<^verbatim>\<open>shellexpand::full\<close>, which reads the environment; permission bits and
  digests for the report; reading, decoding and parsing of a policy file; the report as JSON; then what a check may
  reach, the environment first.
\<close>

type_synonym environment = "bytes \<Rightarrow> bytes option"

record CheckFiles =
  ck_users :: "Profile list"
  ck_projects :: "Profile list"
  ck_expand :: "environment \<Rightarrow> bytes \<Rightarrow> bytes + bytes"
  ck_mode :: "bytes \<Rightarrow> nat option"
  ck_sha256_hex :: "bytes \<Rightarrow> bytes"
  ck_read :: "bytes \<Rightarrow> bytes + bytes"
  ck_utf8_error :: "bytes \<Rightarrow> bytes option"
  ck_toml :: "bytes \<Rightarrow> bytes + Toml"
  ck_policy :: "Toml \<Rightarrow> bytes + PolicyFile"
  ck_gaze :: GazeLib
  ck_pretty :: "TrustReport \<Rightarrow> bytes + bytes"
  ck_dbg :: "bytes list \<Rightarrow> bytes"

record 'w CheckReach =
  cr_env :: environment
  cr_keyring :: "bytes \<Rightarrow> bytes \<Rightarrow> LensError + bytes"
  cr_verify :: "bytes \<Rightarrow> LensError + unit"
  cr_lib :: "'w DbLib"
  cr_ssh :: "bytes list \<Rightarrow> 'w \<Rightarrow> SshRun \<times> 'w"
  cr_lossy :: "bytes \<Rightarrow> bytes"
  cr_open_file :: "bytes \<Rightarrow> 'w \<Rightarrow> (bytes + unit) \<times> 'w"
  cr_socket_addr :: "bytes \<Rightarrow> bool"
  cr_server_name :: "bytes \<Rightarrow> bool"

record ParsedPolicy =
  pp_path :: bytes
  pp_raw_bytes :: bytes
  pp_toml :: Toml

record ValidatedPolicy =
  vp_parsed :: "ParsedPolicy option"
  vp_policy :: PolicyFile

record SecretMetadata =
  sm_backend :: bytes
  sm_identity :: bytes

record ValidatedSecret =
  vs_metadata :: SecretMetadata
  vs_db_password :: "bytes option"

section \<open>Writing\<close>

text \<open>A stream: what was written, and the error of the next write after so many bytes, if there is one.\<close>

record Stream =
  st_text :: bytes
  st_fault :: "nat \<Rightarrow> bytes option"

definition stream_write :: "bytes \<Rightarrow> Stream \<Rightarrow> bytes option \<times> Stream" where
  "stream_write t s = (case st_fault s (length (st_text s)) of Some e \<Rightarrow> (Some e, s) | None \<Rightarrow> (None, s\<lparr>st_text := st_text s @ t\<rparr>))"

type_synonym 'w check_state = "(Stream \<times> Stream) \<times> 'w"

definition write_error :: "bytes \<Rightarrow> LensError" where
  "write_error e = InternalError (''failed to write check output: '' @ e)"

definition write_with :: "(bytes \<Rightarrow> LensError) \<Rightarrow> bytes \<Rightarrow> ('w check_state, unit) effect" where
  "write_with err t x = (case x of ((out, er), w) \<Rightarrow>
     (case stream_write t out of (None, out1) \<Rightarrow> (Some (Inr ()), ((out1, er), w)) | (Some e, out1) \<Rightarrow> (Some (Inl (err e)), ((out1, er), w))))"

definition out_line :: "bytes \<Rightarrow> ('w check_state, unit) effect" where
  "out_line t = write_with write_error (t @ [newline])"

definition err_line :: "bytes \<Rightarrow> ('w check_state, unit) effect" where
  "err_line t x = (case x of ((out, er), w) \<Rightarrow>
     (case stream_write (t @ [newline]) er of
        (None, er1) \<Rightarrow> (Some (Inr ()), ((out, er1), w))
      | (Some e, er1) \<Rightarrow> (Some (Inl (write_error e)), ((out, er1), w))))"

definition write_status_line :: "bool \<Rightarrow> bytes \<Rightarrow> ('w check_state, unit) effect" where
  "write_status_line json_mode t = (if json_mode then err_line t else out_line t)"

fun write_lines :: "bytes list \<Rightarrow> ('w check_state, unit) effect" where
  "write_lines [] = e_of (Inr ())"
| "write_lines (l # ls) = e_bind (out_line l) (\<lambda>_. write_lines ls)"

text \<open>An operation on the world of the sources.\<close>

definition on_sources :: "('w, 'a) effect \<Rightarrow> ('w check_state, 'a) effect" where
  "on_sources m x = (case m (snd x) of (r, w) \<Rightarrow> (r, (fst x, w)))"

section \<open>Policy\<close>

definition check_policy_file :: "CheckFiles \<Rightarrow> Profile \<Rightarrow> PolicyFile \<Rightarrow> LensError + unit" where
  "check_policy_file cf p pf =
     and_then (policy_error (validate_policy_file (ck_gaze cf) pf)) (\<lambda>_.
     and_then (enforce_remote_output_policy p pf) (\<lambda>_.
     policy_error (enforce_production_ner (p_name p) (p_production p) pf)))"

definition parse_failed :: "bytes + 'a \<Rightarrow> LensError + 'a" where
  "parse_failed r = (case r of Inl e \<Rightarrow> Inl (ProfileError (''failed to parse policy: '' @ e)) | Inr x \<Rightarrow> Inr x)"

definition expand_policy_path :: "CheckFiles \<Rightarrow> environment \<Rightarrow> bytes \<Rightarrow> LensError + bytes" where
  "expand_policy_path cf vars path = (case ck_expand cf vars path of Inl e \<Rightarrow> Inl (ProfileError e) | Inr q \<Rightarrow> Inr q)"

definition read_failed :: "bytes \<Rightarrow> bytes + 'a \<Rightarrow> LensError + 'a" where
  "read_failed path r = (case r of Inl e \<Rightarrow> Inl (ProfileError (''failed to read policy '' @ path @ '': '' @ e)) | Inr x \<Rightarrow> Inr x)"

definition load_policy_only :: "CheckFiles \<Rightarrow> environment \<Rightarrow> Profile \<Rightarrow> LensError + ValidatedPolicy" where
  "load_policy_only cf vars p =
     (case p_policy p of
        None \<Rightarrow> and_then (check_policy_file cf p default_policy_file) (\<lambda>_. Inr \<lparr>vp_parsed = None, vp_policy = default_policy_file\<rparr>)
      | Some path0 \<Rightarrow>
          and_then (expand_policy_path cf vars path0) (\<lambda>path.
          and_then (read_failed path (ck_read cf path)) (\<lambda>raw_bytes.
          and_then (parse_failed (case ck_utf8_error cf raw_bytes of Some e \<Rightarrow> Inl e | None \<Rightarrow> Inr ())) (\<lambda>_.
          and_then (parse_failed (ck_toml cf raw_bytes)) (\<lambda>toml.
          and_then (parse_failed (ck_policy cf toml)) (\<lambda>policy.
          and_then (check_policy_file cf p policy) (\<lambda>_.
          Inr \<lparr>vp_parsed = Some \<lparr>pp_path = path, pp_raw_bytes = raw_bytes, pp_toml = toml\<rparr>, vp_policy = policy\<rparr>)))))))"

definition build_pipeline_late :: "GazeLib \<Rightarrow> PolicyFile \<Rightarrow> LensError + Pipeline" where
  "build_pipeline_late gaze pf =
     (case build_pipeline gaze pf of
        Inl e \<Rightarrow> Inl (ProfileError (''failed to build policy pipeline: '' @ policy_error_text e))
      | Inr pl \<Rightarrow> Inr pl)"

definition should_build_pipeline_before_policy_status :: "Profile \<Rightarrow> bool \<Rightarrow> ModelCheckMode \<Rightarrow> bool" where
  "should_build_pipeline_before_policy_status p explain_risk mode \<longleftrightarrow> \<not> p_production p \<and> \<not> explain_risk \<and> mode = FullCheck"

text \<open>The verifier of this version refuses every bundle.\<close>

definition deferred_verifier :: "bytes \<Rightarrow> LensError + unit" where
  "deferred_verifier model_dir =
     Inl (FeatureDeferred ''model bundle verification is deferred until --fetch-model ships with gaze-model-setup'')"

definition provision_hint :: bytes where
  "provision_hint = ''; run '' @ ticked ''gaze-lens init --production --fetch-model'' @
     '' after the gaze-model-setup release or run '' @ ticked ''gaze setup''"

definition verify_model_if_required ::
  "(bytes list \<Rightarrow> bytes) \<Rightarrow> bool \<Rightarrow> Profile \<Rightarrow> PolicyFile \<Rightarrow> (bytes \<Rightarrow> LensError + unit) \<Rightarrow> bool \<Rightarrow> ModelCheckMode \<Rightarrow> ('w check_state, unit) effect" where
  "verify_model_if_required dbg json_mode p pf verify explain_risk mode =
     (if \<not> p_production p then e_of (Inr ())
      else
        (case pf_ner_model_dir pf of
           None \<Rightarrow> e_of (Inr ())
         | Some model_dir \<Rightarrow>
             if explain_risk then write_status_line json_mode ''model: skipped (--explain-risk local-only)''
             else if mode = DeferredCheck
             then write_status_line json_mode (''model: deferred (not installed) - run '' @ ticked ''gaze-lens init --production --fetch-model'' @
               '' after the gaze-model-setup release or run '' @ ticked ''gaze setup'')
             else
               (case verify model_dir of
                  Inr _ \<Rightarrow> out_line (''model: ok ('' @ model_dir @ '')'')
                | Inl e \<Rightarrow>
                    e_bind (err_line (''model: NOT PROVISIONED ('' @ model_dir @ ''): '' @ display_error dbg e @ provision_hint))
                      (\<lambda>_. e_of (Inl (ProfileError (''production NER model is not provisioned at '' @ model_dir @ provision_hint)))))))"

section \<open>The warning of weak detection\<close>

definition should_warn_email_regex_only_redaction :: "Profile \<Rightarrow> PolicyFile \<Rightarrow> bool" where
  "should_warn_email_regex_only_redaction p pf \<longleftrightarrow>
     \<not> (pf_column_rules pf \<noteq> [] \<or> pf_ner_model_dir pf \<noteq> None \<or>
        (case pf_logs pf of Some lp \<Rightarrow> lp_strip_patterns lp \<noteq> [] | None \<Rightarrow> False))"

definition is_log_profile :: "Profile \<Rightarrow> bool" where
  "is_log_profile p = (case p_source p of SshLog _ _ \<Rightarrow> True | LocalLog _ \<Rightarrow> True | RemoteMcpLog _ \<Rightarrow> True | _ \<Rightarrow> False)"

definition detected_span_note :: "bytes \<Rightarrow> bytes" where
  "detected_span_note action =
     (if action = ''preserve'' then
        ''Detected-span action gap: policy.default_action is preserve (the default), so even DETECTED spans, including emails, pass through RAW; set policy.default_action = '' @
        dq ''tokenize'' @ '' or '' @ dq ''redact'' @ '' to fail closed on detected spans.''
      else if action = ''tokenize'' then
        ''Detected-span action: policy.default_action = '' @ dq ''tokenize'' @
        '', so detected spans are tokenized, but undetected PII (for example names without an NER model) still passes RAW.''
      else if action = ''redact'' then
        ''Detected-span action: policy.default_action = '' @ dq ''redact'' @
        '', so detected spans are redacted, but undetected PII (for example names without an NER model) still passes RAW.''
      else
        ''Detected-span action: policy.default_action = '' @ dq action @
        '', so detected spans no longer use the preserve default, but undetected PII (for example names without an NER model) still passes RAW.'')"

definition email_regex_only_redaction_warning :: "Profile \<Rightarrow> PolicyFile \<Rightarrow> bytes" where
  "email_regex_only_redaction_warning p pf =
     (let severity = (if is_log_profile p \<or> p_production p then ''CRITICAL WARNING'' else ''WARNING'');
          context_text = (case (is_log_profile p, p_production p) of
            (True, True) \<Rightarrow> '' for this log production profile'' | (True, False) \<Rightarrow> '' for this log profile''
          | (False, True) \<Rightarrow> '' for this production profile'' | (False, False) \<Rightarrow> [])
      in severity @ '': profile '' @ ticked (p_name p) @ '' uses email-regex-only detection'' @ context_text @
         ''. Detection gap: only email-shaped text is detected; person names and other PII are NOT detected without [ner].model_dir, [policy.database].columns rules, or policy.logs.strip_patterns, so they pass through RAW. '' @
         detected_span_note (unwrap_or (pf_default_action pf) ''preserve''))"

section \<open>Secret and source\<close>

definition spec_metadata :: "SecretSpec \<Rightarrow> SecretMetadata" where
  "spec_metadata s =
     (case s of EnvSecret var \<Rightarrow> \<lparr>sm_backend = ''env'', sm_identity = ''var='' @ var\<rparr>
      | KeyringSecret service account \<Rightarrow> \<lparr>sm_backend = ''keyring'', sm_identity = ''service='' @ service @ '' account='' @ account\<rparr>)"

definition server_metadata :: "bytes option \<times> SecretSpec option \<Rightarrow> SecretMetadata" where
  "server_metadata c =
     (case c of
        (Some env, None) \<Rightarrow> \<lparr>sm_backend = ''env'', sm_identity = ''var='' @ env\<rparr>
      | (None, Some s) \<Rightarrow> spec_metadata s
      | _ \<Rightarrow> \<lparr>sm_backend = ''profile'', sm_identity = ''invalid''\<rparr>)"

definition validate_secret_for_check ::
  "(bytes \<Rightarrow> bytes option) \<Rightarrow> (bytes \<Rightarrow> bytes \<Rightarrow> LensError + bytes) \<Rightarrow> Profile \<Rightarrow> LensError + ValidatedSecret" where
  "validate_secret_for_check env keyring p =
     (case p_source p of
        RemoteMcpLog _ \<Rightarrow> Inr \<lparr>vs_metadata = \<lparr>sm_backend = ''deferred'', sm_identity = ''remote credential checked on connection''\<rparr>, vs_db_password = None\<rparr>
      | MysqlSource d \<Rightarrow> and_then (resolve_password env keyring p)
          (\<lambda>pw. Inr \<lparr>vs_metadata = server_metadata (db_password_env d, db_secret d), vs_db_password = Some pw\<rparr>)
      | PostgresSource d \<Rightarrow> and_then (resolve_password env keyring p)
          (\<lambda>pw. Inr \<lparr>vs_metadata = server_metadata (db_password_env d, db_secret d), vs_db_password = Some pw\<rparr>)
      | _ \<Rightarrow> Inr \<lparr>vs_metadata = \<lparr>sm_backend = ''none'', sm_identity = ''not required''\<rparr>, vs_db_password = None\<rparr>)"

definition secret_error_line :: "LensError \<Rightarrow> bytes" where
  "secret_error_line e =
     (case e of
        SecretKeyringMissing service account \<Rightarrow>
          ''secret: NOT FOUND (keyring service='' @ service @ '' account='' @ account @
          ''); create the entry via your OS keychain or rerun '' @ ticked ''gaze-lens init --secret-backend keyring''
      | SecretKeyringDenied service account \<Rightarrow>
          ''secret: ACCESS DENIED (keyring service='' @ service @ '' account='' @ account @ ''); unlock the OS keychain or approve access, then retry''
      | SecretBackendUnavailable backend _ \<Rightarrow>
          ''secret: BACKEND UNAVAILABLE (backend='' @ backend @
          ''); on Linux start a DBus session with an unlocked Secret Service agent, or fall back to password_env''
      | _ \<Rightarrow> ''secret: ERROR'')"

definition source_error_hint :: "SourceSpec \<Rightarrow> bytes" where
  "source_error_hint s =
     (case s of
        RemoteMcpLog _ \<Rightarrow> ''verify remote endpoint, TLS trust root/name and credential grant''
      | SshLog _ _ \<Rightarrow> ''verify the SSH host is reachable ('' @ ticked ''ssh <host>'' @
          ''), the remote log path exists and is readable, and the host is defined in ~/.ssh/config; rerun '' @ ticked ''gaze-lens init'' @
          '' to reconfigure the log source.''
      | LocalLog _ \<Rightarrow> ''verify the local log path exists and is readable; rerun '' @ ticked ''gaze-lens init'' @ '' to reconfigure the log source.''
      | _ \<Rightarrow> ''If the database host is private, configure source ssh_host/local_port or rerun '' @ ticked ''gaze-lens init'' @
          '' with tunnel settings.'')"

definition render_source_error :: "bytes \<Rightarrow> SourceSpec \<Rightarrow> LensError \<Rightarrow> ('w check_state, unit) effect" where
  "render_source_error name s e =
     (case e of
        SourceError _ _ _ _ \<Rightarrow> err_line (''source failed while connecting/querying profile '' @ ticked name @ ''. '' @ source_error_hint s)
      | _ \<Rightarrow> e_of (Inr ()))"

text \<open>A connection is dropped, with its tunnel, as soon as its tables are listed.\<close>

definition ping_database :: "'w CheckReach \<Rightarrow> Profile \<Rightarrow> LensError + bytes \<Rightarrow> ('w, unit) effect" where
  "ping_database cr p pw =
     e_bind (connect_db_source_with_password (cr_lib cr) p default_db_limit_cap pw) (\<lambda>(a, tunnel) w.
       case adapter_list_tables (cr_lib cr) a w of
         (None, w1) \<Rightarrow> (None, w1)
       | (Some r, w1) \<Rightarrow>
           (Some (and_then r (\<lambda>_. Inr ())), case tunnel of None \<Rightarrow> w1 | Some t \<Rightarrow> snd (tunnel_close (cr_lib cr) t w1)))"

definition validate_source :: "'w CheckReach \<Rightarrow> Profile \<Rightarrow> bytes option \<Rightarrow> ('w, unit) effect" where
  "validate_source cr p db_password =
     (let pw = (case db_password of Some x \<Rightarrow> Inr x | None \<Rightarrow> resolve_password (cr_env cr) (cr_keyring cr) p) in
      case p_source p of
        RemoteMcpLog c \<Rightarrow> e_of (config_validate (cr_socket_addr cr) (cr_server_name cr) c)
      | SshLog host path \<Rightarrow>
          (case ssh_source_new (p_name p) host path default_caps of
             Inl e \<Rightarrow> e_of (Inl e)
           | Inr src \<Rightarrow> e_bind (ssh_tail (cr_lossy cr) (cr_ssh cr) src 1) (\<lambda>_. e_of (Inr ())))
      | LocalLog path \<Rightarrow>
          if path = [] then e_of (Inl (SourceError (p_name p) ''local_log path must not be empty'' None None))
          else (\<lambda>w. case cr_open_file cr path w of
                  (Inl e, w1) \<Rightarrow> (Some (Inl (SourceError (p_name p) (''failed to open local log '' @ path @ '': '' @ e) None None)), w1)
                | (Inr _, w1) \<Rightarrow> (Some (Inr ()), w1))
      | _ \<Rightarrow> ping_database cr p pw)"

section \<open>The command\<close>

definition unused_allowlist :: "Profile \<Rightarrow> bool" where
  "unused_allowlist p \<longleftrightarrow> (case p_schema_allowlist p of Some items \<Rightarrow> items \<noteq> [] | None \<Rightarrow> False) \<and> \<not> unwrap_or (p_schema_tokenize p) False"

definition allowlist_warning :: bytes where
  "allowlist_warning = ''warning: schema_allowlist has no presentation-tokenization effect in raw schema mode; set schema_tokenize = true to use it for schema/list_tables presentation, then restart/reload the MCP server''"

definition default_manifest_path :: bytes where
  "default_manifest_path = ''~/.gaze-lens/manifest.sqlite''"

definition default_snapshot_dir :: bytes where
  "default_snapshot_dir = ''~/.gaze-lens/snapshots''"

text \<open>What the report reads of the machine: its paths are expanded with the environment of the process.\<close>

definition trust_env :: "CheckFiles \<Rightarrow> environment \<Rightarrow> TrustEnv" where
  "trust_env cf vars = \<lparr>te_expand = ck_expand cf vars, te_mode = ck_mode cf, te_sha256_hex = ck_sha256_hex cf\<rparr>"

definition check_report :: "CheckFiles \<Rightarrow> environment \<Rightarrow> Profile \<Rightarrow> ValidatedPolicy \<Rightarrow> TrustReport" where
  "check_report cf vars p vp =
     build_report (trust_env cf vars) p default_manifest_path default_snapshot_dir
       (map_option (\<lambda>pp. (pp_path pp, pp_raw_bytes pp, pp_toml pp)) (vp_parsed vp))"

text \<open>The serializer writes as it goes; its error is that of the report or that of the stream.\<close>

definition write_report :: "CheckFiles \<Rightarrow> TrustFormat \<Rightarrow> TrustReport \<Rightarrow> ('w check_state, unit) effect" where
  "write_report cf format r =
     (case format of
        TextFormat \<Rightarrow>
          (case render_text r of Inl e \<Rightarrow> e_of (Inl e) | Inr ls \<Rightarrow> write_lines ls)
      | JsonFormat \<Rightarrow>
          (case ck_pretty cf r of
             Inl e \<Rightarrow> e_of (Inl (InternalError (''serialize trust report: '' @ e)))
           | Inr t \<Rightarrow> e_bind (write_with (\<lambda>e. InternalError (''serialize trust report: '' @ e)) t) (\<lambda>_. out_line [])))"

definition explain :: "CheckFiles \<Rightarrow> environment \<Rightarrow> TrustFormat \<Rightarrow> Profile \<Rightarrow> ValidatedPolicy \<Rightarrow> ('w check_state, unit) effect" where
  "explain cf vars format p vp =
     (let json_mode = (format = JsonFormat) in
      e_bind (write_status_line json_mode ''secret: skipped (--explain-risk local-only)'') (\<lambda>_.
      e_bind (write_status_line json_mode ''source: skipped (--explain-risk local-only)'') (\<lambda>_.
      e_bind (write_status_line json_mode ''pipeline: skipped (--explain-risk local-only)'') (\<lambda>_.
      write_report cf format (check_report cf vars p vp)))))"

definition e_unit :: "LensError + 'a \<Rightarrow> ('w, unit) effect" where
  "e_unit r = e_of (and_then r (\<lambda>_. Inr ()))"

definition reach_source :: "CheckFiles \<Rightarrow> 'w CheckReach \<Rightarrow> Profile \<Rightarrow> ValidatedPolicy \<Rightarrow> ModelCheckMode \<Rightarrow> bool \<Rightarrow> ('w check_state, unit) effect" where
  "reach_source cf cr p vp mode pipeline_built =
     (case validate_secret_for_check (cr_env cr) (cr_keyring cr) p of
        Inl e \<Rightarrow> e_bind (out_line (secret_error_line e)) (\<lambda>_. e_of (Inl e))
      | Inr vs \<Rightarrow>
          e_bind (out_line (''secret: ok ('' @ sm_backend (vs_metadata vs) @ '' '' @ sm_identity (vs_metadata vs) @ '')'')) (\<lambda>_ x.
          case on_sources (validate_source cr p (vs_db_password vs)) x of
            (None, x1) \<Rightarrow> (None, x1)
          | (Some (Inl e), x1) \<Rightarrow> e_bind (render_source_error (p_name p) (p_source p) e) (\<lambda>_. e_of (Inl e)) x1
          | (Some (Inr _), x1) \<Rightarrow>
              e_bind (out_line ''source: ok'') (\<lambda>_.
              if mode = FullCheck then
                e_bind (if pipeline_built then e_of (Inr ()) else e_unit (build_pipeline_late (ck_gaze cf) (vp_policy vp)))
                  (\<lambda>_. out_line ''pipeline: ok'')
              else e_of (Inr ())) x1))"

definition check_run :: "CheckFiles \<Rightarrow> 'w CheckReach \<Rightarrow> ModelCheckMode \<Rightarrow> CheckArgs \<Rightarrow> ('w check_state, unit) effect" where
  "check_run cf cr mode args =
     (let json_mode = (ca_explain_risk args \<and> ca_format args = JsonFormat) in
      e_bind (e_of (load_profile (ca_profile args) (ck_users cf) (ck_projects cf))) (\<lambda>p.
      e_bind (write_status_line json_mode (''profile: ok ('' @ p_name p @ '')'')) (\<lambda>_.
      e_bind (if unused_allowlist p then write_status_line json_mode allowlist_warning else e_of (Inr ())) (\<lambda>_.
      e_bind (e_of (load_policy_only cf (cr_env cr) p)) (\<lambda>vp.
      let early = should_build_pipeline_before_policy_status p (ca_explain_risk args) mode in
      e_bind (if early then e_unit (build_pipeline_late (ck_gaze cf) (vp_policy vp)) else e_of (Inr ())) (\<lambda>_.
      e_bind (write_status_line json_mode ''policy: ok'') (\<lambda>_.
      e_bind (verify_model_if_required (ck_dbg cf) json_mode p (vp_policy vp) (cr_verify cr) (ca_explain_risk args) mode) (\<lambda>_.
      e_bind (if should_warn_email_regex_only_redaction p (vp_policy vp)
              then write_status_line json_mode (email_regex_only_redaction_warning p (vp_policy vp)) else e_of (Inr ())) (\<lambda>_.
      if ca_explain_risk args then explain cf (cr_env cr) (ca_format args) p vp
      else reach_source cf cr p vp mode early)))))))))"

section \<open>A local report\<close>

text \<open>Two effects that do the same to the streams, whatever the world behind them, which both leave as it is.\<close>

definition alike :: "('w check_state, 'a) effect \<Rightarrow> ('v check_state, 'a) effect \<Rightarrow> bool" where
  "alike m n \<longleftrightarrow> (\<forall>c w v. \<exists>r c1. m (c, w) = (r, (c1, w)) \<and> n (c, v) = (r, (c1, v)))"

named_theorems alike_intros \<open>effects on the streams alone\<close>

lemma alike_e_of [alike_intros]: "alike (e_of r) (e_of r)"
  by (simp add: alike_def e_of_def)

lemma alike_bind [alike_intros]:
  assumes m: "alike m n" and f: "\<And>x. alike (f x) (g x)"
  shows "alike (e_bind m f) (e_bind n g)"
  unfolding alike_def
proof (intro allI)
  fix c w v
  from m obtain r c1 where r: "m (c, w) = (r, (c1, w))" "n (c, v) = (r, (c1, v))" unfolding alike_def by blast
  show "\<exists>r c1. e_bind m f (c, w) = (r, (c1, w)) \<and> e_bind n g (c, v) = (r, (c1, v))"
  proof (cases "\<exists>x. r = Some (Inr x)")
    case True
    then obtain x where x: "r = Some (Inr x)" by blast
    from f [of x] obtain r2 c2 where "f x (c1, w) = (r2, (c2, w))" "g x (c1, v) = (r2, (c2, v))" unfolding alike_def by blast
    with r x show ?thesis by (simp add: e_bind_def)
  next
    case False
    with r show ?thesis by (auto simp: e_bind_def split: option.split sum.split)
  qed
qed

lemma alike_of:
  assumes "s = r" "\<And>x. r = Inr x \<Longrightarrow> alike (f x) (g x)"
  shows "alike (e_bind (e_of r) f) (e_bind (e_of s) g)"
  using assms by (cases r) (auto simp: alike_def e_bind_def e_of_def)

lemma alike_if [alike_intros]: "(b \<Longrightarrow> alike m n) \<Longrightarrow> (\<not> b \<Longrightarrow> alike k l) \<Longrightarrow> alike (if b then m else k) (if b then n else l)"
  by simp

lemma alike_out [alike_intros]: "alike (write_with err t) (write_with err t)" "alike (out_line t) (out_line t)"
  by (auto simp: alike_def out_line_def write_with_def split: option.split prod.split)

lemma alike_err [alike_intros]: "alike (err_line t) (err_line t)"
  by (auto simp: alike_def err_line_def split: option.split prod.split)

lemma alike_status [alike_intros]: "alike (write_status_line j t) (write_status_line j t)"
  by (simp add: write_status_line_def alike_intros)

lemma alike_lines [alike_intros]: "alike (write_lines ls) (write_lines ls)"
  by (induction ls) (simp_all add: alike_intros)

lemma alike_report [alike_intros]: "alike (write_report cf format r) (write_report cf format r)"
  by (cases format) (auto simp: write_report_def intro!: alike_intros split: sum.split)

lemma alike_explain: "check_report cf vars2 p vp = check_report cf vars p vp \<Longrightarrow> alike (explain cf vars format p vp) (explain cf vars2 format p vp)"
  by (auto simp: explain_def Let_def intro!: alike_intros)

lemma alike_model [alike_intros]: "alike (verify_model_if_required d j p pf v True m) (verify_model_if_required d j p pf v2 True m2)"
  by (auto simp: verify_model_if_required_def intro!: alike_intros split: option.split)

text \<open>Effects that write to the second stream only.\<close>

definition keeps_out :: "('w check_state, 'a) effect \<Rightarrow> bool" where
  "keeps_out m \<longleftrightarrow> (\<forall>x. fst (fst (snd (m x))) = fst (fst x))"

named_theorems keeps_intros \<open>effects that leave the first stream\<close>

lemma keeps_e_of [keeps_intros]: "keeps_out (e_of r)"
  by (simp add: keeps_out_def e_of_def)

lemma keeps_bind [keeps_intros]: "keeps_out m \<Longrightarrow> (\<And>y. keeps_out (f y)) \<Longrightarrow> keeps_out (e_bind m f)"
  by (auto simp: keeps_out_def e_bind_def split: prod.split option.split sum.split) (metis fst_conv snd_conv)+

lemma keeps_if [keeps_intros]: "(b \<Longrightarrow> keeps_out m) \<Longrightarrow> (\<not> b \<Longrightarrow> keeps_out n) \<Longrightarrow> keeps_out (if b then m else n)"
  by simp

lemma keeps_status [keeps_intros]: "keeps_out (write_status_line True t)"
  by (auto simp: keeps_out_def write_status_line_def err_line_def split: prod.split option.split)

lemma keeps_model [keeps_intros]: "keeps_out (verify_model_if_required d True p pf v True m)"
  by (auto simp: verify_model_if_required_def intro!: keeps_intros split: option.split)

text \<open>Effects that, when they succeed, add a text with the property to the first stream.\<close>

definition adds :: "(bytes \<Rightarrow> bool) \<Rightarrow> ('w check_state, 'a) effect \<Rightarrow> bool" where
  "adds P m \<longleftrightarrow> (\<forall>x y x1. m x = (Some (Inr y), x1) \<longrightarrow> (\<exists>t. P t \<and> st_text (fst (fst x1)) = st_text (fst (fst x)) @ t))"

lemma adds_after:
  assumes "keeps_out m" "\<And>y x x1. m x = (Some (Inr y), x1) \<Longrightarrow> adds P (f y)"
  shows "adds P (e_bind m f)"
  unfolding adds_def e_bind_Inr
proof (intro allI impI, elim exE conjE)
  fix x z x1 y x2
  assume r: "m x = (Some (Inr y), x2)" "f y x2 = (Some (Inr z), x1)"
  from assms(1) r(1) have "fst (fst x2) = fst (fst x)" unfolding keeps_out_def by (metis snd_conv)
  with assms(2) [OF r(1)] r(2) show "\<exists>t. P t \<and> st_text (fst (fst x1)) = st_text (fst (fst x)) @ t" unfolding adds_def by metis
qed

lemma adds_after_of: "(\<And>y. r = Inr y \<Longrightarrow> adds P (f y)) \<Longrightarrow> adds P (e_bind (e_of r) f)"
  by (rule adds_after) (auto simp: keeps_e_of e_of_Inr)

lemma write_with_Inr: "write_with err t x = (Some (Inr y), x1) \<Longrightarrow> st_text (fst (fst x1)) = st_text (fst (fst x)) @ t"
  by (auto simp: write_with_def stream_write_def split: prod.splits option.splits)

lemma adds_json: "ck_pretty cf r = Inr t \<Longrightarrow> P (t @ [newline]) \<Longrightarrow> adds P (write_report cf JsonFormat r)"
  by (auto simp: adds_def write_report_def e_bind_Inr out_line_def dest!: write_with_Inr)

lemma adds_report:
  assumes "\<And>t. ck_pretty cf r = Inr t \<Longrightarrow> P (t @ [newline])"
  shows "adds P (write_report cf JsonFormat r)"
proof (cases "ck_pretty cf r")
  case (Inl e)
  then show ?thesis by (simp add: adds_def write_report_def e_of_def)
qed (use assms adds_json in blast)

text \<open>What the object on the first stream is.\<close>

definition report_object :: "CheckFiles \<Rightarrow> environment \<Rightarrow> CheckArgs \<Rightarrow> bytes \<Rightarrow> bool" where
  "report_object cf vars args out \<longleftrightarrow>
     (\<exists>p vp t. load_profile (ca_profile args) (ck_users cf) (ck_projects cf) = Inr p \<and> load_policy_only cf vars p = Inr vp \<and>
        ck_pretty cf (check_report cf vars p vp) = Inr t \<and> out = t @ [newline])"

lemma explain_adds:
  assumes "\<And>t. ck_pretty cf (check_report cf vars p vp) = Inr t \<Longrightarrow> P (t @ [newline])"
  shows "adds P (explain cf vars JsonFormat p vp)"
  unfolding explain_def Let_def
  by (simp, intro adds_after keeps_intros adds_report assms)

lemma check_adds_object:
  assumes "ca_explain_risk args" "ca_format args = JsonFormat"
  shows "adds (report_object cf (cr_env cr) args) (check_run cf cr mode args)"
proof -
  have j: "(ca_explain_risk args \<and> ca_format args = JsonFormat) = True" using assms by simp
  show ?thesis
    unfolding check_run_def Let_def j if_P [OF assms(1)] should_build_pipeline_before_policy_status_def
    using assms
    by (intro adds_after_of adds_after keeps_intros) (auto intro!: keeps_intros explain_adds simp: report_object_def)
qed

text \<open>
  The paths that a local run expands: the two of the stores, the policy file of the profile, and that file's
  expanded path, which the report expands once more.
\<close>

definition local_paths :: "CheckFiles \<Rightarrow> environment \<Rightarrow> CheckArgs \<Rightarrow> bytes set" where
  "local_paths cf vars args =
     {default_manifest_path, default_snapshot_dir} \<union>
     {q. \<exists>p path. load_profile (ca_profile args) (ck_users cf) (ck_projects cf) = Inr p \<and> p_policy p = Some path \<and>
        (q = path \<or> ck_expand cf vars path = Inr q)}"

lemma report_expands:
  assumes "\<forall>q\<in>{manifest, snapshots} \<union> (case policy of Some (path, _) \<Rightarrow> {path} | None \<Rightarrow> {}). te_expand env2 q = te_expand env q"
    "te_mode env2 = te_mode env" "te_sha256_hex env2 = te_sha256_hex env"
  shows "build_report env2 p manifest snapshots policy = build_report env p manifest snapshots policy"
  using assms
  by (auto simp: build_report_def recognizer_pack_from_parsed_def collect_at_rest_surface_def inspect_path_def expand_path_lossy_def
      Let_def split: option.splits)

lemma policy_expands:
  assumes "\<forall>path. p_policy p = Some path \<longrightarrow> ck_expand cf vars2 path = ck_expand cf vars path"
  shows "load_policy_only cf vars2 p = load_policy_only cf vars p"
  using assms by (auto simp: load_policy_only_def expand_policy_path_def split: option.split)

lemma policy_path:
  assumes "load_policy_only cf vars p = Inr vp"
  shows "vp_parsed vp = None \<or> (\<exists>path pp. p_policy p = Some path \<and> ck_expand cf vars path = Inr (pp_path pp) \<and> vp_parsed vp = Some pp)"
  using assms by (auto simp: load_policy_only_def expand_policy_path_def and_then_Inr_iff split: option.splits sum.splits)

lemma check_report_expands:
  assumes "load_profile (ca_profile args) (ck_users cf) (ck_projects cf) = Inr p" "load_policy_only cf vars p = Inr vp"
    "\<forall>q\<in>local_paths cf vars args. ck_expand cf vars2 q = ck_expand cf vars q"
  shows "check_report cf vars2 p vp = check_report cf vars p vp"
  unfolding check_report_def
proof (rule report_expands)
  let ?paths = "{default_manifest_path, default_snapshot_dir} \<union>
    (case map_option (\<lambda>pp. (pp_path pp, pp_raw_bytes pp, pp_toml pp)) (vp_parsed vp) of Some (path, _) \<Rightarrow> {path} | None \<Rightarrow> {})"
  have "?paths \<subseteq> local_paths cf vars args"
    using policy_path [OF assms(2)] assms(1) by (auto simp: local_paths_def)
  with assms(3) show "\<forall>q\<in>?paths. te_expand (trust_env cf vars2) q = te_expand (trust_env cf vars) q"
    by (auto simp: trust_env_def)
qed (simp_all add: trust_env_def)

lemma explained_alike:
  fixes cr :: "'w CheckReach" and cr2 :: "'v CheckReach"
  assumes "ca_explain_risk args" "\<forall>q\<in>local_paths cf (cr_env cr) args. ck_expand cf (cr_env cr2) q = ck_expand cf (cr_env cr) q"
  shows "alike (check_run cf cr mode args) (check_run cf cr2 mode2 args)"
  unfolding check_run_def Let_def if_P [OF assms(1)] should_build_pipeline_before_policy_status_def
proof (rule alike_of [OF refl], goal_cases)
  case (1 p)
  have l: "load_policy_only cf (cr_env cr2) p = load_policy_only cf (cr_env cr) p"
    using assms(2) 1 by (intro policy_expands) (auto simp: local_paths_def)
  have r: "check_report cf (cr_env cr2) p vp = check_report cf (cr_env cr) p vp" if "load_policy_only cf (cr_env cr) p = Inr vp" for vp
    using 1 that assms(2) by (rule check_report_expands)
  have e: "alike (explain cf (cr_env cr) format p vp) (explain cf (cr_env cr2) format p vp)"
    if "load_policy_only cf (cr_env cr) p = Inr vp" for vp format using r [OF that] by (rule alike_explain)
  show ?case
    using assms(1) by (intro alike_bind alike_of [OF l]) (auto intro!: alike_intros e)
qed

text \<open>
  C39: \<^verbatim>\<open>--explain-risk\<close> is local. Such a run leaves the world of the sources as it was, and what it prints and
  returns does not depend on it, nor on the keyring, the verifier of models or anything else a check could reach; on the
  environment it depends only through the expansion of the paths of the policy file and of the two stores, so not
  through the secret. With the format JSON a run that succeeds writes one thing to the standard output, the
  serialized report of the loaded profile and its policy.
\<close>

theorem explain_risk_stays_local:
  fixes cr :: "'w CheckReach"
  assumes "ca_explain_risk args"
  shows "\<exists>r c1. check_run cf cr mode args (c, w) = (r, (c1, w)) \<and>
    (\<forall>(cr2 :: 'v CheckReach) mode2 v. (\<forall>q\<in>local_paths cf (cr_env cr) args. ck_expand cf (cr_env cr2) q = ck_expand cf (cr_env cr) q) \<longrightarrow>
       check_run cf cr2 mode2 args (c, v) = (r, (c1, v))) \<and>
    (ca_format args = JsonFormat \<and> r = Some (Inr ()) \<longrightarrow>
       (\<exists>out. report_object cf (cr_env cr) args out \<and> st_text (fst c1) = st_text (fst c) @ out))"
proof -
  have al: "\<exists>r c1. check_run cf cr mode args (c, w) = (r, (c1, w)) \<and> check_run cf cr2 mode2 args (c, v) = (r, (c1, v))"
    if "\<forall>q\<in>local_paths cf (cr_env cr) args. ck_expand cf (cr_env cr2) q = ck_expand cf (cr_env cr) q"
    for cr2 :: "'u CheckReach" and mode2 v using explained_alike [OF assms that, of mode mode2] unfolding alike_def by blast
  from al [of cr mode w] obtain r c1 where r: "check_run cf cr mode args (c, w) = (r, (c1, w))" by blast
  have "check_run cf cr2 mode2 args (c, v) = (r, (c1, v))"
    if "\<forall>q\<in>local_paths cf (cr_env cr) args. ck_expand cf (cr_env cr2) q = ck_expand cf (cr_env cr) q"
    for cr2 :: "'v CheckReach" and mode2 v using explained_alike [OF assms that, of mode mode2] r unfolding alike_def by (metis Pair_inject)
  moreover have "\<exists>out. report_object cf (cr_env cr) args out \<and> st_text (fst c1) = st_text (fst c) @ out"
    if "ca_format args = JsonFormat \<and> r = Some (Inr ())"
    using check_adds_object [OF assms, of cf cr mode] that r unfolding adds_def by fastforce
  ultimately show ?thesis using r by blast
qed

text \<open>A home directory is all that the paths below take from the environment.\<close>

definition demo_expand :: "environment \<Rightarrow> bytes \<Rightarrow> bytes + bytes" where
  "demo_expand vars path =
     (if starts_with path ''~'' then (case vars ''HOME'' of Some home \<Rightarrow> Inr (home @ drop 1 path) | None \<Rightarrow> Inr path) else Inr path)"

definition demo_vars :: "bytes option \<Rightarrow> environment" where
  "demo_vars pw v = (if v = ''HOME'' then Some ''/home/u'' else if v = ''PW'' then pw else None)"

definition demo_log_profile :: Profile where
  "demo_log_profile = (demo_profile Off False)\<lparr>p_source := LocalLog ''/var/log/app.log'', p_policy := Some ''p.toml''\<rparr>"

definition demo_files :: CheckFiles where
  "demo_files = \<lparr>ck_users = [], ck_projects = [demo_log_profile], ck_expand = demo_expand,
     ck_mode = te_mode demo_trust, ck_sha256_hex = te_sha256_hex demo_trust, ck_read = (\<lambda>_. Inr ''[policy.database]''),
     ck_utf8_error = (\<lambda>_. None), ck_toml = (\<lambda>_. Inr demo_toml), ck_policy = (\<lambda>_. Inr demo_policy), ck_gaze = demo_lib,
     ck_pretty = (\<lambda>r. Inr (''{'' @ tr_profile r @ ''}'')), ck_dbg = (\<lambda>_. [])\<rparr>"

definition demo_reach :: "nat CheckReach" where
  "demo_reach = \<lparr>cr_env = (\<lambda>_. None), cr_keyring = (\<lambda>_ _. Inl (InternalError [])), cr_verify = deferred_verifier, cr_lib = demo_db_lib,
     cr_ssh = (\<lambda>_ w. (TimedOut, Suc w)), cr_lossy = (\<lambda>s. s), cr_open_file = (\<lambda>_ w. (Inr (), Suc w)),
     cr_socket_addr = (\<lambda>_. False), cr_server_name = (\<lambda>_. False)\<rparr>"

definition demo_streams :: "Stream \<times> Stream" where
  "demo_streams = (\<lparr>st_text = [], st_fault = (\<lambda>_. None)\<rparr>, \<lparr>st_text = [], st_fault = (\<lambda>_. None)\<rparr>)"

definition demo_check_args :: "bool \<Rightarrow> CheckArgs" where
  "demo_check_args explain_risk = \<lparr>ca_profile = ''db'', ca_explain_risk = explain_risk, ca_format = JsonFormat\<rparr>"

text \<open>A database whose password is set in one environment and missing in another: the report is the same.\<close>

definition demo_db_files :: CheckFiles where
  "demo_db_files = demo_files\<lparr>ck_projects := [(demo_profile Off True)\<lparr>p_policy := Some ''~/p.toml''\<rparr>]\<rparr>"

theorem explain_risk_stays_local_witness:
  "\<exists>c1. check_run demo_db_files (demo_reach\<lparr>cr_env := demo_vars (Some ''pw'')\<rparr>) FullCheck (demo_check_args True) (demo_streams, 7) = (Some (Inr ()), (c1, 7)) \<and>
     check_run demo_db_files (demo_reach\<lparr>cr_env := demo_vars None\<rparr>) DeferredCheck (demo_check_args True) (demo_streams, 8) = (Some (Inr ()), (c1, 8)) \<and>
     (\<exists>out. report_object demo_db_files (demo_vars (Some ''pw'')) (demo_check_args True) out \<and> st_text (fst c1) = out)"
proof -
  let ?one = "demo_reach\<lparr>cr_env := demo_vars (Some ''pw'')\<rparr>" and ?two = "demo_reach\<lparr>cr_env := demo_vars None\<rparr>"
  have e: "ca_explain_risk (demo_check_args True)" "ca_format (demo_check_args True) = JsonFormat" by (simp_all add: demo_check_args_def)
  have r: "fst (check_run demo_db_files ?one FullCheck (demo_check_args True) (demo_streams, 7)) = Some (Inr ())" by code_simp
  have t: "st_text (fst demo_streams) = []" by (simp add: demo_streams_def)
  have same: "\<forall>q\<in>local_paths demo_db_files (cr_env ?one) (demo_check_args True). ck_expand demo_db_files (cr_env ?two) q = ck_expand demo_db_files (cr_env ?one) q"
    by (simp add: demo_db_files_def demo_files_def demo_expand_def demo_vars_def)
  have env: "cr_env ?one = demo_vars (Some ''pw'')" by simp
  from explain_risk_stays_local [OF e(1), of demo_db_files ?one FullCheck demo_streams 7] obtain q c1
    where one: "check_run demo_db_files ?one FullCheck (demo_check_args True) (demo_streams, 7) = (q, (c1, 7))"
      and all: "\<forall>(cr2 :: nat CheckReach) mode2 v.
        (\<forall>q\<in>local_paths demo_db_files (cr_env ?one) (demo_check_args True). ck_expand demo_db_files (cr_env cr2) q = ck_expand demo_db_files (cr_env ?one) q) \<longrightarrow>
        check_run demo_db_files cr2 mode2 (demo_check_args True) (demo_streams, v) = (q, (c1, v))"
      and obj: "ca_format (demo_check_args True) = JsonFormat \<and> q = Some (Inr ()) \<longrightarrow>
        (\<exists>out. report_object demo_db_files (cr_env ?one) (demo_check_args True) out \<and> st_text (fst c1) = st_text (fst demo_streams) @ out)"
    by (elim exE conjE) (rule that, assumption+)
  note q = one all [rule_format, OF same [rule_format]] obj [unfolded env]
  from q(1) r have "q = Some (Inr ())" by simp
  with q e(2) t show ?thesis by auto
qed

section \<open>Agreement with the server\<close>

text \<open>
  How the server reads the file of a policy: as text, from which the record is deserialized at once;
  \<open>from_toml\<close> is that step with the text of its error.
\<close>

definition server_read_policy :: "CheckFiles \<Rightarrow> environment \<Rightarrow> (bytes \<Rightarrow> bytes + PolicyFile) \<Rightarrow> bytes \<Rightarrow> LensError + PolicyFile" where
  "server_read_policy cf vars from_toml path0 =
     and_then (expand_policy_path cf vars path0) (\<lambda>path.
     and_then (read_failed path (and_then (ck_read cf path) (\<lambda>raw.
       case ck_utf8_error cf raw of Some _ \<Rightarrow> Inl ''stream did not contain valid UTF-8'' | None \<Rightarrow> Inr raw))) (\<lambda>input.
     case from_toml input of Inl e \<Rightarrow> Inl (ProfileError e) | Inr pf \<Rightarrow> Inr pf))"

text \<open>A file is deserialized at once exactly when it parses and the value converts, to the same record.\<close>

definition toml_agrees :: "CheckFiles \<Rightarrow> (bytes \<Rightarrow> bytes + PolicyFile) \<Rightarrow> bool" where
  "toml_agrees cf from_toml \<longleftrightarrow> (\<forall>s pf. from_toml s = Inr pf \<longleftrightarrow> (\<exists>t. ck_toml cf s = Inr t \<and> ck_policy cf t = Inr pf))"

lemma read_failed_Inr [simp]: "read_failed path r = Inr x \<longleftrightarrow> r = Inr x"
  by (cases r) (simp_all add: read_failed_def)

lemma parse_failed_Inr [simp]: "parse_failed r = Inr x \<longleftrightarrow> r = Inr x"
  by (cases r) (simp_all add: parse_failed_def)

lemma build_pipeline_late_Inr [simp]: "build_pipeline_late gaze pf = Inr pl \<longleftrightarrow> build_pipeline gaze pf = Inr pl"
  by (simp add: build_pipeline_late_def split: sum.split)

text \<open>Both read the same record.\<close>

lemma policies_read:
  assumes "toml_agrees cf from_toml"
  shows "(\<exists>vp. load_policy_only cf vars p = Inr vp \<and> vp_policy vp = pf) \<longleftrightarrow>
    policy_file_of (server_read_policy cf vars from_toml) p = Inr pf \<and> check_policy_file cf p pf = Inr ()"
proof (cases "p_policy p")
  case None
  then show ?thesis by (auto simp: load_policy_only_def policy_file_of_def and_then_Inr_iff)
next
  case (Some path)
  have ft: "(case from_toml raw of Inl e \<Rightarrow> Inl (ProfileError e) | Inr pf \<Rightarrow> Inr pf) = Inr pf \<longleftrightarrow>
      (\<exists>t. ck_toml cf raw = Inr t \<and> ck_policy cf t = Inr pf)" for raw
    using assms [unfolded toml_agrees_def, rule_format, of raw pf] by (cases "from_toml raw") simp_all
  have "server_read_policy cf vars from_toml path = Inr pf \<longleftrightarrow>
      (\<exists>q raw t. expand_policy_path cf vars path = Inr q \<and> ck_read cf q = Inr raw \<and> ck_utf8_error cf raw = None \<and>
         ck_toml cf raw = Inr t \<and> ck_policy cf t = Inr pf)"
    unfolding server_read_policy_def and_then_Inr_iff ft read_failed_Inr by (auto split: option.splits)
  moreover have "(\<exists>vp. load_policy_only cf vars p = Inr vp \<and> vp_policy vp = pf) \<longleftrightarrow>
      (\<exists>q raw t. expand_policy_path cf vars path = Inr q \<and> ck_read cf q = Inr raw \<and> ck_utf8_error cf raw = None \<and>
         ck_toml cf raw = Inr t \<and> ck_policy cf t = Inr pf) \<and> check_policy_file cf p pf = Inr ()"
    (is "?l \<longleftrightarrow> ?r")
  proof
    assume ?l
    with Some show ?r by (auto simp: load_policy_only_def and_then_Inr_iff split: option.splits)
  next
    assume ?r
    then obtain q raw t where r: "expand_policy_path cf vars path = Inr q" "ck_read cf q = Inr raw" "ck_utf8_error cf raw = None"
      "ck_toml cf raw = Inr t" "ck_policy cf t = Inr pf" "check_policy_file cf p pf = Inr ()" by blast
    with Some have "load_policy_only cf vars p =
        Inr \<lparr>vp_parsed = Some \<lparr>pp_path = q, pp_raw_bytes = raw, pp_toml = t\<rparr>, vp_policy = pf\<rparr>"
      by (simp add: load_policy_only_def read_failed_def parse_failed_def)
    then show ?l by simp
  qed
  ultimately show ?thesis using Some by (simp add: policy_file_of_def)
qed

lemma validated_when_built:
  assumes "build_pipeline lib pf = Inr pl"
  shows "validate_policy_file lib pf = Inr () \<longleftrightarrow> to_gaze_policy pf = Inr () \<and> (\<exists>m. column_actions Map.empty (pf_column_rules pf) = Inr m)"
proof -
  from assms obtain a lr where "default_action pf = Inr a" "logs_part lib pf = Inr lr" by (auto simp: build_pipeline_ok)
  then show ?thesis
    by (auto simp: validate_policy_file_def logs_part_def and_then_Inr_iff split: option.splits if_splits)
qed

lemma check_agrees:
  assumes "toml_agrees cf from_toml"
  shows "(\<exists>rt. runtime_policy (ck_gaze cf) (server_read_policy cf vars from_toml) p = Inr rt) \<longleftrightarrow>
    (\<exists>vp pl. load_policy_only cf vars p = Inr vp \<and> build_pipeline_late (ck_gaze cf) (vp_policy vp) = Inr pl)"
proof -
  define mandates where "mandates pf \<longleftrightarrow>
    enforce_remote_output_policy p pf = Inr () \<and> enforce_production_ner (p_name p) (p_production p) pf = Inr ()" for pf
  have check: "check_policy_file cf p pf = Inr () \<longleftrightarrow> validate_policy_file (ck_gaze cf) pf = Inr () \<and> mandates pf" for pf
    by (simp add: check_policy_file_def mandates_def and_then_Inr_iff)
  have "(\<exists>rt. runtime_policy (ck_gaze cf) (server_read_policy cf vars from_toml) p = Inr rt) \<longleftrightarrow>
      (\<exists>pf pl. policy_file_of (server_read_policy cf vars from_toml) p = Inr pf \<and> mandates pf \<and> to_gaze_policy pf = Inr () \<and>
         build_pipeline (ck_gaze cf) pf = Inr pl \<and> (\<exists>m. column_actions Map.empty (pf_column_rules pf) = Inr m))"
    by (auto simp: runtime_policy_def mandates_def and_then_Inr_iff)
  also have "\<dots> \<longleftrightarrow> (\<exists>pf pl. policy_file_of (server_read_policy cf vars from_toml) p = Inr pf \<and> check_policy_file cf p pf = Inr () \<and>
         build_pipeline (ck_gaze cf) pf = Inr pl)"
    unfolding check using validated_when_built [of "ck_gaze cf"] by (intro ex_cong1) metis
  also have "\<dots> \<longleftrightarrow> (\<exists>vp pl. load_policy_only cf vars p = Inr vp \<and> build_pipeline_late (ck_gaze cf) (vp_policy vp) = Inr pl)"
  proof
    assume "\<exists>pf pl. policy_file_of (server_read_policy cf vars from_toml) p = Inr pf \<and> check_policy_file cf p pf = Inr () \<and>
      build_pipeline (ck_gaze cf) pf = Inr pl"
    then obtain pf pl where pf: "policy_file_of (server_read_policy cf vars from_toml) p = Inr pf \<and> check_policy_file cf p pf = Inr ()"
      and pl: "build_pipeline (ck_gaze cf) pf = Inr pl" by blast
    from policies_read [OF assms, THEN iffD2, OF pf] obtain vp where "load_policy_only cf vars p = Inr vp" "vp_policy vp = pf" by blast
    with pl show "\<exists>vp pl. load_policy_only cf vars p = Inr vp \<and> build_pipeline_late (ck_gaze cf) (vp_policy vp) = Inr pl" by auto
  next
    assume "\<exists>vp pl. load_policy_only cf vars p = Inr vp \<and> build_pipeline_late (ck_gaze cf) (vp_policy vp) = Inr pl"
    then obtain vp pl where vp: "load_policy_only cf vars p = Inr vp" and pl: "build_pipeline (ck_gaze cf) (vp_policy vp) = Inr pl" by auto
    from vp have "\<exists>v. load_policy_only cf vars p = Inr v \<and> vp_policy v = vp_policy vp" by blast
    from policies_read [OF assms, THEN iffD1, OF this] pl
    show "\<exists>pf pl. policy_file_of (server_read_policy cf vars from_toml) p = Inr pf \<and> check_policy_file cf p pf = Inr () \<and>
      build_pipeline (ck_gaze cf) pf = Inr pl" by blast
  qed
  finally show ?thesis .
qed

lemma reach_source_Inr:
  assumes "reach_source cf cr p vp FullCheck built (c, w) = (Some (Inr ()), x1)"
  shows "(\<exists>vs. validate_secret_for_check (cr_env cr) (cr_keyring cr) p = Inr vs \<and> fst (validate_source cr p (vs_db_password vs) w) = Some (Inr ())) \<and>
    (built \<or> (\<exists>pl. build_pipeline_late (ck_gaze cf) (vp_policy vp) = Inr pl))"
proof -
  from assms obtain vs where vs: "validate_secret_for_check (cr_env cr) (cr_keyring cr) p = Inr vs"
    by (cases "validate_secret_for_check (cr_env cr) (cr_keyring cr) p") (auto simp: reach_source_def e_bind_Inr e_of_Inr)
  from assms obtain x2 u where line: "out_line (''secret: ok ('' @ sm_backend (vs_metadata vs) @ '' '' @ sm_identity (vs_metadata vs) @ '')'') (c, w) = (Some (Inr u), x2)"
    and run: "(case on_sources (validate_source cr p (vs_db_password vs)) x2 of
        (None, x1) \<Rightarrow> (None, x1)
      | (Some (Inl e), x1) \<Rightarrow> e_bind (render_source_error (p_name p) (p_source p) e) (\<lambda>_. e_of (Inl e)) x1
      | (Some (Inr _), x1) \<Rightarrow>
          e_bind (out_line ''source: ok'') (\<lambda>_. e_bind (if built then e_of (Inr ()) else e_unit (build_pipeline_late (ck_gaze cf) (vp_policy vp)))
            (\<lambda>_. out_line ''pipeline: ok'')) x1) = (Some (Inr ()), x1)"
    unfolding reach_source_def vs sum.case e_bind_Inr if_P [OF refl] by blast
  have w: "snd x2 = w" using line by (auto simp: out_line_def write_with_def split: prod.splits option.splits)
  from run obtain x3 where x3: "on_sources (validate_source cr p (vs_db_password vs)) x2 = (Some (Inr ()), x3)"
    and rest: "e_bind (out_line ''source: ok'') (\<lambda>_. e_bind (if built then e_of (Inr ())
        else e_unit (build_pipeline_late (ck_gaze cf) (vp_policy vp))) (\<lambda>_. out_line ''pipeline: ok'')) x3 = (Some (Inr ()), x1)"
    by (cases "on_sources (validate_source cr p (vs_db_password vs)) x2")
      (auto simp: e_bind_Inr e_of_Inr split: option.splits sum.splits)
  from rest have "built \<or> (\<exists>pl. build_pipeline_late (ck_gaze cf) (vp_policy vp) = Inr pl)"
    by (auto simp: e_bind_Inr e_of_Inr e_unit_def and_then_Inr_iff split: if_splits)
  moreover have "fst (validate_source cr p (vs_db_password vs) w) = Some (Inr ())"
    using x3 w by (auto simp: on_sources_def split: prod.splits)
  ultimately show ?thesis using vs by blast
qed

text \<open>What comes before the source leaves its world alone.\<close>

lemma alike_world: "alike m m \<Longrightarrow> \<forall>x r x1. m x = (r, x1) \<longrightarrow> snd x1 = snd x"
  unfolding alike_def by (metis Pair_inject prod.collapse)

lemma alike_full_model: "alike (verify_model_if_required d j p pf v False FullCheck) (verify_model_if_required d j p pf v False FullCheck)"
  by (auto simp: verify_model_if_required_def intro!: alike_intros split: option.split sum.split)

lemma alike_unit [alike_intros]: "alike (e_unit r) (e_unit r)"
  by (simp add: e_unit_def alike_intros)

lemma model_verified:
  assumes "verify_model_if_required d j p pf verify False FullCheck x = (Some (Inr ()), x1)" "p_production p" "pf_ner_model_dir pf = Some dir"
  shows "verify dir = Inr ()"
  using assms by (auto simp: verify_model_if_required_def e_bind_Inr e_of_Inr split: sum.splits)

lemma loaded_policy_has_model:
  "load_policy_only cf vars p = Inr vp \<Longrightarrow> p_production p \<Longrightarrow> \<exists>dir. pf_ner_model_dir (vp_policy vp) = Some dir"
  by (auto simp: load_policy_only_def check_policy_file_def enforce_production_ner_def and_then_Inr_iff split: option.splits if_splits)

lemma secret_looked_up:
  assumes "validate_secret_for_check vars keyring p = Inr vs" "credentials (p_source p) \<noteq> None"
  shows "\<exists>pw. resolve_password vars keyring p = Inr pw \<and> vs_db_password vs = Some pw"
  using assms by (auto simp: validate_secret_for_check_def credentials_def and_then_Inr_iff split: SourceSpec.splits)

lemma no_database_password:
  assumes "validate_secret_for_check vars keyring p = Inr vs" "credentials (p_source p) = None"
  shows "vs_db_password vs = None"
  using assms by (auto simp: validate_secret_for_check_def credentials_def split: SourceSpec.splits)

text \<open>The secret that a full check has found and the model it has verified: those of the profile and of its policy.\<close>

definition secret_used :: "'w CheckReach \<Rightarrow> Profile \<Rightarrow> 'w \<Rightarrow> bool" where
  "secret_used cr p w \<longleftrightarrow>
     (if credentials (p_source p) = None then fst (validate_source cr p None w) = Some (Inr ())
      else \<exists>pw. resolve_password (cr_env cr) (cr_keyring cr) p = Inr pw \<and> fst (ping_database cr p (Inr pw) w) = Some (Inr ()))"

definition model_accepted :: "'w CheckReach \<Rightarrow> Profile \<Rightarrow> PolicyFile \<Rightarrow> bool" where
  "model_accepted cr p pf \<longleftrightarrow> (p_production p \<longrightarrow> (\<exists>dir. pf_ner_model_dir pf = Some dir \<and> cr_verify cr dir = Inr ()))"

lemma secret_usedI:
  assumes "validate_secret_for_check (cr_env cr) (cr_keyring cr) p = Inr vs" "fst (validate_source cr p (vs_db_password vs) w) = Some (Inr ())"
  shows "secret_used cr p w"
proof (cases "credentials (p_source p)")
  case None
  with assms no_database_password [OF assms(1)] show ?thesis by (simp add: secret_used_def)
next
  case (Some c)
  then obtain pw where pw: "resolve_password (cr_env cr) (cr_keyring cr) p = Inr pw" "vs_db_password vs = Some pw"
    using secret_looked_up [OF assms(1)] by auto
  have "validate_source cr p (Some pw) w = ping_database cr p (Inr pw) w"
    using Some by (auto simp: validate_source_def credentials_def split: SourceSpec.splits)
  with Some pw assms(2) show ?thesis by (auto simp: secret_used_def)
qed

lemma full_check_passes:
  fixes cr :: "'w CheckReach"
  assumes "\<not> ca_explain_risk args" "check_run cf cr FullCheck args x = (Some (Inr ()), x1)"
  shows "\<exists>p vp pl. load_profile (ca_profile args) (ck_users cf) (ck_projects cf) = Inr p \<and> load_policy_only cf (cr_env cr) p = Inr vp \<and>
    build_pipeline_late (ck_gaze cf) (vp_policy vp) = Inr pl \<and> secret_used cr p (snd x) \<and> model_accepted cr p (vp_policy vp)"
proof -
  have j: "(ca_explain_risk args \<and> ca_format args = JsonFormat) = False" "ca_explain_risk args = False" using assms(1) by simp_all
  from assms(2) obtain p vp u1 u2 u3 u4 u5 u6 and x2 x3 x4 x5 x6 x7 :: "'w check_state" where
      p: "load_profile (ca_profile args) (ck_users cf) (ck_projects cf) = Inr p" and vp: "load_policy_only cf (cr_env cr) p = Inr vp" and
      s1: "write_status_line False (''profile: ok ('' @ p_name p @ '')'') x = (Some (Inr u1), x2)" and
      s2: "(if unused_allowlist p then write_status_line False allowlist_warning else e_of (Inr ())) x2 = (Some (Inr u2), x3)" and
      early: "(if \<not> p_production p then e_unit (build_pipeline_late (ck_gaze cf) (vp_policy vp)) else e_of (Inr ())) x3 = (Some (Inr u3), x4)" and
      s4: "write_status_line False ''policy: ok'' x4 = (Some (Inr u4), x5)" and
      model: "verify_model_if_required (ck_dbg cf) False p (vp_policy vp) (cr_verify cr) False FullCheck x5 = (Some (Inr u5), x6)" and
      s6: "(if should_warn_email_regex_only_redaction p (vp_policy vp)
              then write_status_line False (email_regex_only_redaction_warning p (vp_policy vp)) else e_of (Inr ())) x6 = (Some (Inr u6), x7)" and
      source: "reach_source cf cr p vp FullCheck (\<not> p_production p) x7 = (Some (Inr ()), x1)"
    unfolding check_run_def j Let_def should_build_pipeline_before_policy_status_def e_bind_Inr e_of_Inr if_False simp_thms
    by (elim exE conjE, hypsubst_thin) (rule that, assumption+)
  have "snd x2 = snd x" using alike_world [OF alike_status] s1 by blast
  moreover have "snd x3 = snd x2" using alike_world [OF alike_if [OF alike_status alike_e_of]] s2 by blast
  moreover have "snd x4 = snd x3" using alike_world [OF alike_if [OF alike_unit alike_e_of]] early by blast
  moreover have "snd x5 = snd x4" using alike_world [OF alike_status] s4 by blast
  moreover have "snd x6 = snd x5" using alike_world [OF alike_full_model] model by blast
  moreover have "snd x7 = snd x6" using alike_world [OF alike_if [OF alike_status alike_e_of]] s6 by blast
  ultimately obtain c where world: "x7 = (c, snd x)" by (metis prod.collapse)
  from model have model1: "verify_model_if_required (ck_dbg cf) False p (vp_policy vp) (cr_verify cr) False FullCheck x5 = (Some (Inr ()), x6)" by simp
  note reached = reach_source_Inr [OF source [unfolded world]]
  then have used: "secret_used cr p (snd x)" by (blast intro: secret_usedI)
  have "\<exists>pl. build_pipeline_late (ck_gaze cf) (vp_policy vp) = Inr pl"
    using early reached by (auto simp: e_unit_def e_of_Inr and_then_Inr_iff split: if_splits)
  moreover have "model_accepted cr p (vp_policy vp)"
    using loaded_policy_has_model [OF vp] model_verified [OF model1] unfolding model_accepted_def by blast
  ultimately show ?thesis using p vp used by blast
qed

text \<open>
  C38: the check and the server accept the same policies. When the two ways of reading TOML agree, the server has
  a policy for a profile exactly when the check loads the policy of the profile and its pipeline builds. So when a
  full check passes, the server will not refuse the profile for its policy; besides, the password of a MySQL or PostgreSQL
  profile was found and the database listed its tables under it, any other source was validated (the token of a remote log is not looked up: its
  check is deferred to the connection), and for a production profile the verifier accepted the model directory that its
  own policy names.
\<close>

theorem check_agrees_with_server:
  assumes "toml_agrees cf from_toml"
  shows "((\<exists>rt. runtime_policy (ck_gaze cf) (server_read_policy cf vars from_toml) p = Inr rt) \<longleftrightarrow>
      (\<exists>vp pl. load_policy_only cf vars p = Inr vp \<and> build_pipeline_late (ck_gaze cf) (vp_policy vp) = Inr pl)) \<and>
    (\<not> ca_explain_risk args \<and> check_run cf cr FullCheck args x = (Some (Inr ()), x1) \<longrightarrow>
      (\<exists>q pf rt. load_profile (ca_profile args) (ck_users cf) (ck_projects cf) = Inr q \<and>
         policy_file_of (server_read_policy cf (cr_env cr) from_toml) q = Inr pf \<and>
         runtime_policy (ck_gaze cf) (server_read_policy cf (cr_env cr) from_toml) q = Inr rt \<and>
         (credentials (p_source q) = None \<longrightarrow> fst (validate_source cr q None (snd x)) = Some (Inr ())) \<and>
         (credentials (p_source q) \<noteq> None \<longrightarrow>
            (\<exists>pw. resolve_password (cr_env cr) (cr_keyring cr) q = Inr pw \<and> fst (ping_database cr q (Inr pw) (snd x)) = Some (Inr ()))) \<and>
         (p_production q \<longrightarrow> (\<exists>dir. pf_ner_model_dir pf = Some dir \<and> cr_verify cr dir = Inr ()))))"
proof (intro conjI impI)
  assume "\<not> ca_explain_risk args \<and> check_run cf cr FullCheck args x = (Some (Inr ()), x1)"
  then obtain q vp pl where q: "load_profile (ca_profile args) (ck_users cf) (ck_projects cf) = Inr q"
      and policy: "load_policy_only cf (cr_env cr) q = Inr vp" "build_pipeline_late (ck_gaze cf) (vp_policy vp) = Inr pl"
      and used: "secret_used cr q (snd x)" and model: "model_accepted cr q (vp_policy vp)"
    using full_check_passes by metis
  from policy obtain rt where rt: "runtime_policy (ck_gaze cf) (server_read_policy cf (cr_env cr) from_toml) q = Inr rt"
    using check_agrees [OF assms, of "cr_env cr" q] by blast
  have "policy_file_of (server_read_policy cf (cr_env cr) from_toml) q = Inr (vp_policy vp)"
    using policies_read [OF assms, of "cr_env cr" q "vp_policy vp"] policy(1) by blast
  with q rt used model show "\<exists>q pf rt. load_profile (ca_profile args) (ck_users cf) (ck_projects cf) = Inr q \<and>
      policy_file_of (server_read_policy cf (cr_env cr) from_toml) q = Inr pf \<and>
      runtime_policy (ck_gaze cf) (server_read_policy cf (cr_env cr) from_toml) q = Inr rt \<and>
      (credentials (p_source q) = None \<longrightarrow> fst (validate_source cr q None (snd x)) = Some (Inr ())) \<and>
      (credentials (p_source q) \<noteq> None \<longrightarrow>
         (\<exists>pw. resolve_password (cr_env cr) (cr_keyring cr) q = Inr pw \<and> fst (ping_database cr q (Inr pw) (snd x)) = Some (Inr ()))) \<and>
      (p_production q \<longrightarrow> (\<exists>dir. pf_ner_model_dir pf = Some dir \<and> cr_verify cr dir = Inr ()))"
    unfolding secret_used_def model_accepted_def by (intro exI [of _ q] exI [of _ "vp_policy vp"] exI [of _ rt]) simp
qed (rule check_agrees [OF assms])

text \<open>A production database: the password is found, the database lists its tables, and the verifier accepts the directory \<open>m\<close> alone.\<close>

definition demo_accepting :: "nat CheckReach" where
  "demo_accepting = demo_reach\<lparr>cr_env := demo_vars (Some ''pw''), cr_verify := (\<lambda>dir. if dir = ''m'' then Inr () else Inl (InternalError [])),
     cr_lib := demo_db_lib\<lparr>dl_execute := (\<lambda>_ w. (Some (Inr ()), w + 1))\<rparr>\<rparr>"

theorem check_agrees_with_server_witness:
  "\<exists>q pf rt. load_profile ''db'' [] [(demo_profile Off True)\<lparr>p_policy := Some ''~/p.toml''\<rparr>] = Inr q \<and>
     policy_file_of (server_read_policy demo_db_files (demo_vars (Some ''pw'')) (\<lambda>_. Inr demo_policy)) q = Inr pf \<and>
     runtime_policy demo_lib (server_read_policy demo_db_files (demo_vars (Some ''pw'')) (\<lambda>_. Inr demo_policy)) q = Inr rt \<and>
     (\<exists>pw. resolve_password (demo_vars (Some ''pw'')) (cr_keyring demo_accepting) q = Inr pw \<and> fst (ping_database demo_accepting q (Inr pw) 7) = Some (Inr ())) \<and>
     pf_ner_model_dir pf = Some ''m''"
proof -
  have a: "toml_agrees demo_db_files (\<lambda>_. Inr demo_policy)" by (auto simp: toml_agrees_def demo_db_files_def demo_files_def)
  have e: "\<not> ca_explain_risk (demo_check_args False)" by (simp add: demo_check_args_def)
  let ?q = "(demo_profile Off True)\<lparr>p_policy := Some ''~/p.toml''\<rparr>"
  have p: "load_profile ''db'' [] [?q] = Inr ?q" by code_simp
  have f: "ca_profile (demo_check_args False) = ''db''" "ck_users demo_db_files = []" "ck_projects demo_db_files = [?q]"
    "ck_gaze demo_db_files = demo_lib" "cr_env demo_accepting = demo_vars (Some ''pw'')"
    by (simp_all add: demo_check_args_def demo_db_files_def demo_files_def demo_accepting_def)
  have "fst (check_run demo_db_files demo_accepting FullCheck (demo_check_args False) (demo_streams, 7)) = Some (Inr ())" by code_simp
  then obtain x1 where x1: "check_run demo_db_files demo_accepting FullCheck (demo_check_args False) (demo_streams, 7) = (Some (Inr ()), x1)"
    by (metis prod.collapse)
  have k: "credentials (p_source ?q) \<noteq> None" "p_production ?q" by (simp_all add: demo_profile_def credentials_def)
  have only: "dir = ''m''" if "cr_verify demo_accepting dir = Inr ()" for dir using that by (auto simp: demo_accepting_def split: if_splits)
  from check_agrees_with_server [OF a, THEN conjunct2, of "demo_check_args False" demo_accepting "(demo_streams, 7)" x1] e x1
  show ?thesis unfolding f p snd_conv using k only by auto
qed

text \<open>The verifier of this version lets no production profile pass.\<close>

lemma production_never_passes:
  assumes "\<not> ca_explain_risk args" "load_profile (ca_profile args) (ck_users cf) (ck_projects cf) = Inr p" "p_production p"
  shows "check_run cf (cr\<lparr>cr_verify := deferred_verifier\<rparr>) FullCheck args x \<noteq> (Some (Inr ()), x1)"
  using full_check_passes [of args cf "cr\<lparr>cr_verify := deferred_verifier\<rparr>" x x1] assms by (auto simp: deferred_verifier_def model_accepted_def)

section \<open>What the warnings and errors say\<close>

text \<open>The warning is due exactly when the pipeline detects nothing but mail addresses and has no rule but the default.\<close>

lemma warning_describes_pipeline:
  assumes "build_pipeline lib pf = Inr pl"
  shows "should_warn_email_regex_only_redaction p pf \<longleftrightarrow> pl_detectors pl = [EmailDetector] \<and> length (pl_rules pl) = 1"
proof -
  from assms obtain ner rules strips strip_rules a where parts: "ner_detector lib pf = Inr ner" "column_rules (pf_column_rules pf) = Inr rules"
      "logs_part lib pf = Inr (strips, strip_rules)" "pl = \<lparr>pl_detectors = EmailDetector # ner @ strips, pl_rules = rules @ strip_rules @ [DefaultRuleOf a]\<rparr>"
    by (auto simp: build_pipeline_ok)
  have "ner = [] \<longleftrightarrow> pf_ner_model_dir pf = None" using parts(1) by (auto simp: ner_detector_def split: option.splits)
  moreover have "rules = [] \<longleftrightarrow> pf_column_rules pf = []"
    using parts(2) by (cases "pf_column_rules pf") (auto simp: and_then_Inr_iff)
  moreover have "strips = [] \<and> strip_rules = [] \<longleftrightarrow> (case pf_logs pf of Some lp \<Rightarrow> lp_strip_patterns lp = [] | None \<Rightarrow> True)"
    using parts(3) by (auto simp: logs_part_def and_then_Inr_iff split: option.splits if_splits)
  ultimately show ?thesis using parts(4) by (auto simp: should_warn_email_regex_only_redaction_def split: option.splits)
qed

text \<open>A missing variable of the environment is reported without a reason, and a check of an ssh log does read the log.\<close>

lemma missing_variable_line: "secret_error_line (ProfileEnvMissing v) = ''secret: ERROR''"
  by (simp add: secret_error_line_def)

lemma ssh_check_reads_log:
  assumes "p_source p = SshLog host path" "ssh_source_new (p_name p) host path default_caps = Inr src"
  shows "\<exists>argv. tail_argv host path 1 = Some argv \<and> snd (validate_source cr p pw w) = snd (cr_ssh cr argv w)"
  using assms tail_runs_once [OF assms(2), of 1 "cr_lossy cr" "cr_ssh cr" "''log_tail''" w]
  by (auto simp: validate_source_def ssh_tail_def e_bind_def e_of_def Let_def split: sum.split)

end
