(* ===== verification/Spec2Isabelle.thy ===== *)
theory Spec2Isabelle
  imports
    Wire_Sequence Server_Service
    Sql_Compile Schema_Tokenizer
    Policy Maintenance Watchdog
    Log_Windows Keyword_Search
    Remote_Service Session_Restore Serve_Startup Mcp_Frontend Init_Commit Check_Command
begin

text \<open>
  Verification library of gaze-lens.

  gaze-lens lets an agent read databases and logs through a client that redacts what it returns; a
  private server offers the same reads over a small wire protocol. The development models the three
  parts bottom up.

  \<^item> The protocol crate, \<^verbatim>\<open>crates/gaze-lens-protocol\<close>. \<open>Protocol_Bounds\<close> has the caps, the error
    enumeration and the one-frame accumulator; \<open>Json_Scanner\<close> the byte scanner that admits a message
    and \<open>Json_Grammar\<close> the grammar it decides; \<open>Decimal_Text\<close>, \<open>Wire_Value\<close> and \<open>Wire_Decimal\<close> the tagged
    values, dates and decimals; \<open>Wire_Query\<close>, \<open>Wire_Results\<close> the request and result bodies;
    \<open>Wire_Sequence\<close> the frames and the connection's order of messages.

  \<^item> The server crate, \<^verbatim>\<open>crates/gaze-lens-server\<close>. \<open>Server_Auth\<close> is \<^verbatim>\<open>auth.rs\<close> and the private-file reader of
    \<^verbatim>\<open>private.rs\<close>; \<open>Server_History\<close> the enrolment ledger of \<^verbatim>\<open>history.rs\<close>; \<open>Server_Service\<close> the accept loop,
    the permits, a connection and a call of \<^verbatim>\<open>service.rs\<close>.

  \<^item> The client's core, \<^verbatim>\<open>src/\<close>. \<open>Lens_Errors\<close> is \<^verbatim>\<open>errors.rs\<close>: the error type, its sanitised texts, the scrubbing of
    URLs. \<open>Json_Value\<close> has JSON values and the outputs built of them. \<open>Lens_Value\<close> is \<^verbatim>\<open>value.rs\<close>: the values of
    a row and their redaction, over the record \<open>Gaze\<close> of the gaze library's operations, which thread its
    token state. \<open>Session_Redact\<close>, \<open>Session_Dispatch\<close> are \<^verbatim>\<open>session/mod.rs\<close>: the caps and redaction of what a source
    returns; the registries, the profile of a call, lazy sources and \<^verbatim>\<open>invoke_core_tool\<close>. \<open>Session_Manifest\<close> is
    \<^verbatim>\<open>session/manifest.rs\<close> with the adapter of \<^verbatim>\<open>manifest/gaze_mcp_adapter.rs\<close>, \<open>Maintenance\<close> the retention sweep of
    \<^verbatim>\<open>session/maintenance.rs\<close>, \<open>Session_Restore\<close> the replay of \<^verbatim>\<open>session/restore.rs\<close>; the three share one table of
    calls.

  \<^item> The client's configuration and sources. \<open>Profiles\<close> is the merge of \<^verbatim>\<open>profile.rs\<close>; \<open>Policy\<close> is \<^verbatim>\<open>policy.rs\<close>;
    \<open>Sql_Compile\<close> the query compiler of \<^verbatim>\<open>source/db/query.rs\<close>; \<open>Schema_Tokenizer\<close> is \<^verbatim>\<open>source/db/schema.rs\<close>; \<open>Ssh_Command\<close>
    the validators and argument builders of \<^verbatim>\<open>source/ssh_tunnel.rs\<close>; \<open>Log_Sources\<close> and \<open>Log_Windows\<close> the two log
    sources with their window caches; \<open>Keyword_Terms\<close> and \<open>Keyword_Search\<close> the keyword mode of the tool
    \<^verbatim>\<open>log_grep\<close>; \<open>Watchdog\<close> the deadline supervisor of \<^verbatim>\<open>source/remote/watchdog.rs\<close>; \<open>Remote_Wire\<close> and \<open>Remote_Service\<close>
    the remote log service of \<^verbatim>\<open>source/remote\<close>, both ends of a connection and their agreement.
    \<open>Db_Adapters\<close> has the three adapters of \<^verbatim>\<open>source/db\<close>: listing, schemas, queries and the decoding of cells;
    \<open>Db_Source\<close> the wrapper of \<^verbatim>\<open>source/mod.rs\<close> and the connection of \<^verbatim>\<open>source/db/runtime.rs\<close> with its tunnel;
    \<open>Db_Guarantees\<close> what a call and a connection do to the database, read off a library that logs what it is asked.

  \<^item> The edges of the client. \<open>Mcp_Frontend\<close> is the way of a call from the agent to the session and back:
    \<^verbatim>\<open>frontend/mcp.rs\<close>, \<^verbatim>\<open>mcp/tools\<close> and \<^verbatim>\<open>dispatch_tool\<close> of \<^verbatim>\<open>session/mod.rs\<close>, with the discovery metadata and the
    conversions of errors. \<open>Serve_Startup\<close> is the start of the server, \<^verbatim>\<open>cli/serve.rs\<close> with \<^verbatim>\<open>cli/retention.rs\<close>.
    \<open>Init_Discovery\<close> and \<open>Init_Commit\<close> are two parts of the set-up \<^verbatim>\<open>cli/init\<close>: the parser of a remote environment file, and
    the commit of a batch of files over a machine any of whose operations may fail. \<open>Check_Command\<close> is the command
    \<^verbatim>\<open>cli/check.rs\<close> over its two output streams, with \<open>Trust_Report\<close>, the report of \<^verbatim>\<open>cli/check_trust.rs\<close>, and \<open>Ssh_Tail\<close>,
    one run of ssh for a remote log and what becomes of its outcome.

  How the parts meet: the start registers each profile with its own pipeline and an unconnected source; the frontend
  admits one call at a time under the watchdog and hands it to the session through the envelope; the call names a
  profile; \<open>Session_Dispatch\<close> picks that profile's pipeline, column actions and source; the source (a database call, a log window, a remote tail) answers with rows or text; \<open>Session_Redact\<close>
  caps and redacts them; the manifest records the call and its snapshot, the sweep retires snapshots, the
  replay reads the rest. Errors come back through the envelope and are sanitised at the frontend.

  What the lemma groups show. Admission: what a scanner, decoder or validator accepts is exactly, or at
  most, a declarative language (\<open>Json_Grammar\<close>, \<open>Wire_Query\<close>, \<open>Wire_Results\<close>, \<open>Wire_Value\<close>, \<open>Wire_Decimal\<close>). Order:
  replies follow the calls they answer, and a released message is read whole and decoded to itself (\<open>Wire_Sequence\<close>, \<open>Server_Service\<close>). Authority: what leaves a server is under a
  grant live at that time (\<open>Server_Auth\<close>, \<open>Server_Service\<close>, \<open>Remote_Service\<close>). Release: the texts of logs and rows that leave the client have been through the
  pipeline, within the caps, under the profile of the call, while schema texts, JSON keys and cells of other types have not (\<open>Session_Redact\<close>, \<open>Session_Dispatch\<close>, \<open>Policy\<close>,
  \<open>Schema_Tokenizer\<close>, \<open>Serve_Startup\<close>), an error only its sanitised text (\<open>Mcp_Frontend\<close>), and a database call as a whole sends
  only the read statements of its tool over a read-only connection (\<open>Db_Guarantees\<close>). Record: the
  ledger of identities and the manifest of calls keep their invariants over all steps
  (\<open>Server_History\<close>, \<open>Session_Manifest\<close>, \<open>Maintenance\<close>, \<open>Session_Restore\<close>), a start purges by consent of all profiles, and only so
  (\<open>Serve_Startup\<close>) and a set-up that fails has written a prefix of its files (\<open>Init_Commit\<close>). Checks: the check accepts the policies
  the server accepts, its trust report reads the environment for paths alone and names where each secret is read (\<open>Check_Command\<close>, \<open>Trust_Report\<close>). Text for other programs: SQL and shell
  words are inert (\<open>Sql_Compile\<close>, \<open>Ssh_Command\<close>). Windows: caches and scans answer like a fresh scan (\<open>Log_Sources\<close>,
  \<open>Log_Windows\<close>, \<open>Keyword_Search\<close>).

  \<open>Lens_Prelude\<close> holds early returns, positions and byte classes, \<open>Rust_Text\<close> the string operations of
  the client, and \<open>Lens_Interfaces\<close> the contracts several components meet: \<open>fail_closed\<close> (any error
  closes the object for good), \<open>checked_codec\<close> (an encoder decodes its own output before releasing
  it); \<open>Log_Windows\<close> adds \<open>ttl_cache\<close>, met by the caches of the ssh log, the local log and the keyword
  index, and \<open>Init_Commit\<close> has \<open>batch_writer\<close>, met by the atomic write. Each is interpreted on the definitions that provide it.

  Bounds and fuel. Byte strings are lists of \<^typ>\<open>char\<close>, lengths are \<^typ>\<open>nat\<close>; \<^verbatim>\<open>checked_add\<close> and saturation of
  64-bit sizes are written out where the code has them, other sums stay below memory sizes. The scanner
  recurses on fuel derived from the input's length, and that this is always enough is a theorem. Every other
  loop is structural or has a proved measure.

  Outside the model, as arguments: the gaze library, its envelope and its detectors, serde, TOML, SHA-256, regular
  expressions, shellexpand (a function of the environment in the check), the clock, SQLite's failures, files, sockets, TLS, the keyring, and, in the record \<open>DbLib\<close>, the driver sqlx, the
  crate time and the spawning of ssh. Hash maps are sorted association lists or functions; where the code sorts the keys
  before they show, the order is the same.

  Not modelled: the transport loop of the frontend and its shutdown, argument parsing and printing of the command line,
  the printed discovery inventory, the prompts of the set-up and its editing of TOML, JSON and Markdown files through their libraries, the snapshot file of the session, schema migrations of the manifest, process
  spawning, TLS set-up and the accept loop of the remote log service. They print, prompt, or hand over to libraries whose
  documents the model would have to invent.
\<close>

end
